(* ===== verification/Prelude.thy ===== *)
theory Prelude
  imports Main "HOL-Library.Word"
begin

text \<open>
  What every component shares: the machine integer types, \<open>Result\<close> with the early
  return of the \<open>?\<close> operator, the panic-free slice reads of Rust, and the decimal
  text of integers as the standard library prints and parses it.

  A Rust \<open>String\<close> and a \<open>Vec<u8>\<close> are both a HOL \<open>string\<close>: a HOL \<open>char\<close> has
  exactly the 256 values of a byte, so a \<open>string\<close> is a byte sequence and a Rust
  string is its UTF-8 encoding. \<open>usize\<close> counters and lengths are \<open>nat\<close>.
\<close>

section \<open>Types\<close>

type_synonym bytes = string
type_synonym i32 = "32 word"
type_synonym i64 = "64 word"
type_synonym i128 = "128 word"
type_synonym f64 = "64 word" \<comment> \<open>the IEEE-754 bit pattern\<close>
type_synonym ('e, 'a) result = "'e + 'a"

abbreviation Ok :: "'a \<Rightarrow> ('e, 'a) result" where
  "Ok \<equiv> Inr"

abbreviation Err :: "'e \<Rightarrow> ('e, 'a) result" where
  "Err \<equiv> Inl"

named_theorems result_simps \<open>unfolding of the result combinators\<close>

definition rbind :: "('e, 'a) result \<Rightarrow> ('a \<Rightarrow> ('e, 'b) result) \<Rightarrow> ('e, 'b) result" where
  "rbind r k = (case r of Inl e \<Rightarrow> Inl e | Inr a \<Rightarrow> k a)"

definition map_err :: "('e \<Rightarrow> 'f) \<Rightarrow> ('e, 'a) result \<Rightarrow> ('f, 'a) result" where
  "map_err f r = (case r of Inl e \<Rightarrow> Inl (f e) | Inr a \<Rightarrow> Inr a)"

definition ok_or :: "'e \<Rightarrow> 'a option \<Rightarrow> ('e, 'a) result" where
  "ok_or e x = (case x of None \<Rightarrow> Inl e | Some a \<Rightarrow> Inr a)"

definition is_ok :: "('e, 'a) result \<Rightarrow> bool" where
  "is_ok r = (case r of Inl _ \<Rightarrow> False | Inr _ \<Rightarrow> True)"

definition or_else :: "'a option \<Rightarrow> 'a option \<Rightarrow> 'a option" where
  "or_else x y = (case x of None \<Rightarrow> y | Some _ \<Rightarrow> x)"

lemma or_else_simps [simp, result_simps]:
  "or_else None y = y" "or_else (Some a) y = Some a"
  by (simp_all add: or_else_def)

definition unwrap_or :: "'a \<Rightarrow> 'a option \<Rightarrow> 'a" where
  "unwrap_or d x = (case x of None \<Rightarrow> d | Some a \<Rightarrow> a)"

lemma unwrap_or_simps [simp, result_simps]: "unwrap_or d None = d" "unwrap_or d (Some a) = a"
  by (simp_all add: unwrap_or_def)

lemma rbind_simps [simp, result_simps]:
  "rbind (Inl e) k = Inl e" "rbind (Inr a) k = k a"
  by (simp_all add: rbind_def)

lemma map_err_simps [simp, result_simps]:
  "map_err f (Inl e) = Inl (f e)" "map_err f (Inr a) = Inr a"
  by (simp_all add: map_err_def)

lemma ok_or_simps [simp, result_simps]:
  "ok_or e None = Inl e" "ok_or e (Some a) = Inr a"
  by (simp_all add: ok_or_def)

lemma is_ok_simps [simp, result_simps]:
  "is_ok (Inl e) = False" "is_ok (Inr a) = True"
  by (simp_all add: is_ok_def)

lemma rbind_eq_Inr [result_simps]:
  "rbind r k = Inr b \<longleftrightarrow> (\<exists>a. r = Inr a \<and> k a = Inr b)"
  by (cases r) simp_all

section \<open>Slices\<close>

text \<open>\<open>xs.get(i).copied().unwrap_or(d)\<close>.\<close>

definition nth_or :: "'a \<Rightarrow> 'a list \<Rightarrow> nat \<Rightarrow> 'a" where
  "nth_or d xs i = (if i < length xs then xs ! i else d)"

definition nth_opt :: "'a list \<Rightarrow> nat \<Rightarrow> 'a option" where
  "nth_opt xs i = (if i < length xs then Some (xs ! i) else None)"

text \<open>The slice \<open>b[i..j]\<close>, for indices the caller has checked.\<close>

definition slice :: "nat \<Rightarrow> nat \<Rightarrow> 'a list \<Rightarrow> 'a list" where
  "slice i j xs = take (j - i) (drop i xs)"

lemma nth_or_drop: "drop i xs = y # ys \<Longrightarrow> nth_or d xs i = y"
  by (metis nth_or_def drop_eq_Nil2 hd_drop_conv_nth linorder_not_less list.sel(1) list.simps(3))

lemma drop_Suc_tl: "drop i xs = y # ys \<Longrightarrow> drop (Suc i) xs = ys"
  by (metis drop_Suc list.sel(3) tl_drop)

lemma nth_opt_drop: "drop i xs = y # ys \<Longrightarrow> nth_opt xs i = Some y"
  by (metis nth_opt_def drop_eq_Nil2 hd_drop_conv_nth linorder_not_less list.sel(1) list.simps(3))

lemma length_slice: "j \<le> length xs \<Longrightarrow> length (slice i j xs) = j - i"
  by (simp add: slice_def)

section \<open>Decimal digits\<close>

definition is_digit :: "char \<Rightarrow> bool" where
  "is_digit c = (48 \<le> (of_char c :: nat) \<and> (of_char c :: nat) \<le> 57)"

definition digit_char :: "nat \<Rightarrow> char" where
  "digit_char d = char_of (48 + d)"

definition digit_val :: "char \<Rightarrow> nat" where
  "digit_val c = of_char c - 48"

lemma of_char_digit_char [simp]: "d < 10 \<Longrightarrow> (of_char (digit_char d) :: nat) = 48 + d"
  by (simp add: digit_char_def)

lemma is_digit_digit_char [simp]: "d < 10 \<Longrightarrow> is_digit (digit_char d)"
  by (simp add: is_digit_def)

lemma digit_val_digit_char [simp]: "d < 10 \<Longrightarrow> digit_val (digit_char d) = d"
  by (simp add: digit_val_def)

lemma digit_val_lt: "is_digit c \<Longrightarrow> digit_val c < 10"
  unfolding is_digit_def digit_val_def by linarith

lemma digit_char_digit_val: "is_digit c \<Longrightarrow> digit_char (digit_val c) = c"
  by (simp add: is_digit_def digit_val_def digit_char_def)

text \<open>The accumulator loop \<open>v = v * 10 + (c - b'0')\<close> of the hand-written parsers.\<close>

definition digits_val :: "string \<Rightarrow> nat" where
  "digits_val s = foldl (\<lambda>v c. v * 10 + digit_val c) 0 s"

lemma foldl_digits: "foldl (\<lambda>v c. v * 10 + digit_val c) a s = a * 10 ^ length s + digits_val s"
proof (induction s arbitrary: a)
  case Nil
  then show ?case by (simp add: digits_val_def)
next
  case (Cons c s)
  have "digits_val (c # s) = digit_val c * 10 ^ length s + digits_val s"
    using Cons [of "digit_val c"] by (simp add: digits_val_def)
  moreover have "foldl (\<lambda>v c. v * 10 + digit_val c) a (c # s) =
      (a * 10 + digit_val c) * 10 ^ length s + digits_val s"
    by (simp only: foldl_Cons Cons)
  ultimately show ?case
    by (simp add: algebra_simps)
qed

lemma digits_val_Nil [simp]: "digits_val [] = 0"
  by (simp add: digits_val_def)

lemma digits_val_Cons: "digits_val (c # s) = digit_val c * 10 ^ length s + digits_val s"
  using foldl_digits [of "digit_val c" s] by (simp add: digits_val_def)

lemma digits_val_append: "digits_val (s @ t) = digits_val s * 10 ^ length t + digits_val t"
  unfolding digits_val_def [of "s @ t"] foldl_append
  by (simp add: foldl_digits flip: digits_val_def)

lemma digits_val_lt: "list_all is_digit s \<Longrightarrow> digits_val s < 10 ^ length s"
proof (induction s)
  case Nil
  then show ?case by simp
next
  case (Cons c s)
  then have "digit_val c \<le> 9" using digit_val_lt [of c] by simp
  then have "digit_val c * 10 ^ length s \<le> 9 * 10 ^ length s"
    by (intro mult_right_mono) auto
  moreover have "digits_val s < 10 ^ length s" using Cons by simp
  ultimately have "digit_val c * 10 ^ length s + digits_val s < 10 * 10 ^ length s"
    by linarith
  then show ?case by (simp add: digits_val_Cons)
qed

text \<open>The decimal text of a number, as \<open>Display\<close> prints it.\<close>

fun show_nat :: "nat \<Rightarrow> string" where
  "show_nat n = (if n < 10 then [digit_char n] else show_nat (n div 10) @ [digit_char (n mod 10)])"

declare show_nat.simps [simp del]

definition show_int :: "int \<Rightarrow> string" where
  "show_int n = (if n < 0 then CHR ''-'' # show_nat (nat (- n)) else show_nat (nat n))"

lemma show_nat_digits: "list_all is_digit (show_nat n)"
proof (induction n rule: show_nat.induct)
  case (1 n)
  then show ?case by (subst show_nat.simps) auto
qed

lemma show_nat_nonempty [simp]: "show_nat n \<noteq> []"
  by (subst show_nat.simps) simp

lemma digits_val_show_nat [simp]: "digits_val (show_nat n) = n"
proof (induction n rule: show_nat.induct)
  case (1 n)
  show ?case
  proof (cases "n < 10")
    case True
    then show ?thesis by (subst show_nat.simps) (simp add: digits_val_Cons)
  next
    case False
    with 1 have "digits_val (show_nat (n div 10)) = n div 10" by simp
    with False show ?thesis
      by (subst show_nat.simps) (simp add: digits_val_append digits_val_Cons)
  qed
qed

lemma digits_val_zeros [simp]: "digits_val (replicate k (CHR ''0'') @ s) = digits_val s"
  by (induction k) (simp_all add: digits_val_Cons digit_val_def)

lemma is_digit_zero [simp]: "is_digit (CHR ''0'')"
  by (simp add: is_digit_def)

lemma list_all_replicate_digit [simp]: "list_all is_digit (replicate k (CHR ''0''))"
  by (simp add: list_all_iff)

text \<open>Two digit strings of one length with one value are equal.\<close>

lemma digits_val_inj:
  assumes "list_all is_digit s" "list_all is_digit t" "length s = length t"
    "digits_val s = digits_val t"
  shows "s = t"
  using assms(3,1,2,4)
proof (induction s t rule: list_induct2)
  case Nil
  then show ?case by simp
next
  case (Cons c s d t)
  let ?b = "10 ^ length s :: nat"
  have lt: "digits_val s < ?b" "digits_val t < ?b"
    using Cons digits_val_lt [of s] digits_val_lt [of t] by auto
  have eq: "digit_val c * ?b + digits_val s = digit_val d * ?b + digits_val t"
    using Cons by (simp add: digits_val_Cons)
  have div: "(k * ?b + r) div ?b = k" and mod: "(k * ?b + r) mod ?b = r" if "r < ?b" for k r
    using that by (simp_all add: div_mult_self3)
  have "digit_val c = digit_val d" "digits_val s = digits_val t"
    using arg_cong [OF eq, of "\<lambda>x. x div ?b"] arg_cong [OF eq, of "\<lambda>x. x mod ?b"] lt
    by (simp_all only: div mod)
  moreover have "is_digit c" "is_digit d" using Cons.prems by auto
  ultimately have "c = d" using digit_char_digit_val by metis
  moreover have "s = t"
    using Cons \<open>digits_val s = digits_val t\<close> by simp
  ultimately show ?case by simp
qed

section \<open>Options\<close>

text \<open>The values of a list of options, if none is missing.\<close>

fun all_some :: "'a option list \<Rightarrow> 'a list option" where
  "all_some [] = Some []"
| "all_some (None # xs) = None"
| "all_some (Some x # xs) = map_option (Cons x) (all_some xs)"

lemma drop_eq_Cons:
  assumes "drop n xs = r # rest"
  shows "n < length xs \<and> xs ! n = r \<and> drop (Suc n) xs = rest"
proof -
  have "n < length xs" using assms by (cases "n < length xs") auto
  from Cons_nth_drop_Suc [OF this] show ?thesis using assms \<open>n < length xs\<close> by simp
qed

end
