(* ===== verification/Text.thy ===== *)
theory Text
  imports Prelude
begin

text \<open>
  The parts of Rust's standard library the program uses on text: the integer
  \<open>FromStr\<close> implementations, UTF-8 validation, \<open>find\<close>, \<open>strip_prefix\<close>,
  \<open>trim\<close>, \<open>lines\<close> and ASCII case conversion, all on UTF-8 bytes.
\<close>

section \<open>Integer parsing\<close>

datatype int_error = EmptyInt | InvalidDigit | PosOverflow | NegOverflow

definition show_int_error :: "int_error \<Rightarrow> string" where
  "show_int_error e = (case e of
      EmptyInt \<Rightarrow> ''cannot parse integer from empty string''
    | InvalidDigit \<Rightarrow> ''invalid digit found in string''
    | PosOverflow \<Rightarrow> ''number too large to fit in target type''
    | NegOverflow \<Rightarrow> ''number too small to fit in target type'')"

fun parse_pos :: "int \<Rightarrow> int \<Rightarrow> string \<Rightarrow> (int_error, int) result" where
  "parse_pos hi acc [] = Ok acc"
| "parse_pos hi acc (c # cs) =
     (if \<not> is_digit c then Err InvalidDigit
      else let r = acc * 10 + int (digit_val c) in
        if hi < r then Err PosOverflow else parse_pos hi r cs)"

fun parse_neg :: "int \<Rightarrow> int \<Rightarrow> string \<Rightarrow> (int_error, int) result" where
  "parse_neg lo acc [] = Ok acc"
| "parse_neg lo acc (c # cs) =
     (if \<not> is_digit c then Err InvalidDigit
      else let r = acc * 10 - int (digit_val c) in
        if r < lo then Err NegOverflow else parse_neg lo r cs)"

text \<open>\<open>from_str_radix(s, 10)\<close> of the integer type with bounds \<open>lo\<close> and \<open>hi\<close>; only a
  signed type takes a minus sign.\<close>

definition parse_int :: "int \<Rightarrow> int \<Rightarrow> string \<Rightarrow> (int_error, int) result" where
  "parse_int lo hi s = (case s of
      [] \<Rightarrow> Err EmptyInt
    | c # cs \<Rightarrow>
        if cs = [] \<and> (c = CHR ''+'' \<or> c = CHR ''-'') then Err InvalidDigit
        else if c = CHR ''+'' then parse_pos hi 0 cs
        else if c = CHR ''-'' \<and> lo < 0 then parse_neg lo 0 cs
        else parse_pos hi 0 s)"

definition parse_i128 :: "string \<Rightarrow> (int_error, int) result" where
  "parse_i128 = parse_int (- (2 ^ 127)) (2 ^ 127 - 1)"

definition parse_i64 :: "string \<Rightarrow> (int_error, int) result" where
  "parse_i64 = parse_int (- (2 ^ 63)) (2 ^ 63 - 1)"

definition parse_u32 :: "string \<Rightarrow> nat option" where
  "parse_u32 s = (case parse_int 0 (2 ^ 32 - 1) s of Inl _ \<Rightarrow> None | Inr n \<Rightarrow> Some (nat n))"

lemma parse_pos_digits:
  assumes "list_all is_digit s" "0 \<le> acc"
    and "acc * 10 ^ length s + int (digits_val s) \<le> hi"
  shows "parse_pos hi acc s = Ok (acc * 10 ^ length s + int (digits_val s))"
  using assms
proof (induction s arbitrary: acc)
  case Nil
  then show ?case by simp
next
  case (Cons c s)
  let ?r = "acc * 10 + int (digit_val c)"
  have split: "acc * 10 ^ length (c # s) + int (digits_val (c # s)) =
      ?r * 10 ^ length s + int (digits_val s)"
    by (simp add: digits_val_Cons algebra_simps)
  have "0 \<le> ?r" using Cons.prems by simp
  then have "?r * 1 \<le> ?r * 10 ^ length s"
    by (intro mult_left_mono) simp_all
  then have "?r \<le> ?r * 10 ^ length s + int (digits_val s)"
    using of_nat_0_le_iff [where 'a = int and n = "digits_val s"] by simp
  then have "?r \<le> hi" using Cons.prems(3) unfolding split by (rule order_trans)
  moreover have "parse_pos hi ?r s = Ok (?r * 10 ^ length s + int (digits_val s))"
    using Cons.prems Cons.IH [of ?r] \<open>0 \<le> ?r\<close> unfolding split by simp
  ultimately show ?case
    using Cons.prems(1) unfolding split by (simp add: Let_def)
qed

lemma parse_neg_digits:
  assumes "list_all is_digit s" "acc \<le> 0"
    and "lo \<le> acc * 10 ^ length s - int (digits_val s)"
  shows "parse_neg lo acc s = Ok (acc * 10 ^ length s - int (digits_val s))"
  using assms
proof (induction s arbitrary: acc)
  case Nil
  then show ?case by simp
next
  case (Cons c s)
  let ?r = "acc * 10 - int (digit_val c)"
  have split: "acc * 10 ^ length (c # s) - int (digits_val (c # s)) =
      ?r * 10 ^ length s - int (digits_val s)"
    by (simp add: digits_val_Cons algebra_simps)
  have "?r \<le> 0" using Cons.prems by simp
  then have "?r * 10 ^ length s \<le> ?r * 1"
    by (intro mult_left_mono_neg) simp_all
  then have "?r * 10 ^ length s - int (digits_val s) \<le> ?r"
    using of_nat_0_le_iff [where 'a = int and n = "digits_val s"] by simp
  with Cons.prems(3) have "lo \<le> ?r" unfolding split by (rule order_trans)
  moreover have "parse_neg lo ?r s = Ok (?r * 10 ^ length s - int (digits_val s))"
    using Cons.prems Cons.IH [of ?r] \<open>?r \<le> 0\<close> unfolding split by simp
  ultimately show ?case
    using Cons.prems(1) unfolding split by (simp add: Let_def)
qed

lemma not_digit_sign [simp]: "\<not> is_digit (CHR ''+'')" "\<not> is_digit (CHR ''-'')" "\<not> is_digit (CHR ''.'')"
  by (simp_all add: is_digit_def)

text \<open>A digit string, with or without a minus sign, parses to its value when it is in range.\<close>

lemma parse_int_digits:
  assumes "list_all is_digit s" "s \<noteq> []" "int (digits_val s) \<le> hi"
  shows "parse_int lo hi s = Ok (int (digits_val s))"
proof -
  obtain c cs where s: "s = c # cs" using assms(2) by (cases s) auto
  have "c \<noteq> CHR ''+''" "c \<noteq> CHR ''-''" using assms(1) s by auto
  then show ?thesis
    using parse_pos_digits [of s 0 hi] assms s by (simp add: parse_int_def)
qed

lemma parse_int_minus_digits:
  assumes "list_all is_digit s" "s \<noteq> []" "lo \<le> - int (digits_val s)" "lo < 0"
  shows "parse_int lo hi (CHR ''-'' # s) = Ok (- int (digits_val s))"
  using parse_neg_digits [of s 0 lo] assms by (simp add: parse_int_def)

lemma parse_int_show_int:
  assumes "lo \<le> n" "n \<le> hi" "lo \<le> 0"
  shows "parse_int lo hi (show_int n) = Ok n"
proof (cases "n < 0")
  case True
  then show ?thesis
    using parse_int_minus_digits [of "show_nat (nat (- n))" lo] assms
    by (simp add: show_int_def show_nat_digits)
next
  case False
  then show ?thesis
    using parse_int_digits [of "show_nat (nat n)" hi] assms
    by (simp add: show_int_def show_nat_digits)
qed

text \<open>Parsing never leaves the range of the type.\<close>

lemma parse_pos_range: "parse_pos hi acc s = Ok n \<Longrightarrow> 0 \<le> acc \<Longrightarrow> acc \<le> hi \<Longrightarrow> 0 \<le> n \<and> n \<le> hi"
  by (induction s arbitrary: acc) (auto simp: Let_def split: if_splits)

lemma parse_neg_range: "parse_neg lo acc s = Ok n \<Longrightarrow> acc \<le> 0 \<Longrightarrow> lo \<le> acc \<Longrightarrow> lo \<le> n \<and> n \<le> 0"
  by (induction s arbitrary: acc) (auto simp: Let_def split: if_splits)

lemma parse_int_range:
  assumes "parse_int lo hi s = Ok n" "lo \<le> 0" "0 \<le> hi"
  shows "lo \<le> n \<and> n \<le> hi"
proof -
  obtain c cs where s: "s = c # cs"
    using assms(1) by (cases s) (auto simp: parse_int_def)
  have "(\<exists>t. parse_pos hi 0 t = Ok n) \<or> (\<exists>t. lo < 0 \<and> parse_neg lo 0 t = Ok n)"
    using assms(1) unfolding s parse_int_def list.case
    by (simp only: split: if_splits) (blast | simp)+
  then show ?thesis
    using assms(2,3) parse_pos_range [of hi 0 _ n] parse_neg_range [of lo 0 _ n] by fastforce
qed

section \<open>UTF-8\<close>

definition byte :: "char \<Rightarrow> nat" where
  "byte c = of_char c"

definition cont_byte :: "char \<Rightarrow> bool" where
  "cont_byte c = (128 \<le> byte c \<and> byte c \<le> 191)"

text \<open>\<open>str::from_utf8(s).is_ok()\<close>: the well-formed byte sequences of the Unicode standard.\<close>

fun valid_utf8 :: "bytes \<Rightarrow> bool" where
  "valid_utf8 [] = True"
| "valid_utf8 (a # r) =
     (if byte a < 128 then valid_utf8 r
      else if 194 \<le> byte a \<and> byte a \<le> 223 then
        (case r of b # r1 \<Rightarrow> cont_byte b \<and> valid_utf8 r1 | _ \<Rightarrow> False)
      else if 224 \<le> byte a \<and> byte a \<le> 239 then
        (case r of b # c # r2 \<Rightarrow>
           cont_byte b \<and> (byte a = 224 \<longrightarrow> 160 \<le> byte b) \<and> (byte a = 237 \<longrightarrow> byte b \<le> 159) \<and>
           cont_byte c \<and> valid_utf8 r2 | _ \<Rightarrow> False)
      else if 240 \<le> byte a \<and> byte a \<le> 244 then
        (case r of b # c # d # r3 \<Rightarrow>
           cont_byte b \<and> (byte a = 240 \<longrightarrow> 144 \<le> byte b) \<and> (byte a = 244 \<longrightarrow> byte b \<le> 143) \<and>
           cont_byte c \<and> cont_byte d \<and> valid_utf8 r3 | _ \<Rightarrow> False)
      else False)"

definition is_ascii :: "bytes \<Rightarrow> bool" where
  "is_ascii s = list_all (\<lambda>c. byte c < 128) s"

lemma ascii_valid_utf8: "is_ascii s \<Longrightarrow> valid_utf8 s"
  by (induction s) (simp_all add: is_ascii_def)

lemma is_ascii_simps [simp]:
  "is_ascii []" "is_ascii (c # s) = (byte c < 128 \<and> is_ascii s)"
  "is_ascii (s @ t) = (is_ascii s \<and> is_ascii t)"
  by (simp_all add: is_ascii_def)

lemma digit_is_ascii: "list_all is_digit s \<Longrightarrow> is_ascii s"
  by (induction s) (auto simp: is_digit_def byte_def)

section \<open>Searching and trimming\<close>

text \<open>\<open>s.find(c)\<close>: the byte index of the first occurrence.\<close>

fun find_char :: "char \<Rightarrow> string \<Rightarrow> nat option" where
  "find_char c [] = None"
| "find_char c (x # xs) = (if x = c then Some 0 else map_option Suc (find_char c xs))"

lemma find_char_None: "find_char c s = None \<longleftrightarrow> c \<notin> set s"
  by (induction s) auto

lemma find_char_append: "c \<notin> set s \<Longrightarrow> find_char c (s @ c # t) = Some (length s)"
  by (induction s) auto

lemma find_char_Some:
  "find_char c s = Some i \<Longrightarrow> i < length s \<and> s ! i = c \<and> c \<notin> set (take i s)"
  by (induction s arbitrary: i) (auto split: if_splits)

definition starts_with :: "string \<Rightarrow> string \<Rightarrow> bool" where
  "starts_with s p = (take (length p) s = p)"

definition strip_prefix :: "string \<Rightarrow> string \<Rightarrow> string option" where
  "strip_prefix s p = (if take (length p) s = p then Some (drop (length p) s) else None)"

lemma strip_prefix_append [simp]: "strip_prefix (p @ s) p = Some s"
  by (simp add: strip_prefix_def)

text \<open>The UTF-8 encodings of the characters with the Unicode property \<open>White_Space\<close>.\<close>

definition white_space :: "bytes list" where
  "white_space = map (\<lambda>ns. map char_of (ns :: nat list))
     ([[9], [10], [11], [12], [13], [32], [194, 133], [194, 160], [225, 154, 128]] @
      map (\<lambda>k. [226, 128, k]) [128 ..< 139] @
      [[226, 128, 168], [226, 128, 169], [226, 128, 175], [226, 129, 159], [227, 128, 128]])"

definition ws_len :: "bytes \<Rightarrow> nat" where
  "ws_len s = (case find (\<lambda>w. take (length w) s = w) white_space of None \<Rightarrow> 0 | Some w \<Rightarrow> length w)"

function trim_start :: "bytes \<Rightarrow> bytes" where
  "trim_start s = (if 0 < ws_len s \<and> s \<noteq> [] then trim_start (drop (ws_len s) s) else s)"
  by pat_completeness auto
termination
  by (relation "measure length") (auto simp: length_greater_0_conv [symmetric] simp del: length_greater_0_conv)

declare trim_start.simps [simp del]

definition ws_len_end :: "bytes \<Rightarrow> nat" where
  "ws_len_end s = (case find (\<lambda>w. length w \<le> length s \<and> drop (length s - length w) s = w) white_space of
     None \<Rightarrow> 0 | Some w \<Rightarrow> length w)"

function trim_end :: "bytes \<Rightarrow> bytes" where
  "trim_end s = (if 0 < ws_len_end s \<and> s \<noteq> [] then trim_end (take (length s - ws_len_end s) s) else s)"
  by pat_completeness auto
termination
  by (relation "measure length") (auto simp: min_def length_greater_0_conv [symmetric] simp del: length_greater_0_conv)

declare trim_end.simps [simp del]

definition trim :: "bytes \<Rightarrow> bytes" where
  "trim s = trim_end (trim_start s)"

text \<open>\<open>s.trim_end_matches(c)\<close>.\<close>

definition trim_end_matches :: "char \<Rightarrow> string \<Rightarrow> string" where
  "trim_end_matches c s = rev (dropWhile (\<lambda>x. x = c) (rev s))"

text \<open>\<open>s.lines()\<close>: split after each newline, without the newline and one carriage return
  before it; a last line need not end in a newline.\<close>

definition strip_cr :: "string \<Rightarrow> string" where
  "strip_cr l = (if l \<noteq> [] \<and> last l = char_of (13 :: nat) then butlast l else l)"

fun lines_aux :: "string \<Rightarrow> string \<Rightarrow> string list" where
  "lines_aux acc [] = (if acc = [] then [] else [acc])"
| "lines_aux acc (c # cs) =
     (if c = char_of (10 :: nat) then strip_cr acc # lines_aux [] cs else lines_aux (acc @ [c]) cs)"

definition lines :: "string \<Rightarrow> string list" where
  "lines s = lines_aux [] s"

definition ascii_lower :: "char \<Rightarrow> char" where
  "ascii_lower c = (if 65 \<le> byte c \<and> byte c \<le> 90 then char_of (byte c + 32) else c)"

definition to_ascii_lowercase :: "string \<Rightarrow> string" where
  "to_ascii_lowercase s = map ascii_lower s"

definition ascii_upper :: "char \<Rightarrow> char" where
  "ascii_upper c = (if 97 \<le> byte c \<and> byte c \<le> 122 then char_of (byte c - 32) else c)"

definition to_ascii_uppercase :: "string \<Rightarrow> string" where
  "to_ascii_uppercase s = map ascii_upper s"

text \<open>Printable ASCII is never white space, so a trimmed text that starts and ends with it stays.\<close>

definition visible :: "char \<Rightarrow> bool" where
  "visible c \<longleftrightarrow> 33 \<le> byte c \<and> byte c < 127"

lemma char_of_byte: "char_of (n :: nat) = c \<longleftrightarrow> n mod 256 = byte c" "c = char_of (n :: nat) \<longleftrightarrow> byte c = n mod 256"
  unfolding byte_def by (metis char_of_char of_char_of)+

lemma white_space_bytes: "list_all (\<lambda>w. w \<noteq> [] \<and> list_all (\<lambda>c. \<not> visible c) w) white_space"
  by code_simp

lemma not_white_space:
  assumes "w \<in> set white_space" "visible c"
  shows "w \<noteq> []" "c \<notin> set w"
  using white_space_bytes assms by (auto simp: list_all_iff)

lemma trim_start_visible: "visible c \<Longrightarrow> trim_start (c # s) = c # s"
proof -
  assume c: "visible c"
  have "find (\<lambda>w. take (length w) (c # s) = w) white_space = None"
    unfolding find_None_iff
  proof (intro notI, elim exE conjE)
    fix w assume w: "w \<in> set white_space" "take (length w) (c # s) = w"
    obtain m where "length w = Suc m" using not_white_space(1) [OF w(1) c] by (cases w) simp_all
    then have "c # take m s = w" using w(2) by simp
    then show False using not_white_space(2) [OF w(1) c] by (metis list.set_intros(1))
  qed
  then show ?thesis by (subst trim_start.simps) (simp add: ws_len_def)
qed

lemma trim_end_visible: "visible c \<Longrightarrow> trim_end (s @ [c]) = s @ [c]"
proof -
  assume c: "visible c"
  let ?s = "s @ [c]"
  have "find (\<lambda>w. length w \<le> length ?s \<and> drop (length ?s - length w) ?s = w) white_space = None"
    unfolding find_None_iff
  proof (intro notI, elim exE conjE)
    fix w assume w: "w \<in> set white_space" "length w \<le> length ?s" "drop (length ?s - length w) ?s = w"
    have "drop (length ?s - length w) ?s = drop (length ?s - length w) s @ [c]"
      using not_white_space(1) [OF w(1) c] w(2) by (cases w) auto
    then have "c \<in> set w" using w(3) by (metis in_set_conv_decomp)
    then show False using not_white_space(2) [OF w(1) c] by simp
  qed
  then show ?thesis by (subst trim_end.simps) (simp add: ws_len_end_def)
qed

lemma trim_start_space: "visible c \<Longrightarrow> trim_start (CHR '' '' # c # s) = c # s"
proof -
  assume "visible c"
  moreover have "ws_len (CHR '' '' # c # s) = 1" 
    by (simp add: ws_len_def white_space_def char_of_byte byte_def)
  ultimately show ?thesis by (subst trim_start.simps) (simp add: trim_start_visible)
qed

lemma lines_single:
  assumes "char_of (10 :: nat) \<notin> set s" "s \<noteq> []"
  shows "lines s = [s]"
proof -
  have "lines_aux acc s = (if acc @ s = [] then [] else [acc @ s])" for acc
    using assms(1) by (induction s arbitrary: acc) auto
  then show ?thesis using assms(2) by (simp add: lines_def)
qed

section \<open>Splitting and joining\<close>

text \<open>\<open>s.split(c)\<close> and \<open>parts.join(sep)\<close>.\<close>

fun split_char :: "char \<Rightarrow> string \<Rightarrow> string list" where
  "split_char c [] = [[]]"
| "split_char c (x # xs) = (if x = c then [] # split_char c xs
     else (case split_char c xs of [] \<Rightarrow> [[x]] | w # ws \<Rightarrow> (x # w) # ws))"

fun join_with :: "string \<Rightarrow> string list \<Rightarrow> string" where
  "join_with sep [] = []"
| "join_with sep [w] = w"
| "join_with sep (w # ws) = w @ sep @ join_with sep ws"

lemma split_char_no: "c \<notin> set s \<Longrightarrow> split_char c s = [s]"
  by (induction s) auto

lemma split_char_append: "c \<notin> set s \<Longrightarrow> split_char c (s @ c # t) = s # split_char c t"
  by (induction s) auto

lemma split_join: "ws \<noteq> [] \<Longrightarrow> list_all (\<lambda>w. c \<notin> set w) ws \<Longrightarrow> split_char c (join_with [c] ws) = ws"
  by (induction "[c]" ws rule: join_with.induct) (auto simp: split_char_no split_char_append)

end
