(* ===== verification/Values.thy ===== *)
theory Values
  imports Text
begin

text \<open>
  The SDK's value layer (\<open>exasol-udf-sdk/src/value.rs\<close> and \<open>error.rs\<close>): the error
  enum, \<open>Decimal\<close> with its parser and printer, \<open>Value\<close>, \<open>ExaType\<close>, \<open>ColumnInfo\<close>
  and the \<open>IntoValue\<close> conversions.

  The types \<open>chrono::NaiveDate\<close> and \<open>chrono::NaiveDateTime\<close> are foreign: they are the
  type variables \<open>'d\<close> and \<open>'t\<close>, and what the program calls on them are the fields of the
  record \<open>ext\<close>, a parameter of every definition that needs them. \<open>ext\<close> also holds the
  \<open>itoa\<close> crate's integer formatter, the floating-point conversions of the target and the
  derived \<open>Debug\<close> text of a value.
\<close>

section \<open>Errors\<close>

datatype udf_error =
    User string
  | Unimplemented string
  | TypeErr string
  | ConnectBack string
  | Connection string

definition show_udf_error :: "udf_error \<Rightarrow> string" where
  "show_udf_error e = (case e of
      User m \<Rightarrow> m
    | Unimplemented m \<Rightarrow> ''Feature not supported in v1: '' @ m
    | TypeErr m \<Rightarrow> ''Type error: '' @ m
    | ConnectBack m \<Rightarrow> ''Connect-back error: '' @ m
    | Connection m \<Rightarrow> m)"

definition quoted :: "string \<Rightarrow> string" where
  "quoted s = CHR 0x27 # s @ [CHR 0x27]"

section \<open>Decimal\<close>

record decimal =
  unscaled :: i128
  dscale :: "8 word"

definition decimal_try_from :: "string \<Rightarrow> (udf_error, decimal) result" where
  "decimal_try_from literal =
     rbind (case find_char (CHR ''.'') literal of
         Some point \<Rightarrow>
           let digits = take point literal @ drop (point + 1) literal;
               scale = length literal - point - 1
           in if 255 < scale
              then Err (TypeErr (''decimal scale too large in '' @ quoted literal))
              else Ok (digits, scale)
       | None \<Rightarrow> Ok (literal, 0))
     (\<lambda>(digits, scale).
        rbind (map_err (\<lambda>e. TypeErr (''invalid decimal literal '' @ quoted literal @ '': '' @
            show_int_error e)) (parse_i128 digits))
        (\<lambda>n. Ok \<lparr>unscaled = word_of_int n, dscale = of_nat scale\<rparr>))"

definition unsigned_abs :: "i128 \<Rightarrow> nat" where
  "unsigned_abs u = nat \<bar>sint u\<bar>"

text \<open>\<open>format!("{:0>width$}", digits)\<close>.\<close>

definition pad_left :: "char \<Rightarrow> nat \<Rightarrow> string \<Rightarrow> string" where
  "pad_left c width s = replicate (width - length s) c @ s"

definition decimal_fmt :: "decimal \<Rightarrow> string" where
  "decimal_fmt d =
     (if dscale d = 0 then show_int (sint (unscaled d))
      else
        let negative = sint (unscaled d) < 0;
            digits = show_nat (unsigned_abs (unscaled d));
            scale = unat (dscale d);
            padded = (if length digits \<le> scale then pad_left (CHR ''0'') (scale + 1) digits else digits);
            point = length padded - scale;
            sign = (if negative then ''-'' else [])
        in sign @ take point padded @ ''.'' @ drop point padded)"

subsection \<open>Printed decimals parse back\<close>

lemma i128_bounds: "- (2 ^ 127) \<le> sint (w :: i128)" "sint (w :: i128) \<le> 2 ^ 127 - 1"
  using sint_greater_eq [of w] sint_less [of w] by simp_all

lemma find_dot_digits:
  assumes "list_all is_digit ip"
  shows "find_char (CHR ''.'') (ip @ CHR ''.'' # fp) = Some (length ip)"
    "find_char (CHR ''.'') (CHR ''-'' # ip @ CHR ''.'' # fp) = Some (Suc (length ip))"
proof -
  have "CHR ''.'' \<notin> set ip" using assms not_digit_sign(3) unfolding list_all_iff by blast
  then show "find_char (CHR ''.'') (ip @ CHR ''.'' # fp) = Some (length ip)"
    "find_char (CHR ''.'') (CHR ''-'' # ip @ CHR ''.'' # fp) = Some (Suc (length ip))"
    by (simp_all add: find_char_append)
qed

lemma decimal_of_parts:
  assumes "list_all is_digit ip" "list_all is_digit fp" "ip \<noteq> []" "length fp \<le> 255"
    and "digits_val (ip @ fp) \<le> 2 ^ 127 - 1"
  shows "decimal_try_from (ip @ CHR ''.'' # fp) =
    Ok \<lparr>unscaled = word_of_int (int (digits_val (ip @ fp))), dscale = of_nat (length fp)\<rparr>"
proof -
  have "parse_i128 (ip @ fp) = Ok (int (digits_val (ip @ fp)))"
    unfolding parse_i128_def using assms by (intro parse_int_digits) auto
  then show ?thesis
    using assms find_dot_digits [OF assms(1)] by (simp add: decimal_try_from_def Let_def)
qed

lemma decimal_of_parts_minus:
  assumes "list_all is_digit ip" "list_all is_digit fp" "ip \<noteq> []" "length fp \<le> 255"
    and "digits_val (ip @ fp) \<le> 2 ^ 127"
  shows "decimal_try_from (CHR ''-'' # ip @ CHR ''.'' # fp) =
    Ok \<lparr>unscaled = word_of_int (- int (digits_val (ip @ fp))), dscale = of_nat (length fp)\<rparr>"
proof -
  have "parse_i128 (CHR ''-'' # ip @ fp) = Ok (- int (digits_val (ip @ fp)))"
    unfolding parse_i128_def using assms by (intro parse_int_minus_digits) auto
  then show ?thesis
    using assms find_dot_digits [OF assms(1)] by (simp add: decimal_try_from_def Let_def)
qed

text \<open>The integer text has no point and parses at scale 0.\<close>

lemma decimal_of_int:
  assumes "- (2 ^ 127) \<le> n" "n \<le> 2 ^ 127 - 1"
  shows "decimal_try_from (show_int n) = Ok \<lparr>unscaled = word_of_int n, dscale = 0\<rparr>"
proof -
  have "CHR ''.'' \<notin> set (show_nat k)" for k
    using show_nat_digits [of k] not_digit_sign(3) unfolding list_all_iff by blast
  then have "find_char (CHR ''.'') (show_int n) = None"
    by (simp add: find_char_None show_int_def)
  moreover have "parse_i128 (show_int n) = Ok n"
    unfolding parse_i128_def using assms by (intro parse_int_show_int) auto
  ultimately show ?thesis
    by (simp add: decimal_try_from_def)
qed

text \<open>The shape both printers give a decimal with a non-zero scale.\<close>

definition decimal_parts :: "decimal \<Rightarrow> string \<Rightarrow> string \<Rightarrow> bool" where
  "decimal_parts d ip fp \<longleftrightarrow> list_all is_digit ip \<and> list_all is_digit fp \<and> ip \<noteq> [] \<and>
     length fp = unat (dscale d) \<and> digits_val (ip @ fp) = unsigned_abs (unscaled d)"

lemma unat_u8_le: "unat (w :: 8 word) \<le> 255"
  using unsigned_less [of w, where 'a = nat] by simp

lemma decimal_parts_roundtrip:
  assumes "decimal_parts d ip fp"
  shows "decimal_try_from ((if sint (unscaled d) < 0 then ''-'' else []) @ ip @ ''.'' @ fp) = Ok d"
proof (cases "sint (unscaled d) < 0")
  case True
  have "digits_val (ip @ fp) \<le> 2 ^ 127"
    using assms True i128_bounds(1) [of "unscaled d"]
    by (simp add: decimal_parts_def unsigned_abs_def)
  then show ?thesis
    using decimal_of_parts_minus [of ip fp] assms True unat_u8_le [of "dscale d"]
    by (simp add: decimal_parts_def unsigned_abs_def)
next
  case False
  have "digits_val (ip @ fp) \<le> 2 ^ 127 - 1"
    using assms False i128_bounds(2) [of "unscaled d"]
    by (simp add: decimal_parts_def unsigned_abs_def)
  then show ?thesis
    using decimal_of_parts [of ip fp] assms False unat_u8_le [of "dscale d"]
    by (simp add: decimal_parts_def unsigned_abs_def)
qed

lemma decimal_fmt_parts:
  assumes "dscale d \<noteq> 0"
  shows "\<exists>ip fp. decimal_parts d ip fp \<and>
    decimal_fmt d = (if sint (unscaled d) < 0 then ''-'' else []) @ ip @ ''.'' @ fp"
proof -
  define ds where "ds = show_nat (unsigned_abs (unscaled d))"
  define k where "k = unat (dscale d)"
  define p where "p = (if length ds \<le> k then pad_left (CHR ''0'') (k + 1) ds else ds)"
  have p: "list_all is_digit p" "digits_val p = unsigned_abs (unscaled d)" "k < length p"
    using show_nat_digits [of "unsigned_abs (unscaled d)"]
    by (simp_all add: p_def ds_def pad_left_def)
  then have "decimal_parts d (take (length p - k) p) (drop (length p - k) p)"
    by (auto simp: decimal_parts_def k_def list_all_iff dest: in_set_takeD in_set_dropD)
  moreover have "decimal_fmt d = (if sint (unscaled d) < 0 then ''-'' else []) @
      take (length p - k) p @ ''.'' @ drop (length p - k) p"
    using assms by (simp add: decimal_fmt_def Let_def p_def ds_def k_def)
  ultimately show ?thesis by blast
qed

lemma decimal_scale0: "dscale d = 0 \<Longrightarrow> d = \<lparr>unscaled = unscaled d, dscale = 0\<rparr>"
  by (cases d) simp

lemma decimal_roundtrip_scale0:
  "dscale d = 0 \<Longrightarrow> decimal_try_from (show_int (sint (unscaled d))) = Ok d"
  using decimal_of_int [OF i128_bounds, of "unscaled d"] decimal_scale0 [of d] by simp

lemma decimal_fmt_roundtrip: "decimal_try_from (decimal_fmt d) = Ok d"
proof (cases "dscale d = 0")
  case True
  then show ?thesis by (simp add: decimal_fmt_def decimal_roundtrip_scale0)
next
  case False
  then show ?thesis using decimal_fmt_parts decimal_parts_roundtrip by metis
qed

section \<open>Values and column types\<close>

datatype ('d, 't) sql_value =
    VNull
  | VDouble f64
  | VInt32 i32
  | VInt64 i64
  | VNumeric decimal
  | VBool bool
  | VString string
  | VDate 'd
  | VTimestamp 't

datatype exa_type =
    TUnsupported
  | TDouble
  | TInt32
  | TInt64
  | TNumeric (t_precision: nat) (t_scale: nat)
  | TBoolean
  | TString (t_size: nat)
  | TChar (t_size: nat)
  | TDate
  | TTimestamp (t_precision: nat)

record column_info =
  ci_name :: string
  ci_typ :: exa_type
  ci_type_name :: string
  ci_size :: "nat option"
  ci_precision :: "nat option"
  ci_scale :: "nat option"

text \<open>The argument types that implement \<open>IntoValue\<close>.\<close>

datatype ('d, 't) host_value =
    OfValue "('d, 't) sql_value"
  | OfI32 i32
  | OfI64 i64
  | OfF64 f64
  | OfBool bool
  | OfString string
  | OfStr string
  | OfDecimal decimal
  | OfDate 'd
  | OfDateTime 't
  | OfOption "('d, 't) host_value option"

fun into_value :: "('d, 't) host_value \<Rightarrow> ('d, 't) sql_value" where
  "into_value (OfValue v) = v"
| "into_value (OfI32 i) = VInt32 i"
| "into_value (OfI64 i) = VInt64 i"
| "into_value (OfF64 f) = VDouble f"
| "into_value (OfBool b) = VBool b"
| "into_value (OfString s) = VString s"
| "into_value (OfStr s) = VString s"
| "into_value (OfDecimal d) = VNumeric d"
| "into_value (OfDate d) = VDate d"
| "into_value (OfDateTime t) = VTimestamp t"
| "into_value (OfOption (Some inner)) = into_value inner"
| "into_value (OfOption None) = VNull"

text \<open>Every \<open>String\<close> a Rust value carries is UTF-8.\<close>

definition wf_value :: "('d, 't) sql_value \<Rightarrow> bool" where
  "wf_value v = (case v of VString s \<Rightarrow> valid_utf8 s | _ \<Rightarrow> True)"

section \<open>External functions\<close>

record ('d, 't) ext =
  itoa_format :: "int \<Rightarrow> bytes"
  from_ymd_opt :: "int \<Rightarrow> nat \<Rightarrow> nat \<Rightarrow> 'd option"
  from_num_days_from_ce_opt :: "int \<Rightarrow> 'd option"
  d_default :: 'd
  d_year :: "'d \<Rightarrow> int"
  d_month :: "'d \<Rightarrow> nat"
  d_day :: "'d \<Rightarrow> nat"
  and_hms_nano_opt :: "'d \<Rightarrow> nat \<Rightarrow> nat \<Rightarrow> nat \<Rightarrow> nat \<Rightarrow> 't option"
  from_timestamp :: "int \<Rightarrow> nat \<Rightarrow> 't option"
  from_timestamp_millis :: "int \<Rightarrow> 't option"
  from_timestamp_micros :: "int \<Rightarrow> 't option"
  t_default :: 't
  t_date :: "'t \<Rightarrow> 'd"
  t_hour :: "'t \<Rightarrow> nat"
  t_minute :: "'t \<Rightarrow> nat"
  t_second :: "'t \<Rightarrow> nat"
  t_nanosecond :: "'t \<Rightarrow> nat"
  date_parse_from_str :: "string \<Rightarrow> string \<Rightarrow> 'd option"
  datetime_parse_from_str :: "string \<Rightarrow> string \<Rightarrow> 't option"
  date_format :: "'d \<Rightarrow> string \<Rightarrow> string"
  datetime_format :: "'t \<Rightarrow> string \<Rightarrow> string"
  f64_show :: "f64 \<Rightarrow> string"
  f64_parse :: "string \<Rightarrow> f64 option"
  f64_of_int :: "int \<Rightarrow> f64"
  f64_as_i64 :: "f64 \<Rightarrow> i64"
  f64_div :: "f64 \<Rightarrow> f64 \<Rightarrow> f64"
  f64_powi :: "f64 \<Rightarrow> nat \<Rightarrow> f64"
  dbg_value :: "('d, 't) sql_value \<Rightarrow> string"

end
