(* ===== verification/Cells.thy ===== *)
theory Cells
  imports Values
begin

text \<open>
  The text cells of the wire's string block, from \<open>exa-udf-runtime/src/rowset.rs\<close>: the
  hand-written DATE, TIMESTAMP and NUMERIC parsers and writers with their fallbacks, the
  coercions of a value to a column's block, and the check of an output row against the
  declared columns. The writers append to the buffer they are given.
\<close>

section \<open>Parsing\<close>

definition DATE_FORMAT :: string where
  "DATE_FORMAT = ''%Y-%m-%d''"

definition TIMESTAMP_PARSE :: string where
  "TIMESTAMP_PARSE = ''%Y-%m-%d %H:%M:%S%.f''"

definition TIMESTAMP_EMIT :: string where
  "TIMESTAMP_EMIT = ''%Y-%m-%d %H:%M:%S%.9f''"

definition TIMESTAMP_FORMAT_ISO :: string where
  "TIMESTAMP_FORMAT_ISO = ''%Y-%m-%dT%H:%M:%S%.f''"

definition parse_2digit :: "bytes \<Rightarrow> nat option" where
  "parse_2digit b =
     (if length b \<noteq> 2 \<or> \<not> is_digit (b ! 0) \<or> \<not> is_digit (b ! 1) then None
      else Some (digit_val (b ! 0) * 10 + digit_val (b ! 1)))"

fun parse_4digit_loop :: "nat \<Rightarrow> bytes \<Rightarrow> nat option" where
  "parse_4digit_loop v [] = Some v"
| "parse_4digit_loop v (c # cs) =
     (if \<not> is_digit c then None else parse_4digit_loop (v * 10 + digit_val c) cs)"

definition parse_4digit :: "bytes \<Rightarrow> nat option" where
  "parse_4digit b = (if length b \<noteq> 4 then None else parse_4digit_loop 0 b)"

definition fast_parse_date :: "('d, 't) ext \<Rightarrow> bytes \<Rightarrow> 'd option" where
  "fast_parse_date E b =
     (if length b \<noteq> 10 \<or> b ! 4 \<noteq> CHR ''-'' \<or> b ! 7 \<noteq> CHR ''-'' then None
      else Option.bind (parse_4digit (slice 0 4 b)) (\<lambda>year.
           Option.bind (parse_2digit (slice 5 7 b)) (\<lambda>month.
           Option.bind (parse_2digit (slice 8 10 b)) (\<lambda>day.
             from_ymd_opt E (int year) month day))))"

text \<open>The fractional digits after byte 19, as nanoseconds.\<close>

definition parse_fraction :: "bytes \<Rightarrow> nat option" where
  "parse_fraction b =
     (if length b = 19 then Some 0
      else if 20 < length b \<and> b ! 19 = CHR ''.'' then
        let frac = drop 20 b in
        if frac = [] \<or> 9 < length frac \<or> \<not> list_all is_digit frac then None
        else Some (digits_val frac * 10 ^ (9 - length frac))
      else None)"

definition fast_parse_timestamp :: "('d, 't) ext \<Rightarrow> bytes \<Rightarrow> 't option" where
  "fast_parse_timestamp E b =
     (if length b < 19 \<or> b ! 4 \<noteq> CHR ''-'' \<or> b ! 7 \<noteq> CHR ''-'' \<or>
         b ! 13 \<noteq> CHR '':'' \<or> b ! 16 \<noteq> CHR '':'' then None
      else if b ! 10 \<noteq> CHR '' '' \<and> b ! 10 \<noteq> CHR ''T'' then None
      else Option.bind (parse_4digit (slice 0 4 b)) (\<lambda>year.
           Option.bind (parse_2digit (slice 5 7 b)) (\<lambda>month.
           Option.bind (parse_2digit (slice 8 10 b)) (\<lambda>day.
           Option.bind (parse_2digit (slice 11 13 b)) (\<lambda>hour.
           Option.bind (parse_2digit (slice 14 16 b)) (\<lambda>minute.
           Option.bind (parse_2digit (slice 17 19 b)) (\<lambda>second.
           Option.bind (parse_fraction b) (\<lambda>nanos.
           Option.bind (from_ymd_opt E (int year) month day) (\<lambda>date.
             and_hms_nano_opt E date hour minute second nanos)))))))))"

definition decode_string_block :: "('d, 't) ext \<Rightarrow> exa_type \<Rightarrow> bytes \<Rightarrow> ('d, 't) sql_value" where
  "decode_string_block E typ s = (case typ of
      TNumeric _ _ \<Rightarrow> (case decimal_try_from s of Inr d \<Rightarrow> VNumeric d | Inl _ \<Rightarrow> VNull)
    | TDate \<Rightarrow>
        (case or_else (fast_parse_date E s) (date_parse_from_str E s DATE_FORMAT) of
           Some d \<Rightarrow> VDate d | None \<Rightarrow> VNull)
    | TTimestamp _ \<Rightarrow>
        (case or_else (or_else (fast_parse_timestamp E s)
              (datetime_parse_from_str E s TIMESTAMP_PARSE))
              (datetime_parse_from_str E s TIMESTAMP_FORMAT_ISO) of
           Some ts \<Rightarrow> VTimestamp ts | None \<Rightarrow> VNull)
    | _ \<Rightarrow> VString s)"

section \<open>Writing\<close>

definition write_decimal :: "('d, 't) ext \<Rightarrow> decimal \<Rightarrow> bytes \<Rightarrow> bytes" where
  "write_decimal E d out =
     (if dscale d = 0 then out @ itoa_format E (sint (unscaled d))
      else
        let digits = itoa_format E (int (unsigned_abs (unscaled d)));
            scale = unat (dscale d);
            out = (if sint (unscaled d) < 0 then out @ ''-'' else out)
        in if length digits \<le> scale
           then out @ ''0.'' @ replicate (scale - length digits) (CHR ''0'') @ digits
           else let point = length digits - scale
                in out @ take point digits @ ''.'' @ drop point digits)"

text \<open>The two-digit lookup table, filled by its loop.\<close>

function digit_pairs_loop :: "nat \<Rightarrow> bytes \<Rightarrow> bytes" where
  "digit_pairs_loop i table =
     (if i < 100 then
        digit_pairs_loop (i + 1)
          ((table[2 * i := digit_char (i div 10)])[2 * i + 1 := digit_char (i mod 10)])
      else table)"
  by pat_completeness auto
termination
  by (relation "measure (\<lambda>(i, _). 100 - i)") auto

declare digit_pairs_loop.simps [simp del]

definition DIGIT_PAIRS :: bytes where
  "DIGIT_PAIRS = digit_pairs_loop 0 (replicate 200 (char_of (0 :: nat)))"

definition push_2digit :: "bytes \<Rightarrow> nat \<Rightarrow> bytes" where
  "push_2digit out v = out @ slice (v * 2) (v * 2 + 2) DIGIT_PAIRS"

text \<open>The loop of \<open>push_ndigit\<close>: two digits a step from the right, then a single leading one.\<close>

fun ndigit_loop :: "nat \<Rightarrow> nat \<Rightarrow> bytes \<Rightarrow> bytes" where
  "ndigit_loop i v buf =
     (if 2 \<le> i then
        let pair = v mod 100 * 2 in
        ndigit_loop (i - 2) (v div 100)
          (take (i - 2) buf @ slice pair (pair + 2) DIGIT_PAIRS @ drop i buf)
      else if i = 1 then buf[0 := digit_char (v mod 10)]
      else buf)"

declare ndigit_loop.simps [simp del]

definition push_ndigit :: "nat \<Rightarrow> bytes \<Rightarrow> nat \<Rightarrow> bytes" where
  "push_ndigit W out v = out @ ndigit_loop W v (replicate W (CHR ''0''))"

definition write_ymd :: "bytes \<Rightarrow> nat \<Rightarrow> nat \<Rightarrow> nat \<Rightarrow> bytes" where
  "write_ymd out year month day =
     push_2digit (push_2digit (push_ndigit 4 out year @ ''-'') month @ ''-'') day"

definition write_hms_nanos :: "bytes \<Rightarrow> nat \<Rightarrow> nat \<Rightarrow> nat \<Rightarrow> nat \<Rightarrow> bytes" where
  "write_hms_nanos out hour minute second nanos =
     push_ndigit 9 (push_2digit (push_2digit (push_2digit out hour @ '':'') minute @ '':'') second @ ''.'') nanos"

text \<open>The fast writers return the buffer, or nothing when they defer to \<open>chrono\<close>.\<close>

definition write_fast_date :: "('d, 't) ext \<Rightarrow> 'd \<Rightarrow> bytes \<Rightarrow> bytes option" where
  "write_fast_date E d out =
     (let year = d_year E d in
      if \<not> (0 \<le> year \<and> year \<le> 9999) then None
      else Some (write_ymd out (nat year) (d_month E d) (d_day E d)))"

definition write_fast_timestamp :: "('d, 't) ext \<Rightarrow> 't \<Rightarrow> bytes \<Rightarrow> bytes option" where
  "write_fast_timestamp E ts out =
     (let nanos = t_nanosecond E ts in
      if 1000000000 \<le> nanos then None
      else map_option (\<lambda>out. write_hms_nanos (out @ '' '') (t_hour E ts) (t_minute E ts) (t_second E ts) nanos)
             (write_fast_date E (t_date E ts) out))"

definition write_block_value :: "('d, 't) ext \<Rightarrow> ('d, 't) sql_value \<Rightarrow> bytes \<Rightarrow> bytes" where
  "write_block_value E v out = (case v of
      VString s \<Rightarrow> out @ s
    | VNumeric d \<Rightarrow> write_decimal E d out
    | VDate d \<Rightarrow> (case write_fast_date E d out of
          Some out' \<Rightarrow> out' | None \<Rightarrow> out @ date_format E d DATE_FORMAT)
    | VTimestamp ts \<Rightarrow> (case write_fast_timestamp E ts out of
          Some out' \<Rightarrow> out' | None \<Rightarrow> out @ datetime_format E ts TIMESTAMP_EMIT)
    | VInt32 i \<Rightarrow> out @ itoa_format E (sint i)
    | VInt64 i \<Rightarrow> out @ itoa_format E (sint i)
    | VDouble f \<Rightarrow> out @ f64_show E f
    | VBool b \<Rightarrow> out @ (if b then ''true'' else ''false'')
    | VNull \<Rightarrow> out)"

section \<open>Coercions and costs\<close>

text \<open>
  \<open>None\<close> is a panic: \<open>10i128.pow(scale)\<close> wraps in a release build, and a wrapped divisor of
  zero, or of -1 under the least value, panics.
\<close>

definition i128_checked_div :: "i128 \<Rightarrow> i128 \<Rightarrow> int option" where
  "i128_checked_div a b =
     (if b = 0 \<or> (sint a = - (2 ^ 127) \<and> sint b = - 1) then None
      else Some (sgn (sint a) * sgn (sint b) * (\<bar>sint a\<bar> div \<bar>sint b\<bar>)))"

definition value_to_i64 :: "('d, 't) ext \<Rightarrow> ('d, 't) sql_value \<Rightarrow> i64 option" where
  "value_to_i64 E v = (case v of
      VInt32 i \<Rightarrow> Some (scast i)
    | VInt64 i \<Rightarrow> Some i
    | VDouble f \<Rightarrow> Some (f64_as_i64 E f)
    | VNumeric d \<Rightarrow> map_option
        (\<lambda>scaled. if - (2 ^ 63) \<le> scaled \<and> scaled < 2 ^ 63 then word_of_int scaled else 0)
        (i128_checked_div (unscaled d) (10 ^ unat (dscale d)))
    | VString s \<Rightarrow> Some (case parse_i64 s of Inr n \<Rightarrow> word_of_int n | Inl _ \<Rightarrow> 0)
    | VBool b \<Rightarrow> Some (if b then 1 else 0)
    | _ \<Rightarrow> Some 0)"

definition value_to_f64 :: "('d, 't) ext \<Rightarrow> ('d, 't) sql_value \<Rightarrow> f64" where
  "value_to_f64 E v = (case v of
      VDouble f \<Rightarrow> f
    | VInt32 i \<Rightarrow> f64_of_int E (sint i)
    | VInt64 i \<Rightarrow> f64_of_int E (sint i)
    | VNumeric d \<Rightarrow> f64_div E (f64_of_int E (sint (unscaled d)))
                      (f64_powi E (f64_of_int E 10) (unat (dscale d)))
    | VString s \<Rightarrow> (case f64_parse E s of Some f \<Rightarrow> f | None \<Rightarrow> f64_of_int E 0)
    | _ \<Rightarrow> f64_of_int E 0)"

definition value_to_bool :: "('d, 't) sql_value \<Rightarrow> bool" where
  "value_to_bool v = (case v of
      VBool b \<Rightarrow> b
    | VInt32 i \<Rightarrow> i \<noteq> 0
    | VInt64 i \<Rightarrow> i \<noteq> 0
    | VNumeric d \<Rightarrow> unscaled d \<noteq> 0
    | VString s \<Rightarrow> s = ''true'' \<or> s = ''TRUE'' \<or> s = ''1''
    | _ \<Rightarrow> False)"

definition BYTES_BOOL :: nat where "BYTES_BOOL = 1"
definition BYTES_INT32 :: nat where "BYTES_INT32 = 4"
definition BYTES_INT64 :: nat where "BYTES_INT64 = 8"
definition BYTES_DOUBLE :: nat where "BYTES_DOUBLE = 8"
definition BYTES_DATE :: nat where "BYTES_DATE = 10"
definition BYTES_TIMESTAMP :: nat where "BYTES_TIMESTAMP = 29"
definition BYTES_ROW_NUMBER :: nat where "BYTES_ROW_NUMBER = 10"
definition NUMERIC_COST_BASE :: nat where "NUMERIC_COST_BASE = 40"

lemmas cost_defs =
  BYTES_BOOL_def BYTES_INT32_def BYTES_INT64_def BYTES_DOUBLE_def BYTES_DATE_def
  BYTES_TIMESTAMP_def BYTES_ROW_NUMBER_def NUMERIC_COST_BASE_def

definition value_byte_cost :: "('d, 't) sql_value \<Rightarrow> nat" where
  "value_byte_cost v = (case v of
      VNull \<Rightarrow> 0
    | VBool _ \<Rightarrow> BYTES_BOOL
    | VInt32 _ \<Rightarrow> BYTES_INT32
    | VInt64 _ \<Rightarrow> BYTES_INT64
    | VDouble _ \<Rightarrow> BYTES_DOUBLE
    | VString s \<Rightarrow> length s
    | VNumeric d \<Rightarrow> NUMERIC_COST_BASE + unat (dscale d)
    | VDate _ \<Rightarrow> BYTES_DATE
    | VTimestamp _ \<Rightarrow> BYTES_TIMESTAMP)"

definition column_accepts :: "exa_type \<Rightarrow> ('d, 't) sql_value \<Rightarrow> bool" where
  "column_accepts typ v = (case (typ, v) of
      (_, VNull) \<Rightarrow> True
    | (TUnsupported, _) \<Rightarrow> True
    | (TInt32, VInt32 _) \<Rightarrow> True
    | (TInt32, VInt64 i) \<Rightarrow> - (2 ^ 31) \<le> sint i \<and> sint i < 2 ^ 31
    | (TInt64, VInt32 _) \<Rightarrow> True
    | (TInt64, VInt64 _) \<Rightarrow> True
    | (TNumeric _ _, VInt32 _) \<Rightarrow> True
    | (TNumeric _ _, VInt64 _) \<Rightarrow> True
    | (TNumeric _ _, VNumeric _) \<Rightarrow> True
    | (TDouble, VDouble _) \<Rightarrow> True
    | (TBoolean, VBool _) \<Rightarrow> True
    | (TDate, VDate _) \<Rightarrow> True
    | (TTimestamp _, VTimestamp _) \<Rightarrow> True
    | (TString _, VString _) \<Rightarrow> True
    | (TChar _, VString _) \<Rightarrow> True
    | _ \<Rightarrow> False)"

fun check_cells :: "('d, 't) ext \<Rightarrow> nat \<Rightarrow> nat \<Rightarrow> ('d, 't) sql_value list \<Rightarrow> column_info list \<Rightarrow>
    (udf_error, nat) result" where
  "check_cells E cost idx (v # row) (col # cols) =
     (if \<not> column_accepts (ci_typ col) v
      then Err (TypeErr (''output column '' @ show_nat idx @ '' `'' @ ci_name col @ ''` is '' @
             ci_type_name col @ '' but the value is '' @ dbg_value E v))
      else check_cells E (cost + value_byte_cost v) (idx + 1) row cols)"
| "check_cells E cost idx _ _ = Ok cost"

definition check_output_row :: "('d, 't) ext \<Rightarrow> ('d, 't) sql_value list \<Rightarrow> column_info list \<Rightarrow>
    (udf_error, nat) result" where
  "check_output_row E row cols =
     (if length row \<noteq> length cols
      then Err (TypeErr (''output row has '' @ show_nat (length row) @
             '' value(s) but the output has '' @ show_nat (length cols) @ '' column(s)''))
      else check_cells E BYTES_ROW_NUMBER 0 row cols)"

section \<open>The fast digit writers\<close>

lemma digit_pairs_loop_nth:
  assumes "length t = 200"
  shows "length (digit_pairs_loop i t) = 200 \<and>
    (\<forall>v < 100. digit_pairs_loop i t ! (2 * v) = (if i \<le> v then digit_char (v div 10) else t ! (2 * v)) \<and>
      digit_pairs_loop i t ! Suc (2 * v) = (if i \<le> v then digit_char (v mod 10) else t ! Suc (2 * v)))"
  using assms
proof (induction i t rule: digit_pairs_loop.induct)
  case (1 i t)
  define t' where "t' = (t[2 * i := digit_char (i div 10)])[2 * i + 1 := digit_char (i mod 10)]"
  show ?case
  proof (cases "i < 100")
    case True
    have step: "digit_pairs_loop i t = digit_pairs_loop (i + 1) t'"
      using True by (subst digit_pairs_loop.simps) (simp add: t'_def)
    have odd: "2 * v \<noteq> Suc (2 * i)" "Suc (2 * v) \<noteq> 2 * i" for v
      by arith+
    have IH: "length (digit_pairs_loop (i + 1) t') = 200 \<and>
        (\<forall>v < 100. digit_pairs_loop (i + 1) t' ! (2 * v) = (if i + 1 \<le> v then digit_char (v div 10) else t' ! (2 * v)) \<and>
          digit_pairs_loop (i + 1) t' ! Suc (2 * v) = (if i + 1 \<le> v then digit_char (v mod 10) else t' ! Suc (2 * v)))"
      using 1 True by (simp add: t'_def)
    have "t' ! (2 * v) = (if v = i then digit_char (v div 10) else t ! (2 * v)) \<and>
        t' ! Suc (2 * v) = (if v = i then digit_char (v mod 10) else t ! Suc (2 * v))"
      if "v < 100" for v
      using that True "1.prems" odd by (simp add: nth_list_update t'_def)
    moreover have "(i + 1 \<le> v) = (i \<le> v \<and> v \<noteq> i)" for v by arith
    ultimately show ?thesis
      using IH unfolding step by simp
  next
    case False
    then show ?thesis using 1 by (subst (1 2 3) digit_pairs_loop.simps) auto
  qed
qed

lemma slice_two: "Suc i < length xs \<Longrightarrow> slice i (i + 2) xs = [xs ! i, xs ! Suc i]"
  by (simp add: slice_def Cons_nth_drop_Suc [symmetric])

lemma digit_pair: "v < 100 \<Longrightarrow>
    slice (v * 2) (v * 2 + 2) DIGIT_PAIRS = [digit_char (v div 10), digit_char (v mod 10)]"
  using digit_pairs_loop_nth [of "replicate 200 (char_of (0 :: nat))" 0]
    slice_two [of "2 * v" DIGIT_PAIRS]
  by (simp add: DIGIT_PAIRS_def mult.commute [of v 2])

text \<open>The digits of \<open>v\<close> in a field of \<open>w\<close> places.\<close>

fun pad_digits :: "nat \<Rightarrow> nat \<Rightarrow> bytes" where
  "pad_digits 0 v = []"
| "pad_digits (Suc w) v = pad_digits w (v div 10) @ [digit_char (v mod 10)]"

lemma length_pad_digits [simp]: "length (pad_digits w v) = w"
  by (induction w v rule: pad_digits.induct) simp_all

lemma pad_digits_all [simp]: "list_all is_digit (pad_digits w v)"
  by (induction w v rule: pad_digits.induct) simp_all

lemma pad_digits_val: "v < 10 ^ w \<Longrightarrow> digits_val (pad_digits w v) = v"
proof (induction w v rule: pad_digits.induct)
  case (2 w v)
  then have "v div 10 < 10 ^ w" by (simp add: less_mult_imp_div_less mult.commute)
  with 2 show ?case by (simp add: digits_val_append digits_val_Cons)
qed simp

lemma pad_digits_two: "pad_digits 2 v = [digit_char (v div 10 mod 10), digit_char (v mod 10)]"
  by (simp add: numeral_2_eq_2)

lemma push_2digit_eq: "v < 100 \<Longrightarrow> push_2digit out v = out @ pad_digits 2 v"
  using digit_pair [of v] by (simp add: push_2digit_def pad_digits_two)

lemma ndigit_loop_eq: "i \<le> length buf \<Longrightarrow> ndigit_loop i v buf = pad_digits i v @ drop i buf"
proof (induction i v buf rule: ndigit_loop.induct)
  case (1 i v buf)
  consider "i = 0" | "i = 1" | j where "i = Suc (Suc j)"
    by (metis One_nat_def not0_implies_Suc)
  then show ?case
  proof cases
    case 1
    then show ?thesis by (subst ndigit_loop.simps) simp
  next
    case 2
    then show ?thesis using "1.prems"
      by (subst ndigit_loop.simps) (cases buf; simp)
  next
    case (3 j)
    define pr where "pr = slice (v mod 100 * 2) (v mod 100 * 2 + 2) DIGIT_PAIRS"
    have pr: "pr = [digit_char (v div 10 mod 10), digit_char (v mod 10)]"
    proof -
      have eqs: "v mod 100 div 10 = v div 10 mod 10" "v mod 100 mod 10 = v mod 10"
        using mod_mult2_eq [of v 10 10] by simp_all
      have "pr = [digit_char (v mod 100 div 10), digit_char (v mod 100 mod 10)]"
        unfolding pr_def by (rule digit_pair) simp
      then show ?thesis by (simp only: eqs)
    qed
    define b where "b = take j buf @ pr @ drop i buf"
    have len: "length b = length buf" "drop j b = pr @ drop i buf"
      using 3 "1.prems" by (simp_all add: b_def pr min_def)
    have "ndigit_loop i v buf = ndigit_loop j (v div 100) b"
      using 3 by (subst ndigit_loop.simps) (simp add: Let_def pr_def b_def)
    also have "\<dots> = pad_digits j (v div 100) @ drop j b"
    proof -
      have "i - 2 = j" "2 \<le> i" "j \<le> length b" using 3 "1.prems" len by simp_all
      then show ?thesis
        using "1.IH" [OF \<open>2 \<le> i\<close> refl] unfolding pr_def [symmetric] b_def by (simp only:)
    qed
    also have "\<dots> = pad_digits i v @ drop i buf"
      using 3 by (simp add: len pr div_mult2_eq [symmetric])
    finally show ?thesis .
  qed
qed

lemma push_ndigit_eq: "push_ndigit W out v = out @ pad_digits W v"
  by (simp add: push_ndigit_def ndigit_loop_eq)

lemmas fast_digits = push_2digit_eq push_ndigit_eq

section \<open>Laws of the external functions\<close>

text \<open>
  What the cell texts rely on: \<open>itoa\<close> formats as \<open>Display\<close> does, and \<open>chrono\<close>'s
  accessors and constructors are inverse on dates and times of day with at most two-digit fields.
\<close>

locale cell_ext =
  fixes E :: "('d, 't) ext"
  assumes itoa: "itoa_format E n = show_int n"
    and ymd: "from_ymd_opt E (d_year E d) (d_month E d) (d_day E d) = Some d"
    and month: "d_month E d \<le> 12"
    and day: "d_day E d \<le> 31"
    and hms_nano: "and_hms_nano_opt E (t_date E t) (t_hour E t) (t_minute E t) (t_second E t)
      (t_nanosecond E t) = Some t"
    and hour: "t_hour E t < 24"
    and minute: "t_minute E t < 60"
    and second: "t_second E t < 60"

text \<open>The years and times of day the wire text covers.\<close>

definition wire_date :: "('d, 't) ext \<Rightarrow> 'd \<Rightarrow> bool" where
  "wire_date E d \<longleftrightarrow> 0 \<le> d_year E d \<and> d_year E d \<le> 9999"

definition wire_time :: "('d, 't) ext \<Rightarrow> 't \<Rightarrow> bool" where
  "wire_time E t \<longleftrightarrow> wire_date E (t_date E t) \<and> t_nanosecond E t < 1000000000"

lemma wire_date_year:
  "wire_date E d \<Longrightarrow> nat (d_year E d) < 10000 \<and> int (nat (d_year E d)) = d_year E d"
  unfolding wire_date_def by linarith

section \<open>Reading back what was written\<close>

lemma parse_2digit_pad [simp]: "v < 100 \<Longrightarrow> parse_2digit (pad_digits 2 v) = Some v"
  by (simp add: parse_2digit_def pad_digits_two less_mult_imp_div_less)

lemma parse_4digit_loop_digits:
  "list_all is_digit b \<Longrightarrow> parse_4digit_loop v b = Some (v * 10 ^ length b + digits_val b)"
  by (induction b arbitrary: v) (simp_all add: digits_val_Cons algebra_simps)

lemma parse_4digit_pad [simp]: "v < 10000 \<Longrightarrow> parse_4digit (pad_digits 4 v) = Some v"
  by (simp add: parse_4digit_def parse_4digit_loop_digits pad_digits_val)

definition ymd_text :: "nat \<Rightarrow> nat \<Rightarrow> nat \<Rightarrow> bytes" where
  "ymd_text y m d = pad_digits 4 y @ ''-'' @ pad_digits 2 m @ ''-'' @ pad_digits 2 d"

definition hms_text :: "nat \<Rightarrow> nat \<Rightarrow> nat \<Rightarrow> nat \<Rightarrow> bytes" where
  "hms_text h mi s n =
     pad_digits 2 h @ '':'' @ pad_digits 2 mi @ '':'' @ pad_digits 2 s @ ''.'' @ pad_digits 9 n"

lemma write_ymd_eq: "m < 100 \<Longrightarrow> d < 100 \<Longrightarrow> write_ymd out y m d = out @ ymd_text y m d"
  by (simp add: write_ymd_def ymd_text_def fast_digits)

lemma write_hms_nanos_eq:
  "h < 100 \<Longrightarrow> mi < 100 \<Longrightarrow> s < 100 \<Longrightarrow> write_hms_nanos out h mi s n = out @ hms_text h mi s n"
  by (simp add: write_hms_nanos_def hms_text_def fast_digits)

lemma length_cell_text [simp]: "length (ymd_text y m d) = 10" "length (hms_text h mi s n) = 18"
  by (simp_all add: ymd_text_def hms_text_def)

lemma slice_append1: "j \<le> length xs \<Longrightarrow> slice i j (xs @ ys) = slice i j xs"
  by (simp add: slice_def)

lemma slice_append2: "length xs \<le> i \<Longrightarrow> slice i j (xs @ ys) = slice (i - length xs) (j - length xs) ys"
  by (simp add: slice_def)

lemma slice_all: "i = 0 \<Longrightarrow> j = length xs \<Longrightarrow> slice i j xs = xs"
  by (simp add: slice_def)

lemma slice_Cons: "0 < i \<Longrightarrow> slice i j (x # xs) = slice (i - 1) (j - 1) xs"
  by (cases i; cases j) (simp_all add: slice_def)

lemmas slice_simps = slice_append1 slice_append2 slice_all slice_Cons

lemma ymd_text_fields [simp]:
  "ymd_text y m d ! 4 = CHR ''-''" "ymd_text y m d ! 7 = CHR ''-''"
  "slice 0 4 (ymd_text y m d) = pad_digits 4 y"
  "slice 5 7 (ymd_text y m d) = pad_digits 2 m"
  "slice 8 10 (ymd_text y m d) = pad_digits 2 d"
  by (simp_all add: ymd_text_def nth_append slice_simps)

lemma hms_text_fields [simp]:
  "hms_text h mi s n ! 2 = CHR '':''" "hms_text h mi s n ! 5 = CHR '':''"
  "hms_text h mi s n ! 8 = CHR ''.''"
  "slice 0 2 (hms_text h mi s n) = pad_digits 2 h"
  "slice 3 5 (hms_text h mi s n) = pad_digits 2 mi"
  "slice 6 8 (hms_text h mi s n) = pad_digits 2 s"
  "drop 9 (hms_text h mi s n) = pad_digits 9 n"
  by (simp_all add: hms_text_def nth_append slice_simps)

lemma fast_parse_date_text:
  assumes "y < 10000" "m < 100" "d < 100"
  shows "fast_parse_date E (ymd_text y m d) = from_ymd_opt E (int y) m d"
  using assms by (simp add: fast_parse_date_def)

lemma fast_parse_timestamp_text:
  assumes "y < 10000" "m < 100" "d < 100" "h < 100" "mi < 100" "s < 100" "n < 1000000000"
  shows "fast_parse_timestamp E (ymd_text y m d @ '' '' @ hms_text h mi s n) =
    Option.bind (from_ymd_opt E (int y) m d) (\<lambda>date. and_hms_nano_opt E date h mi s n)"
proof -
  let ?b = "ymd_text y m d @ '' '' @ hms_text h mi s n"
  have "parse_fraction ?b = Some n"
  proof -
    have "pad_digits 9 n \<noteq> []" by (metis length_pad_digits list.size(3) zero_neq_numeral)
    then show ?thesis
      using assms(7) pad_digits_val [of n 9] by (simp add: parse_fraction_def nth_append Let_def)
  qed
  then show ?thesis
    using assms by (simp add: fast_parse_timestamp_def nth_append slice_simps)
qed

context cell_ext
begin

lemma two_digit_fields [simp]:
  "d_month E d < 100" "d_day E d < 100" "t_hour E t < 100" "t_minute E t < 100" "t_second E t < 100"
  using month [of d] day [of d] hour [of t] minute [of t] second [of t] by linarith+

lemma write_fast_date_wire:
  "wire_date E d \<Longrightarrow> write_fast_date E d out =
     Some (out @ ymd_text (nat (d_year E d)) (d_month E d) (d_day E d))"
  by (simp add: write_fast_date_def wire_date_def Let_def write_ymd_eq)

lemma write_fast_timestamp_wire:
  "wire_time E t \<Longrightarrow> write_fast_timestamp E t out =
     Some (out @ ymd_text (nat (d_year E (t_date E t))) (d_month E (t_date E t)) (d_day E (t_date E t)) @
       '' '' @ hms_text (t_hour E t) (t_minute E t) (t_second E t) (t_nanosecond E t))"
  by (simp add: write_fast_timestamp_def wire_time_def Let_def write_fast_date_wire write_hms_nanos_eq)

lemma date_text_roundtrip:
  assumes "wire_date E d"
  shows "Option.bind (write_fast_date E d []) (fast_parse_date E) = Some d"
  using assms ymd [of d] wire_date_year [OF assms]
  by (simp add: write_fast_date_wire fast_parse_date_text)

lemma timestamp_text_roundtrip:
  assumes "wire_time E t"
  shows "Option.bind (write_fast_timestamp E t []) (fast_parse_timestamp E) = Some t"
proof -
  have "nat (d_year E (t_date E t)) < 10000" "int (nat (d_year E (t_date E t))) = d_year E (t_date E t)"
    "t_nanosecond E t < 1000000000"
    using assms wire_date_year [of E "t_date E t"] by (simp_all add: wire_time_def)
  then show ?thesis
    using assms ymd [of "t_date E t"] hms_nano [of t]
    by (simp add: write_fast_timestamp_wire fast_parse_timestamp_text [simplified])
qed

text \<open>The packer's decimal writer and \<open>Decimal\<close>'s \<open>Display\<close> print the same text.\<close>

lemma write_decimal_eq: "write_decimal E d out = out @ decimal_fmt d"
proof (cases "dscale d = 0")
  case True
  then show ?thesis by (simp add: write_decimal_def decimal_fmt_def itoa)
next
  case False
  then show ?thesis
    by (simp add: write_decimal_def decimal_fmt_def itoa Let_def show_int_def pad_left_def
        Suc_diff_le)
qed

end

section \<open>Cells of the string block\<close>

definition is_string_family_exatype :: "exa_type \<Rightarrow> bool" where
  "is_string_family_exatype typ = (case typ of
      TNumeric _ _ \<Rightarrow> True | TDate \<Rightarrow> True | TTimestamp _ \<Rightarrow> True
    | TString _ \<Rightarrow> True | TChar _ \<Rightarrow> True | _ \<Rightarrow> False)"

text \<open>The writers only append.\<close>

lemma write_decimal_append: "write_decimal E d out = out @ write_decimal E d []"
  by (simp add: write_decimal_def Let_def)

lemma write_ymd_append: "write_ymd out y m d = out @ write_ymd [] y m d"
  by (simp add: write_ymd_def push_2digit_def push_ndigit_def)

lemma write_hms_nanos_append: "write_hms_nanos out h mi s n = out @ write_hms_nanos [] h mi s n"
  by (simp add: write_hms_nanos_def push_2digit_def push_ndigit_def)

lemma write_fast_date_append:
  "write_fast_date E d out = map_option (\<lambda>t. out @ t) (write_fast_date E d [])"
  by (simp add: write_fast_date_def Let_def write_ymd_append [of out])

lemma write_fast_timestamp_append:
  "write_fast_timestamp E t out = map_option (\<lambda>x. out @ x) (write_fast_timestamp E t [])"
  by (simp add: write_fast_timestamp_def Let_def write_fast_date_append [of E _ out]
      option.map_comp comp_def write_hms_nanos_append [of "_ @ _"])

lemma write_block_value_append: "write_block_value E v out = out @ write_block_value E v []"
  by (simp add: write_block_value_def write_decimal_append [of E _ out]
      write_fast_date_append [of E _ out] write_fast_timestamp_append [of E _ out]
      split: sql_value.split option.split)

text \<open>A value the wire's text can carry: UTF-8 strings, four-digit years, no leap second.\<close>

definition wire_value :: "('d, 't) ext \<Rightarrow> ('d, 't) sql_value \<Rightarrow> bool" where
  "wire_value E v \<longleftrightarrow> wf_value v \<and>
     (case v of VDate d \<Rightarrow> wire_date E d | VTimestamp t \<Rightarrow> wire_time E t | _ \<Rightarrow> True)"

text \<open>The value a cell of a column of type \<open>typ\<close> carries, whatever variant it was written from.\<close>

definition canon :: "exa_type \<Rightarrow> ('d, 't) sql_value \<Rightarrow> ('d, 't) sql_value" where
  "canon typ v = (case (typ, v) of
      (_, VNull) \<Rightarrow> VNull
    | (TUnsupported, _) \<Rightarrow> VNull
    | (TInt32, VInt64 i) \<Rightarrow> VInt32 (ucast i)
    | (TInt64, VInt32 i) \<Rightarrow> VInt64 (scast i)
    | (TNumeric _ _, VInt32 i) \<Rightarrow> VNumeric \<lparr>unscaled = scast i, dscale = 0\<rparr>
    | (TNumeric _ _, VInt64 i) \<Rightarrow> VNumeric \<lparr>unscaled = scast i, dscale = 0\<rparr>
    | _ \<Rightarrow> v)"

lemma is_ascii_show_int [simp]: "is_ascii (show_int n)"
  by (simp add: show_int_def digit_is_ascii show_nat_digits byte_def)

lemma is_ascii_decimal_fmt [simp]: "is_ascii (decimal_fmt d)"
proof (cases "dscale d = 0")
  case True
  then show ?thesis by (simp add: decimal_fmt_def)
next
  case False
  then obtain ip fp where "decimal_parts d ip fp"
    and eq: "decimal_fmt d = (if sint (unscaled d) < 0 then ''-'' else []) @ ip @ ''.'' @ fp"
    using decimal_fmt_parts by blast
  then show ?thesis by (simp add: decimal_parts_def digit_is_ascii byte_def)
qed

lemma is_ascii_cell_text [simp]: "is_ascii (ymd_text y m d)" "is_ascii (hms_text h mi s n)"
  by (simp_all add: ymd_text_def hms_text_def digit_is_ascii byte_def)

lemma decimal_of_word:
  fixes i :: "'a :: len word"
  assumes "LENGTH('a) \<le> 64"
  shows "decimal_try_from (show_int (sint i)) = Ok \<lparr>unscaled = scast i, dscale = 0\<rparr>"
proof -
  have "(2 :: int) ^ (LENGTH('a) - Suc 0) \<le> 2 ^ 63"
    using assms by (intro power_increasing) auto
  moreover have "(2 :: int) ^ 63 \<le> 2 ^ 127 - 1" by simp
  ultimately have "- (2 ^ 127) \<le> sint i" "sint i \<le> 2 ^ 127 - 1"
    using sint_greater_eq [of i] sint_less [of i] by linarith+
  then show ?thesis
    by (simp add: decimal_of_int)
qed

context cell_ext
begin

lemma string_cell_roundtrip:
  assumes "is_string_family_exatype typ" "column_accepts typ v" "v \<noteq> VNull" "wire_value E v"
  shows "valid_utf8 (write_block_value E v []) \<and>
    decode_string_block E typ (write_block_value E v []) = canon typ v"
proof (cases "typ")
  case (TNumeric p s)
  then show ?thesis using assms
    by (cases v) (simp_all add: column_accepts_def write_block_value_def decode_string_block_def
        canon_def itoa ascii_valid_utf8 write_decimal_eq decimal_fmt_roundtrip decimal_of_word)
next
  case TDate
  then obtain d where v: "v = VDate d" and d: "wire_date E d"
    using assms by (cases v) (auto simp: column_accepts_def wire_value_def)
  then show ?thesis
    using TDate date_text_roundtrip [OF d]
    by (simp add: write_block_value_def decode_string_block_def canon_def
        write_fast_date_wire ascii_valid_utf8)
next
  case (TTimestamp p)
  then obtain t where v: "v = VTimestamp t" and t: "wire_time E t"
    using assms by (cases v) (auto simp: column_accepts_def wire_value_def)
  then show ?thesis
    using TTimestamp timestamp_text_roundtrip [OF t]
    by (simp add: write_block_value_def decode_string_block_def canon_def
        write_fast_timestamp_wire ascii_valid_utf8 byte_def)
next
  case (TString n)
  then show ?thesis using assms
    by (cases v) (simp_all add: column_accepts_def write_block_value_def decode_string_block_def
        canon_def wire_value_def wf_value_def)
next
  case (TChar n)
  then show ?thesis using assms
    by (cases v) (simp_all add: column_accepts_def write_block_value_def decode_string_block_def
        canon_def wire_value_def wf_value_def)
qed (insert assms, simp_all add: is_string_family_exatype_def)

end

section \<open>The cost estimate\<close>

lemma length_show_nat_le: "n < 10 ^ k \<Longrightarrow> 0 < k \<Longrightarrow> length (show_nat n) \<le> k"
proof (induction k arbitrary: n)
  case 0
  then show ?case by simp
next
  case (Suc k)
  show ?case
  proof (cases "n < 10")
    case True
    then show ?thesis by (subst show_nat.simps) simp
  next
    case False
    with Suc.prems have "0 < k" by (cases k) simp_all
    moreover have "n div 10 < 10 ^ k"
      using Suc.prems by (simp add: less_mult_imp_div_less mult.commute)
    ultimately have "length (show_nat (n div 10)) \<le> k" by (rule Suc.IH [rotated])
    with False show ?thesis by (subst show_nat.simps) simp
  qed
qed

lemma unsigned_abs_le: "unsigned_abs u \<le> 2 ^ 127"
  using i128_bounds [of u] by (simp add: unsigned_abs_def abs_le_iff)

lemma length_unsigned_abs: "length (show_nat (unsigned_abs u)) \<le> 39"
  using unsigned_abs_le [of u] by (intro length_show_nat_le) simp_all

text \<open>A NUMERIC cell never prints longer than its cost.\<close>

lemma length_decimal_fmt: "length (decimal_fmt d) \<le> value_byte_cost (VNumeric d)"
proof (cases "dscale d = 0")
  case True
  have "length (show_int (sint (unscaled d))) \<le> 40"
    using length_unsigned_abs [of "unscaled d"]
    by (auto simp: show_int_def unsigned_abs_def)
  with True show ?thesis by (simp add: decimal_fmt_def value_byte_cost_def cost_defs)
next
  case False
  then have "0 < unat (dscale d)" by (simp add: unat_gt_0)
  then show ?thesis
    using False length_unsigned_abs [of "unscaled d"]
    by (auto simp: decimal_fmt_def Let_def value_byte_cost_def cost_defs pad_left_def)
qed

end
