(* ===== verification/Proto.thy ===== *)
theory Proto
  imports Values
begin

text \<open>
  The messages of \<open>exa-proto/proto/zmqcontainer.proto\<close> the program exchanges with the
  database, as \<open>prost\<close> lays them out: an optional field is an \<open>option\<close>, a repeated field a
  list, and an enum field the \<open>i32\<close> on the wire, read through \<open>try_from\<close>. An unsigned
  64-bit field is a \<open>nat\<close>.
\<close>

section \<open>Enumerations\<close>

datatype column_type =
    PbUnsupported | PbDouble | PbInt32 | PbInt64 | PbNumeric | PbTimestamp | PbDate | PbString
  | PbBoolean

definition column_type_try_from :: "i32 \<Rightarrow> column_type option" where
  "column_type_try_from i =
     (if i = 0 then Some PbUnsupported else if i = 1 then Some PbDouble
      else if i = 2 then Some PbInt32 else if i = 3 then Some PbInt64
      else if i = 4 then Some PbNumeric else if i = 5 then Some PbTimestamp
      else if i = 6 then Some PbDate else if i = 7 then Some PbString
      else if i = 8 then Some PbBoolean else None)"

datatype pb_iter_type = PbExactlyOnce | PbMultiple

definition pb_iter_type_try_from :: "i32 \<Rightarrow> pb_iter_type option" where
  "pb_iter_type_try_from i =
     (if i = 1 then Some PbExactlyOnce else if i = 2 then Some PbMultiple else None)"

datatype message_type =
    MtUnknown | MtClient | MtInfo | MtMeta | MtClose | MtImport | MtNext | MtReset | MtEmit | MtRun
  | MtDone | MtCleanup | MtFinished | MtPingPong | MtTryAgain | MtCall | MtReturn | MtUndefinedCall

definition message_types :: "message_type list" where
  "message_types =
     [MtUnknown, MtClient, MtInfo, MtMeta, MtClose, MtImport, MtNext, MtReset, MtEmit, MtRun,
      MtDone, MtCleanup, MtFinished, MtPingPong, MtTryAgain, MtCall, MtReturn, MtUndefinedCall]"

fun mt_number :: "message_type \<Rightarrow> nat" where
  "mt_number MtUnknown = 0" | "mt_number MtClient = 1" | "mt_number MtInfo = 2"
| "mt_number MtMeta = 3" | "mt_number MtClose = 4" | "mt_number MtImport = 5"
| "mt_number MtNext = 6" | "mt_number MtReset = 7" | "mt_number MtEmit = 8"
| "mt_number MtRun = 9" | "mt_number MtDone = 10" | "mt_number MtCleanup = 11"
| "mt_number MtFinished = 12" | "mt_number MtPingPong = 13" | "mt_number MtTryAgain = 14"
| "mt_number MtCall = 15" | "mt_number MtReturn = 16" | "mt_number MtUndefinedCall = 17"

text \<open>\<open>mt as i32\<close>, and \<open>MessageType::try_from\<close>.\<close>

definition mt_i32 :: "message_type \<Rightarrow> i32" where
  "mt_i32 mt = of_nat (mt_number mt)"

definition message_type_try_from :: "i32 \<Rightarrow> message_type option" where
  "message_type_try_from i = nth_opt message_types (unat i)"

lemma message_type_roundtrip [simp]: "message_type_try_from (mt_i32 mt) = Some mt"
  by (cases mt) (simp_all add: message_type_try_from_def mt_i32_def message_types_def nth_opt_def)

datatype single_call_function_id =
    ScFnNil | ScFnDefaultOutputColumns | ScFnVirtualSchemaAdapterCall
  | ScFnGenerateSqlForImportSpec | ScFnGenerateSqlForExportSpec

definition single_call_function_try_from :: "i32 \<Rightarrow> single_call_function_id option" where
  "single_call_function_try_from i =
     (if i = 0 then Some ScFnNil else if i = 1 then Some ScFnDefaultOutputColumns
      else if i = 2 then Some ScFnVirtualSchemaAdapterCall
      else if i = 3 then Some ScFnGenerateSqlForImportSpec
      else if i = 4 then Some ScFnGenerateSqlForExportSpec else None)"

section \<open>Metadata and table data\<close>

record column_definition =
  cd_name :: string
  cd_type :: "i32 option"
  cd_type_name :: string
  cd_size :: "nat option"
  cd_precision :: "nat option"
  cd_scale :: "nat option"

text \<open>The getter \<open>prost\<close> generates for an optional enum field: an absent or unknown value reads
  as the enum's first variant.\<close>

definition cd_type_get :: "column_definition \<Rightarrow> column_type" where
  "cd_type_get c = (case Option.bind (cd_type c) column_type_try_from of
      Some t \<Rightarrow> t | None \<Rightarrow> PbUnsupported)"

record exascript_metadata =
  em_input_iter_type :: i32
  em_output_iter_type :: i32
  em_input_columns :: "column_definition list"
  em_output_columns :: "column_definition list"
  em_single_call_mode :: bool

definition pb_iter_get :: "i32 \<Rightarrow> pb_iter_type" where
  "pb_iter_get i = (case pb_iter_type_try_from i of Some t \<Rightarrow> t | None \<Rightarrow> PbExactlyOnce)"

record table_data =
  td_rows :: nat
  td_rows_in_group :: nat
  td_string :: "bytes list"
  td_nulls :: "bool list"
  td_bool :: "bool list"
  td_int32 :: "i32 list"
  td_int64 :: "i64 list"
  td_double :: "f64 list"
  td_row_number :: "nat list"

record exascript_info =
  ei_database_name :: string
  ei_database_version :: string
  ei_script_name :: string
  ei_source_code :: string
  ei_session_id :: nat
  ei_statement_id :: nat
  ei_node_count :: nat
  ei_node_id :: nat
  ei_vm_id :: nat
  ei_maximal_memory_limit :: nat
  ei_meta_info :: "string option"
  ei_script_schema :: string
  ei_current_user :: "string option"
  ei_current_schema :: "string option"
  ei_scope_user :: "string option"

section \<open>Other payloads\<close>

record exascript_client =
  ec_client_name :: string
  ec_meta_info :: "string option"

record import_req =
  ir_script_name :: string
  ir_kind :: "i32 option"

record connection_information_rep =
  cir_kind :: string
  cir_address :: string
  cir_user :: string
  cir_password :: string

record import_rep =
  irp_source_code :: "string option"
  irp_exception_message :: "string option"
  irp_connection_information :: "connection_information_rep option"

record key_value_pair =
  kv_key :: string
  kv_value :: string

record import_specification_rep =
  is_is_subselect :: bool
  is_connection_information :: "connection_information_rep option"
  is_connection_name :: "string option"
  is_subselect_column_specification :: "column_definition list"
  is_parameters :: "key_value_pair list"

record export_specification_rep =
  es_has_truncate :: bool
  es_has_replace :: bool
  es_created_by :: "string option"
  es_source_column_names :: "string list"
  es_connection_information :: "connection_information_rep option"
  es_connection_name :: "string option"
  es_parameters :: "key_value_pair list"

record single_call_rep =
  sc_fn :: i32
  sc_import_specification :: "import_specification_rep option"
  sc_json_arg :: "string option"
  sc_export_specification :: "export_specification_rep option"

section \<open>Requests and responses\<close>

text \<open>
  The payload messages with a single field are that field: \<open>close\<close> its optional exception
  message, \<open>ping\<close> its meta info, \<open>call_result\<close> its result, \<open>undefined_call\<close> its function
  name, \<open>emit\<close> and \<open>next\<close> their table.
\<close>

record exascript_request =
  rq_type :: i32
  rq_connection_id :: nat
  rq_client :: "exascript_client option"
  rq_info :: "exascript_info option"
  rq_close :: "string option option"
  rq_import :: "import_req option"
  rq_emit :: "table_data option"
  rq_ping :: "string option"
  rq_call_result :: "string option"
  rq_undefined_call :: "string option"

definition request_default :: exascript_request where
  "request_default = \<lparr>rq_type = 0, rq_connection_id = 0, rq_client = None, rq_info = None,
     rq_close = None, rq_import = None, rq_emit = None, rq_ping = None, rq_call_result = None,
     rq_undefined_call = None\<rparr>"

record exascript_response =
  rs_type :: i32
  rs_connection_id :: nat
  rs_client :: "exascript_client option"
  rs_info :: "exascript_info option"
  rs_meta :: "exascript_metadata option"
  rs_close :: "string option option"
  rs_import :: "import_rep option"
  rs_next :: "table_data option"
  rs_ping :: "string option"
  rs_call :: "single_call_rep option"

definition response_default :: exascript_response where
  "response_default = \<lparr>rs_type = 0, rs_connection_id = 0, rs_client = None, rs_info = None,
     rs_meta = None, rs_close = None, rs_import = None, rs_next = None, rs_ping = None,
     rs_call = None\<rparr>"

end
