(* ===== verification/Frame.thy ===== *)
theory Frame
  imports Proto
begin

text \<open>
  \<open>exa-zmq-protocol/src/frame.rs\<close>: the table of emitted blocks, whose string block is kept in
  its wire form, and its encoding as an \<open>MT_EMIT\<close> request. The wire primitives are the
  \<open>prost\<close> crate's; they are the fields of the record \<open>prost\<close>, a parameter of every
  definition here, and what the code relies on is the locale \<open>prost_wire\<close>. The theory ends
  with the protobuf encoding itself, written out, as an instance of both.
\<close>

section \<open>The encoding primitives of \<open>prost\<close>\<close>

record prost =
  encode_varint :: "nat \<Rightarrow> bytes"
  encoded_len_varint :: "nat \<Rightarrow> nat"
  decode_varint :: "bytes \<Rightarrow> (nat \<times> bytes) option"
  encode_key :: "nat \<Rightarrow> nat \<Rightarrow> bytes"
  uint64_encode :: "nat \<Rightarrow> nat \<Rightarrow> bytes"
  uint64_len :: "nat \<Rightarrow> nat \<Rightarrow> nat"
  int32_encode :: "nat \<Rightarrow> i32 \<Rightarrow> bytes"
  int32_len :: "nat \<Rightarrow> i32 \<Rightarrow> nat"
  bool_packed :: "nat \<Rightarrow> bool list \<Rightarrow> bytes"
  bool_packed_len :: "nat \<Rightarrow> bool list \<Rightarrow> nat"
  int32_packed :: "nat \<Rightarrow> i32 list \<Rightarrow> bytes"
  int32_packed_len :: "nat \<Rightarrow> i32 list \<Rightarrow> nat"
  int64_packed :: "nat \<Rightarrow> i64 list \<Rightarrow> bytes"
  int64_packed_len :: "nat \<Rightarrow> i64 list \<Rightarrow> nat"
  double_packed :: "nat \<Rightarrow> f64 list \<Rightarrow> bytes"
  double_packed_len :: "nat \<Rightarrow> f64 list \<Rightarrow> nat"
  uint64_packed :: "nat \<Rightarrow> nat list \<Rightarrow> bytes"
  uint64_packed_len :: "nat \<Rightarrow> nat list \<Rightarrow> nat"
  table_to_vec :: "table_data \<Rightarrow> bytes"
  request_to_vec :: "exascript_request \<Rightarrow> bytes"
  decode_response :: "bytes \<Rightarrow> (string, exascript_response) result"

definition LengthDelimited :: nat where
  "LengthDelimited = 2"

section \<open>The emit table\<close>

record emit_table =
  rows :: nat
  strings :: bytes
  nulls :: "bool list"
  bools :: "bool list"
  int32 :: "i32 list"
  int64 :: "i64 list"
  doubles :: "f64 list"
  row_numbers :: "nat list"

definition emit_table_default :: emit_table where
  "emit_table_default = \<lparr>rows = 0, strings = [], nulls = [], bools = [], int32 = [], int64 = [],
     doubles = [], row_numbers = []\<rparr>"

definition STRING_KEY :: nat where
  "STRING_KEY = or (push_bit 3 2) LengthDelimited"

definition push_string :: "prost \<Rightarrow> bytes \<Rightarrow> emit_table \<Rightarrow> emit_table" where
  "push_string P s t =
     (let t = (if length s < 0x80
               then t\<lparr>strings := strings t @ [char_of STRING_KEY, char_of (length s)]\<rparr>
               else t\<lparr>strings := strings t @ encode_key P 2 LengthDelimited @ encode_varint P (length s)\<rparr>)
      in t\<lparr>strings := strings t @ s\<rparr>)"

definition push_string_with :: "prost \<Rightarrow> (bytes \<Rightarrow> bytes) \<Rightarrow> emit_table \<Rightarrow> emit_table" where
  "push_string_with P write t =
     (let out = strings t @ encode_key P 2 LengthDelimited;
          at = length out;
          out = write (out @ [char_of (0 :: nat)]);
          len = length out - at - 1
      in if len < 0x80
         then t\<lparr>strings := out[at := char_of len]\<rparr>
         else t\<lparr>strings := take at out @ encode_varint P len @ drop (at + 1) out\<rparr>)"

text \<open>Emptying the blocks; releasing an oversized allocation leaves the same empty block.\<close>

definition clear_table :: "emit_table \<Rightarrow> emit_table" where
  "clear_table t = t\<lparr>rows := 0, strings := [], nulls := [], bools := [], int32 := [], int64 := [],
     doubles := [], row_numbers := []\<rparr>"

text \<open>The cells of the string block; \<open>None\<close> is the panic of a malformed block.\<close>

partial_function (option) string_cells :: "prost \<Rightarrow> bytes \<Rightarrow> bytes list option" where
  "string_cells P rest = (case rest of
      [] \<Rightarrow> Some []
    | _ # tail \<Rightarrow> Option.bind (decode_varint P tail) (\<lambda>(len, rest).
        if length rest < len then None
        else Option.bind (string_cells P (drop len rest)) (\<lambda>cells. Some (take len rest # cells))))"

definition to_proto :: "prost \<Rightarrow> emit_table \<Rightarrow> table_data option" where
  "to_proto P t = map_option (\<lambda>cells.
     \<lparr>td_rows = rows t, td_rows_in_group = 0, td_string = cells, td_nulls = nulls t,
      td_bool = bools t, td_int32 = int32 t, td_int64 = int64 t, td_double = doubles t,
      td_row_number = row_numbers t\<rparr>) (string_cells P (strings t))"

definition encoded_len :: "prost \<Rightarrow> emit_table \<Rightarrow> nat" where
  "encoded_len P t = uint64_len P 1 (rows t) + length (strings t)
     + bool_packed_len P 3 (nulls t) + bool_packed_len P 4 (bools t)
     + int32_packed_len P 5 (int32 t) + int64_packed_len P 6 (int64 t)
     + double_packed_len P 7 (doubles t) + uint64_len P 8 0
     + uint64_packed_len P 9 (row_numbers t)"

definition encode_raw :: "prost \<Rightarrow> emit_table \<Rightarrow> bytes \<Rightarrow> bytes" where
  "encode_raw P t buf = buf @ uint64_encode P 1 (rows t) @ strings t
     @ bool_packed P 3 (nulls t) @ bool_packed P 4 (bools t)
     @ int32_packed P 5 (int32 t) @ int64_packed P 6 (int64 t)
     @ double_packed P 7 (doubles t) @ uint64_encode P 8 0
     @ uint64_packed P 9 (row_numbers t)"

section \<open>Frames\<close>

record emit_request =
  er_connection_id :: nat
  er_table :: emit_table

definition emit_request_frame :: "prost \<Rightarrow> emit_request \<Rightarrow> bytes" where
  "emit_request_frame P r =
     (let mt = mt_i32 MtEmit;
          table_len = encoded_len P (er_table r);
          emit_len = 1 + encoded_len_varint P table_len + table_len;
          buf = int32_encode P 1 mt;
          buf = buf @ uint64_encode P 2 (er_connection_id r);
          buf = buf @ encode_key P 7 LengthDelimited;
          buf = buf @ encode_varint P emit_len;
          buf = buf @ encode_key P 2 LengthDelimited;
          buf = buf @ encode_varint P table_len
      in encode_raw P (er_table r) buf)"

datatype frame = Request exascript_request | Emit emit_request

definition frame_message_type :: "frame \<Rightarrow> i32" where
  "frame_message_type f = (case f of Request r \<Rightarrow> rq_type r | Emit _ \<Rightarrow> mt_i32 MtEmit)"

definition encode_frame :: "prost \<Rightarrow> frame \<Rightarrow> bytes" where
  "encode_frame P f = (case f of Request r \<Rightarrow> request_to_vec P r | Emit r \<Rightarrow> emit_request_frame P r)"

section \<open>What the code relies on\<close>

text \<open>A table's fields in tag order, as \<open>prost\<close> derives them from the message.\<close>

definition string_block :: "prost \<Rightarrow> bytes list \<Rightarrow> bytes" where
  "string_block P cells =
     concat (map (\<lambda>s. encode_key P 2 LengthDelimited @ encode_varint P (length s) @ s) cells)"

locale prost_wire =
  fixes P :: prost
  assumes varint_small: "n < 0x80 \<Longrightarrow> encode_varint P n = [char_of n]"
    and varint_len: "length (encode_varint P n) = encoded_len_varint P n"
    and varint_decode: "n < 2 ^ 64 \<Longrightarrow> decode_varint P (encode_varint P n @ rest) = Some (n, rest)"
    and key_small: "tag < 16 \<Longrightarrow> encode_key P tag LengthDelimited = [char_of (tag * 8 + LengthDelimited)]"
    and uint64_length: "length (uint64_encode P tag v) = uint64_len P tag v"
    and bool_length: "length (bool_packed P tag bs) = bool_packed_len P tag bs"
    and int32_length: "length (int32_packed P tag is) = int32_packed_len P tag is"
    and int64_length: "length (int64_packed P tag ls) = int64_packed_len P tag ls"
    and double_length: "length (double_packed P tag fs) = double_packed_len P tag fs"
    and uint64s_length: "length (uint64_packed P tag ns) = uint64_packed_len P tag ns"
    and table_bytes: "table_to_vec P d =
      uint64_encode P 1 (td_rows d) @ string_block P (td_string d)
        @ bool_packed P 3 (td_nulls d) @ bool_packed P 4 (td_bool d)
        @ int32_packed P 5 (td_int32 d) @ int64_packed P 6 (td_int64 d)
        @ double_packed P 7 (td_double d) @ uint64_encode P 8 (td_rows_in_group d)
        @ uint64_packed P 9 (td_row_number d)"
    and request_bytes: "request_to_vec P
        (request_default\<lparr>rq_type := mt, rq_connection_id := cid, rq_emit := Some d\<rparr>) =
      (let body = table_to_vec P d;
           emit = encode_key P 2 LengthDelimited @ encode_varint P (length body) @ body
       in int32_encode P 1 mt @ uint64_encode P 2 cid @ encode_key P 7 LengthDelimited
            @ encode_varint P (length emit) @ emit)"

text \<open>The cells a table holds: its string block is their encoding, each short enough for the wire.\<close>

definition holds_cells :: "prost \<Rightarrow> bytes list \<Rightarrow> emit_table \<Rightarrow> bool" where
  "holds_cells P cells t \<longleftrightarrow> strings t = string_block P cells \<and> list_all (\<lambda>s. length s < 2 ^ 64) cells"

lemma string_block_simps [simp]:
  "string_block P [] = []"
  "string_block P (xs @ ys) = string_block P xs @ string_block P ys"
  "string_block P (s # xs) =
     encode_key P 2 LengthDelimited @ encode_varint P (length s) @ s @ string_block P xs"
  by (simp_all add: string_block_def)

lemma holds_cells_default [simp]: "holds_cells P [] emit_table_default" "holds_cells P [] (clear_table t)"
  by (simp_all add: holds_cells_def emit_table_default_def clear_table_def)

context prost_wire
begin

lemma string_key: "encode_key P 2 LengthDelimited = [char_of STRING_KEY]"
  using key_small [of 2] by (simp add: STRING_KEY_def LengthDelimited_def)

text \<open>The two cell writers append the same bytes.\<close>

lemma push_string_block:
  "push_string P s t = t\<lparr>strings := strings t @ string_block P [s]\<rparr>"
  by (simp add: push_string_def Let_def string_key varint_small)

lemma push_string_with_eq:
  assumes "\<And>out. write out = out @ s"
  shows "push_string_with P write t = push_string P s t"
  by (simp add: push_string_with_def push_string_block assms string_key varint_small Let_def
      list_update_append)

lemma push_string_cells:
  "holds_cells P cells t \<Longrightarrow> length s < 2 ^ 64 \<Longrightarrow> holds_cells P (cells @ [s]) (push_string P s t)"
  by (simp add: holds_cells_def push_string_block)

lemma string_cells_block:
  "list_all (\<lambda>s. length s < 2 ^ 64) cells \<Longrightarrow> string_cells P (string_block P cells) = Some cells"
proof (induction cells)
  case Nil
  then show ?case by (subst string_cells.simps) simp
next
  case (Cons s cells)
  then show ?case
    by (subst string_cells.simps) (simp add: string_key varint_decode)
qed

text \<open>Reading a table back: the conversion to the generated message does not panic.\<close>

lemma to_proto_cells:
  assumes "holds_cells P cells t"
  shows "to_proto P t = Some \<lparr>td_rows = rows t, td_rows_in_group = 0, td_string = cells,
    td_nulls = nulls t, td_bool = bools t, td_int32 = int32 t, td_int64 = int64 t,
    td_double = doubles t, td_row_number = row_numbers t\<rparr>"
  using assms by (simp add: to_proto_def holds_cells_def string_cells_block)

lemma encode_raw_len: "length (encode_raw P t buf) = length buf + encoded_len P t"
  by (simp add: encode_raw_def encoded_len_def uint64_length bool_length int32_length int64_length
      double_length uint64s_length)

lemma encode_raw_table:
  assumes "holds_cells P cells t" "to_proto P t = Some d"
  shows "encode_raw P t buf = buf @ table_to_vec P d"
  using assms to_proto_cells [OF assms(1)]
  by (auto simp: encode_raw_def table_bytes holds_cells_def)

text \<open>The in-place frame is the frame of the generated message.\<close>

lemma emit_frame_identical:
  assumes "holds_cells P cells t" "to_proto P t = Some d"
  shows "encode_frame P (Emit \<lparr>er_connection_id = cid, er_table = t\<rparr>) =
    encode_frame P (Request (request_default\<lparr>rq_type := mt_i32 MtEmit, rq_connection_id := cid,
      rq_emit := Some d\<rparr>))"
proof -
  have len: "length (table_to_vec P d) = encoded_len P t"
    using encode_raw_len [of t "[]"] encode_raw_table [OF assms, of "[]"] by simp
  show ?thesis
    by (simp add: encode_frame_def emit_request_frame_def request_bytes Let_def
        encode_raw_table [OF assms] len varint_len string_key)
qed

end

section \<open>The protobuf encoding\<close>

text \<open>
  The encoding the protobuf specification fixes, as an instance of the parameter: base-128
  varints, little-endian doubles, packed repeated fields (absent when empty) and fields in tag
  order. Only the decoder of responses stays open.
\<close>

fun pb_varint :: "nat \<Rightarrow> bytes" where
  "pb_varint n = (if n < 0x80 then [char_of n] else char_of (n mod 0x80 + 0x80) # pb_varint (n div 0x80))"

declare pb_varint.simps [simp del]

fun pb_read_varint :: "bytes \<Rightarrow> (nat \<times> bytes) option" where
  "pb_read_varint [] = None"
| "pb_read_varint (c # cs) =
     (if byte c < 0x80 then Some (byte c, cs)
      else map_option (\<lambda>(n, rest). (byte c - 0x80 + 0x80 * n, rest)) (pb_read_varint cs))"

definition pb_key :: "nat \<Rightarrow> nat \<Rightarrow> bytes" where
  "pb_key tag wt = pb_varint (tag * 8 + wt)"

definition pb_uint64 :: "nat \<Rightarrow> nat \<Rightarrow> bytes" where
  "pb_uint64 tag v = pb_key tag 0 @ pb_varint v"

definition pb_int32 :: "nat \<Rightarrow> i32 \<Rightarrow> bytes" where
  "pb_int32 tag i = pb_key tag 0 @ pb_varint (unat (scast i :: i64))"

definition pb_bytes :: "nat \<Rightarrow> bytes \<Rightarrow> bytes" where
  "pb_bytes tag s = pb_key tag LengthDelimited @ pb_varint (length s) @ s"

definition pb_packed :: "('a \<Rightarrow> bytes) \<Rightarrow> nat \<Rightarrow> 'a list \<Rightarrow> bytes" where
  "pb_packed enc tag xs = (if xs = [] then [] else pb_bytes tag (concat (map enc xs)))"

definition pb_opt :: "('a \<Rightarrow> bytes) \<Rightarrow> 'a option \<Rightarrow> bytes" where
  "pb_opt enc x = (case x of None \<Rightarrow> [] | Some a \<Rightarrow> enc a)"

definition pb_double :: "f64 \<Rightarrow> bytes" where
  "pb_double f = map (\<lambda>k. char_of (unat f div 256 ^ k mod 256)) [0 ..< 8]"

definition pb_bools :: "nat \<Rightarrow> bool list \<Rightarrow> bytes" where
  "pb_bools = pb_packed (\<lambda>b. [char_of (if b then 1 else 0 :: nat)])"

definition pb_int32s :: "nat \<Rightarrow> i32 list \<Rightarrow> bytes" where
  "pb_int32s = pb_packed (\<lambda>i. pb_varint (unat (scast i :: i64)))"

definition pb_int64s :: "nat \<Rightarrow> i64 list \<Rightarrow> bytes" where
  "pb_int64s = pb_packed (\<lambda>i. pb_varint (unat i))"

definition pb_table :: "table_data \<Rightarrow> bytes" where
  "pb_table d = pb_uint64 1 (td_rows d) @ concat (map (pb_bytes 2) (td_string d))
     @ pb_bools 3 (td_nulls d) @ pb_bools 4 (td_bool d)
     @ pb_int32s 5 (td_int32 d) @ pb_int64s 6 (td_int64 d)
     @ pb_packed pb_double 7 (td_double d) @ pb_uint64 8 (td_rows_in_group d)
     @ pb_packed pb_varint 9 (td_row_number d)"

definition pb_client :: "exascript_client \<Rightarrow> bytes" where
  "pb_client c = pb_bytes 1 (ec_client_name c) @ pb_opt (pb_bytes 2) (ec_meta_info c)"

definition pb_info :: "exascript_info \<Rightarrow> bytes" where
  "pb_info i = pb_bytes 1 (ei_database_name i) @ pb_bytes 2 (ei_database_version i)
     @ pb_bytes 3 (ei_script_name i) @ pb_bytes 4 (ei_source_code i)
     @ pb_uint64 5 (ei_session_id i) @ pb_uint64 6 (ei_statement_id i)
     @ pb_uint64 7 (ei_node_count i) @ pb_uint64 8 (ei_node_id i) @ pb_uint64 9 (ei_vm_id i)
     @ pb_uint64 11 (ei_maximal_memory_limit i) @ pb_opt (pb_bytes 12) (ei_meta_info i)
     @ pb_bytes 13 (ei_script_schema i) @ pb_opt (pb_bytes 14) (ei_current_user i)
     @ pb_opt (pb_bytes 15) (ei_current_schema i) @ pb_opt (pb_bytes 16) (ei_scope_user i)"

definition pb_import :: "import_req \<Rightarrow> bytes" where
  "pb_import r = pb_bytes 1 (ir_script_name r) @ pb_opt (pb_int32 2) (ir_kind r)"

definition pb_request :: "exascript_request \<Rightarrow> bytes" where
  "pb_request r = pb_int32 1 (rq_type r) @ pb_uint64 2 (rq_connection_id r)
     @ pb_opt (\<lambda>c. pb_bytes 3 (pb_client c)) (rq_client r)
     @ pb_opt (\<lambda>i. pb_bytes 4 (pb_info i)) (rq_info r)
     @ pb_opt (\<lambda>m. pb_bytes 5 (pb_opt (pb_bytes 1) m)) (rq_close r)
     @ pb_opt (\<lambda>i. pb_bytes 6 (pb_import i)) (rq_import r)
     @ pb_opt (\<lambda>d. pb_bytes 7 (pb_bytes 2 (pb_table d))) (rq_emit r)
     @ pb_opt (\<lambda>m. pb_bytes 8 (pb_bytes 1 m)) (rq_ping r)
     @ pb_opt (\<lambda>m. pb_bytes 9 (pb_bytes 1 m)) (rq_call_result r)
     @ pb_opt (\<lambda>m. pb_bytes 10 (pb_bytes 1 m)) (rq_undefined_call r)"

definition protobuf :: "(bytes \<Rightarrow> (string, exascript_response) result) \<Rightarrow> prost" where
  "protobuf dec = \<lparr>encode_varint = pb_varint, encoded_len_varint = length \<circ> pb_varint,
     decode_varint = pb_read_varint, encode_key = pb_key,
     uint64_encode = pb_uint64, uint64_len = (\<lambda>t v. length (pb_uint64 t v)),
     int32_encode = pb_int32, int32_len = (\<lambda>t v. length (pb_int32 t v)),
     bool_packed = pb_bools, bool_packed_len = (\<lambda>t v. length (pb_bools t v)),
     int32_packed = pb_int32s, int32_packed_len = (\<lambda>t v. length (pb_int32s t v)),
     int64_packed = pb_int64s, int64_packed_len = (\<lambda>t v. length (pb_int64s t v)),
     double_packed = pb_packed pb_double, double_packed_len = (\<lambda>t v. length (pb_packed pb_double t v)),
     uint64_packed = pb_packed pb_varint, uint64_packed_len = (\<lambda>t v. length (pb_packed pb_varint t v)),
     table_to_vec = pb_table, request_to_vec = pb_request, decode_response = dec\<rparr>"

lemma pb_read_varint: "pb_read_varint (pb_varint n @ rest) = Some (n, rest)"
proof (induction n rule: pb_varint.induct)
  case (1 n)
  show ?case
  proof (cases "n < 0x80")
    case True
    then show ?thesis by (subst pb_varint.simps) (simp add: byte_def)
  next
    case False
    have "(n mod 0x80 + 0x80) mod 256 = n mod 0x80 + 0x80"
      by (rule mod_less) (use mod_less_divisor [of "0x80" n] in linarith)
    then show ?thesis
      using 1 [OF False] False by (subst pb_varint.simps) (simp add: byte_def)
  qed
qed

lemma protobuf_wire: "prost_wire (protobuf dec)"
proof
  fix n :: nat
  assume "n < 0x80"
  then show "encode_varint (protobuf dec) n = [char_of n]"
    by (subst protobuf_def) (simp add: pb_varint.simps)
next
  fix tag :: nat
  assume "tag < 16"
  then show "encode_key (protobuf dec) tag LengthDelimited = [char_of (tag * 8 + LengthDelimited)]"
    by (simp add: protobuf_def pb_key_def LengthDelimited_def pb_varint.simps)
qed (simp_all add: protobuf_def pb_read_varint pb_table_def pb_request_def request_default_def
    pb_opt_def pb_bytes_def string_block_def Let_def cong: map_cong)

interpretation protobuf: prost_wire "protobuf dec" for dec
  by (rule protobuf_wire)

end
