(* ===== verification/Rowset.thy ===== *)
theory Rowset
  imports Cells Frame
begin

text \<open>
  The two row containers of \<open>exa-udf-runtime/src/rowset.rs\<close>. \<open>InputRowSet\<close> decodes a wire
  batch into rows; \<open>EmitBuffer\<close> packs output rows into the wire's type blocks. The theory
  shows that they are inverse: what a buffer packed, a row set reads back, cell by cell, up to
  the coercions of the declared columns.
\<close>

section \<open>Input rows\<close>

record ('d, 't) input_row_set =
  cells :: "('d, 't) sql_value list"
  n_rows :: nat
  n_cols :: nat
  irs_row_numbers :: "nat list"
  cur_row :: nat
  irs_rows_in_group :: nat

definition null_index :: "nat \<Rightarrow> nat \<Rightarrow> nat \<Rightarrow> nat" where
  "null_index r c width = r * width + c"

text \<open>The unread string cells and the per-type cursors of the decoding loop.\<close>

record cursors =
  strings_left :: "bytes list"
  bool_idx :: nat
  int32_idx :: nat
  int64_idx :: nat
  double_idx :: nat

definition decode_cell :: "('d, 't) ext \<Rightarrow> table_data \<Rightarrow> nat \<Rightarrow> nat \<Rightarrow> exa_type \<Rightarrow> cursors \<Rightarrow>
    (udf_error, ('d, 't) sql_value \<times> cursors) result" where
  "decode_cell E table r c typ cur =
     (let string_cell =
        (let cell = (case strings_left cur of [] \<Rightarrow> [] | s # _ \<Rightarrow> s);
             cur' = cur\<lparr>strings_left := tl (strings_left cur)\<rparr>
         in if \<not> valid_utf8 cell
            then Err (TypeErr (''input row '' @ show_nat r @ '' column '' @ show_nat c @
                   '': string cell is not valid UTF-8''))
            else Ok (decode_string_block E typ cell, cur'))
      in case typ of
           TNumeric _ _ \<Rightarrow> string_cell
         | TDate \<Rightarrow> string_cell
         | TTimestamp _ \<Rightarrow> string_cell
         | TString _ \<Rightarrow> string_cell
         | TChar _ \<Rightarrow> string_cell
         | TBoolean \<Rightarrow> Ok (VBool (nth_or False (td_bool table) (bool_idx cur)),
                          cur\<lparr>bool_idx := bool_idx cur + 1\<rparr>)
         | TInt32 \<Rightarrow> Ok (VInt32 (nth_or 0 (td_int32 table) (int32_idx cur)),
                        cur\<lparr>int32_idx := int32_idx cur + 1\<rparr>)
         | TInt64 \<Rightarrow> Ok (VInt64 (nth_or 0 (td_int64 table) (int64_idx cur)),
                        cur\<lparr>int64_idx := int64_idx cur + 1\<rparr>)
         | TDouble \<Rightarrow> Ok (VDouble (nth_or 0 (td_double table) (double_idx cur)),
                         cur\<lparr>double_idx := double_idx cur + 1\<rparr>)
         | TUnsupported \<Rightarrow> Ok (VNull, cur))"

fun decode_row :: "('d, 't) ext \<Rightarrow> table_data \<Rightarrow> nat \<Rightarrow> nat \<Rightarrow> nat \<Rightarrow> column_info list \<Rightarrow>
    ('d, 't) sql_value list \<Rightarrow> cursors \<Rightarrow> (udf_error, ('d, 't) sql_value list \<times> cursors) result" where
  "decode_row E table width r c [] out cur = Ok (out, cur)"
| "decode_row E table width r c (col # cols) out cur =
     (if nth_or False (td_nulls table) (null_index r c width)
      then decode_row E table width r (c + 1) cols (out @ [VNull]) cur
      else rbind (decode_cell E table r c (ci_typ col) cur) (\<lambda>(v, cur).
             decode_row E table width r (c + 1) cols (out @ [v]) cur))"

text \<open>The rows still to decode are counted down as the row index counts up.\<close>

fun decode_rows :: "('d, 't) ext \<Rightarrow> table_data \<Rightarrow> column_info list \<Rightarrow> nat \<Rightarrow> nat \<Rightarrow>
    ('d, 't) sql_value list \<Rightarrow> cursors \<Rightarrow> (udf_error, ('d, 't) sql_value list) result" where
  "decode_rows E table meta 0 r out cur = Ok out"
| "decode_rows E table meta (Suc left) r out cur =
     rbind (decode_row E table (length meta) r 0 meta out cur)
       (\<lambda>(out, cur). decode_rows E table meta left (r + 1) out cur)"

definition cursors_start :: "table_data \<Rightarrow> cursors" where
  "cursors_start table = \<lparr>strings_left = td_string table, bool_idx = 0, int32_idx = 0,
     int64_idx = 0, double_idx = 0\<rparr>"

definition decode :: "('d, 't) ext \<Rightarrow> table_data \<Rightarrow> column_info list \<Rightarrow> ('d, 't) sql_value list \<Rightarrow>
    (udf_error, ('d, 't) input_row_set) result" where
  "decode E table meta buffer =
     (let rows_count = td_rows table in
      rbind (decode_rows E table meta rows_count 0 buffer (cursors_start table)) (\<lambda>out.
        Ok \<lparr>cells = out, n_rows = rows_count, n_cols = length meta,
            irs_row_numbers = (if rows_count \<le> length (td_row_number table)
                               then take rows_count (td_row_number table) else [0 ..< rows_count]),
            cur_row = 0, irs_rows_in_group = td_rows_in_group table\<rparr>))"

definition from_proto :: "('d, 't) ext \<Rightarrow> table_data \<Rightarrow> column_info list \<Rightarrow>
    (udf_error, ('d, 't) input_row_set) result" where
  "from_proto E table meta = decode E table meta []"

text \<open>\<open>reload\<close> empties the cells before decoding; a failed decode leaves them empty.\<close>

definition reload :: "('d, 't) ext \<Rightarrow> table_data \<Rightarrow> column_info list \<Rightarrow> ('d, 't) input_row_set \<Rightarrow>
    (udf_error, unit) result \<times> ('d, 't) input_row_set" where
  "reload E table meta self =
     (let buffer = [] in
      case decode E table meta buffer of
        Inl e \<Rightarrow> (Err e, self\<lparr>cells := []\<rparr>)
      | Inr rs \<Rightarrow> (Ok (), rs))"

definition advance :: "('d, 't) input_row_set \<Rightarrow> bool \<times> ('d, 't) input_row_set" where
  "advance rs = (if cur_row rs + 1 < n_rows rs then (True, rs\<lparr>cur_row := cur_row rs + 1\<rparr>)
                 else (False, rs))"

text \<open>The row is a slice of the cells; a slice past their end would panic (\<open>None\<close> outside,
  \<open>Some None\<close> for an index past the last row).\<close>

definition row :: "('d, 't) input_row_set \<Rightarrow> nat \<Rightarrow> ('d, 't) sql_value list option option" where
  "row rs idx =
     (if \<not> idx < n_rows rs then Some None
      else let start = idx * n_cols rs in
        if start + n_cols rs \<le> length (cells rs)
        then Some (Some (slice start (start + n_cols rs) (cells rs))) else None)"

definition current_row :: "('d, 't) input_row_set \<Rightarrow> ('d, 't) sql_value list option" where
  "current_row rs = map_option (\<lambda>r. case r of Some vs \<Rightarrow> vs | None \<Rightarrow> []) (row rs (cur_row rs))"

definition current_row_number :: "('d, 't) input_row_set \<Rightarrow> nat" where
  "current_row_number rs = nth_or 0 (irs_row_numbers rs) (cur_row rs)"

definition irs_is_empty :: "('d, 't) input_row_set \<Rightarrow> bool" where
  "irs_is_empty rs = (n_rows rs = 0)"

section \<open>Output rows\<close>

definition EMIT_BUFFER_LIMIT_BYTES :: nat where
  "EMIT_BUFFER_LIMIT_BYTES = 4000000"

record emit_buffer =
  eb_table :: emit_table
  byte_estimate :: nat
  cumulative_bytes :: nat
  cumulative_rows :: nat
  flush_count :: nat

definition emit_buffer_new :: emit_buffer where
  "emit_buffer_new = \<lparr>eb_table = emit_table_default, byte_estimate = 0, cumulative_bytes = 0,
     cumulative_rows = 0, flush_count = 0\<rparr>"

definition account :: "nat \<Rightarrow> nat \<Rightarrow> emit_buffer \<Rightarrow> emit_buffer" where
  "account row_count cost b = b\<lparr>byte_estimate := byte_estimate b + cost,
     cumulative_bytes := cumulative_bytes b + cost,
     cumulative_rows := cumulative_rows b + row_count\<rparr>"

text \<open>\<open>None\<close> is the panic of a division \<open>value_to_i64\<close> cannot make.\<close>

definition push_cell :: "prost \<Rightarrow> ('d, 't) ext \<Rightarrow> exa_type \<Rightarrow> ('d, 't) sql_value \<Rightarrow> emit_table \<Rightarrow>
    emit_table option" where
  "push_cell P E typ v t =
     (let string_block = Some (case v of
          VString s \<Rightarrow> push_string P s t
        | other \<Rightarrow> push_string_with P (write_block_value E other) t)
      in case typ of
           TNumeric _ _ \<Rightarrow> string_block
         | TDate \<Rightarrow> string_block
         | TTimestamp _ \<Rightarrow> string_block
         | TString _ \<Rightarrow> string_block
         | TChar _ \<Rightarrow> string_block
         | TBoolean \<Rightarrow> Some (t\<lparr>bools := bools t @ [value_to_bool v]\<rparr>)
         | TInt32 \<Rightarrow> map_option (\<lambda>i. t\<lparr>int32 := int32 t @ [ucast i]\<rparr>) (value_to_i64 E v)
         | TInt64 \<Rightarrow> map_option (\<lambda>i. t\<lparr>int64 := int64 t @ [i]\<rparr>) (value_to_i64 E v)
         | TDouble \<Rightarrow> Some (t\<lparr>doubles := doubles t @ [value_to_f64 E v]\<rparr>)
         | TUnsupported \<Rightarrow> Some t)"

definition is_null :: "('d, 't) sql_value \<Rightarrow> bool" where
  "is_null v = (case v of VNull \<Rightarrow> True | _ \<Rightarrow> False)"

fun push_cells :: "prost \<Rightarrow> ('d, 't) ext \<Rightarrow> ('d, 't) sql_value list \<Rightarrow> nat \<Rightarrow> column_info list \<Rightarrow>
    emit_table \<Rightarrow> emit_table option" where
  "push_cells P E vs c [] t = Some t"
| "push_cells P E vs c (col # cols) t =
     (case nth_opt vs c of
        Some v \<Rightarrow>
          if is_null v then push_cells P E vs (c + 1) cols (t\<lparr>nulls := nulls t @ [True]\<rparr>)
          else Option.bind (push_cell P E (ci_typ col) v (t\<lparr>nulls := nulls t @ [False]\<rparr>))
                 (push_cells P E vs (c + 1) cols)
      | None \<Rightarrow> push_cells P E vs (c + 1) cols (t\<lparr>nulls := nulls t @ [True]\<rparr>))"

definition push_costed :: "prost \<Rightarrow> ('d, 't) ext \<Rightarrow> ('d, 't) sql_value list \<Rightarrow> nat \<Rightarrow>
    column_info list \<Rightarrow> nat \<Rightarrow> emit_buffer \<Rightarrow> emit_buffer option" where
  "push_costed P E vs row_number meta row_cost b =
     (let b = account 1 row_cost b in
      map_option (\<lambda>t. b\<lparr>eb_table := t\<lparr>row_numbers := row_numbers t @ [row_number],
                                     rows := rows t + 1\<rparr>\<rparr>)
        (push_cells P E vs 0 meta (eb_table b)))"

definition push :: "prost \<Rightarrow> ('d, 't) ext \<Rightarrow> ('d, 't) sql_value list \<Rightarrow> nat \<Rightarrow> column_info list \<Rightarrow>
    emit_buffer \<Rightarrow> emit_buffer option" where
  "push P E vs row_number meta b =
     (let row_cost = BYTES_ROW_NUMBER + sum_list (map value_byte_cost vs)
      in push_costed P E vs row_number meta row_cost b)"

definition should_flush :: "emit_buffer \<Rightarrow> bool" where
  "should_flush b = (EMIT_BUFFER_LIMIT_BYTES \<le> byte_estimate b)"

definition clear_buffer :: "emit_buffer \<Rightarrow> emit_buffer" where
  "clear_buffer b = b\<lparr>flush_count := flush_count b + 1, eb_table := clear_table (eb_table b),
     byte_estimate := 0\<rparr>"

text \<open>The buffer is emptied whatever \<open>send\<close> answers; \<open>'r\<close> is that answer, or a computation of it.\<close>

definition flush :: "(emit_table \<Rightarrow> 'r) \<Rightarrow> emit_buffer \<Rightarrow> 'r \<times> emit_buffer" where
  "flush send b = (send (eb_table b), clear_buffer b)"

definition take_proto :: "prost \<Rightarrow> emit_buffer \<Rightarrow> (table_data \<times> emit_buffer) option" where
  "take_proto P b = map_option (\<lambda>table. (table, clear_buffer b)) (to_proto P (eb_table b))"

definition eb_is_empty :: "emit_buffer \<Rightarrow> bool" where
  "eb_is_empty b = (rows (eb_table b) = 0)"

section \<open>What a row adds to each block\<close>

text \<open>The slots a cell takes in each type block: none when NULL, one in its column's block.\<close>

definition cell_strings :: "('d, 't) ext \<Rightarrow> exa_type \<Rightarrow> ('d, 't) sql_value \<Rightarrow> bytes list" where
  "cell_strings E typ v =
     (if is_null v \<or> \<not> is_string_family_exatype typ then [] else [write_block_value E v []])"

definition cell_bools :: "exa_type \<Rightarrow> ('d, 't) sql_value \<Rightarrow> bool list" where
  "cell_bools typ v = (if is_null v \<or> typ \<noteq> TBoolean then [] else [value_to_bool v])"

definition cell_int32s :: "('d, 't) ext \<Rightarrow> exa_type \<Rightarrow> ('d, 't) sql_value \<Rightarrow> i32 list" where
  "cell_int32s E typ v = (if is_null v \<or> typ \<noteq> TInt32 then [] else [ucast (the (value_to_i64 E v))])"

definition cell_int64s :: "('d, 't) ext \<Rightarrow> exa_type \<Rightarrow> ('d, 't) sql_value \<Rightarrow> i64 list" where
  "cell_int64s E typ v = (if is_null v \<or> typ \<noteq> TInt64 then [] else [the (value_to_i64 E v)])"

definition cell_doubles :: "('d, 't) ext \<Rightarrow> exa_type \<Rightarrow> ('d, 't) sql_value \<Rightarrow> f64 list" where
  "cell_doubles E typ v = (if is_null v \<or> typ \<noteq> TDouble then [] else [value_to_f64 E v])"

lemmas cell_block_defs =
  cell_strings_def cell_bools_def cell_int32s_def cell_int64s_def cell_doubles_def

definition row_block :: "(exa_type \<Rightarrow> 'v \<Rightarrow> 'b list) \<Rightarrow> column_info list \<Rightarrow> 'v list \<Rightarrow> 'b list" where
  "row_block f cols vs = concat (map2 (\<lambda>col. f (ci_typ col)) cols vs)"

definition rows_block :: "(exa_type \<Rightarrow> 'v \<Rightarrow> 'b list) \<Rightarrow> column_info list \<Rightarrow> 'v list list \<Rightarrow> 'b list" where
  "rows_block f cols rs = concat (map (row_block f cols) rs)"

lemma row_block_simps [simp]:
  "row_block f [] vs = []" "row_block f cols [] = []"
  "row_block f (c # cols) (v # vs) = f (ci_typ c) v @ row_block f cols vs"
  by (simp_all add: row_block_def)

lemma rows_block_simps [simp]:
  "rows_block f cols [] = []" "rows_block f cols (r # rs) = row_block f cols r @ rows_block f cols rs"
  "rows_block f cols (rs @ ss) = rows_block f cols rs @ rows_block f cols ss"
  by (simp_all add: rows_block_def)

text \<open>A table with one more row's cells, and with several rows'.\<close>

definition add_cells :: "prost \<Rightarrow> ('d, 't) ext \<Rightarrow> column_info list \<Rightarrow> ('d, 't) sql_value list \<Rightarrow>
    emit_table \<Rightarrow> emit_table" where
  "add_cells P E cols vs t = t\<lparr>
     strings := strings t @ string_block P (row_block (cell_strings E) cols vs),
     nulls := nulls t @ map is_null vs,
     bools := bools t @ row_block cell_bools cols vs,
     int32 := int32 t @ row_block (cell_int32s E) cols vs,
     int64 := int64 t @ row_block (cell_int64s E) cols vs,
     doubles := doubles t @ row_block (cell_doubles E) cols vs\<rparr>"

lemma add_cells_Nil [simp]: "add_cells P E [] [] t = t"
  by (simp add: add_cells_def)

lemma is_null_eq [simp]: "is_null v \<longleftrightarrow> v = VNull"
  by (cases v) (simp_all add: is_null_def)

text \<open>Accepted rows: what \<open>check_output_row\<close> lets through.\<close>

definition accepts_row :: "column_info list \<Rightarrow> ('d, 't) sql_value list \<Rightarrow> bool" where
  "accepts_row cols vs = list_all2 (\<lambda>col v. column_accepts (ci_typ col) v) cols vs"

lemma check_cells_ok:
  assumes "length vs = length cols"
  shows "check_cells E cost i vs cols = Ok n \<longleftrightarrow>
    accepts_row cols vs \<and> n = cost + sum_list (map value_byte_cost vs)"
  using assms
proof (induction E cost i vs cols rule: check_cells.induct)
  case (1 E cost idx v row col cols)
  then show ?case by (auto simp: accepts_row_def)
qed (auto simp: accepts_row_def)

lemma check_output_row_ok:
  "check_output_row E vs cols = Ok n \<longleftrightarrow>
    accepts_row cols vs \<and> n = BYTES_ROW_NUMBER + sum_list (map value_byte_cost vs)"
  by (auto simp: check_output_row_def check_cells_ok accepts_row_def dest: list_all2_lengthD)

text \<open>An accepted integer never reaches a division.\<close>

lemma accepts_to_i64:
  assumes "column_accepts ty v" "v \<noteq> VNull" "ty = TInt32 \<or> ty = TInt64"
  shows "\<exists>i. value_to_i64 E v = Some i"
proof -
  have "(\<exists>i. v = VInt32 i) \<or> (\<exists>i. v = VInt64 i)"
    using assms by (cases v) (elim disjE; simp add: column_accepts_def)+
  then show ?thesis by (auto simp: value_to_i64_def)
qed

text \<open>A cell the buffer packs without a panic, whether or not the row check would let it in.\<close>

definition packs :: "('d, 't) ext \<Rightarrow> exa_type \<Rightarrow> ('d, 't) sql_value \<Rightarrow> bool" where
  "packs E ty v \<longleftrightarrow> v \<noteq> VNull \<and> (ty = TInt32 \<or> ty = TInt64 \<longrightarrow> value_to_i64 E v \<noteq> None)"

definition packs_row :: "('d, 't) ext \<Rightarrow> column_info list \<Rightarrow> ('d, 't) sql_value list \<Rightarrow> bool" where
  "packs_row E cols vs = list_all2 (\<lambda>col v. v = VNull \<or> packs E (ci_typ col) v) cols vs"

lemma accepts_packs: "accepts_row cols vs \<Longrightarrow> packs_row E cols vs"
  unfolding accepts_row_def packs_row_def
  by (erule list_all2_mono) (auto simp: packs_def dest: accepts_to_i64)

context prost_wire
begin

lemma push_string_with_block:
  "push_string_with P (write_block_value E v) t =
    t\<lparr>strings := strings t @ string_block P [write_block_value E v []]\<rparr>"
  unfolding push_string_with_eq [OF write_block_value_append] by (rule push_string_block)

lemma push_cell_eq:
  assumes "packs E ty v"
  shows "push_cell P E ty v t = Some (t\<lparr>
     strings := strings t @ string_block P (cell_strings E ty v),
     bools := bools t @ cell_bools ty v, int32 := int32 t @ cell_int32s E ty v,
     int64 := int64 t @ cell_int64s E ty v, doubles := doubles t @ cell_doubles E ty v\<rparr>)"
proof -
  have str: "(case v of VString s \<Rightarrow> push_string P s t
        | other \<Rightarrow> push_string_with P (write_block_value E other) t) =
      t\<lparr>strings := strings t @ string_block P [write_block_value E v []]\<rparr>"
    by (cases v) (simp_all only: push_string_with_block push_string_block sql_value.case
        write_block_value_def append_Nil)
  show ?thesis
    using assms
    by (cases ty) (auto simp: packs_def push_cell_def str cell_block_defs is_string_family_exatype_def Let_def)
qed

lemma push_cells_eq:
  assumes "packs_row E cols vs" "vs = drop c all_vs"
  shows "push_cells P E all_vs c cols t = Some (add_cells P E cols vs t)"
  using assms
proof (induction cols arbitrary: vs c t)
  case Nil
  then show ?case by (simp add: packs_row_def)
next
  case (Cons col cols)
  then obtain v vs' where vs: "vs = v # vs'" and acc: "v = VNull \<or> packs E (ci_typ col) v"
    and rest: "packs_row E cols vs'" by (auto simp: packs_row_def list_all2_Cons1)
  have nth: "nth_opt all_vs c = Some v" "vs' = drop (c + 1) all_vs"
    using nth_opt_drop [of c all_vs v vs'] drop_Suc_tl [of c all_vs v vs'] Cons.prems(2) vs
    by simp_all
  show ?case
  proof (cases "v = VNull")
    case True
    then show ?thesis
      using Cons.IH [OF rest nth(2)] nth vs
      by (simp add: add_cells_def cell_block_defs)
  next
    case False
    then show ?thesis
      using Cons.IH [OF rest nth(2)] nth vs push_cell_eq [of E "ci_typ col" v] acc
      by (simp add: add_cells_def packs_def)
  qed
qed

lemma push_costed_eq:
  assumes "packs_row E cols vs"
  shows "push_costed P E vs n cols cost b = Some (account 1 cost b\<lparr>eb_table :=
    (add_cells P E cols vs (eb_table b))\<lparr>row_numbers := row_numbers (eb_table b) @ [n],
      rows := rows (eb_table b) + 1\<rparr>\<rparr>)"
proof -
  have "push_cells P E vs 0 cols t = Some (add_cells P E cols vs t)" for t
    by (rule push_cells_eq [OF assms]) simp
  then show ?thesis
    by (simp add: push_costed_def Let_def account_def add_cells_def)
qed

end

section \<open>Reading a row's slots\<close>

text \<open>The cursors sit before the given slots of a batch's blocks.\<close>

definition cursors_at :: "table_data \<Rightarrow> cursors \<Rightarrow> bytes list \<Rightarrow> bool list \<Rightarrow> i32 list \<Rightarrow> i64 list \<Rightarrow>
    f64 list \<Rightarrow> bool" where
  "cursors_at td cur ss bs is ls fs \<longleftrightarrow> strings_left cur = ss \<and>
     drop (bool_idx cur) (td_bool td) = bs \<and> drop (int32_idx cur) (td_int32 td) = is \<and>
     drop (int64_idx cur) (td_int64 td) = ls \<and> drop (double_idx cur) (td_double td) = fs"

lemma cursors_start_at: "cursors_at td (cursors_start td) (td_string td) (td_bool td) (td_int32 td)
    (td_int64 td) (td_double td)"
  by (simp add: cursors_at_def cursors_start_def)

text \<open>What each fixed-width column accepts, and the value after the round trip through its
  block.\<close>

lemma accepts_fixed:
  "column_accepts TBoolean v \<longleftrightarrow> v = VNull \<or> (\<exists>b. v = VBool b)"
  "column_accepts TInt64 v \<longleftrightarrow> v = VNull \<or> (\<exists>i. v = VInt32 i) \<or> (\<exists>i. v = VInt64 i)"
  "column_accepts TInt32 v \<longleftrightarrow> v = VNull \<or> (\<exists>i. v = VInt32 i) \<or>
     (\<exists>i. v = VInt64 i \<and> - (2 ^ 31) \<le> sint i \<and> sint i < 2 ^ 31)"
  "column_accepts TDouble v \<longleftrightarrow> v = VNull \<or> (\<exists>f. v = VDouble f)"
  "column_accepts TUnsupported v"
  by (cases v; simp add: column_accepts_def)+

lemma canon_Null [simp]: "canon ty VNull = VNull"
  by (cases ty) (simp_all add: canon_def)

lemma canon_Unsupported [simp]: "canon TUnsupported v = VNull"
  by (cases v) (simp_all add: canon_def)

lemma canon_simps [simp]:
  "canon TBoolean (VBool b) = VBool b"
  "canon TInt32 (VInt32 i) = VInt32 i"
  "canon TInt32 (VInt64 l) = VInt32 (ucast l)"
  "canon TInt64 (VInt32 i) = VInt64 (scast i)"
  "canon TInt64 (VInt64 l) = VInt64 l"
  "canon TDouble (VDouble f) = VDouble f"
  by (simp_all add: canon_def)

lemma ucast_scast_32: "ucast (scast (i :: i32) :: i64) = i"
proof (rule bit_word_eqI)
  fix n
  assume "n < LENGTH(32)"
  then have "n = 31 \<or> n < 31" by simp linarith
  then show "bit (ucast (scast i :: i64) :: i32) n = bit i n"
    by (auto simp: bit_ucast_iff bit_signed_iff min_def)
qed

lemma canon_fixed:
  assumes "column_accepts ty v" "v \<noteq> VNull"
  shows "ty = TBoolean \<longrightarrow> canon ty v = VBool (value_to_bool v)"
    "ty = TInt32 \<longrightarrow> canon ty v = VInt32 (ucast (the (value_to_i64 E v)))"
    "ty = TInt64 \<longrightarrow> canon ty v = VInt64 (the (value_to_i64 E v))"
    "ty = TDouble \<longrightarrow> canon ty v = VDouble (value_to_f64 E v)"
  using assms
  by (auto simp: accepts_fixed value_to_bool_def value_to_i64_def value_to_f64_def ucast_scast_32)

context cell_ext
begin

lemma decode_cell_block:
  assumes "column_accepts ty v" "v \<noteq> VNull" "wire_value E v"
    and "cursors_at td cur (cell_strings E ty v @ ss) (cell_bools ty v @ bs) (cell_int32s E ty v @ is)
      (cell_int64s E ty v @ ls) (cell_doubles E ty v @ fs)"
  shows "\<exists>cur'. decode_cell E td r c ty cur = Ok (canon ty v, cur') \<and>
    cursors_at td cur' ss bs is ls fs"
proof (cases "is_string_family_exatype ty")
  case True
  have "valid_utf8 (write_block_value E v [])"
    "decode_string_block E ty (write_block_value E v []) = canon ty v"
    using string_cell_roundtrip [OF True assms(1-3)] by simp_all
  then show ?thesis
    using True assms
    by (cases ty) (auto simp: decode_cell_def Let_def cell_block_defs cursors_at_def
        is_string_family_exatype_def)
next
  case False
  then show ?thesis
    using canon_fixed [OF assms(1,2)] assms(2,4)
    by (cases ty) (auto simp: decode_cell_def Let_def cell_block_defs cursors_at_def
        is_string_family_exatype_def nth_or_drop drop_Suc_tl)
qed

end

lemma is_null_abs [simp]: "is_null = (\<lambda>v. v = VNull)"
  by (rule ext) simp

text \<open>The values of a row as its columns carry them.\<close>

definition canon_row :: "column_info list \<Rightarrow> ('d, 't) sql_value list \<Rightarrow> ('d, 't) sql_value list" where
  "canon_row cols vs = map2 (\<lambda>col. canon (ci_typ col)) cols vs"

lemma length_canon_row: "length vs = length cols \<Longrightarrow> length (canon_row cols vs) = length cols"
  by (simp add: canon_row_def)

lemma cell_block_Null [simp]:
  "cell_strings E ty VNull = []" "cell_bools ty VNull = []" "cell_int32s E ty VNull = []"
  "cell_int64s E ty VNull = []" "cell_doubles E ty VNull = []"
  by (simp_all add: cell_block_defs)

context cell_ext
begin

lemma decode_row_block:
  assumes "accepts_row cols vs" "list_all (wire_value E) vs"
    and "cursors_at td cur (row_block (cell_strings E) cols vs @ ss) (row_block cell_bools cols vs @ bs)
      (row_block (cell_int32s E) cols vs @ is) (row_block (cell_int64s E) cols vs @ ls)
      (row_block (cell_doubles E) cols vs @ fs)"
    and "drop (null_index r c width) (td_nulls td) = map is_null vs @ ns"
  shows "\<exists>cur'. decode_row E td width r c cols out cur = Ok (out @ canon_row cols vs, cur') \<and>
    cursors_at td cur' ss bs is ls fs"
  using assms
proof (induction cols arbitrary: vs c out cur)
  case Nil
  then show ?case by (simp add: accepts_row_def canon_row_def)
next
  case (Cons col cols)
  then obtain v vs' where vs: "vs = v # vs'" and acc: "column_accepts (ci_typ col) v"
    and rest: "accepts_row cols vs'" by (auto simp: accepts_row_def list_all2_Cons1)
  have null: "nth_or False (td_nulls td) (null_index r c width) = is_null v"
    and nulls: "drop (null_index r (c + 1) width) (td_nulls td) = map is_null vs' @ ns"
    using Cons.prems(4) vs nth_or_drop drop_Suc_tl by (force simp: null_index_def)+
  have wire: "wire_value E v" "list_all (wire_value E) vs'" using Cons.prems(2) vs by simp_all
  show ?case
  proof (cases "v = VNull")
    case True
    then show ?thesis
      using Cons.IH [OF rest wire(2) _ nulls, of cur "out @ [VNull]"] Cons.prems(3) vs null
      by (auto simp: canon_row_def)
  next
    case False
    obtain cur' where step: "decode_cell E td r c (ci_typ col) cur = Ok (canon (ci_typ col) v, cur')"
      and "at": "cursors_at td cur' (row_block (cell_strings E) cols vs' @ ss) (row_block cell_bools cols vs' @ bs)
        (row_block (cell_int32s E) cols vs' @ is) (row_block (cell_int64s E) cols vs' @ ls)
        (row_block (cell_doubles E) cols vs' @ fs)"
      using decode_cell_block [OF acc False wire(1)] Cons.prems(3) vs by fastforce
    show ?thesis
      using Cons.IH [OF rest wire(2) "at" nulls, of "out @ [canon (ci_typ col) v]"] False vs null step
      by (simp add: canon_row_def)
  qed
qed

lemma decode_rows_block:
  assumes "list_all (accepts_row cols) rs" "list_all (list_all (wire_value E)) rs"
    and "cursors_at td cur (rows_block (cell_strings E) cols rs) (rows_block cell_bools cols rs)
      (rows_block (cell_int32s E) cols rs) (rows_block (cell_int64s E) cols rs)
      (rows_block (cell_doubles E) cols rs)"
    and "drop (r * length cols) (td_nulls td) = concat (map (map is_null) rs)"
  shows "decode_rows E td cols (length rs) r out cur = Ok (out @ concat (map (canon_row cols) rs))"
  using assms
proof (induction rs arbitrary: r out cur)
  case Nil
  then show ?case by simp
next
  case (Cons vs rs)
  have len: "length vs = length cols"
    using Cons.prems(1) by (auto simp: accepts_row_def dest: list_all2_lengthD)
  have first: "drop (null_index r 0 (length cols)) (td_nulls td) =
      map is_null vs @ concat (map (map is_null) rs)"
    using Cons.prems(4) by (simp add: null_index_def)
  then have "drop (length vs) (drop (r * length cols) (td_nulls td)) = concat (map (map is_null) rs)"
    by (simp add: null_index_def)
  then have rest: "drop ((r + 1) * length cols) (td_nulls td) = concat (map (map is_null) rs)"
    by (simp add: len add.commute)
  obtain cur' where "decode_row E td (length cols) r 0 cols out cur = Ok (out @ canon_row cols vs, cur')"
    and "at": "cursors_at td cur' (rows_block (cell_strings E) cols rs) (rows_block cell_bools cols rs)
      (rows_block (cell_int32s E) cols rs) (rows_block (cell_int64s E) cols rs)
      (rows_block (cell_doubles E) cols rs)"
    using decode_row_block [OF _ _ _ first, of cols cur] Cons.prems(1-3) by fastforce
  then show ?case
    using Cons.IH [OF _ _ "at" rest] Cons.prems(1,2) by simp
qed

end

section \<open>The contents of a buffer\<close>

text \<open>
  A buffer holds a list of rows with their row numbers: its table is exactly the blocks of
  those rows.
\<close>

definition table_of :: "prost \<Rightarrow> ('d, 't) ext \<Rightarrow> column_info list \<Rightarrow> (('d, 't) sql_value list \<times> nat) list \<Rightarrow>
    emit_table" where
  "table_of P E cols rs = \<lparr>rows = length rs,
     strings = string_block P (rows_block (cell_strings E) cols (map fst rs)),
     nulls = concat (map (map is_null) (map fst rs)),
     bools = rows_block cell_bools cols (map fst rs),
     int32 = rows_block (cell_int32s E) cols (map fst rs),
     int64 = rows_block (cell_int64s E) cols (map fst rs),
     doubles = rows_block (cell_doubles E) cols (map fst rs),
     row_numbers = map snd rs\<rparr>"

definition row_cost :: "('d, 't) sql_value list \<Rightarrow> nat" where
  "row_cost vs = BYTES_ROW_NUMBER + sum_list (map value_byte_cost vs)"

definition buffer_holds :: "prost \<Rightarrow> ('d, 't) ext \<Rightarrow> column_info list \<Rightarrow>
    (('d, 't) sql_value list \<times> nat) list \<Rightarrow> emit_buffer \<Rightarrow> bool" where
  "buffer_holds P E cols rs b \<longleftrightarrow> eb_table b = table_of P E cols rs \<and>
     byte_estimate b = sum_list (map (row_cost \<circ> fst) rs)"

lemma buffer_holds_new: "buffer_holds P E cols [] emit_buffer_new" "buffer_holds P E cols [] (clear_buffer b)"
  by (simp_all add: buffer_holds_def emit_buffer_new_def table_of_def emit_table_default_def
      clear_buffer_def clear_table_def)

definition push_rows :: "prost \<Rightarrow> ('d, 't) ext \<Rightarrow> column_info list \<Rightarrow> (('d, 't) sql_value list \<times> nat) list \<Rightarrow>
    emit_buffer \<Rightarrow> emit_buffer option" where
  "push_rows P E cols rs b =
     foldl (\<lambda>ob (vs, n). Option.bind ob (push P E vs n cols)) (Some b) rs"

lemma push_eq_costed: "push P E vs n cols b = push_costed P E vs n cols (row_cost vs) b"
  by (simp add: push_def row_cost_def)

context prost_wire
begin

lemma push_holds:
  assumes "buffer_holds P E cols rs b" "packs_row E cols vs"
  shows "\<exists>b'. push_costed P E vs n cols (row_cost vs) b = Some b' \<and> buffer_holds P E cols (rs @ [(vs, n)]) b'"
  using assms push_costed_eq [OF assms(2), of n "row_cost vs" b]
  by (simp add: buffer_holds_def table_of_def account_def add_cells_def)

lemma push_rows_holds:
  assumes "buffer_holds P E cols rs b" "list_all (packs_row E cols \<circ> fst) new"
  shows "\<exists>b'. push_rows P E cols new b = Some b' \<and> buffer_holds P E cols (rs @ new) b'"
  using assms
proof (induction new arbitrary: rs b)
  case Nil
  then show ?case by (simp add: push_rows_def)
next
  case (Cons x new)
  obtain vs n where x: "x = (vs, n)" by force
  obtain b' where "push P E vs n cols b = Some b'" "buffer_holds P E cols (rs @ [(vs, n)]) b'"
    using push_holds [of E cols rs b vs n] Cons.prems by (auto simp: push_eq_costed x)
  then show ?case
    using Cons.IH [of "rs @ [(vs, n)]" b'] Cons.prems(2) by (simp add: push_rows_def x)
qed

lemma take_proto_holds:
  assumes "buffer_holds P E cols rs b"
    and "list_all (\<lambda>s. length s < 2 ^ 64) (rows_block (cell_strings E) cols (map fst rs))"
  shows "\<exists>td. take_proto P b = Some (td, clear_buffer b) \<and> to_proto P (eb_table b) = Some td \<and>
    td_rows td = length rs \<and>
    td_string td = rows_block (cell_strings E) cols (map fst rs) \<and>
    td_nulls td = concat (map (map is_null) (map fst rs)) \<and>
    td_bool td = rows_block cell_bools cols (map fst rs) \<and>
    td_int32 td = rows_block (cell_int32s E) cols (map fst rs) \<and>
    td_int64 td = rows_block (cell_int64s E) cols (map fst rs) \<and>
    td_double td = rows_block (cell_doubles E) cols (map fst rs) \<and>
    td_row_number td = map snd rs \<and> td_rows_in_group td = 0"
proof -
  have "holds_cells P (rows_block (cell_strings E) cols (map fst rs)) (eb_table b)"
    using assms by (simp add: holds_cells_def buffer_holds_def table_of_def)
  then show ?thesis
    using assms by (simp add: take_proto_def to_proto_cells buffer_holds_def table_of_def)
qed

end

locale wire = prost_wire P + cell_ext E for P :: prost and E :: "('d, 't) ext"
begin

lemma buffer_roundtrip:
  assumes "buffer_holds P E cols rs b" "list_all (accepts_row cols \<circ> fst) rs"
    and "list_all (list_all (wire_value E) \<circ> fst) rs"
    and "list_all (\<lambda>s. length s < 2 ^ 64) (rows_block (cell_strings E) cols (map fst rs))"
  shows "\<exists>td. take_proto P b = Some (td, clear_buffer b) \<and>
    from_proto E td cols = Ok \<lparr>cells = concat (map (canon_row cols \<circ> fst) rs), n_rows = length rs,
      n_cols = length cols, irs_row_numbers = map snd rs, cur_row = 0, irs_rows_in_group = 0\<rparr>"
proof -
  obtain td where td: "take_proto P b = Some (td, clear_buffer b)" "td_rows td = length rs"
    "td_string td = rows_block (cell_strings E) cols (map fst rs)"
    "td_nulls td = concat (map (map is_null) (map fst rs))"
    "td_bool td = rows_block cell_bools cols (map fst rs)"
    "td_int32 td = rows_block (cell_int32s E) cols (map fst rs)"
    "td_int64 td = rows_block (cell_int64s E) cols (map fst rs)"
    "td_double td = rows_block (cell_doubles E) cols (map fst rs)"
    "td_row_number td = map snd rs" "td_rows_in_group td = 0"
    using take_proto_holds [OF assms(1,4)] by blast
  have "decode_rows E td cols (length (map fst rs)) 0 [] (cursors_start td) =
      Ok ([] @ concat (map (canon_row cols) (map fst rs)))"
    using assms(2,3) cursors_start_at [of td] td
    by (intro decode_rows_block) (simp_all add: list.pred_map)
  then show ?thesis
    using td by (simp add: from_proto_def decode_def)
qed

end

end
