(* ===== verification/Civil.thy ===== *)
theory Civil
  imports Cells
begin

text \<open>
  The calendar arithmetic of \<open>exa-udf-runtime/src/emit_pack.rs\<close>: \<open>civil_from_days\<close>, the two
  month tables and the one-year cache. The theory shows that \<open>civil_from_days\<close> inverts the
  day count of the proleptic Gregorian calendar and that the cache never changes its answer.
  Days come from an \<open>i32\<close>, or an \<open>i64\<close> of seconds, so none of the \<open>i64\<close> sums can wrap: they are
  integers here.
\<close>

section \<open>Code\<close>

definition civil_from_days :: "int \<Rightarrow> int \<times> nat \<times> nat" where
  "civil_from_days days =
     (let z = days + 719468;
          era = z div 146097;
          doe = z mod 146097;
          yoe = (doe - doe div 1460 + doe div 36524 - doe div 146096) div 365;
          doy = doe - (365 * yoe + yoe div 4 - yoe div 100);
          mp = (5 * doy + 2) div 153;
          day = doy - (153 * mp + 2) div 5 + 1;
          month = (if mp < 10 then mp + 3 else mp - 9);
          year = yoe + era * 400 + (if month \<le> 2 then 1 else 0)
      in (year, nat month, nat day))"

definition is_leap :: "int \<Rightarrow> bool" where
  "is_leap year = (year mod 4 = 0 \<and> (year mod 100 \<noteq> 0 \<or> year mod 400 = 0))"

definition DAYS_BEFORE_MONTH :: "nat list list" where
  "DAYS_BEFORE_MONTH =
     [[0, 31, 59, 90, 120, 151, 181, 212, 243, 273, 304, 334],
      [0, 31, 60, 91, 121, 152, 182, 213, 244, 274, 305, 335]]"

text \<open>The three nested loops that fill \<open>MONTH_OF_DOY\<close>.\<close>

function doy_loop :: "nat \<Rightarrow> nat \<Rightarrow> nat \<Rightarrow> nat list \<Rightarrow> nat list" where
  "doy_loop month doy end table =
     (if doy < end then doy_loop month (doy + 1) end (table[doy := month + 1]) else table)"
  by pat_completeness auto
termination
  by (relation "measure (\<lambda>(_, doy, end, _). end - doy)") auto

function month_loop :: "nat \<Rightarrow> nat \<Rightarrow> nat list \<Rightarrow> nat list" where
  "month_loop leap month table =
     (if month < 12 then
        let start = DAYS_BEFORE_MONTH ! leap ! month;
            end = (if month < 11 then DAYS_BEFORE_MONTH ! leap ! (month + 1) else 365 + leap)
        in month_loop leap (month + 1) (doy_loop month start end table)
      else table)"
  by pat_completeness auto
termination
  by (relation "measure (\<lambda>(_, month, _). 12 - month)") auto

declare doy_loop.simps [simp del] month_loop.simps [simp del]

function leap_loop :: "nat \<Rightarrow> nat list list \<Rightarrow> nat list list" where
  "leap_loop leap table =
     (if leap < 2 then leap_loop (leap + 1) (table[leap := month_loop leap 0 (table ! leap)]) else table)"
  by pat_completeness auto
termination
  by (relation "measure (\<lambda>(leap, _). 2 - leap)") simp_all

declare leap_loop.simps [simp del]

definition MONTH_OF_DOY :: "nat list list" where
  "MONTH_OF_DOY = leap_loop 0 (replicate 2 (replicate 366 0))"

record year_cache =
  yc_start :: int
  yc_len :: int
  yc_year :: int
  yc_leap :: nat

definition year_cache_default :: year_cache where
  "year_cache_default = \<lparr>yc_start = 0, yc_len = 0, yc_year = 0, yc_leap = 0\<rparr>"

definition civil :: "int \<Rightarrow> year_cache \<Rightarrow> (int \<times> nat \<times> nat) \<times> year_cache" where
  "civil days self =
     (let doy = days - yc_start self;
          (doy, self) =
            (if doy < 0 \<or> yc_len self \<le> doy then
               let (year, month, day) = civil_from_days days;
                   leap = (if is_leap year then 1 else 0);
                   doy = int (DAYS_BEFORE_MONTH ! leap ! (month - 1)) + int day - 1
               in (doy, \<lparr>yc_start = days - doy, yc_len = 365 + int leap, yc_year = year, yc_leap = leap\<rparr>)
             else (doy, self));
          month = MONTH_OF_DOY ! yc_leap self ! nat doy;
          day = nat doy - DAYS_BEFORE_MONTH ! yc_leap self ! (month - 1) + 1
      in ((yc_year self, month, day), self))"

section \<open>The Gregorian calendar\<close>

definition leap_index :: "int \<Rightarrow> nat" where
  "leap_index y = (if is_leap y then 1 else 0)"

definition month_end :: "nat \<Rightarrow> nat \<Rightarrow> nat" where
  "month_end leap m = (if m < 12 then DAYS_BEFORE_MONTH ! leap ! m else 365 + leap)"

definition valid_date :: "int \<Rightarrow> nat \<Rightarrow> nat \<Rightarrow> bool" where
  "valid_date y m d \<longleftrightarrow> 1 \<le> m \<and> m \<le> 12 \<and> 1 \<le> d \<and>
     DAYS_BEFORE_MONTH ! leap_index y ! (m - 1) + d \<le> month_end (leap_index y) m"

text \<open>The days before a year, and the number of a date, both counted from 0001-01-01 = 1.\<close>

definition days_before_year :: "int \<Rightarrow> int" where
  "days_before_year y = 365 * (y - 1) + (y - 1) div 4 - (y - 1) div 100 + (y - 1) div 400"

definition ce_day :: "int \<Rightarrow> nat \<Rightarrow> nat \<Rightarrow> int" where
  "ce_day y m d = days_before_year y + int (DAYS_BEFORE_MONTH ! leap_index y ! (m - 1)) + int d"

definition EPOCH_CE_DAY :: int where
  "EPOCH_CE_DAY = 719163"

section \<open>\<open>civil_from_days\<close> inverts the day count\<close>

definition era_numerator :: "int \<Rightarrow> int" where
  "era_numerator doe = doe - doe div 1460 + doe div 36524 - doe div 146096"

definition era_year_start :: "int \<Rightarrow> int" where
  "era_year_start y = 365 * y + y div 4 - y div 100"

lemma era_numerator_step:
  assumes "0 \<le> d" "d < 146096"
  shows "era_numerator d \<le> era_numerator (d + 1)"
proof (cases "d + 1 = 146096")
  case True
  then have "d = 146095" by simp
  then show ?thesis by (simp add: era_numerator_def)
next
  case False
  have "(d + 1) div 1460 \<le> d div 1460 + 1" by linarith
  moreover have "d div 36524 \<le> (d + 1) div 36524" by (rule zdiv_mono1) simp_all
  moreover have "d div 146096 = 0" "(d + 1) div 146096 = 0" using assms False by simp_all
  ultimately show ?thesis unfolding era_numerator_def by linarith
qed

lemma era_numerator_mono:
  assumes "0 \<le> a" "a \<le> b" "b \<le> 146096"
  shows "era_numerator a \<le> era_numerator b"
  using assms(2,3)
proof (induction b rule: int_ge_induct)
  case base
  then show ?case by simp
next
  case (step i)
  then show ?case using era_numerator_step [of i] assms(1) by simp
qed

text \<open>Each year of an era ends before the next one's numerator.\<close>

definition era_year_ok :: "int \<Rightarrow> bool" where
  "era_year_ok y \<longleftrightarrow>
     365 * y \<le> era_numerator (era_year_start y) \<and>
     era_numerator (if y = 399 then 146096 else era_year_start (y + 1) - 1) < 365 * (y + 1)"

lemma era_years_ok: "list_all era_year_ok [0..399]"
  by code_simp

lemma era_year_start_mono: "a \<le> b \<Longrightarrow> 0 \<le> a \<Longrightarrow> era_year_start a \<le> era_year_start b"
proof -
  assume ab: "a \<le> b" "0 \<le> a"
  have "b div 100 \<le> a div 100 + (b - a)"
    using ab by linarith
  moreover have "a div 4 \<le> b div 4" using ab by (intro zdiv_mono1) simp_all
  ultimately show ?thesis unfolding era_year_start_def using ab by linarith
qed

text \<open>The year of the era, read off the numerator.\<close>

lemma year_of_era:
  assumes "0 \<le> doe" "doe < 146097"
  defines "y \<equiv> era_numerator doe div 365"
  shows "0 \<le> y" "y < 400" "era_year_start y \<le> doe"
    "doe < (if y = 399 then 146097 else era_year_start (y + 1))"
proof -
  have ok: "era_year_ok k" if "0 \<le> k" "k < 400" for k
    using era_years_ok that by (simp add: list_all_iff)
  have "era_numerator 0 \<le> era_numerator doe" "era_numerator doe \<le> era_numerator 146096"
    using assms by (intro era_numerator_mono; simp)+
  then have num: "0 \<le> era_numerator doe" "era_numerator doe < 146000"
    by (simp_all add: era_numerator_def)
  then show y: "0 \<le> y" "y < 400" by (simp_all add: y_def pos_imp_zdiv_nonneg_iff div_less_iff_less_mult)
  have bounds: "365 * y \<le> era_numerator doe" "era_numerator doe < 365 * (y + 1)"
    using div_mult_mod_eq [of "era_numerator doe" 365] pos_mod_bound [of 365 "era_numerator doe"]
      pos_mod_sign [of 365 "era_numerator doe"]
    unfolding y_def [symmetric] by (simp_all add: mult.commute)
  show "era_year_start y \<le> doe"
  proof (rule ccontr)
    assume "\<not> era_year_start y \<le> doe"
    then have lt: "doe < era_year_start y" by simp
    then have "y \<noteq> 0" using assms by (auto simp: era_year_start_def)
    then have prev: "era_year_ok (y - 1)" "y - 1 \<noteq> 399" using ok [of "y - 1"] y by simp_all
    have "era_year_start 399 = 145731" by (simp add: era_year_start_def)
    then have "era_year_start y \<le> 145731"
      using y era_year_start_mono [of y 399] by simp
    then have "era_numerator doe \<le> era_numerator (era_year_start y - 1)"
      using lt assms(1) by (intro era_numerator_mono) simp_all
    then show False using prev bounds by (simp add: era_year_ok_def)
  qed
  show "doe < (if y = 399 then 146097 else era_year_start (y + 1))"
  proof (rule ccontr)
    assume n: "\<not> ?thesis"
    then have "y \<noteq> 399" and le: "era_year_start (y + 1) \<le> doe" using assms by (auto split: if_splits)
    then have "era_year_ok (y + 1)" using ok [of "y + 1"] y by simp
    moreover have "0 \<le> era_year_start (y + 1)"
      using era_year_start_mono [of 0 "y + 1"] y by (simp add: era_year_start_def)
    then have "era_numerator (era_year_start (y + 1)) \<le> era_numerator doe"
      using le assms by (intro era_numerator_mono) simp_all
    ultimately show False using bounds by (simp add: era_year_ok_def)
  qed
qed

text \<open>How the quotients of a leap rule move from one year to the next.\<close>

lemma div_next:
  fixes y k :: int
  assumes "0 < k"
  shows "(y + 1) div k = y div k + (if (y + 1) mod k = 0 then 1 else 0)"
proof -
  have "y = k * (y div k) + y mod k" by simp
  then have eq: "y + 1 = k * (y div k) + (y mod k + 1)" by linarith
  have sign: "0 \<le> y mod k" "y mod k < k" using assms by simp_all
  show ?thesis
  proof (cases "y mod k + 1 = k")
    case True
    then have "y + 1 = k * (y div k + 1)" using eq by (simp add: distrib_left)
    then show ?thesis using assms by simp
  next
    case False
    then have r: "0 \<le> y mod k + 1" "y mod k + 1 < k" using sign by simp_all
    have "(y + 1) div k = y div k" "(y + 1) mod k = y mod k + 1"
      by (rule int_div_pos_eq [OF eq r], rule int_mod_pos_eq [OF eq r])
    then show ?thesis using sign by simp
  qed
qed

lemma mod_leap:
  fixes y :: int
  shows "y mod 400 = 0 \<Longrightarrow> y mod 100 = 0" "y mod 100 = 0 \<Longrightarrow> y mod 4 = 0"
proof -
  have d: "(100 :: int) dvd 400" "(4 :: int) dvd 100" by simp_all
  show "y mod 400 = 0 \<Longrightarrow> y mod 100 = 0"
    unfolding mod_eq_0_iff_dvd by (rule dvd_trans [OF d(1)])
  show "y mod 100 = 0 \<Longrightarrow> y mod 4 = 0"
    unfolding mod_eq_0_iff_dvd by (rule dvd_trans [OF d(2)])
qed

lemma quotients_arith:
  fixes p :: int
  assumes "p' = p + a" "q' = q + b" "r' = r + c" "a - b + c = l"
  shows "p' - q' + r' = p - q + r + l"
  using assms by simp

lemma is_leap_step: "(y + 1) div 4 - (y + 1) div 100 + (y + 1) div 400 =
    y div 4 - y div 100 + y div 400 + (if is_leap (y + 1) then 1 else 0)"
proof -
  have count: "(if a then 1 else 0) - (if b then 1 else 0) + (if c then 1 else 0) =
      (if a \<and> (\<not> b \<or> c) then 1 else (0 :: int))" if "c \<longrightarrow> b" "b \<longrightarrow> a" for a b c
    using that by (cases a; cases b; cases c) simp_all
  define a b c where "a \<longleftrightarrow> (y + 1) mod 4 = 0" and "b \<longleftrightarrow> (y + 1) mod 100 = 0"
    and "c \<longleftrightarrow> (y + 1) mod 400 = 0"
  have quotients: "(y + 1) div 4 = y div 4 + (if a then 1 else 0)"
    "(y + 1) div 100 = y div 100 + (if b then 1 else 0)"
    "(y + 1) div 400 = y div 400 + (if c then 1 else 0)"
    unfolding a_def b_def c_def by (rule div_next, simp)+
  have leap: "is_leap (y + 1) \<longleftrightarrow> a \<and> (\<not> b \<or> c)"
    by (simp add: is_leap_def a_def b_def c_def)
  have "c \<longrightarrow> b" "b \<longrightarrow> a"
    unfolding a_def b_def c_def by (rule impI, erule mod_leap)+
  then show ?thesis unfolding leap by (intro quotients_arith [OF quotients] count)
qed

lemma is_leap_prev: "y div 4 - y div 100 + y div 400 =
    (y - 1) div 4 - (y - 1) div 100 + (y - 1) div 400 + (if is_leap y then 1 else 0)"
  using is_leap_step [of "y - 1"] by (simp only: diff_add_cancel)

text \<open>The month and day of a March-based day of year.\<close>

definition march_month :: "int \<Rightarrow> int" where
  "march_month doy = (let mp = (5 * doy + 2) div 153 in if mp < 10 then mp + 3 else mp - 9)"

definition march_day :: "int \<Rightarrow> int" where
  "march_day doy = doy - (153 * ((5 * doy + 2) div 153) + 2) div 5 + 1"

definition month_days :: "nat \<Rightarrow> int \<Rightarrow> int" where
  "month_days leap m =
     [[0, 31, 59, 90, 120, 151, 181, 212, 243, 273, 304, 334],
      [0, 31, 60, 91, 121, 152, 182, 213, 244, 274, 305, 335]] ! leap ! nat (m - 1)"

lemma month_days:
  assumes "1 \<le> m" "m \<le> 12"
  shows "int (DAYS_BEFORE_MONTH ! 0 ! nat (m - 1)) = month_days 0 m"
    "int (DAYS_BEFORE_MONTH ! 1 ! nat (m - 1)) = month_days 1 m"
proof -
  have "m = 1 \<or> m = 2 \<or> m = 3 \<or> m = 4 \<or> m = 5 \<or> m = 6 \<or> m = 7 \<or> m = 8 \<or> m = 9 \<or>
      m = 10 \<or> m = 11 \<or> m = 12"
    using assms by arith
  then show "int (DAYS_BEFORE_MONTH ! 0 ! nat (m - 1)) = month_days 0 m"
    "int (DAYS_BEFORE_MONTH ! 1 ! nat (m - 1)) = month_days 1 m"
    by (elim disjE; simp add: DAYS_BEFORE_MONTH_def month_days_def)+
qed

definition doy_ok :: "int \<Rightarrow> bool" where
  "doy_ok doy \<longleftrightarrow> (let m = march_month doy; d = march_day doy; b = month_days 0 m in
     1 \<le> d \<and>
     (if doy < 306
      then 3 \<le> m \<and> m \<le> 12 \<and> doy = b - 59 + d - 1 \<and> month_days 1 m = b + 1 \<and>
        b + d \<le> (if m < 12 then month_days 0 (m + 1) else 365) \<and>
        (m < 12 \<longrightarrow> month_days 1 (m + 1) = month_days 0 (m + 1) + 1)
      else 1 \<le> m \<and> m \<le> 2 \<and> doy = 306 + b + d - 1 \<and> month_days 1 m = b \<and>
        b + d \<le> month_days (if doy = 365 then 1 else 0) (m + 1) \<and>
        month_days 0 (m + 1) \<le> month_days 1 (m + 1)))"

lemma doys_ok: "list_all doy_ok [0..365]"
  by code_simp

lemma march_doy:
  assumes "0 \<le> doy" "doy \<le> 365"
  shows "doy_ok doy"
  using assms doys_ok by (simp add: list_all_iff)

text \<open>The linear steps of the two proofs below, with the quotients as variables.\<close>

lemma year_length_arith:
  fixes a :: int
  assumes "c = 0" "doe < 365 * (y + 1) + p - q"
    and "p + e * 100 - (q + e * 4) + (c + e) = a + e * 100 - (b + e * 4) + e + l"
  shows "doe - (365 * y + a - b) < 365 + l"
  using assms by simp

lemma ce_day_arith:
  fixes a :: int
  assumes "p - q + r = a - b + c + l"
  shows "365 * (y - 1) + a - b + c + (m + l) + d = 365 * y + p - q + r + (m - 59 + d - 1) - 305"
  using assms by simp

text \<open>The numbers of the dates of the March-based year of the algorithm.\<close>

lemma ce_day_march:
  assumes "0 \<le> doy" "doy \<le> 365" "doy = 365 \<longrightarrow> is_leap (y + 1)"
  defines "m \<equiv> march_month doy" and "d \<equiv> march_day doy"
  defines "year \<equiv> (if m \<le> 2 then y + 1 else y)"
  shows "valid_date year (nat m) (nat d)"
    "ce_day year (nat m) (nat d) = 365 * y + y div 4 - y div 100 + y div 400 + doy - 305"
proof -
  have ok: "doy_ok doy" by (rule march_doy [OF assms(1,2)])
  have m: "1 \<le> m" "m \<le> 12" "1 \<le> d"
    using ok by (auto simp: doy_ok_def Let_def m_def d_def split: if_splits)
  have nm: "nat m - 1 = nat (m - 1)" "nat m - Suc 0 = nat (m - 1)" by simp_all
  have next_month: "int (DAYS_BEFORE_MONTH ! 0 ! nat m) = month_days 0 (m + 1)"
    "int (DAYS_BEFORE_MONTH ! 1 ! nat m) = month_days 1 (m + 1)" if "m < 12"
    using month_days [of "m + 1"] m that by simp_all
  show "valid_date year (nat m) (nat d)"
  proof (cases "doy < 306")
    case True
    then have "3 \<le> m" "month_days 1 m = month_days 0 m + 1"
      "month_days 0 m + d \<le> (if m < 12 then month_days 0 (m + 1) else 365)"
      "m < 12 \<longrightarrow> month_days 1 (m + 1) = month_days 0 (m + 1) + 1"
      using ok unfolding doy_ok_def Let_def m_def [symmetric] d_def [symmetric] by simp_all
    then show ?thesis
      using month_days [OF m(1,2)] next_month m
      by (auto simp: valid_date_def month_end_def year_def leap_index_def nm zless_nat_eq_int_zless
          nat_less_iff simp flip: of_nat_le_iff [where 'a = int] split: if_splits)
  next
    case False
    then have "m \<le> 2" "month_days 1 m = month_days 0 m"
      "month_days 0 m + d \<le> month_days (if doy = 365 then 1 else 0) (m + 1)"
      "month_days 0 (m + 1) \<le> month_days 1 (m + 1)"
      using ok by (simp_all add: doy_ok_def Let_def m_def d_def)
    then show ?thesis
      using month_days [OF m(1,2)] next_month m assms(3)
      by (auto simp: valid_date_def month_end_def year_def leap_index_def nm zless_nat_eq_int_zless
          nat_less_iff simp flip: of_nat_le_iff [where 'a = int] split: if_splits)
  qed
  have table: "int (DAYS_BEFORE_MONTH ! leap_index year ! (nat m - 1)) =
      (if is_leap year then month_days 1 m else month_days 0 m)"
    unfolding nm(1) leap_index_def using month_days [OF m(1,2)] by (simp only: if_True if_False split: if_split) simp
  show "ce_day year (nat m) (nat d) = 365 * y + y div 4 - y div 100 + y div 400 + doy - 305"
  proof (cases "doy < 306")
    case True
    then have "3 \<le> m" "doy = month_days 0 m - 59 + d - 1" "month_days 1 m = month_days 0 m + 1"
      using ok by (simp_all add: doy_ok_def Let_def m_def d_def)
    moreover from this have "year = y" by (simp add: year_def)
    moreover have "int (nat d) = d" using m by simp
    moreover note is_leap_prev [of y]
    moreover have "int (DAYS_BEFORE_MONTH ! leap_index year ! (nat m - 1)) =
        month_days 0 m + (if is_leap y then 1 else 0)"
      using \<open>year = y\<close> \<open>month_days 1 m = month_days 0 m + 1\<close> unfolding table
      by (cases "is_leap y") simp_all
    ultimately show ?thesis
      unfolding ce_day_def days_before_year_def by (simp only: ce_day_arith)
  next
    case False
    then have "m \<le> 2" "doy = 306 + month_days 0 m + d - 1" "month_days 1 m = month_days 0 m"
      using ok by (simp_all add: doy_ok_def Let_def m_def d_def)
    moreover from this have "year = y + 1" by (simp add: year_def)
    moreover have "int (nat d) = d" using m by simp
    ultimately show ?thesis
      using table unfolding ce_day_def days_before_year_def by simp
  qed
qed

lemma div_era:
  fixes y :: int
  shows "(y + era * 400) div 4 = y div 4 + era * 100" "(y + era * 400) div 100 = y div 100 + era * 4"
    "(y + era * 400) div 400 = y div 400 + era"
proof -
  have "(y + era * 100 * 4) div 4 = era * 100 + y div 4" by (rule div_mult_self1) simp
  then show "(y + era * 400) div 4 = y div 4 + era * 100" by simp
  have "(y + era * 4 * 100) div 100 = era * 4 + y div 100" by (rule div_mult_self1) simp
  then show "(y + era * 400) div 100 = y div 100 + era * 4" by simp
  have "(y + era * 400) div 400 = era + y div 400" by (rule div_mult_self1) simp
  then show "(y + era * 400) div 400 = y div 400 + era" by simp
qed

theorem civil_from_days_correct:
  "case civil_from_days days of (y, m, d) \<Rightarrow> valid_date y m d \<and> ce_day y m d = days + EPOCH_CE_DAY"
proof -
  define era where "era = (days + 719468) div 146097"
  define doe where "doe = (days + 719468) mod 146097"
  define yoe where "yoe = era_numerator doe div 365"
  define doy where "doy = doe - era_year_start yoe"
  define year where "year = yoe + era * 400"
  have doe: "0 \<le> doe" "doe < 146097" and days: "days + 719468 = era * 146097 + doe"
    by (simp_all add: era_def doe_def)
  have yoe: "0 \<le> yoe" "yoe < 400" "era_year_start yoe \<le> doe"
    "doe < (if yoe = 399 then 146097 else era_year_start (yoe + 1))"
    by (rule year_of_era [OF doe, folded yoe_def])+
  have quot: "year div 4 = yoe div 4 + era * 100" "year div 100 = yoe div 100 + era * 4"
    "year div 400 = era" "(year + 1) div 4 = (yoe + 1) div 4 + era * 100"
    "(year + 1) div 100 = (yoe + 1) div 100 + era * 4" "(year + 1) div 400 = (yoe + 1) div 400 + era"
  proof -
    have "year + 1 = yoe + 1 + era * 400" "yoe div 400 = 0" using yoe(1,2) by (simp_all add: year_def)
    then show "year div 4 = yoe div 4 + era * 100" "year div 100 = yoe div 100 + era * 4"
      "year div 400 = era" "(year + 1) div 4 = (yoe + 1) div 4 + era * 100"
      "(year + 1) div 100 = (yoe + 1) div 100 + era * 4" "(year + 1) div 400 = (yoe + 1) div 400 + era"
      unfolding year_def by (simp_all only: div_era add_0)
  qed
  have len: "doy < 365 + (if is_leap (year + 1) then 1 else 0)"
  proof (cases "yoe = 399")
    case True
    have "is_leap (year + 1)"
      using is_leap_step [of year] unfolding quot True by (simp split: if_splits)
    moreover have "doy < 366"
      using doe(2) unfolding doy_def True era_year_start_def by simp
    ultimately show ?thesis by simp
  next
    case False
    then have "(yoe + 1) div 400 = 0" "yoe div 400 = 0" using yoe(1,2) by simp_all
    moreover from False have "doe < era_year_start (yoe + 1)" using yoe(4) by (simp only: if_False)
    ultimately show ?thesis
      using is_leap_step [of year] unfolding quot doy_def era_year_start_def by (intro year_length_arith)
  qed
  have doy: "0 \<le> doy" "doy \<le> 365" "doy = 365 \<longrightarrow> is_leap (year + 1)"
    using len yoe(3) by (auto simp: doy_def split: if_splits)
  have "civil_from_days days = (year + (if march_month doy \<le> 2 then 1 else 0),
      nat (march_month doy), nat (march_day doy))"
    unfolding civil_from_days_def march_month_def march_day_def year_def doy_def yoe_def
      era_year_start_def era_numerator_def doe_def era_def Let_def by (rule refl)
  moreover have "year + (if march_month doy \<le> 2 then 1 else 0) =
      (if march_month doy \<le> 2 then year + 1 else year)" by simp
  moreover have "365 * year + year div 4 - year div 100 + year div 400 + doy - 305 = days + EPOCH_CE_DAY"
    using days unfolding quot unfolding doy_def era_year_start_def year_def EPOCH_CE_DAY_def
    by simp
  ultimately show ?thesis
    using ce_day_march [OF doy] by (simp only: prod.case)
qed

section \<open>The month table\<close>

lemma doy_loop_nth:
  "length (doy_loop month s e t) = length t \<and> (\<forall>i < length t.
     doy_loop month s e t ! i = (if s \<le> i \<and> i < e then month + 1 else t ! i))"
proof (induction month s e t rule: doy_loop.induct)
  case (1 month doy e t)
  then show ?case
    by (subst (1 2) doy_loop.simps) (auto simp: nth_list_update le_Suc_eq Suc_le_eq)
qed

lemma days_before_month_le:
  assumes "l < 2" "m < 12"
  shows "DAYS_BEFORE_MONTH ! l ! m < month_end l (m + 1)" "month_end l (m + 1) \<le> 365 + l"
proof -
  have l: "l = 0 \<or> l = 1" and m: "m = 0 \<or> m = 1 \<or> m = 2 \<or> m = 3 \<or> m = 4 \<or> m = 5 \<or> m = 6 \<or> m = 7 \<or>
      m = 8 \<or> m = 9 \<or> m = 10 \<or> m = 11"
    using assms by arith+
  show "DAYS_BEFORE_MONTH ! l ! m < month_end l (m + 1)"
    using l m by (elim disjE; simp add: DAYS_BEFORE_MONTH_def month_end_def)
  show "month_end l (m + 1) \<le> 365 + l"
    using l m by (elim disjE; simp add: DAYS_BEFORE_MONTH_def month_end_def)
qed

lemma month_loop_nth:
  assumes "l < 2" "length t = 366"
  shows "length (month_loop l month t) = 366 \<and>
    (month < 12 \<longrightarrow> (\<forall>i < DAYS_BEFORE_MONTH ! l ! month. month_loop l month t ! i = t ! i)) \<and>
    (\<forall>m i. month \<le> m \<longrightarrow> m < 12 \<longrightarrow> DAYS_BEFORE_MONTH ! l ! m \<le> i \<longrightarrow> i < month_end l (m + 1) \<longrightarrow>
       month_loop l month t ! i = m + 1)"
  using assms
proof (induction l month t rule: month_loop.induct)
  case (1 l month t)
  show ?case
  proof (cases "month < 12")
    case True
    define s where "s = DAYS_BEFORE_MONTH ! l ! month"
    define e where "e = month_end l (month + 1)"
    define t' where "t' = doy_loop month s e t"
    have step: "month_loop l month t = month_loop l (month + 1) t'"
      using True by (subst month_loop.simps) (simp add: Let_def t'_def s_def e_def month_end_def)
    have se: "s < e" "e \<le> 366"
      using days_before_month_le [OF "1.prems"(1) True] "1.prems"(1) by (simp_all add: s_def e_def)
    have t': "length t' = 366" "i < 366 \<Longrightarrow> t' ! i = (if s \<le> i \<and> i < e then month + 1 else t ! i)" for i
      using doy_loop_nth [of month s e t] "1.prems"(2) by (simp_all add: t'_def)
    have IH: "length (month_loop l (month + 1) t') = 366 \<and>
        (month + 1 < 12 \<longrightarrow> (\<forall>i < DAYS_BEFORE_MONTH ! l ! (month + 1). month_loop l (month + 1) t' ! i = t' ! i)) \<and>
        (\<forall>m i. month + 1 \<le> m \<longrightarrow> m < 12 \<longrightarrow> DAYS_BEFORE_MONTH ! l ! m \<le> i \<longrightarrow> i < month_end l (m + 1) \<longrightarrow>
           month_loop l (month + 1) t' ! i = m + 1)"
    proof -
      have "e = (if month < 11 then DAYS_BEFORE_MONTH ! l ! (month + 1) else 365 + l)"
        by (simp add: e_def month_end_def)
      then show ?thesis
        using "1.IH" [OF True s_def _ "1.prems"(1)] t'(1) unfolding t'_def by blast
    qed
    have below: "month_loop l (month + 1) t' ! i = t' ! i" if "i < e" for i
    proof (cases "month + 1 < 12")
      case True
      then show ?thesis using IH that by (simp add: e_def month_end_def)
    next
      case False
      then show ?thesis using \<open>month < 12\<close> by (subst month_loop.simps) simp
    qed
    have "month_loop l (month + 1) t' ! i = m + 1"
      if "month \<le> m" "m < 12" "DAYS_BEFORE_MONTH ! l ! m \<le> i" "i < month_end l (m + 1)" for m i
    proof (cases "m = month")
      case True
      then show ?thesis using that below [of i] t'(2) [of i] se by (simp add: s_def e_def)
    next
      case False
      then show ?thesis using IH that by simp
    qed
    moreover have "month_loop l (month + 1) t' ! i = t ! i" if "i < s" for i
      using that se below [of i] t'(2) [of i] by simp
    ultimately show ?thesis
      using IH unfolding step s_def by blast
  next
    case False
    then show ?thesis using 1 by (subst (1 2 3) month_loop.simps) simp
  qed
qed

text \<open>Every day of a month is that month's in the table.\<close>

lemma month_of_doy:
  assumes "l < 2" "1 \<le> m" "m \<le> 12" "DAYS_BEFORE_MONTH ! l ! (m - 1) \<le> doy" "doy < month_end l m"
  shows "MONTH_OF_DOY ! l ! doy = m"
proof -
  have table: "MONTH_OF_DOY = [month_loop 0 0 (replicate 366 0), month_loop 1 0 (replicate 366 0)]"
  proof -
    have "leap_loop 0 [z, z] = [month_loop 0 0 z, month_loop 1 0 z]" for z
      by (simp add: leap_loop.simps)
    moreover have "replicate 2 z = [z, z]" for z :: "nat list" by (simp add: numeral_2_eq_2)
    ultimately show ?thesis unfolding MONTH_OF_DOY_def by simp
  qed
  obtain k where "m = Suc k" using assms(2) by (cases m) auto
  then have "month_loop l 0 (replicate 366 0) ! doy = m"
    using month_loop_nth [OF assms(1), of "replicate 366 0" 0] assms(2-5) by simp
  moreover have "l = 0 \<or> l = 1" using assms(1) by linarith
  ultimately show ?thesis unfolding table by auto
qed

text \<open>Every day of a year is in a month.\<close>

lemma doy_in_month:
  assumes "l < 2" "doy < 365 + l"
  shows "\<exists>m. 1 \<le> m \<and> m \<le> 12 \<and> DAYS_BEFORE_MONTH ! l ! (m - 1) \<le> doy \<and> doy < month_end l m"
proof -
  have "\<exists>m \<ge> 1. m \<le> 12 \<and> doy < month_end l m"
    using assms by (intro exI [of _ 12]) (simp add: month_end_def)
  then obtain m where m: "1 \<le> m" "m \<le> 12" "doy < month_end l m"
    and least: "\<And>k. 1 \<le> k \<Longrightarrow> k < m \<Longrightarrow> month_end l k \<le> doy"
    using exists_least_iff [of "\<lambda>m. 1 \<le> m \<and> m \<le> 12 \<and> doy < month_end l m"]
    by (metis (no_types, lifting) dual_order.strict_implies_order dual_order.trans not_le)
  have "DAYS_BEFORE_MONTH ! l ! (m - 1) \<le> doy"
  proof (cases "m = 1")
    case True
    have "l = 0 \<or> l = 1" using assms(1) by linarith
    then show ?thesis using True by (auto simp: DAYS_BEFORE_MONTH_def)
  next
    case False
    then have "1 \<le> m - 1" "m - 1 < m" "m - 1 < 12" using m by linarith+
    then show ?thesis using least [of "m - 1"] by (simp add: month_end_def)
  qed
  then show ?thesis using m by blast
qed

section \<open>The number of a date determines it\<close>

lemma days_before_arith:
  fixes a :: int
  assumes "p - q + r = a - b + c + l"
  shows "365 * (y + 1 - 1) + p - q + r = 365 * (y - 1) + a - b + c + 365 + l"
  using assms by simp

lemma days_before_next: "days_before_year (y + 1) = days_before_year y + 365 + int (leap_index y)"
proof -
  have "int (leap_index y) = (if is_leap y then 1 else 0)" by (simp add: leap_index_def)
  then show ?thesis
    unfolding days_before_year_def using days_before_arith [OF is_leap_prev [of y], of y]
    by (simp only: add_diff_cancel_right')
qed

lemma days_before_mono: "y \<le> y' \<Longrightarrow> days_before_year y \<le> days_before_year y'"
proof (induction y' rule: int_ge_induct)
  case base
  then show ?case by simp
next
  case (step i)
  then show ?case by (simp add: days_before_next)
qed

lemma leap_index_lt [simp]: "leap_index y < 2"
  by (simp add: leap_index_def)

lemma ce_day_year:
  assumes "valid_date y m d"
  shows "days_before_year y < ce_day y m d" "ce_day y m d \<le> days_before_year (y + 1)"
proof -
  have "month_end (leap_index y) m \<le> 365 + leap_index y"
    using days_before_month_le(2) [of "leap_index y" "m - 1"] assms
    unfolding valid_date_def by fastforce
  then show "days_before_year y < ce_day y m d" "ce_day y m d \<le> days_before_year (y + 1)"
    using assms by (simp_all add: valid_date_def ce_day_def days_before_next)
qed

lemma month_of_valid:
  assumes "valid_date y m d"
  shows "MONTH_OF_DOY ! leap_index y ! (DAYS_BEFORE_MONTH ! leap_index y ! (m - 1) + d - 1) = m"
  using assms unfolding valid_date_def by (intro month_of_doy) auto

lemma ce_day_unique:
  assumes "valid_date y m d" "valid_date y' m' d'" "ce_day y m d = ce_day y' m' d'"
  shows "y = y' \<and> m = m' \<and> d = d'"
proof -
  have "\<not> y < y'" "\<not> y' < y"
    using ce_day_year [OF assms(1)] ce_day_year [OF assms(2)] assms(3)
      days_before_mono [of "y + 1" y'] days_before_mono [of "y' + 1" y] by auto
  then have y: "y' = y" by simp
  let ?l = "leap_index y"
  let ?doy = "DAYS_BEFORE_MONTH ! ?l ! (m - 1) + d - 1"
  have same: "?doy = DAYS_BEFORE_MONTH ! ?l ! (m' - 1) + d' - 1"
    using assms y by (simp add: ce_day_def)
  then have "m = m'"
    using month_of_valid [OF assms(1)] month_of_valid [OF assms(2)] y by metis
  then show ?thesis using same y assms(1,2) by (auto simp: valid_date_def)
qed

section \<open>The cache\<close>

text \<open>A filled cache describes its year.\<close>

definition cache_ok :: "year_cache \<Rightarrow> bool" where
  "cache_ok c \<longleftrightarrow> yc_len c = 0 \<or>
     yc_leap c = leap_index (yc_year c) \<and> yc_len c = 365 + int (yc_leap c) \<and>
     yc_start c + EPOCH_CE_DAY = days_before_year (yc_year c) + 1"

lemma cache_ok_default: "cache_ok year_cache_default"
  by (simp add: cache_ok_def year_cache_default_def)


lemma days_of_year_split:
  assumes "valid_date y m d"
  defines "doy \<equiv> int (DAYS_BEFORE_MONTH ! leap_index y ! (m - 1)) + int d - 1"
  shows "ce_day y m d = days_before_year y + 1 + doy" "0 \<le> doy" "doy < 365 + int (leap_index y)"
    "nat doy = DAYS_BEFORE_MONTH ! leap_index y ! (m - 1) + d - 1"
  using assms ce_day_year [OF assms(1)]
  by (auto simp: ce_day_def valid_date_def days_before_next)

text \<open>The date of a day of a cached year.\<close>

lemma cached_date:
  assumes "0 \<le> doy" "doy < 365 + int (leap_index y)"
  defines "m \<equiv> MONTH_OF_DOY ! leap_index y ! nat doy"
  defines "d \<equiv> nat doy - DAYS_BEFORE_MONTH ! leap_index y ! (m - 1) + 1"
  shows "valid_date y m d \<and> ce_day y m d = days_before_year y + 1 + doy"
proof -
  have lt: "nat doy < 365 + leap_index y" using assms(1,2) by linarith
  obtain k where k: "1 \<le> k" "k \<le> 12" "DAYS_BEFORE_MONTH ! leap_index y ! (k - 1) \<le> nat doy"
    "nat doy < month_end (leap_index y) k"
    using doy_in_month [OF leap_index_lt lt] by blast
  have "m = k" unfolding m_def by (rule month_of_doy [OF leap_index_lt k])
  then show ?thesis using k assms(1) by (simp add: valid_date_def ce_day_def d_def)
qed

theorem civil_cache:
  assumes "cache_ok c"
  shows "fst (civil days c) = civil_from_days days \<and> cache_ok (snd (civil days c))"
proof -
  obtain y m d where date: "civil_from_days days = (y, m, d)"
    by (cases "civil_from_days days")
  then have valid: "valid_date y m d" and ce: "ce_day y m d = days + EPOCH_CE_DAY"
    using civil_from_days_correct [of days] by simp_all
  show ?thesis
  proof (cases "days - yc_start c < 0 \<or> yc_len c \<le> days - yc_start c")
    case True
    then show ?thesis
      using month_of_valid [OF valid] days_of_year_split [OF valid] ce valid
      by (simp add: civil_def date Let_def cache_ok_def leap_index_def [symmetric] valid_date_def)
  next
    case False
    define doy where "doy = days - yc_start c"
    have fields: "yc_leap c = leap_index (yc_year c)" "0 \<le> doy" "doy < 365 + int (leap_index (yc_year c))"
      "yc_start c + EPOCH_CE_DAY = days_before_year (yc_year c) + 1"
      using assms False by (auto simp: cache_ok_def doy_def)
    define m' where "m' = MONTH_OF_DOY ! leap_index (yc_year c) ! nat doy"
    define d' where "d' = nat doy - DAYS_BEFORE_MONTH ! leap_index (yc_year c) ! (m' - 1) + 1"
    have "valid_date (yc_year c) m' d' \<and> ce_day (yc_year c) m' d' = days + EPOCH_CE_DAY"
      using cached_date [OF fields(2,3)] fields(4) unfolding m'_def d'_def doy_def by simp
    then have "yc_year c = y \<and> m' = m \<and> d' = d"
      using ce_day_unique [OF _ valid] ce by metis
    moreover have "civil days c = ((yc_year c, m', d'), c)"
      using False by (simp add: civil_def Let_def m'_def d'_def doy_def fields(1))
    ultimately show ?thesis using assms date by simp
  qed
qed

section \<open>The proleptic Gregorian calendar as an instance\<close>

text \<open>
  Dates as the number of their day and timestamps as nanoseconds since 1970-01-01, with the
  accessors and constructors over the calendar above; the formats and the floating-point
  functions stay parameters (the record \<open>base\<close>).
\<close>

definition date_of :: "int \<Rightarrow> int \<times> nat \<times> nat" where
  "date_of d = civil_from_days (d - EPOCH_CE_DAY)"

definition day_nanos :: int where
  "day_nanos = 86400000000000"

definition gregorian :: "(int, int) ext \<Rightarrow> (int, int) ext" where
  "gregorian base = base\<lparr>
     itoa_format := show_int,
     from_ymd_opt := (\<lambda>y m d. if valid_date y m d then Some (ce_day y m d) else None),
     from_num_days_from_ce_opt := Some,
     d_default := EPOCH_CE_DAY,
     d_year := (\<lambda>d. fst (date_of d)), d_month := (\<lambda>d. fst (snd (date_of d))),
     d_day := (\<lambda>d. snd (snd (date_of d))),
     and_hms_nano_opt := (\<lambda>d h mi s n. if h < 24 \<and> mi < 60 \<and> s < 60 \<and> n < 1000000000
       then Some ((d - EPOCH_CE_DAY) * day_nanos + int (h * 3600 + mi * 60 + s) * 1000000000 + int n)
       else None),
     from_timestamp := (\<lambda>s n. Some (s * 1000000000 + int n)),
     from_timestamp_millis := (\<lambda>ms. Some (ms * 1000000)),
     from_timestamp_micros := (\<lambda>us. Some (us * 1000)),
     t_default := 0,
     t_date := (\<lambda>t. t div day_nanos + EPOCH_CE_DAY),
     t_hour := (\<lambda>t. nat (t mod day_nanos div 1000000000) div 3600),
     t_minute := (\<lambda>t. nat (t mod day_nanos div 1000000000) div 60 mod 60),
     t_second := (\<lambda>t. nat (t mod day_nanos div 1000000000) mod 60),
     t_nanosecond := (\<lambda>t. nat (t mod 1000000000))\<rparr>"

lemma date_of_valid:
  "valid_date (fst (date_of d)) (fst (snd (date_of d))) (snd (snd (date_of d)))"
  "ce_day (fst (date_of d)) (fst (snd (date_of d))) (snd (snd (date_of d))) = d"
  using civil_from_days_correct [of "d - EPOCH_CE_DAY"] by (auto simp: date_of_def split: prod.splits)

lemma month_length:
  assumes "valid_date y m d"
  shows "m \<le> 12 \<and> d \<le> 31"
proof -
  have m: "m = 1 \<or> m = 2 \<or> m = 3 \<or> m = 4 \<or> m = 5 \<or> m = 6 \<or> m = 7 \<or> m = 8 \<or> m = 9 \<or>
      m = 10 \<or> m = 11 \<or> m = 12" and l: "leap_index y = 0 \<or> leap_index y = 1"
    using assms leap_index_lt [of y] unfolding valid_date_def by arith+
  have "month_end (leap_index y) m \<le> DAYS_BEFORE_MONTH ! leap_index y ! (m - 1) + 31"
    using m l by (elim disjE; simp add: DAYS_BEFORE_MONTH_def month_end_def)
  then show ?thesis using assms by (simp add: valid_date_def)
qed

lemma seconds_split: "(s :: nat) div 3600 * 3600 + s div 60 mod 60 * 60 + s mod 60 = s"
proof -
  have "s div 3600 = s div 60 div 60" using div_mult2_eq [of s 60 60] by simp
  moreover have "s div 60 div 60 * 60 + s div 60 mod 60 = s div 60" "s div 60 * 60 + s mod 60 = s"
    by (rule div_mult_mod_eq)+
  ultimately show ?thesis by linarith
qed

lemma day_split:
  fixes t :: int
  defines "secs \<equiv> nat (t mod day_nanos div 1000000000)"
  shows "secs < 86400"
    "t div day_nanos * day_nanos + int secs * 1000000000 + int (nat (t mod 1000000000)) = t"
proof -
  have N: "0 \<le> t mod day_nanos" "t mod day_nanos < day_nanos" by (simp_all add: day_nanos_def)
  then have s: "0 \<le> t mod day_nanos div 1000000000" "t mod day_nanos div 1000000000 < 86400"
    by (simp_all add: pos_imp_zdiv_nonneg_iff div_less_iff_less_mult day_nanos_def)
  then show "secs < 86400" by (simp add: secs_def)
  have "t mod day_nanos mod 1000000000 = t mod 1000000000"
    unfolding day_nanos_def by (rule mod_mod_cancel) simp
  then have "t mod day_nanos = int secs * 1000000000 + t mod 1000000000"
    using div_mult_mod_eq [of "t mod day_nanos" 1000000000] s(1) by (simp add: secs_def)
  then show "t div day_nanos * day_nanos + int secs * 1000000000 + int (nat (t mod 1000000000)) = t"
    using div_mult_mod_eq [of t day_nanos] by simp
qed

lemma gregorian_cell_ext: "cell_ext (gregorian base)"
proof
  fix d :: int
  show "from_ymd_opt (gregorian base) (d_year (gregorian base) d) (d_month (gregorian base) d)
      (d_day (gregorian base) d) = Some d"
    using date_of_valid [of d] by (simp add: gregorian_def)
  show "d_month (gregorian base) d \<le> 12" "d_day (gregorian base) d \<le> 31"
    using month_length [OF date_of_valid(1) [of d]] by (simp_all add: gregorian_def)
next
  fix t :: int
  define secs where "secs = nat (t mod day_nanos div 1000000000)"
  have lt: "secs < 86400" and split: "t div day_nanos * day_nanos + int secs * 1000000000 +
      int (nat (t mod 1000000000)) = t"
    using day_split [of t] by (simp_all add: secs_def)
  have h: "secs div 3600 < 24" using lt by (simp add: div_less_iff_less_mult)
  have n: "nat (t mod 1000000000) < 1000000000" by (simp add: nat_less_iff)
  show "and_hms_nano_opt (gregorian base) (t_date (gregorian base) t) (t_hour (gregorian base) t)
      (t_minute (gregorian base) t) (t_second (gregorian base) t) (t_nanosecond (gregorian base) t) = Some t"
    using h n split
    by (simp add: gregorian_def secs_def [symmetric] seconds_split del: of_nat_add of_nat_mult)
  show "t_hour (gregorian base) t < 24" "t_minute (gregorian base) t < 60"
    "t_second (gregorian base) t < 60"
    using h by (simp_all add: gregorian_def secs_def [symmetric])
qed (simp add: gregorian_def)

interpretation gregorian: cell_ext "gregorian base" for base
  by (rule gregorian_cell_ext)

end
