(* ===== verification/Packer.thy ===== *)
theory Packer
  imports Rowset Civil
begin

text \<open>
  The Arrow path of \<open>exa-udf-runtime\<close>: the accessors and cost estimates of \<open>rowset.rs\<close>, the
  column-at-a-time packer of \<open>emit_pack.rs\<close> and \<open>EmitBuffer::push_batch\<close>. The theory shows
  that the packer leaves a table in exactly the state the row path leaves it in, and that a
  whole batch flushes at the same rows.

  A \<open>RecordBatch\<close> is the data its arrays give: a buffer of values (offsets and bytes for text),
  and for each array an optional validity buffer.
\<close>

section \<open>Arrow arrays\<close>

datatype time_unit = Second | Millisecond | Microsecond | Nanosecond

datatype arrow_data =
    AInt32 "i32 list"
  | AInt64 "i64 list"
  | AFloat64 "f64 list"
  | ABoolean "bool list"
  | AUtf8 "nat list" bytes
  | ALargeUtf8 "nat list" bytes
  | ADate32 "i32 list"
  | ATimestamp time_unit "i64 list"
  | ADecimal128 "i128 list" int
  | AOther string

record arrow_array =
  aa_data :: arrow_data
  aa_nulls :: "bool list option" \<comment> \<open>the validity bits; absent when every cell is valid\<close>

record record_batch =
  rb_num_rows :: nat
  rb_columns :: "arrow_array list"

definition is_valid :: "bool list option \<Rightarrow> nat \<Rightarrow> bool" where
  "is_valid nb r = (case nb of None \<Rightarrow> True | Some bits \<Rightarrow> bits ! r)"

definition null_count :: "arrow_array \<Rightarrow> nat" where
  "null_count a = (case aa_nulls a of None \<Rightarrow> 0 | Some bits \<Rightarrow> length (filter Not bits))"

text \<open>\<open>arr.value(r)\<close> of a string array.\<close>

definition text_at :: "nat list \<Rightarrow> bytes \<Rightarrow> nat \<Rightarrow> bytes" where
  "text_at offsets data r = slice (offsets ! r) (offsets ! (r + 1)) data"

section \<open>Accessors\<close>

datatype col_accessor =
    AccInt32 "i32 list"
  | AccInt64 "i64 list"
  | AccFloat64 "f64 list"
  | AccBoolean "bool list"
  | AccUtf8 "nat list" bytes
  | AccLargeUtf8 "nat list" bytes
  | AccDate32 "i32 list"
  | AccTsSecond "i64 list"
  | AccTsMillisecond "i64 list"
  | AccTsMicrosecond "i64 list"
  | AccTsNanosecond "i64 list"
  | AccDecimal128 "i128 list" int
  | AccNumericFromInt32 "i32 list"
  | AccNumericFromInt64 "i64 list"
  | AccNumericFromFloat64 "f64 list"
  | AccUnsupported

text \<open>The accessor of one column, or nothing for a combination the declared column cannot take.\<close>

definition build_accessor :: "arrow_data \<Rightarrow> exa_type \<Rightarrow> col_accessor option" where
  "build_accessor dt typ = (case dt of
      AInt32 xs \<Rightarrow> (case typ of TInt32 \<Rightarrow> Some (AccInt32 xs)
        | TNumeric _ _ \<Rightarrow> Some (AccNumericFromInt32 xs)
        | TUnsupported \<Rightarrow> Some AccUnsupported | _ \<Rightarrow> None)
    | AInt64 xs \<Rightarrow> (case typ of TInt64 \<Rightarrow> Some (AccInt64 xs)
        | TNumeric _ _ \<Rightarrow> Some (AccNumericFromInt64 xs)
        | TUnsupported \<Rightarrow> Some AccUnsupported | _ \<Rightarrow> None)
    | AFloat64 xs \<Rightarrow> (case typ of TDouble \<Rightarrow> Some (AccFloat64 xs)
        | TNumeric _ _ \<Rightarrow> Some (AccNumericFromFloat64 xs)
        | TUnsupported \<Rightarrow> Some AccUnsupported | _ \<Rightarrow> None)
    | ABoolean xs \<Rightarrow> (case typ of TBoolean \<Rightarrow> Some (AccBoolean xs)
        | TUnsupported \<Rightarrow> Some AccUnsupported | _ \<Rightarrow> None)
    | AUtf8 offsets data \<Rightarrow>
        (if is_string_family_exatype typ then Some (AccUtf8 offsets data)
         else if typ = TUnsupported then Some AccUnsupported else None)
    | ALargeUtf8 offsets data \<Rightarrow>
        (if is_string_family_exatype typ then Some (AccLargeUtf8 offsets data)
         else if typ = TUnsupported then Some AccUnsupported else None)
    | ADate32 xs \<Rightarrow> (case typ of TDate \<Rightarrow> Some (AccDate32 xs)
        | TUnsupported \<Rightarrow> Some AccUnsupported | _ \<Rightarrow> None)
    | ATimestamp unit xs \<Rightarrow> (case typ of
          TTimestamp _ \<Rightarrow> Some (case unit of Second \<Rightarrow> AccTsSecond xs
            | Millisecond \<Rightarrow> AccTsMillisecond xs | Microsecond \<Rightarrow> AccTsMicrosecond xs
            | Nanosecond \<Rightarrow> AccTsNanosecond xs)
        | TUnsupported \<Rightarrow> Some AccUnsupported | _ \<Rightarrow> None)
    | ADecimal128 xs scale \<Rightarrow> (case typ of TNumeric _ _ \<Rightarrow> Some (AccDecimal128 xs scale)
        | TUnsupported \<Rightarrow> Some AccUnsupported | _ \<Rightarrow> None)
    | AOther _ \<Rightarrow> (if typ = TUnsupported then Some AccUnsupported else None))"

text \<open>The derived \<open>Debug\<close> texts of the two types of the error message are parameters.\<close>

fun build_columns :: "(arrow_data \<Rightarrow> string) \<Rightarrow> (exa_type \<Rightarrow> string) \<Rightarrow> nat \<Rightarrow> arrow_array list \<Rightarrow>
    column_info list \<Rightarrow> (udf_error, col_accessor list) result" where
  "build_columns dbg_dt dbg_typ c (col # cols) (m # meta) =
     (case build_accessor (aa_data col) (ci_typ m) of
        Some acc \<Rightarrow> rbind (build_columns dbg_dt dbg_typ (c + 1) cols meta) (\<lambda>rest. Ok (acc # rest))
      | None \<Rightarrow> Err (TypeErr (''emit_batch: Arrow column '' @ show_nat c @ '' of type '' @
          dbg_dt (aa_data col) @ '' cannot feed declared ExaType '' @ dbg_typ (ci_typ m))))"
| "build_columns dbg_dt dbg_typ c _ _ = Ok []"

definition build_accessors :: "(arrow_data \<Rightarrow> string) \<Rightarrow> (exa_type \<Rightarrow> string) \<Rightarrow> record_batch \<Rightarrow>
    column_info list \<Rightarrow> (udf_error, col_accessor list) result" where
  "build_accessors dbg_dt dbg_typ batch meta =
     (if length (rb_columns batch) \<noteq> length meta
      then Err (TypeErr (''emit_batch: batch has '' @ show_nat (length (rb_columns batch)) @
             '' columns but EMITS declared '' @ show_nat (length meta) @ '' columns''))
      else build_columns dbg_dt dbg_typ 0 (rb_columns batch) meta)"

definition ARROW_EPOCH_CE_DAY :: i32 where
  "ARROW_EPOCH_CE_DAY = 719163"

definition accessor_value :: "('d, 't) ext \<Rightarrow> col_accessor \<Rightarrow> nat \<Rightarrow> ('d, 't) sql_value" where
  "accessor_value E acc r = (case acc of
      AccInt32 xs \<Rightarrow> VInt32 (xs ! r)
    | AccInt64 xs \<Rightarrow> VInt64 (xs ! r)
    | AccFloat64 xs \<Rightarrow> VDouble (xs ! r)
    | AccBoolean xs \<Rightarrow> VBool (xs ! r)
    | AccUtf8 offsets data \<Rightarrow> VString (text_at offsets data r)
    | AccLargeUtf8 offsets data \<Rightarrow> VString (text_at offsets data r)
    | AccDate32 xs \<Rightarrow> VDate (unwrap_or (d_default E)
        (from_num_days_from_ce_opt E (sint (xs ! r + ARROW_EPOCH_CE_DAY))))
    | AccTsSecond xs \<Rightarrow> VTimestamp (unwrap_or (t_default E) (from_timestamp E (sint (xs ! r)) 0))
    | AccTsMillisecond xs \<Rightarrow> VTimestamp (unwrap_or (t_default E)
        (from_timestamp_millis E (sint (xs ! r))))
    | AccTsMicrosecond xs \<Rightarrow> VTimestamp (unwrap_or (t_default E)
        (from_timestamp_micros E (sint (xs ! r))))
    | AccTsNanosecond xs \<Rightarrow> VTimestamp (unwrap_or (t_default E)
        (from_timestamp E (sint (xs ! r) div 1000000000) (nat (sint (xs ! r) mod 1000000000))))
    | AccDecimal128 xs scale \<Rightarrow> VNumeric \<lparr>unscaled = xs ! r, dscale = word_of_int scale\<rparr>
    | AccNumericFromInt32 xs \<Rightarrow> VInt32 (xs ! r)
    | AccNumericFromInt64 xs \<Rightarrow> VInt64 (xs ! r)
    | AccNumericFromFloat64 xs \<Rightarrow> VDouble (xs ! r)
    | AccUnsupported \<Rightarrow> VNull)"

section \<open>Costs\<close>

text \<open>\<open>NUMERIC_COST_BASE + *scale as usize\<close> wraps for a negative scale.\<close>

definition fixed_cell_cost :: "arrow_data \<Rightarrow> nat option" where
  "fixed_cell_cost dt = (case dt of
      ABoolean _ \<Rightarrow> Some BYTES_BOOL
    | AInt32 _ \<Rightarrow> Some BYTES_INT32
    | AInt64 _ \<Rightarrow> Some BYTES_INT64
    | AFloat64 _ \<Rightarrow> Some BYTES_DOUBLE
    | ADate32 _ \<Rightarrow> Some BYTES_DATE
    | ATimestamp _ _ \<Rightarrow> Some BYTES_TIMESTAMP
    | ADecimal128 _ scale \<Rightarrow> Some (nat ((int NUMERIC_COST_BASE + scale) mod 2 ^ 64))
    | _ \<Rightarrow> None)"

fun accumulate_costs :: "nat \<Rightarrow> nat list \<Rightarrow> bool list option \<Rightarrow> (nat \<Rightarrow> nat) \<Rightarrow> nat list" where
  "accumulate_costs r [] nb cell_cost = []"
| "accumulate_costs r (cost # costs) nb cell_cost =
     (if is_valid nb r then cost + cell_cost r else cost) # accumulate_costs (r + 1) costs nb cell_cost"

definition offsets_span :: "nat list \<Rightarrow> nat" where
  "offsets_span o' = o' ! (length o' - 1) - o' ! 0"

definition column_byte_cost :: "nat \<Rightarrow> arrow_array \<Rightarrow> nat" where
  "column_byte_cost num_rows col = (case fixed_cell_cost (aa_data col) of
      Some fixed \<Rightarrow> fixed * (num_rows - null_count col)
    | None \<Rightarrow> (case aa_data col of
          AUtf8 offsets _ \<Rightarrow> offsets_span offsets
        | ALargeUtf8 offsets _ \<Rightarrow> offsets_span offsets
        | _ \<Rightarrow> 0))"

definition batch_byte_cost :: "record_batch \<Rightarrow> column_info list \<Rightarrow> nat" where
  "batch_byte_cost batch meta =
     foldl (\<lambda>total c. total + column_byte_cost (rb_num_rows batch) (rb_columns batch ! c)) 0
       [0 ..< length meta]"

definition column_row_costs :: "arrow_array \<Rightarrow> nat list \<Rightarrow> nat list" where
  "column_row_costs col costs = (case fixed_cell_cost (aa_data col) of
      Some fixed \<Rightarrow> accumulate_costs 0 costs (aa_nulls col) (\<lambda>_. fixed)
    | None \<Rightarrow> (case aa_data col of
          AUtf8 o' _ \<Rightarrow> accumulate_costs 0 costs (aa_nulls col) (\<lambda>r. o' ! (r + 1) - o' ! r)
        | ALargeUtf8 o' _ \<Rightarrow> accumulate_costs 0 costs (aa_nulls col) (\<lambda>r. o' ! (r + 1) - o' ! r)
        | _ \<Rightarrow> costs))"

definition compute_row_costs :: "record_batch \<Rightarrow> column_info list \<Rightarrow> nat list" where
  "compute_row_costs batch meta =
     foldl (\<lambda>costs c. column_row_costs (rb_columns batch ! c) costs)
       (replicate (rb_num_rows batch) 0) [0 ..< length meta]"

section \<open>The packer\<close>

record 'a fixed_col =
  fc_values :: "'a list"
  fc_nulls :: "bool list option"

datatype string_kind =
    SkUtf8 "nat list" bytes
  | SkLargeUtf8 "nat list" bytes
  | SkDate32 "i32 list"
  | SkTsSecond "i64 list"
  | SkTsMillisecond "i64 list"
  | SkTsMicrosecond "i64 list"
  | SkTsNanosecond "i64 list"
  | SkDecimal "i128 list" "8 word"
  | SkWidened

record string_col =
  sc_col :: nat
  sc_nulls :: "bool list option"
  sc_kind :: string_kind

record batch_packer =
  bp_batch :: record_batch
  bp_meta :: "column_info list"
  bp_accessors :: "col_accessor list"
  bp_nulls :: "bool list option list"
  bp_int32 :: "i32 fixed_col list"
  bp_int64 :: "i64 fixed_col list"
  bp_doubles :: "f64 fixed_col list"
  bp_bools :: "bool fixed_col list"
  bp_strings :: "string_col list"

text \<open>One column's entry in the block its accessor selects.\<close>

definition add_string :: "nat \<Rightarrow> bool list option \<Rightarrow> string_kind \<Rightarrow> batch_packer \<Rightarrow> batch_packer" where
  "add_string c nb kind p =
     p\<lparr>bp_strings := bp_strings p @ [\<lparr>sc_col = c, sc_nulls = nb, sc_kind = kind\<rparr>]\<rparr>"

definition add_column :: "nat \<Rightarrow> col_accessor \<Rightarrow> batch_packer \<Rightarrow> batch_packer" where
  "add_column c acc p =
     (let nb = bp_nulls p ! c in
      case acc of
        AccInt32 xs \<Rightarrow> p\<lparr>bp_int32 := bp_int32 p @ [\<lparr>fc_values = xs, fc_nulls = nb\<rparr>]\<rparr>
      | AccInt64 xs \<Rightarrow> p\<lparr>bp_int64 := bp_int64 p @ [\<lparr>fc_values = xs, fc_nulls = nb\<rparr>]\<rparr>
      | AccFloat64 xs \<Rightarrow> p\<lparr>bp_doubles := bp_doubles p @ [\<lparr>fc_values = xs, fc_nulls = nb\<rparr>]\<rparr>
      | AccBoolean xs \<Rightarrow> p\<lparr>bp_bools := bp_bools p @ [\<lparr>fc_values = xs, fc_nulls = nb\<rparr>]\<rparr>
      | AccUnsupported \<Rightarrow> p
      | AccUtf8 offsets data \<Rightarrow> add_string c nb (SkUtf8 offsets data) p
      | AccLargeUtf8 offsets data \<Rightarrow> add_string c nb (SkLargeUtf8 offsets data) p
      | AccDate32 xs \<Rightarrow> add_string c nb (SkDate32 xs) p
      | AccTsSecond xs \<Rightarrow> add_string c nb (SkTsSecond xs) p
      | AccTsMillisecond xs \<Rightarrow> add_string c nb (SkTsMillisecond xs) p
      | AccTsMicrosecond xs \<Rightarrow> add_string c nb (SkTsMicrosecond xs) p
      | AccTsNanosecond xs \<Rightarrow> add_string c nb (SkTsNanosecond xs) p
      | AccDecimal128 xs scale \<Rightarrow> add_string c nb (SkDecimal xs (word_of_int scale)) p
      | AccNumericFromInt32 _ \<Rightarrow> add_string c nb SkWidened p
      | AccNumericFromInt64 _ \<Rightarrow> add_string c nb SkWidened p
      | AccNumericFromFloat64 _ \<Rightarrow> add_string c nb SkWidened p)"

fun add_columns :: "nat \<Rightarrow> col_accessor list \<Rightarrow> batch_packer \<Rightarrow> batch_packer" where
  "add_columns c [] p = p"
| "add_columns c (acc # accs) p = add_columns (c + 1) accs (add_column c acc p)"

text \<open>Only a validity buffer with a null in it is kept.\<close>

definition column_nulls :: "arrow_array \<Rightarrow> bool list option" where
  "column_nulls col = (case aa_nulls col of
      None \<Rightarrow> None | Some nb \<Rightarrow> if 0 < length (filter Not nb) then Some nb else None)"

definition packer_new :: "(arrow_data \<Rightarrow> string) \<Rightarrow> (exa_type \<Rightarrow> string) \<Rightarrow> record_batch \<Rightarrow>
    column_info list \<Rightarrow> (udf_error, batch_packer) result" where
  "packer_new dbg_dt dbg_typ batch meta =
     rbind (build_accessors dbg_dt dbg_typ batch meta) (\<lambda>accessors.
       Ok (add_columns 0 accessors
         \<lparr>bp_batch = batch, bp_meta = meta, bp_accessors = accessors,
          bp_nulls = map (\<lambda>c. column_nulls (rb_columns batch ! c)) [0 ..< length meta],
          bp_int32 = [], bp_int64 = [], bp_doubles = [], bp_bools = [], bp_strings = []\<rparr>))"

definition slow_cell :: "('d, 't) ext \<Rightarrow> batch_packer \<Rightarrow> bytes \<Rightarrow> nat \<Rightarrow> nat \<Rightarrow> bytes" where
  "slow_cell E p buf col r = write_block_value E (accessor_value E (bp_accessors p ! col) r) buf"

definition validity :: "bool list \<Rightarrow> nat \<Rightarrow> nat \<Rightarrow> bool list" where
  "validity nb a b = slice a b nb"

text \<open>The column shapes of \<open>pack_fixed\<close>, and of \<open>pack_bools\<close>, which reads the same slots from bits.\<close>

definition pack_fixed :: "'a fixed_col list \<Rightarrow> nat \<Rightarrow> nat \<Rightarrow> 'a list \<Rightarrow> 'a list" where
  "pack_fixed cols a b block = (case cols of
      [] \<Rightarrow> block
    | [col] \<Rightarrow> (case fc_nulls col of
          None \<Rightarrow> block @ slice a b (fc_values col)
        | Some nb \<Rightarrow> block @ map fst (filter snd (zip (slice a b (fc_values col)) (validity nb a b))))
    | _ \<Rightarrow> block @ concat (map (\<lambda>r. concat (map (\<lambda>col.
          if is_valid (fc_nulls col) r then [fc_values col ! r] else []) cols)) [a ..< b]))"

definition pack_bools :: "bool fixed_col list \<Rightarrow> nat \<Rightarrow> nat \<Rightarrow> bool list \<Rightarrow> bool list" where
  "pack_bools cols a b block = (case cols of
      [] \<Rightarrow> block
    | [col] \<Rightarrow> (case fc_nulls col of
          None \<Rightarrow> block @ slice a b (fc_values col)
        | Some nb \<Rightarrow>
            (let values = slice a b (fc_values col)
             in block @ map fst (filter snd (zip values (validity nb a b)))))
    | _ \<Rightarrow> block @ concat (map (\<lambda>r. concat (map (\<lambda>col.
          if is_valid (fc_nulls col) r then [fc_values col ! r] else []) cols)) [a ..< b]))"

text \<open>The null bits of one column set, one row after another.\<close>

fun set_nulls :: "nat \<Rightarrow> nat \<Rightarrow> nat \<Rightarrow> nat \<Rightarrow> bool list \<Rightarrow> bool list \<Rightarrow> bool list" where
  "set_nulls base width c i [] ns = ns"
| "set_nulls base width c i (valid # bits) ns =
     set_nulls base width c (i + 1) bits (if valid then ns else ns[base + i * width + c := True])"

fun set_columns :: "nat \<Rightarrow> nat \<Rightarrow> nat \<Rightarrow> nat \<Rightarrow> nat \<Rightarrow> bool list option list \<Rightarrow> bool list \<Rightarrow> bool list" where
  "set_columns a b base width c [] ns = ns"
| "set_columns a b base width c (nb # nbs) ns =
     set_columns a b base width (c + 1) nbs (case nb of
         None \<Rightarrow> ns | Some nb \<Rightarrow> set_nulls base width c 0 (validity nb a b) ns)"

definition pack_nulls :: "batch_packer \<Rightarrow> nat \<Rightarrow> nat \<Rightarrow> emit_table \<Rightarrow> emit_table" where
  "pack_nulls p a b out =
     (let width = length (bp_accessors p);
          base = length (nulls out);
          ns = nulls out @ replicate ((b - a) * width) False
      in out\<lparr>nulls := set_columns a b base width 0 (bp_nulls p) ns\<rparr>)"

definition timestamp_parts :: "string_kind \<Rightarrow> nat \<Rightarrow> int \<times> nat" where
  "timestamp_parts kind r = (case kind of
      SkTsSecond xs \<Rightarrow> (sint (xs ! r), 0)
    | SkTsMillisecond xs \<Rightarrow> (sint (xs ! r) div 1000, nat (sint (xs ! r) mod 1000 * 1000000))
    | SkTsMicrosecond xs \<Rightarrow> (sint (xs ! r) div 1000000, nat (sint (xs ! r) mod 1000000 * 1000))
    | SkTsNanosecond xs \<Rightarrow> (sint (xs ! r) div 1000000000, nat (sint (xs ! r) mod 1000000000))
    | _ \<Rightarrow> undefined)" \<comment> \<open>the caller matched a timestamp column\<close>

text \<open>The fast writers return the buffer, or nothing where the caller takes the \<open>chrono\<close> path.\<close>

definition write_date32 :: "bytes \<Rightarrow> int \<Rightarrow> year_cache \<Rightarrow> bytes option \<times> year_cache" where
  "write_date32 out days years =
     (let ((year, month, day), years) = civil days years in
      (if \<not> (0 \<le> year \<and> year \<le> 9999) then None else Some (write_ymd out (nat year) month day), years))"

definition write_timestamp :: "bytes \<Rightarrow> int \<Rightarrow> nat \<Rightarrow> year_cache \<Rightarrow> bytes option \<times> year_cache" where
  "write_timestamp out secs nanos years =
     (let days = secs div 86400;
          ((year, month, day), years) = civil days years
      in if \<not> (0 \<le> year \<and> year \<le> 9999) then (None, years)
         else let sod = nat (secs mod 86400) in
           (Some (write_hms_nanos (write_ymd out (nat year) month day @ '' '')
              (sod div 3600) (sod div 60 mod 60) (sod mod 60) nanos), years))"

text \<open>The writer of a cell falls back to the row path's text.\<close>

definition or_slow :: "('d, 't) ext \<Rightarrow> batch_packer \<Rightarrow> nat \<Rightarrow> nat \<Rightarrow> (bytes \<Rightarrow> bytes option) \<Rightarrow> bytes \<Rightarrow> bytes" where
  "or_slow E p col r fast buf = (case fast buf of Some buf' \<Rightarrow> buf' | None \<Rightarrow> slow_cell E p buf col r)"

definition pack_string_cell :: "prost \<Rightarrow> ('d, 't) ext \<Rightarrow> batch_packer \<Rightarrow> nat \<Rightarrow> string_col \<Rightarrow>
    emit_table \<times> year_cache \<Rightarrow> emit_table \<times> year_cache" where
  "pack_string_cell P E p r sc s =
     (let (out, years) = s in
      if \<not> is_valid (sc_nulls sc) r then (out, years)
      else let timestamp =
          (let (secs, nanos) = timestamp_parts (sc_kind sc) r in
           (push_string_with P (or_slow E p (sc_col sc) r (\<lambda>buf. fst (write_timestamp buf secs nanos years))) out,
            snd (write_timestamp (strings out) secs nanos years)))
        in case sc_kind sc of
          SkUtf8 offsets data \<Rightarrow> (push_string P (text_at offsets data r) out, years)
        | SkLargeUtf8 offsets data \<Rightarrow> (push_string P (text_at offsets data r) out, years)
        | SkDate32 xs \<Rightarrow>
            (let days = sint (xs ! r) in
             (push_string_with P (or_slow E p (sc_col sc) r (\<lambda>buf. fst (write_date32 buf days years))) out,
              snd (write_date32 (strings out) days years)))
        | SkTsSecond _ \<Rightarrow> timestamp
        | SkTsMillisecond _ \<Rightarrow> timestamp
        | SkTsMicrosecond _ \<Rightarrow> timestamp
        | SkTsNanosecond _ \<Rightarrow> timestamp
        | SkDecimal xs scale \<Rightarrow>
            (push_string_with P (write_decimal E \<lparr>unscaled = xs ! r, dscale = scale\<rparr>) out, years)
        | SkWidened \<Rightarrow> (push_string_with P (\<lambda>buf. slow_cell E p buf (sc_col sc) r) out, years))"

definition pack_strings :: "prost \<Rightarrow> ('d, 't) ext \<Rightarrow> batch_packer \<Rightarrow> nat \<Rightarrow> nat \<Rightarrow> emit_table \<Rightarrow> emit_table" where
  "pack_strings P E p a b out =
     (if bp_strings p = [] then out
      else fst (fold (\<lambda>r. fold (pack_string_cell P E p r) (bp_strings p)) [a ..< b]
             (out, year_cache_default)))"

definition pack :: "prost \<Rightarrow> ('d, 't) ext \<Rightarrow> batch_packer \<Rightarrow> nat \<Rightarrow> nat \<Rightarrow> nat \<Rightarrow> emit_table \<Rightarrow> emit_table" where
  "pack P E p a b row_number out =
     (let n = b - a in
      if n = 0 then out
      else let out = pack_nulls p a b out;
               out = out\<lparr>int32 := pack_fixed (bp_int32 p) a b (int32 out)\<rparr>;
               out = out\<lparr>int64 := pack_fixed (bp_int64 p) a b (int64 out)\<rparr>;
               out = out\<lparr>doubles := pack_fixed (bp_doubles p) a b (doubles out)\<rparr>;
               out = out\<lparr>bools := pack_bools (bp_bools p) a b (bools out)\<rparr>;
               out = pack_strings P E p a b out
        in out\<lparr>row_numbers := row_numbers out @ replicate n row_number, rows := rows out + n\<rparr>)"

section \<open>Batches in the buffer\<close>

text \<open>
  The flusher of a session changes the session's state: from a table and a state it computes
  an answer and the next state, or nothing when the exchange never ends. The rows of a batch
  that reach the threshold flush on the way.
\<close>

type_synonym 's flusher = "emit_table \<Rightarrow> 's \<Rightarrow> ((udf_error, unit) result \<times> 's) option"

fun push_batch_rows :: "prost \<Rightarrow> ('d, 't) ext \<Rightarrow> batch_packer \<Rightarrow> nat \<Rightarrow> 's flusher \<Rightarrow> nat \<Rightarrow> nat \<Rightarrow>
    nat list \<Rightarrow> emit_buffer \<Rightarrow> 's \<Rightarrow> ((udf_error, nat) result \<times> emit_buffer \<times> 's) option" where
  "push_batch_rows P E packer row_number flusher start r [] b s = Some (Ok start, b, s)"
| "push_batch_rows P E packer row_number flusher start r (cost # costs) b s =
     (let b = account 1 (cost + BYTES_ROW_NUMBER) b in
      if should_flush b then
        let b = b\<lparr>eb_table := pack P E packer start (r + 1) row_number (eb_table b)\<rparr>;
            (send, b) = flush flusher b
        in Option.bind (send s) (\<lambda>(res, s). case res of
             Inl e \<Rightarrow> Some (Err e, b, s)
           | Inr _ \<Rightarrow> push_batch_rows P E packer row_number flusher (r + 1) (r + 1) costs b s)
      else push_batch_rows P E packer row_number flusher start (r + 1) costs b s)"

definition push_batch :: "(arrow_data \<Rightarrow> string) \<Rightarrow> (exa_type \<Rightarrow> string) \<Rightarrow> prost \<Rightarrow> ('d, 't) ext \<Rightarrow>
    record_batch \<Rightarrow> column_info list \<Rightarrow> nat \<Rightarrow> 's flusher \<Rightarrow> emit_buffer \<Rightarrow> 's \<Rightarrow>
    ((udf_error, unit) result \<times> emit_buffer \<times> 's) option" where
  "push_batch dbg_dt dbg_typ P E batch meta row_number flusher b s =
     (let num_rows = rb_num_rows batch in
      if num_rows = 0 then Some (Ok (), b, s)
      else case packer_new dbg_dt dbg_typ batch meta of
        Inl e \<Rightarrow> Some (Err e, b, s)
      | Inr packer \<Rightarrow>
          let batch_cost = batch_byte_cost batch meta + num_rows * BYTES_ROW_NUMBER in
          if byte_estimate b + batch_cost < EMIT_BUFFER_LIMIT_BYTES
          then let b = account num_rows batch_cost b
               in Some (Ok (), b\<lparr>eb_table := pack P E packer 0 num_rows row_number (eb_table b)\<rparr>, s)
          else Option.bind (push_batch_rows P E packer row_number flusher 0 0
                 (compute_row_costs batch meta) b s) (\<lambda>(res, b, s). case res of
              Inl e \<Rightarrow> Some (Err e, b, s)
            | Inr start \<Rightarrow>
                Some (Ok (), b\<lparr>eb_table := pack P E packer start num_rows row_number (eb_table b)\<rparr>, s)))"

section \<open>What a packer holds\<close>

text \<open>The entry a column makes in each of the packer's lists.\<close>

definition int32_col :: "col_accessor \<times> bool list option \<Rightarrow> i32 fixed_col list" where
  "int32_col x = (case fst x of AccInt32 xs \<Rightarrow> [\<lparr>fc_values = xs, fc_nulls = snd x\<rparr>] | _ \<Rightarrow> [])"

definition int64_col :: "col_accessor \<times> bool list option \<Rightarrow> i64 fixed_col list" where
  "int64_col x = (case fst x of AccInt64 xs \<Rightarrow> [\<lparr>fc_values = xs, fc_nulls = snd x\<rparr>] | _ \<Rightarrow> [])"

definition double_col :: "col_accessor \<times> bool list option \<Rightarrow> f64 fixed_col list" where
  "double_col x = (case fst x of AccFloat64 xs \<Rightarrow> [\<lparr>fc_values = xs, fc_nulls = snd x\<rparr>] | _ \<Rightarrow> [])"

definition bool_col :: "col_accessor \<times> bool list option \<Rightarrow> bool fixed_col list" where
  "bool_col x = (case fst x of AccBoolean xs \<Rightarrow> [\<lparr>fc_values = xs, fc_nulls = snd x\<rparr>] | _ \<Rightarrow> [])"

definition kind_of :: "col_accessor \<Rightarrow> string_kind option" where
  "kind_of acc = (case acc of
      AccUtf8 offsets data \<Rightarrow> Some (SkUtf8 offsets data)
    | AccLargeUtf8 offsets data \<Rightarrow> Some (SkLargeUtf8 offsets data)
    | AccDate32 xs \<Rightarrow> Some (SkDate32 xs)
    | AccTsSecond xs \<Rightarrow> Some (SkTsSecond xs)
    | AccTsMillisecond xs \<Rightarrow> Some (SkTsMillisecond xs)
    | AccTsMicrosecond xs \<Rightarrow> Some (SkTsMicrosecond xs)
    | AccTsNanosecond xs \<Rightarrow> Some (SkTsNanosecond xs)
    | AccDecimal128 xs scale \<Rightarrow> Some (SkDecimal xs (word_of_int scale))
    | AccNumericFromInt32 _ \<Rightarrow> Some SkWidened
    | AccNumericFromInt64 _ \<Rightarrow> Some SkWidened
    | AccNumericFromFloat64 _ \<Rightarrow> Some SkWidened
    | _ \<Rightarrow> None)"

definition string_entry :: "nat \<times> col_accessor \<times> bool list option \<Rightarrow> string_col list" where
  "string_entry x = (case kind_of (fst (snd x)) of
      None \<Rightarrow> [] | Some k \<Rightarrow> [\<lparr>sc_col = fst x, sc_nulls = snd (snd x), sc_kind = k\<rparr>])"

lemmas column_entry_defs = int32_col_def int64_col_def double_col_def bool_col_def string_entry_def
  kind_of_def

lemma add_columns_eq:
  assumes "drop c (bp_nulls p) = nbs" "length nbs = length accs"
  shows "add_columns c accs p = p\<lparr>
     bp_int32 := bp_int32 p @ concat (map int32_col (zip accs nbs)),
     bp_int64 := bp_int64 p @ concat (map int64_col (zip accs nbs)),
     bp_doubles := bp_doubles p @ concat (map double_col (zip accs nbs)),
     bp_bools := bp_bools p @ concat (map bool_col (zip accs nbs)),
     bp_strings := bp_strings p @ concat (map string_entry (zip [c ..< c + length accs] (zip accs nbs)))\<rparr>"
  using assms
proof (induction accs arbitrary: c p nbs)
  case Nil
  then show ?case by simp
next
  case (Cons acc accs)
  then obtain nb nbs' where nbs: "nbs = nb # nbs'" by (cases nbs) auto
  have nb: "bp_nulls p ! c = nb" "drop (Suc c) (bp_nulls p) = nbs'"
    using Cons.prems(1) nbs by (auto intro: nth_via_drop drop_Suc_tl)
  have same: "bp_nulls (add_column c acc p) = bp_nulls p"
    by (simp add: add_column_def add_string_def Let_def split: col_accessor.split)
  have upt: "[c ..< c + length (acc # accs)] = c # [Suc c ..< Suc c + length accs]"
    by (simp add: upt_rec)
  have "add_columns c (acc # accs) p = add_columns (Suc c) accs (add_column c acc p)" by simp
  also have "\<dots> = (add_column c acc p)\<lparr>
     bp_int32 := bp_int32 (add_column c acc p) @ concat (map int32_col (zip accs nbs')),
     bp_int64 := bp_int64 (add_column c acc p) @ concat (map int64_col (zip accs nbs')),
     bp_doubles := bp_doubles (add_column c acc p) @ concat (map double_col (zip accs nbs')),
     bp_bools := bp_bools (add_column c acc p) @ concat (map bool_col (zip accs nbs')),
     bp_strings := bp_strings (add_column c acc p) @
       concat (map string_entry (zip [Suc c ..< Suc c + length accs] (zip accs nbs')))\<rparr>"
    using Cons.prems nb nbs by (intro Cons.IH) (simp_all add: same)
  also have "\<dots> = p\<lparr>
     bp_int32 := bp_int32 p @ concat (map int32_col (zip (acc # accs) nbs)),
     bp_int64 := bp_int64 p @ concat (map int64_col (zip (acc # accs) nbs)),
     bp_doubles := bp_doubles p @ concat (map double_col (zip (acc # accs) nbs)),
     bp_bools := bp_bools p @ concat (map bool_col (zip (acc # accs) nbs)),
     bp_strings := bp_strings p @
       concat (map string_entry (zip [c ..< c + length (acc # accs)] (zip (acc # accs) nbs)))\<rparr>"
    unfolding nbs upt by (cases acc) (simp_all add: add_column_def add_string_def nb column_entry_defs)
  finally show ?case .
qed

text \<open>The packer of a batch.\<close>

definition holds_batch :: "batch_packer \<Rightarrow> (col_accessor \<times> bool list option) list \<Rightarrow> bool" where
  "holds_batch p cs \<longleftrightarrow> bp_accessors p = map fst cs \<and> bp_nulls p = map snd cs \<and>
     bp_int32 p = concat (map int32_col cs) \<and> bp_int64 p = concat (map int64_col cs) \<and>
     bp_doubles p = concat (map double_col cs) \<and> bp_bools p = concat (map bool_col cs) \<and>
     bp_strings p = concat (map string_entry (zip [0 ..< length cs] cs))"

lemma build_columns_all:
  "build_columns dd dt c cols meta = Ok accs \<Longrightarrow> length cols = length meta \<Longrightarrow>
    list_all2 (\<lambda>(col, m) acc. build_accessor (aa_data col) (ci_typ m) = Some acc) (zip cols meta) accs"
proof (induction dd dt c cols meta arbitrary: accs rule: build_columns.induct)
  case (1 dd dt c col cols m meta)
  then show ?case by (auto simp: rbind_eq_Inr split: option.splits)
qed auto

lemma packer_new_holds:
  assumes "packer_new dd dt batch meta = Ok p"
  shows "\<exists>accs. holds_batch p (zip accs (map column_nulls (rb_columns batch))) \<and>
    length (rb_columns batch) = length meta \<and> length accs = length meta \<and>
    list_all2 (\<lambda>(col, m) acc. build_accessor (aa_data col) (ci_typ m) = Some acc)
      (zip (rb_columns batch) meta) accs"
proof -
  obtain accs where build: "build_accessors dd dt batch meta = Ok accs"
    and p: "p = add_columns 0 accs \<lparr>bp_batch = batch, bp_meta = meta, bp_accessors = accs,
          bp_nulls = map (\<lambda>c. column_nulls (rb_columns batch ! c)) [0 ..< length meta],
          bp_int32 = [], bp_int64 = [], bp_doubles = [], bp_bools = [], bp_strings = []\<rparr>"
    using assms by (auto simp: packer_new_def rbind_eq_Inr)
  have len: "length (rb_columns batch) = length meta"
    and cols: "build_columns dd dt 0 (rb_columns batch) meta = Ok accs"
    using build by (auto simp: build_accessors_def split: if_splits)
  note all = build_columns_all [OF cols len]
  have accs: "length accs = length meta" using list_all2_lengthD [OF all] len by simp
  have nulls: "map (\<lambda>c. column_nulls (rb_columns batch ! c)) [0 ..< length meta] =
      map column_nulls (rb_columns batch)"
    by (rule nth_equalityI) (simp_all add: len)
  let ?nbs = "map column_nulls (rb_columns batch)"
  have "holds_batch p (zip accs ?nbs)"
    unfolding p nulls
    by (subst add_columns_eq [of _ _ ?nbs]) (simp_all add: holds_batch_def accs len)
  then show ?thesis using all accs len by blast
qed

section \<open>Slots of the fixed-width blocks\<close>

definition col_slot :: "'a fixed_col \<Rightarrow> nat \<Rightarrow> 'a list" where
  "col_slot col r = (if is_valid (fc_nulls col) r then [fc_values col ! r] else [])"

definition col_long :: "nat \<Rightarrow> 'a fixed_col \<Rightarrow> bool" where
  "col_long n col \<longleftrightarrow> n \<le> length (fc_values col) \<and>
     (case fc_nulls col of None \<Rightarrow> True | Some nb \<Rightarrow> n \<le> length nb)"

lemma slice_map_nth: "b \<le> length xs \<Longrightarrow> slice a b xs = map ((!) xs) [a ..< b]"
  by (rule nth_equalityI) (simp_all add: slice_def)

lemma filter_zip_slots:
  "map fst (filter snd (zip (map f xs) (map g xs))) = concat (map (\<lambda>x. if g x then [f x] else []) xs)"
  by (induction xs) simp_all

lemma pack_fixed_slots:
  assumes "list_all (col_long b) cols"
  shows "pack_fixed cols a b block =
    block @ concat (map (\<lambda>r. concat (map (\<lambda>col. col_slot col r) cols)) [a ..< b])"
proof -
  consider "cols = []" | col where "cols = [col]" | c1 c2 cs where "cols = c1 # c2 # cs"
    by (metis neq_Nil_conv)
  then show ?thesis
  proof cases
    case 1
    then show ?thesis by (simp add: pack_fixed_def concat_map_singleton)
  next
    case 2
    then show ?thesis
      using assms
      by (auto simp: pack_fixed_def col_long_def col_slot_def is_valid_def slice_map_nth validity_def
          filter_zip_slots concat_map_singleton split: option.splits)
  next
    case 3
    then show ?thesis by (simp add: pack_fixed_def col_slot_def)
  qed
qed

lemma pack_bools_fixed: "pack_bools cols a b block = pack_fixed cols a b block"
  unfolding pack_bools_def pack_fixed_def Let_def by (rule refl)

section \<open>The row path's view of a batch\<close>

text \<open>A column of the batch: its accessor and the validity the packer kept.\<close>

type_synonym batch_col = "col_accessor \<times> bool list option"

definition batch_cell :: "('d, 't) ext \<Rightarrow> nat \<Rightarrow> batch_col \<Rightarrow> ('d, 't) sql_value" where
  "batch_cell E r col = (if is_valid (snd col) r then accessor_value E (fst col) r else VNull)"

definition batch_row :: "('d, 't) ext \<Rightarrow> batch_col list \<Rightarrow> nat \<Rightarrow> ('d, 't) sql_value list" where
  "batch_row E cs r = map (batch_cell E r) cs"

text \<open>An accessor fits the column it was built for.\<close>

definition fits :: "exa_type \<Rightarrow> col_accessor \<Rightarrow> bool" where
  "fits ty acc = (case acc of
      AccInt32 _ \<Rightarrow> ty = TInt32 | AccInt64 _ \<Rightarrow> ty = TInt64 | AccFloat64 _ \<Rightarrow> ty = TDouble
    | AccBoolean _ \<Rightarrow> ty = TBoolean | AccUnsupported \<Rightarrow> False
    | _ \<Rightarrow> is_string_family_exatype ty)"

text \<open>The buffers of a column reach at least to row \<open>n\<close>.\<close>

definition acc_length :: "col_accessor \<Rightarrow> nat" where
  "acc_length acc = (case acc of
      AccInt32 xs \<Rightarrow> length xs | AccInt64 xs \<Rightarrow> length xs | AccFloat64 xs \<Rightarrow> length xs
    | AccBoolean xs \<Rightarrow> length xs | AccUtf8 o' _ \<Rightarrow> length o' - 1 | AccLargeUtf8 o' _ \<Rightarrow> length o' - 1
    | AccDate32 xs \<Rightarrow> length xs | AccTsSecond xs \<Rightarrow> length xs | AccTsMillisecond xs \<Rightarrow> length xs
    | AccTsMicrosecond xs \<Rightarrow> length xs | AccTsNanosecond xs \<Rightarrow> length xs
    | AccDecimal128 xs _ \<Rightarrow> length xs | AccNumericFromInt32 xs \<Rightarrow> length xs
    | AccNumericFromInt64 xs \<Rightarrow> length xs | AccNumericFromFloat64 xs \<Rightarrow> length xs
    | AccUnsupported \<Rightarrow> 0)"

definition batch_col_ok :: "nat \<Rightarrow> column_info \<Rightarrow> batch_col \<Rightarrow> bool" where
  "batch_col_ok n m col \<longleftrightarrow> fits (ci_typ m) (fst col) \<and> n \<le> acc_length (fst col) \<and>
     (case snd col of None \<Rightarrow> True | Some nb \<Rightarrow> n \<le> length nb)"

lemma fits_not_null: "fits ty acc \<Longrightarrow> accessor_value E acc r \<noteq> VNull"
  by (cases acc) (simp_all add: fits_def accessor_value_def)

lemma batch_cell_null: "batch_col_ok n m col \<Longrightarrow> batch_cell E r col = VNull \<longleftrightarrow> \<not> is_valid (snd col) r"
  using fits_not_null by (auto simp: batch_cell_def batch_col_ok_def)

text \<open>Each fixed-width block gets from a row what the row path would put there.\<close>

lemma col_slot_cells:
  assumes "batch_col_ok n m col"
  shows "concat (map (\<lambda>c. col_slot c r) (int32_col col)) = cell_int32s E (ci_typ m) (batch_cell E r col)"
    "concat (map (\<lambda>c. col_slot c r) (int64_col col)) = cell_int64s E (ci_typ m) (batch_cell E r col)"
    "concat (map (\<lambda>c. col_slot c r) (double_col col)) = cell_doubles E (ci_typ m) (batch_cell E r col)"
    "concat (map (\<lambda>c. col_slot c r) (bool_col col)) = cell_bools (ci_typ m) (batch_cell E r col)"
  using assms
  by (cases "fst col"; auto simp: batch_col_ok_def fits_def column_entry_defs batch_cell_def col_slot_def
      cell_block_defs accessor_value_def value_to_i64_def value_to_f64_def value_to_bool_def
      is_string_family_exatype_def ucast_scast_32)+

lemma row_block_cols:
  assumes "list_all2 (batch_col_ok n) meta cs"
    and "\<And>m col. batch_col_ok n m col \<Longrightarrow> concat (map (\<lambda>c. col_slot c r) (entry col)) =
      block (ci_typ m) (batch_cell E r col)"
  shows "concat (map (\<lambda>c. col_slot c r) (concat (map entry cs))) = row_block block meta (batch_row E cs r)"
  using assms(1)
proof (induction rule: list_all2_induct)
  case Nil
  then show ?case by simp
next
  case (Cons m ms col cs)
  then show ?case using assms(2) [of m col] by (simp add: batch_row_def)
qed

lemma col_long_cols:
  assumes "list_all2 (batch_col_ok n) meta cs"
  shows "list_all (col_long n) (concat (map int32_col cs))" "list_all (col_long n) (concat (map int64_col cs))"
    "list_all (col_long n) (concat (map double_col cs))" "list_all (col_long n) (concat (map bool_col cs))"
proof -
  have entry: "batch_col_ok n m col \<Longrightarrow> list_all (col_long n) (int32_col col) \<and>
      list_all (col_long n) (int64_col col) \<and> list_all (col_long n) (double_col col) \<and>
      list_all (col_long n) (bool_col col)" for m col
    by (cases "fst col") (simp_all add: batch_col_ok_def column_entry_defs col_long_def acc_length_def)
  have "list_all (\<lambda>col. list_all (col_long n) (int32_col col) \<and>
      list_all (col_long n) (int64_col col) \<and> list_all (col_long n) (double_col col) \<and>
      list_all (col_long n) (bool_col col)) cs"
    using assms by (induction rule: list_all2_induct) (use entry in auto)
  then show "list_all (col_long n) (concat (map int32_col cs))" "list_all (col_long n) (concat (map int64_col cs))"
    "list_all (col_long n) (concat (map double_col cs))" "list_all (col_long n) (concat (map bool_col cs))"
    by (auto simp: list_all_iff)
qed

section \<open>The null bitmap\<close>

text \<open>A bitmap of rows of one width, read by row and column.\<close>

lemma nth_concat_uniform:
  assumes "\<And>x. x \<in> set xs \<Longrightarrow> length (f x) = w" "i < length xs" "c < w"
  shows "concat (map f xs) ! (i * w + c) = f (xs ! i) ! c"
  using assms
proof (induction xs arbitrary: i)
  case Nil
  then show ?case by simp
next
  case (Cons x xs)
  show ?case
  proof (cases i)
    case 0
    then show ?thesis using Cons.prems by (simp add: nth_append)
  next
    case (Suc j)
    then have "concat (map f (x # xs)) ! (i * w + c) = concat (map f xs) ! (j * w + c)"
      using Cons.prems(1) by (simp add: nth_append)
    then show ?thesis using Cons Suc by simp
  qed
qed

lemma length_concat_uniform:
  "(\<And>x. x \<in> set xs \<Longrightarrow> length (f x) = w) \<Longrightarrow> length (concat (map f xs)) = length xs * w"
  by (induction xs) simp_all

lemma set_nulls_nth:
  assumes "0 < w" "c < w"
  shows "length (set_nulls base w c i bits ns) = length ns \<and>
    (\<forall>k c'. c' < w \<longrightarrow> base + k * w + c' < length ns \<longrightarrow>
       set_nulls base w c i bits ns ! (base + k * w + c') =
         (if c' = c \<and> i \<le> k \<and> k < i + length bits \<and> \<not> bits ! (k - i) then True
          else ns ! (base + k * w + c')))"
  using assms
proof (induction base w c i bits ns rule: set_nulls.induct)
  case (1 base w c i ns)
  then show ?case by auto
next
  case (2 base w c i valid bits ns)
  define ns' where "ns' = (if valid then ns else ns[base + i * w + c := True])"
  have pos: "base + k * w + c' = base + i * w + c \<longleftrightarrow> k = i \<and> c' = c" if "c' < w" for k c'
  proof
    assume "base + k * w + c' = base + i * w + c"
    then have eq: "k * w + c' = i * w + c" by simp
    have "(k * w + c') div w = k" "(i * w + c) div w = i" "(k * w + c') mod w = c'" "(i * w + c) mod w = c"
      using that 2 by simp_all
    then show "k = i \<and> c' = c" using eq by metis
  qed simp
  have len: "length ns' = length ns" by (simp add: ns'_def)
  have "ns' ! (base + k * w + c') = (if k = i \<and> c' = c \<and> \<not> valid then True else ns ! (base + k * w + c'))"
    if "c' < w" "base + k * w + c' < length ns" for k c'
  proof (cases "base + k * w + c' = base + i * w + c")
    case True
    then show ?thesis using pos [OF that(1), of k] that(2) by (simp add: ns'_def)
  next
    case False
    then have "ns[base + i * w + c := True] ! (base + k * w + c') = ns ! (base + k * w + c')"
      by (intro nth_list_update_neq) simp
    moreover have "\<not> (k = i \<and> c' = c)" using False by blast
    ultimately show ?thesis unfolding ns'_def by (simp only: split: if_split) blast
  qed
  note ns' = len this
  have IH: "length (set_nulls base w c (i + 1) bits ns') = length ns' \<and>
    (\<forall>k c'. c' < w \<longrightarrow> base + k * w + c' < length ns' \<longrightarrow>
       set_nulls base w c (i + 1) bits ns' ! (base + k * w + c') =
         (if c' = c \<and> i + 1 \<le> k \<and> k < i + 1 + length bits \<and> \<not> bits ! (k - (i + 1)) then True
          else ns' ! (base + k * w + c')))"
    unfolding ns'_def using 2(2,3) by (rule 2(1))
  have "set_nulls base w c i (valid # bits) ns = set_nulls base w c (i + 1) bits ns'"
    by (simp add: ns'_def)
  moreover have "set_nulls base w c (i + 1) bits ns' ! (base + k * w + c') =
      (if c' = c \<and> i \<le> k \<and> k < i + length (valid # bits) \<and> \<not> (valid # bits) ! (k - i) then True
       else ns ! (base + k * w + c'))" if "c' < w" "base + k * w + c' < length ns" for k c'
  proof (cases "i < k")
    case True
    then have "k - i = Suc (k - (i + 1))" by simp
    then show ?thesis using IH ns' that True by simp
  next
    case False
    then show ?thesis using IH ns' that by auto
  qed
  ultimately show ?case using IH ns'(1) by simp
qed

lemma set_columns_nth:
  assumes "0 < w" "c + length nbs \<le> w" "a \<le> b"
    and "list_all (\<lambda>nb. case nb of None \<Rightarrow> True | Some bits \<Rightarrow> b \<le> length bits) nbs"
  shows "length (set_columns a b base w c nbs ns) = length ns \<and>
    (\<forall>k c'. c' < w \<longrightarrow> k < b - a \<longrightarrow> base + k * w + c' < length ns \<longrightarrow>
       set_columns a b base w c nbs ns ! (base + k * w + c') =
         (if c \<le> c' \<and> c' < c + length nbs \<and> \<not> is_valid (nbs ! (c' - c)) (a + k) then True
          else ns ! (base + k * w + c')))"
  using assms
proof (induction a b base w c nbs ns rule: set_columns.induct)
  case (1 a b base w c ns)
  then show ?case by simp
next
  case (2 a b base w c nb nbs ns)
  define ns' where "ns' = (case nb of None \<Rightarrow> ns | Some nb \<Rightarrow> set_nulls base w c 0 (validity nb a b) ns)"
  have ns': "length ns' = length ns"
    "\<And>k c'. c' < w \<Longrightarrow> k < b - a \<Longrightarrow> base + k * w + c' < length ns \<Longrightarrow> ns' ! (base + k * w + c') =
       (if c' = c \<and> \<not> is_valid nb (a + k) then True else ns ! (base + k * w + c'))"
    using set_nulls_nth [of w c base 0 _ ns] 2(2-)
    by (auto simp: ns'_def is_valid_def validity_def length_slice slice_def split: option.splits)
  have IH: "length (set_columns a b base w (c + 1) nbs ns') = length ns' \<and>
    (\<forall>k c'. c' < w \<longrightarrow> k < b - a \<longrightarrow> base + k * w + c' < length ns' \<longrightarrow>
       set_columns a b base w (c + 1) nbs ns' ! (base + k * w + c') =
         (if c + 1 \<le> c' \<and> c' < c + 1 + length nbs \<and> \<not> is_valid (nbs ! (c' - (c + 1))) (a + k) then True
          else ns' ! (base + k * w + c')))"
    unfolding ns'_def using 2(2-) by (intro 2(1)) simp_all
  have "set_columns a b base w c (nb # nbs) ns = set_columns a b base w (c + 1) nbs ns'"
    by (simp add: ns'_def)
  moreover have "set_columns a b base w (c + 1) nbs ns' ! (base + k * w + c') =
      (if c \<le> c' \<and> c' < c + length (nb # nbs) \<and> \<not> is_valid ((nb # nbs) ! (c' - c)) (a + k) then True
       else ns ! (base + k * w + c'))"
    if "c' < w" "k < b - a" "base + k * w + c' < length ns" for k c'
  proof (cases "c < c'")
    case True
    then have "c' - c = Suc (c' - (c + 1))" by simp
    then show ?thesis using IH ns' that True by simp
  next
    case False
    then show ?thesis using IH ns' that by auto
  qed
  ultimately show ?case using IH ns'(1) by simp
qed

lemma set_nulls_below: "j < base \<Longrightarrow> set_nulls base w c i bits ns ! j = ns ! j"
  by (induction base w c i bits ns rule: set_nulls.induct) simp_all

lemma set_columns_below: "j < base \<Longrightarrow> set_columns a b base w c nbs ns ! j = ns ! j"
  by (induction a b base w c nbs ns rule: set_columns.induct)
    (simp_all add: set_nulls_below split: option.split)

lemma pack_nulls_eq:
  assumes "list_all2 (batch_col_ok b) meta cs" "a \<le> b" "holds_batch p cs"
  shows "pack_nulls p a b t = t\<lparr>nulls := nulls t @
    concat (map (\<lambda>r. map is_null (batch_row E cs r)) [a ..< b])\<rparr>"
proof -
  let ?w = "length cs"
  let ?bits = "concat (map (\<lambda>r. map is_null (batch_row E cs r)) [a ..< b])"
  let ?ns = "nulls t @ replicate ((b - a) * ?w) False"
  let ?out = "set_columns a b (length (nulls t)) ?w 0 (map snd cs) ?ns"
  have len: "length ?bits = (b - a) * ?w"
    by (subst length_concat_uniform [of _ _ ?w]) (simp_all add: batch_row_def)
  have "?out = nulls t @ ?bits"
  proof (cases "?w = 0")
    case True
    then show ?thesis by (simp add: batch_row_def)
  next
    case False
    have long: "list_all (\<lambda>nb. case nb of None \<Rightarrow> True | Some bits \<Rightarrow> b \<le> length bits) (map snd cs)"
      using assms(1) by (induction rule: list_all2_induct) (auto simp: batch_col_ok_def)
    note out = set_columns_nth [of ?w 0 "map snd cs" a b "length (nulls t)" ?ns, OF _ _ assms(2) long]
    show ?thesis
    proof (rule nth_equalityI)
      show "length ?out = length (nulls t @ ?bits)" using out False len by simp
    next
      fix j
      assume j: "j < length ?out"
      show "?out ! j = (nulls t @ ?bits) ! j"
      proof (cases "j < length (nulls t)")
        case True
        then show ?thesis by (simp add: set_columns_below nth_append)
      next
        case below: False
        define k where "k = (j - length (nulls t)) div ?w"
        define c where "c = (j - length (nulls t)) mod ?w"
        have c: "c < ?w" using False by (simp add: c_def)
        have jk: "j - length (nulls t) = k * ?w + c" by (simp add: k_def c_def)
        then have j_eq: "j = length (nulls t) + k * ?w + c" using below by simp
        have "length ?out = length (nulls t) + (b - a) * ?w" using out False by simp
        then have lt: "k * ?w + c < (b - a) * ?w" using j j_eq by simp
        then have k: "k < b - a"
          by (metis add_lessD1 mult_less_cancel2)
        have ok: "batch_col_ok b (meta ! c) (cs ! c)" using assms(1) c by (simp add: list_all2_conv_all_nth)
        have "?out ! j = (\<not> is_valid (snd (cs ! c)) (a + k))"
          using out False c k lt unfolding j_eq by (simp add: nth_append)
        moreover have "?bits ! (k * ?w + c) = is_null (batch_row E cs (a + k) ! c)"
          using k c by (subst nth_concat_uniform) (simp_all add: batch_row_def)
        ultimately show ?thesis
          using below c batch_cell_null [OF ok, of E "a + k"] by (simp add: nth_append jk batch_row_def)
      qed
    qed
  qed
  then show ?thesis using assms(3) by (simp add: pack_nulls_def Let_def holds_batch_def)
qed

section \<open>The string block\<close>

text \<open>
  What the packer's DATE and TIMESTAMP writers rely on: in the years the wire text covers,
  \<open>chrono\<close> converts day numbers and timestamps by the Gregorian calendar, and its
  millisecond and microsecond constructors split as the second and nanosecond one.
\<close>

locale arrow_ext = cell_ext E for E :: "('d, 't) ext" +
  assumes ce_date: "valid_date y m d \<Longrightarrow> 0 \<le> y \<Longrightarrow> y \<le> 9999 \<Longrightarrow>
      \<exists>x. from_num_days_from_ce_opt E (ce_day y m d) = Some x \<and>
        d_year E x = y \<and> d_month E x = m \<and> d_day E x = d"
    and ce_time: "valid_date y m d \<Longrightarrow> 0 \<le> y \<Longrightarrow> y \<le> 9999 \<Longrightarrow>
      h < 24 \<Longrightarrow> mi < 60 \<Longrightarrow> s < 60 \<Longrightarrow> n < 1000000000 \<Longrightarrow>
      \<exists>x. from_timestamp E ((ce_day y m d - EPOCH_CE_DAY) * 86400 + int (h * 3600 + mi * 60 + s)) n = Some x \<and>
        d_year E (t_date E x) = y \<and> d_month E (t_date E x) = m \<and> d_day E (t_date E x) = d \<and>
        t_hour E x = h \<and> t_minute E x = mi \<and> t_second E x = s \<and> t_nanosecond E x = n"
    and millis: "from_timestamp_millis E v = from_timestamp E (v div 1000) (nat (v mod 1000 * 1000000))"
    and micros: "from_timestamp_micros E v = from_timestamp E (v div 1000000) (nat (v mod 1000000 * 1000))"

locale arrow_wire = prost_wire P + arrow_ext E for P :: prost and E :: "('d, 't) ext"

context arrow_ext
begin

text \<open>The packer's writers print what the row path prints for the accessor's value.\<close>

lemma write_date32_value:
  assumes "cache_ok years" "fst (write_date32 buf (sint i) years) = Some buf'"
  shows "write_block_value E (VDate (unwrap_or (d_default E)
    (from_num_days_from_ce_opt E (sint (i + ARROW_EPOCH_CE_DAY))))) buf = buf'"
proof -
  obtain y m d where date: "civil_from_days (sint i) = (y, m, d)" by (cases "civil_from_days (sint i)")
  have valid: "valid_date y m d" and ce: "ce_day y m d = sint i + EPOCH_CE_DAY"
    using civil_from_days_correct [of "sint i"] date by simp_all
  have y: "0 \<le> y" "y \<le> 9999" and buf': "buf' = write_ymd buf (nat y) m d"
    using assms(2) civil_cache [OF assms(1), of "sint i"] date
    by (auto simp: write_date32_def Let_def split: prod.splits if_splits)
  obtain x where x: "from_num_days_from_ce_opt E (ce_day y m d) = Some x" "d_year E x = y"
    "d_month E x = m" "d_day E x = d"
    using ce_date [OF valid y] by blast
  have "ce_day y m d \<le> days_before_year 10000"
    using ce_day_year(2) [OF valid] days_before_mono [of "y + 1" 10000] y by simp
  then have "sint i + EPOCH_CE_DAY < 2 ^ 31" by (simp add: ce days_before_year_def)
  moreover have "- (2 ^ 31) \<le> sint i" using sint_greater_eq [of i] by simp
  ultimately have "sint (i + ARROW_EPOCH_CE_DAY) = sint i + EPOCH_CE_DAY"
    by (simp add: ARROW_EPOCH_CE_DAY_def EPOCH_CE_DAY_def sint_word_ariths signed_take_bit_int_eq_self)
  then show ?thesis
    using x y buf' by (simp add: ce [symmetric] unwrap_or_def write_block_value_def write_fast_date_def)
qed

lemma write_timestamp_value:
  assumes "cache_ok years" "fst (write_timestamp buf secs n years) = Some buf'" "n < 1000000000"
  shows "write_block_value E (VTimestamp (unwrap_or (t_default E) (from_timestamp E secs n))) buf = buf'"
proof -
  let ?days = "secs div 86400"
  let ?sod = "nat (secs mod 86400)"
  obtain y m d where date: "civil_from_days ?days = (y, m, d)" by (cases "civil_from_days ?days")
  have valid: "valid_date y m d" and ce: "ce_day y m d = ?days + EPOCH_CE_DAY"
    using civil_from_days_correct [of ?days] date by simp_all
  have y: "0 \<le> y" "y \<le> 9999" and buf': "buf' = write_hms_nanos (write_ymd buf (nat y) m d @ '' '')
      (?sod div 3600) (?sod div 60 mod 60) (?sod mod 60) n"
    using assms(2) civil_cache [OF assms(1), of ?days] date
    by (auto simp: write_timestamp_def Let_def split: prod.splits if_splits)
  have "secs mod 86400 < 86400" "0 \<le> secs mod 86400" by simp_all
  then have sod: "?sod < 86400" "int ?sod = secs mod 86400" by linarith+
  have h: "?sod div 3600 < 24" using sod(1) by (simp add: div_less_iff_less_mult)
  have secs: "(ce_day y m d - EPOCH_CE_DAY) * 86400 +
      int (?sod div 3600 * 3600 + ?sod div 60 mod 60 * 60 + ?sod mod 60) = secs"
    unfolding seconds_split ce sod(2) by simp
  obtain x where x: "from_timestamp E secs n = Some x" "d_year E (t_date E x) = y"
    "d_month E (t_date E x) = m" "d_day E (t_date E x) = d" "t_hour E x = ?sod div 3600"
    "t_minute E x = ?sod div 60 mod 60" "t_second E x = ?sod mod 60" "t_nanosecond E x = n"
    using ce_time [OF valid y h, of "?sod div 60 mod 60" "?sod mod 60" n] assms(3) unfolding secs by auto
  show ?thesis
    using y assms(3)
    by (simp add: x unwrap_or_def write_block_value_def write_fast_timestamp_def write_fast_date_def buf')
qed

lemma cache_kept:
  assumes "cache_ok years"
  shows "cache_ok (snd (write_date32 buf days years))" "cache_ok (snd (write_timestamp buf secs n years))"
  using civil_cache [OF assms] 
  by (auto simp: write_date32_def write_timestamp_def Let_def split: prod.splits) (metis snd_conv)+

text \<open>The text of a column's cell, as a writer of the accessor's value.\<close>

lemma timestamp_cell:
  assumes "cache_ok years" "kind_of acc = Some k" "bp_accessors p ! c = acc"
    and "acc = AccTsSecond xs \<or> acc = AccTsMillisecond xs \<or> acc = AccTsMicrosecond xs \<or> acc = AccTsNanosecond xs"
  shows "or_slow E p c r (\<lambda>buf. fst (write_timestamp buf (fst (timestamp_parts k r)) (snd (timestamp_parts k r)) years)) buf =
    write_block_value E (accessor_value E acc r) buf"
proof -
  let ?s = "fst (timestamp_parts k r)" and ?n = "snd (timestamp_parts k r)"
  have "?n < 1000000000"
    using assms(2,4) by (auto simp: kind_of_def timestamp_parts_def nat_less_iff)
  moreover have "accessor_value E acc r = VTimestamp (unwrap_or (t_default E) (from_timestamp E ?s ?n))"
    using assms(2,4) by (auto simp: kind_of_def timestamp_parts_def accessor_value_def millis micros)
  ultimately show ?thesis
    using assms(3) write_timestamp_value [OF assms(1)]
    by (auto simp: or_slow_def slow_cell_def split: option.split)
qed

lemma date_cell:
  assumes "cache_ok years" "bp_accessors p ! c = AccDate32 xs"
  shows "or_slow E p c r (\<lambda>buf. fst (write_date32 buf (sint (xs ! r)) years)) buf =
    write_block_value E (accessor_value E (AccDate32 xs) r) buf"
  using assms(2) write_date32_value [OF assms(1)]
  by (auto simp: or_slow_def slow_cell_def accessor_value_def split: option.split)

end

context arrow_wire
begin

lemma push_block_writer:
  assumes "\<And>buf. write buf = write_block_value E v buf"
  shows "push_string_with P write t = t\<lparr>strings := strings t @ string_block P [write_block_value E v []]\<rparr>"
proof -
  have "write = write_block_value E v" using assms by (rule ext)
  then show ?thesis by (simp only: push_string_with_block)
qed

lemma pack_string_cell_eq:
  assumes "cache_ok years" "kind_of acc = Some k" "bp_accessors p ! c = acc"
  shows "\<exists>years'. pack_string_cell P E p r \<lparr>sc_col = c, sc_nulls = nb, sc_kind = k\<rparr> (t, years) =
      (t\<lparr>strings := strings t @ string_block P
         (if is_valid nb r then [write_block_value E (accessor_value E acc r) []] else [])\<rparr>, years') \<and>
    cache_ok years'"
proof (cases "is_valid nb r")
  case False
  then show ?thesis using assms(1) by (simp add: pack_string_cell_def)
next
  case True
  have ts: "push_string_with P (or_slow E p c r (\<lambda>buf.
        fst (write_timestamp buf (fst (timestamp_parts k r)) (snd (timestamp_parts k r)) years))) t =
      t\<lparr>strings := strings t @ string_block P [write_block_value E (accessor_value E acc r) []]\<rparr>"
    if "acc = AccTsSecond xs \<or> acc = AccTsMillisecond xs \<or> acc = AccTsMicrosecond xs \<or> acc = AccTsNanosecond xs"
    for xs
    by (intro push_block_writer timestamp_cell [OF assms that])
  have slow: "push_string_with P (\<lambda>buf. slow_cell E p buf c r) t =
      t\<lparr>strings := strings t @ string_block P [write_block_value E (accessor_value E acc r) []]\<rparr>"
    using assms(3) by (intro push_block_writer) (simp add: slow_cell_def)
  show ?thesis
  proof (cases acc)
    case (AccUtf8 x y)
    then show ?thesis using True assms
      by (auto simp: kind_of_def pack_string_cell_def push_string_block accessor_value_def write_block_value_def)
  next
    case (AccLargeUtf8 x y)
    then show ?thesis using True assms
      by (auto simp: kind_of_def pack_string_cell_def push_string_block accessor_value_def write_block_value_def)
  next
    case (AccDate32 xs)
    have "push_string_with P (or_slow E p c r (\<lambda>buf. fst (write_date32 buf (sint (xs ! r)) years))) t =
        t\<lparr>strings := strings t @ string_block P [write_block_value E (accessor_value E acc r) []]\<rparr>"
      unfolding AccDate32 using assms by (intro push_block_writer date_cell) (simp_all add: AccDate32)
    then show ?thesis
      using True assms AccDate32 cache_kept(1) [OF assms(1)]
      by (auto simp: kind_of_def pack_string_cell_def Let_def)
  next
    case (AccTsSecond xs)
    then show ?thesis using True assms ts [of xs] cache_kept(2) [OF assms(1)]
      by (auto simp: kind_of_def pack_string_cell_def Let_def split_beta)
  next
    case (AccTsMillisecond xs)
    then show ?thesis using True assms ts [of xs] cache_kept(2) [OF assms(1)]
      by (auto simp: kind_of_def pack_string_cell_def Let_def split_beta)
  next
    case (AccTsMicrosecond xs)
    then show ?thesis using True assms ts [of xs] cache_kept(2) [OF assms(1)]
      by (auto simp: kind_of_def pack_string_cell_def Let_def split_beta)
  next
    case (AccTsNanosecond xs)
    then show ?thesis using True assms ts [of xs] cache_kept(2) [OF assms(1)]
      by (auto simp: kind_of_def pack_string_cell_def Let_def split_beta)
  next
    case (AccDecimal128 xs scale)
    have "push_string_with P (write_decimal E \<lparr>unscaled = xs ! r, dscale = word_of_int scale\<rparr>) t =
        t\<lparr>strings := strings t @ string_block P [write_block_value E (accessor_value E acc r) []]\<rparr>"
      using AccDecimal128 by (intro push_block_writer) (simp add: accessor_value_def write_block_value_def)
    then show ?thesis using AccDecimal128 True assms
      by (auto simp: kind_of_def pack_string_cell_def)
  qed (insert True assms slow, auto simp: kind_of_def pack_string_cell_def)
qed

lemma pack_row_strings:
  assumes "list_all2 (batch_col_ok n) meta cs" "cache_ok years"
    and "\<And>i. i < length cs \<Longrightarrow> bp_accessors p ! (c + i) = fst (cs ! i)"
  shows "\<exists>years'. fold (pack_string_cell P E p r) (concat (map string_entry (zip [c ..< c + length cs] cs)))
      (t, years) =
      (t\<lparr>strings := strings t @ string_block P (row_block (cell_strings E) meta (batch_row E cs r))\<rparr>, years') \<and>
    cache_ok years'"
  using assms
proof (induction meta cs arbitrary: c t years rule: list_all2_induct)
  case Nil
  then show ?case by simp
next
  case (Cons m ms col cs)
  have upt: "[c ..< c + length (col # cs)] = c # [Suc c ..< Suc c + length cs]"
    by (simp add: upt_rec)
  have acc: "bp_accessors p ! c = fst col" "\<And>i. i < length cs \<Longrightarrow> bp_accessors p ! (Suc c + i) = fst (cs ! i)"
    using Cons.prems(2) [of 0] Cons.prems(2) [of "Suc i" for i] by auto
  let ?cell = "cell_strings E (ci_typ m) (batch_cell E r col)"
  obtain years' where step: "fold (pack_string_cell P E p r) (string_entry (c, col)) (t, years) =
      (t\<lparr>strings := strings t @ string_block P ?cell\<rparr>, years')" "cache_ok years'"
  proof (cases "kind_of (fst col)")
    case None
    then have "?cell = []"
      using Cons.hyps(1) by (cases "fst col") (auto simp: kind_of_def cell_strings_def batch_col_ok_def fits_def
          is_string_family_exatype_def)
    then show ?thesis using that Cons.prems(1) None by (simp add: string_entry_def)
  next
    case (Some k)
    have "?cell = (if is_valid (snd col) r then [write_block_value E (accessor_value E (fst col) r) []] else [])"
      using Cons.hyps(1) Some fits_not_null [of "ci_typ m" "fst col" E r]
      by (cases "fst col") (auto simp: kind_of_def cell_strings_def batch_cell_def batch_col_ok_def fits_def)
    then show ?thesis
      using that pack_string_cell_eq [OF Cons.prems(1) Some acc(1), of r "snd col" t] Some
      by (auto simp: string_entry_def)
  qed
  then show ?case
    using Cons.IH [OF step(2) acc(2), of "t\<lparr>strings := strings t @ string_block P ?cell\<rparr>"]
    unfolding upt by (simp add: batch_row_def)
qed

lemma pack_rows_strings:
  assumes "list_all2 (batch_col_ok n) meta cs" "cache_ok years" "holds_batch p cs"
  shows "\<exists>years'. fold (\<lambda>r. fold (pack_string_cell P E p r) (bp_strings p)) rs (t, years) =
      (t\<lparr>strings := strings t @ string_block P
         (concat (map (\<lambda>r. row_block (cell_strings E) meta (batch_row E cs r)) rs))\<rparr>, years') \<and>
    cache_ok years'"
  using assms(2)
proof (induction rs arbitrary: t years)
  case Nil
  then show ?case by simp
next
  case (Cons r rs)
  have acc: "\<And>i. i < length cs \<Longrightarrow> bp_accessors p ! (0 + i) = fst (cs ! i)"
    and str: "bp_strings p = concat (map string_entry (zip [0 ..< 0 + length cs] cs))"
    using assms(3) by (simp_all add: holds_batch_def)
  obtain years' where "fold (pack_string_cell P E p r) (bp_strings p) (t, years) =
      (t\<lparr>strings := strings t @ string_block P (row_block (cell_strings E) meta (batch_row E cs r))\<rparr>, years')"
    "cache_ok years'"
    using pack_row_strings [OF assms(1) Cons.prems acc, of r t] unfolding str by blast
  then show ?case
    using Cons.IH [of years' "t\<lparr>strings := strings t @ string_block P (row_block (cell_strings E) meta (batch_row E cs r))\<rparr>"]
    by simp
qed

lemma pack_strings_eq:
  assumes "list_all2 (batch_col_ok n) meta cs" "holds_batch p cs"
  shows "pack_strings P E p a b t = t\<lparr>strings := strings t @ string_block P
     (concat (map (\<lambda>r. row_block (cell_strings E) meta (batch_row E cs r)) [a ..< b]))\<rparr>"
proof -
  have "fold (\<lambda>r. id) rs s = s" for rs :: "nat list" and s :: "emit_table \<times> year_cache"
    by (induction rs) simp_all
  then show ?thesis
    using pack_rows_strings [OF assms(1) cache_ok_default assms(2), of "[a ..< b]" t]
    by (cases "bp_strings p = []") (auto simp: pack_strings_def)
qed

end

section \<open>The packer and the row path\<close>

text \<open>A table with several more rows, all of one input row.\<close>

definition add_rows :: "prost \<Rightarrow> ('d, 't) ext \<Rightarrow> column_info list \<Rightarrow> ('d, 't) sql_value list list \<Rightarrow> nat \<Rightarrow>
    emit_table \<Rightarrow> emit_table" where
  "add_rows P E cols rs n t = t\<lparr>
     strings := strings t @ string_block P (rows_block (cell_strings E) cols rs),
     nulls := nulls t @ concat (map (map is_null) rs),
     bools := bools t @ rows_block cell_bools cols rs,
     int32 := int32 t @ rows_block (cell_int32s E) cols rs,
     int64 := int64 t @ rows_block (cell_int64s E) cols rs,
     doubles := doubles t @ rows_block (cell_doubles E) cols rs,
     row_numbers := row_numbers t @ replicate (length rs) n,
     rows := rows t + length rs\<rparr>"

lemma add_rows_append: "add_rows P E cols (rs @ ss) n t = add_rows P E cols ss n (add_rows P E cols rs n t)"
  by (simp add: add_rows_def replicate_add)

lemma add_rows_Nil [simp]: "add_rows P E cols [] n t = t"
  by (simp add: add_rows_def)

context arrow_wire
begin

lemma pack_eq:
  assumes "list_all2 (batch_col_ok b) meta cs" "holds_batch p cs" "a \<le> b"
  shows "pack P E p a b n t = add_rows P E meta (map (batch_row E cs) [a ..< b]) n t"
proof (cases "a = b")
  case True
  then show ?thesis by (simp add: pack_def)
next
  case False
  note cols = col_long_cols [OF assms(1)]
  have blocks: "concat (map (\<lambda>r. concat (map (\<lambda>c. col_slot c r) (concat (map int32_col cs)))) [a ..< b]) =
      rows_block (cell_int32s E) meta (map (batch_row E cs) [a ..< b])"
    "concat (map (\<lambda>r. concat (map (\<lambda>c. col_slot c r) (concat (map int64_col cs)))) [a ..< b]) =
      rows_block (cell_int64s E) meta (map (batch_row E cs) [a ..< b])"
    "concat (map (\<lambda>r. concat (map (\<lambda>c. col_slot c r) (concat (map double_col cs)))) [a ..< b]) =
      rows_block (cell_doubles E) meta (map (batch_row E cs) [a ..< b])"
    "concat (map (\<lambda>r. concat (map (\<lambda>c. col_slot c r) (concat (map bool_col cs)))) [a ..< b]) =
      rows_block cell_bools meta (map (batch_row E cs) [a ..< b])"
    unfolding rows_block_def map_map comp_def
    by (intro arg_cong [of _ _ concat] map_cong refl
        row_block_cols [OF assms(1)] col_slot_cells; assumption)+
  have strs: "concat (map (\<lambda>r. row_block (cell_strings E) meta (batch_row E cs r)) [a ..< b]) =
      rows_block (cell_strings E) meta (map (batch_row E cs) [a ..< b])"
    by (simp add: rows_block_def comp_def)
  have bits: "concat (map (\<lambda>r. map is_null (batch_row E cs r)) [a ..< b]) =
      concat (map (map is_null) (map (batch_row E cs) [a ..< b]))"
    by (simp only: map_map comp_def)
  have fixed: "bp_int32 p = concat (map int32_col cs)" "bp_int64 p = concat (map int64_col cs)"
    "bp_doubles p = concat (map double_col cs)" "bp_bools p = concat (map bool_col cs)"
    using assms(2) by (simp_all add: holds_batch_def)
  show ?thesis
    using False assms(3)
    by (simp add: pack_def Let_def pack_nulls_eq [where E = E, OF assms(1,3,2)] pack_strings_eq [OF assms(1,2)]
        pack_bools_fixed fixed pack_fixed_slots [OF cols(1)] pack_fixed_slots [OF cols(2)]
        pack_fixed_slots [OF cols(3)] pack_fixed_slots [OF cols(4)] blocks strs bits add_rows_def del: is_null_abs is_null_eq map_map)
qed

end

section \<open>A batch in the buffer\<close>

text \<open>The row path: each row pushed, the buffer flushed when it reaches the threshold.\<close>

fun push_rows_flushing :: "prost \<Rightarrow> ('d, 't) ext \<Rightarrow> column_info list \<Rightarrow> nat \<Rightarrow> 's flusher \<Rightarrow>
    ('d, 't) sql_value list list \<Rightarrow> emit_buffer \<Rightarrow> 's \<Rightarrow>
    ((udf_error, unit) result \<times> emit_buffer \<times> 's) option" where
  "push_rows_flushing P E cols n flusher [] b s = Some (Ok (), b, s)"
| "push_rows_flushing P E cols n flusher (vs # rs) b s =
     Option.bind (push P E vs n cols b) (\<lambda>b.
       if should_flush b then
         let (send, b) = flush flusher b
         in Option.bind (send s) (\<lambda>(res, s). case res of
              Inl e \<Rightarrow> Some (Err e, b, s)
            | Inr _ \<Rightarrow> push_rows_flushing P E cols n flusher rs b s)
       else push_rows_flushing P E cols n flusher rs b s)"

text \<open>Arrow data as the format lays it out: every array has the batch's rows, and a text array one
  more offset than rows, in order and within its bytes.\<close>

definition array_ok :: "nat \<Rightarrow> arrow_array \<Rightarrow> bool" where
  "array_ok n a \<longleftrightarrow>
     (case aa_nulls a of None \<Rightarrow> True | Some nb \<Rightarrow> length nb = n) \<and>
     (case aa_data a of
        AInt32 xs \<Rightarrow> length xs = n | AInt64 xs \<Rightarrow> length xs = n | AFloat64 xs \<Rightarrow> length xs = n
      | ABoolean xs \<Rightarrow> length xs = n | ADate32 xs \<Rightarrow> length xs = n | ATimestamp _ xs \<Rightarrow> length xs = n
      | ADecimal128 xs scale \<Rightarrow> length xs = n \<and> 0 \<le> scale \<and> scale \<le> 127
      | AUtf8 o' data \<Rightarrow> length o' = n + 1 \<and> sorted o' \<and> o' ! n \<le> length data
      | ALargeUtf8 o' data \<Rightarrow> length o' = n + 1 \<and> sorted o' \<and> o' ! n \<le> length data
      | AOther _ \<Rightarrow> True)"

definition batch_ok :: "record_batch \<Rightarrow> bool" where
  "batch_ok b \<longleftrightarrow> list_all (array_ok (rb_num_rows b)) (rb_columns b)"

text \<open>The columns the packer reads, in the row path's view.\<close>

definition batch_cols :: "(arrow_data \<Rightarrow> string) \<Rightarrow> (exa_type \<Rightarrow> string) \<Rightarrow> record_batch \<Rightarrow>
    column_info list \<Rightarrow> batch_col list" where
  "batch_cols dd dt batch meta = (case build_accessors dd dt batch meta of
      Inl _ \<Rightarrow> [] | Inr accs \<Rightarrow> zip accs (map column_nulls (rb_columns batch)))"

lemma build_accessor_fits:
  assumes "build_accessor dt ty = Some acc" "ty \<noteq> TUnsupported"
  shows "fits ty acc"
  using assms
  by (cases dt; cases ty) (auto simp: build_accessor_def fits_def is_string_family_exatype_def
      split: time_unit.splits)

lemma build_accessor_length:
  assumes "build_accessor (aa_data a) ty = Some acc" "ty \<noteq> TUnsupported" "array_ok n a"
  shows "acc_length acc = n"
  using assms
  by (cases "aa_data a"; cases ty) (auto simp: build_accessor_def acc_length_def array_ok_def
      is_string_family_exatype_def split: time_unit.splits)

lemma packer_cols:
  assumes "packer_new dd dt batch meta = Ok p" "batch_ok batch"
    and "list_all (\<lambda>m. ci_typ m \<noteq> TUnsupported) meta"
  shows "list_all2 (batch_col_ok (rb_num_rows batch)) meta (batch_cols dd dt batch meta)"
    "holds_batch p (batch_cols dd dt batch meta)"
proof -
  obtain accs where build: "build_accessors dd dt batch meta = Ok accs"
    using assms(1) by (auto simp: packer_new_def rbind_eq_Inr)
  have len: "length (rb_columns batch) = length meta"
    and cols: "build_columns dd dt 0 (rb_columns batch) meta = Ok accs"
    using build by (auto simp: build_accessors_def split: if_splits)
  note all = build_columns_all [OF cols len]
  have bc: "batch_cols dd dt batch meta = zip accs (map column_nulls (rb_columns batch))"
    by (simp add: batch_cols_def build)
  have lenacc: "length accs = length meta" using list_all2_lengthD [OF all] len by simp
  show "holds_batch p (batch_cols dd dt batch meta)"
  proof -
    obtain accs' where "holds_batch p (zip accs' (map column_nulls (rb_columns batch)))"
      "length accs' = length meta"
      using packer_new_holds [OF assms(1)] by blast
    moreover have "bp_accessors p = accs"
    proof -
      have "bp_accessors (add_columns c xs q) = bp_accessors q" for c xs q
        by (induction c xs q rule: add_columns.induct)
          (simp_all add: add_column_def add_string_def Let_def split: col_accessor.split)
      then show ?thesis using assms(1) build by (auto simp: packer_new_def)
    qed
    ultimately have "accs' = accs" using len by (simp add: holds_batch_def)
    then show ?thesis using \<open>holds_batch p _\<close> bc by simp
  qed
  show "list_all2 (batch_col_ok (rb_num_rows batch)) meta (batch_cols dd dt batch meta)"
    unfolding bc
  proof (rule list_all2_all_nthI)
    show "length meta = length (zip accs (map column_nulls (rb_columns batch)))"
      using lenacc len by simp
  next
    fix i
    assume i: "i < length meta"
    have acc: "build_accessor (aa_data (rb_columns batch ! i)) (ci_typ (meta ! i)) = Some (accs ! i)"
      using list_all2_nthD [OF all, of i] i len by simp
    have ty: "ci_typ (meta ! i) \<noteq> TUnsupported" using assms(3) i by (simp add: list_all_length)
    have ok: "array_ok (rb_num_rows batch) (rb_columns batch ! i)"
      using assms(2) i len by (simp add: batch_ok_def list_all_length)
    show "batch_col_ok (rb_num_rows batch) (meta ! i) (zip accs (map column_nulls (rb_columns batch)) ! i)"
      using build_accessor_fits [OF acc ty] build_accessor_length [OF acc ty ok] ok i len lenacc
      by (auto simp: batch_col_ok_def column_nulls_def array_ok_def split: option.splits if_splits)
  qed
qed

section \<open>Costs of a batch\<close>

lemma accumulate_costs_nth:
  "length (accumulate_costs r costs nb f) = length costs \<and>
   (\<forall>i < length costs. accumulate_costs r costs nb f ! i =
      costs ! i + (if is_valid nb (r + i) then f (r + i) else 0))"
proof (induction r costs nb f rule: accumulate_costs.induct)
  case (2 r cost costs nb f)
  then show ?case by (auto simp: nth_Cons split: nat.split)
qed simp

text \<open>What a column adds to the cost of a row, and its bound for the batch.\<close>

definition column_cost :: "arrow_array \<Rightarrow> nat \<Rightarrow> nat" where
  "column_cost col r = (if is_valid (aa_nulls col) r then
     (case fixed_cell_cost (aa_data col) of Some fixed \<Rightarrow> fixed
      | None \<Rightarrow> (case aa_data col of AUtf8 o' _ \<Rightarrow> o' ! (r + 1) - o' ! r
          | ALargeUtf8 o' _ \<Rightarrow> o' ! (r + 1) - o' ! r | _ \<Rightarrow> 0)) else 0)"

lemma column_cost_text:
  "aa_data col = AUtf8 o' d \<Longrightarrow>
     column_cost col r = (if is_valid (aa_nulls col) r then o' ! (r + 1) - o' ! r else 0)"
  "aa_data col = ALargeUtf8 o' d \<Longrightarrow>
     column_cost col r = (if is_valid (aa_nulls col) r then o' ! (r + 1) - o' ! r else 0)"
  "aa_data col = AOther t \<Longrightarrow> column_cost col r = 0"
  by (simp_all add: column_cost_def fixed_cell_cost_def)

lemma column_row_costs_nth:
  "length (column_row_costs col costs) = length costs \<and>
   (\<forall>i < length costs. column_row_costs col costs ! i = costs ! i + column_cost col i)"
  using accumulate_costs_nth [of 0 costs "aa_nulls col"]
  by (auto simp: column_row_costs_def column_cost_def split: option.split arrow_data.split)

lemma fold_row_costs:
  "length (foldl (\<lambda>costs c. column_row_costs (cols ! c) costs) costs cs) = length costs \<and>
   (\<forall>i < length costs. foldl (\<lambda>costs c. column_row_costs (cols ! c) costs) costs cs ! i =
      costs ! i + (\<Sum>c\<leftarrow>cs. column_cost (cols ! c) i))"
proof (induction cs arbitrary: costs)
  case Nil
  then show ?case by simp
next
  case (Cons c cs)
  then show ?case using column_row_costs_nth [of "cols ! c" costs] by simp
qed

lemma compute_row_costs_nth:
  "length (compute_row_costs batch meta) = rb_num_rows batch"
  "i < rb_num_rows batch \<Longrightarrow> compute_row_costs batch meta ! i =
     (\<Sum>c\<leftarrow>[0 ..< length meta]. column_cost (rb_columns batch ! c) i)"
  using fold_row_costs [of "rb_columns batch" "replicate (rb_num_rows batch) 0" "[0 ..< length meta]"]
  by (simp_all add: compute_row_costs_def)

lemma count_valid:
  "length nb = n \<Longrightarrow> (\<Sum>r\<leftarrow>[0 ..< n]. if nb ! r then k else 0) = k * (n - length (filter Not nb))"
proof (induction nb arbitrary: n rule: rev_induct)
  case Nil
  then show ?case by simp
next
  case (snoc v nb)
  have le: "length (filter Not nb) \<le> length nb" by simp
  have "(\<Sum>r\<leftarrow>[0 ..< length nb]. if (nb @ [v]) ! r then k else 0) =
      (\<Sum>r\<leftarrow>[0 ..< length nb]. if nb ! r then k else 0)"
    by (intro arg_cong [of _ _ sum_list] map_cong) (simp_all add: nth_append)
  then show ?case
    using snoc.IH [of "length nb"] snoc.prems le by (auto simp: nth_append Suc_diff_le)
qed

lemma offsets_sum:
  "length o' = n + 1 \<Longrightarrow> sorted o' \<Longrightarrow> (\<Sum>r\<leftarrow>[0 ..< n]. o' ! (r + 1) - o' ! r) = o' ! n - (o' ! 0 :: nat)"
proof (induction n arbitrary: o')
  case 0
  then show ?case by simp
next
  case (Suc n)
  have take: "length (take (n + 1) o') = n + 1" "sorted (take (n + 1) o')"
    using Suc.prems by (simp_all add: sorted_wrt_take)
  have "(\<Sum>r\<leftarrow>[0 ..< n]. o' ! (r + 1) - o' ! r) = (\<Sum>r\<leftarrow>[0 ..< n]. take (n + 1) o' ! (r + 1) - take (n + 1) o' ! r)"
    by (intro arg_cong [of _ _ sum_list] map_cong) simp_all
  then have "(\<Sum>r\<leftarrow>[0 ..< n]. o' ! (r + 1) - o' ! r) = o' ! n - o' ! 0"
    using Suc.IH [OF take] by simp
  moreover have "o' ! 0 \<le> o' ! n" "o' ! n \<le> o' ! (n + 1)"
    using Suc.prems by (auto intro: sorted_nth_mono)
  ultimately show ?case by simp
qed

lemma column_byte_cost_ge:
  assumes "array_ok n col"
  shows "(\<Sum>r\<leftarrow>[0 ..< n]. column_cost col r) \<le> column_byte_cost n col"
proof (cases "fixed_cell_cost (aa_data col)")
  case (Some k)
  show ?thesis
  proof (cases "aa_nulls col")
    case None
    then show ?thesis using Some
      by (simp add: column_cost_def is_valid_def column_byte_cost_def null_count_def sum_list_triv mult.commute)
  next
    case nb: (Some nb)
    then have "length nb = n" using assms by (simp add: array_ok_def)
    moreover have "column_cost col r = (if nb ! r then k else 0)" for r
      using Some nb by (simp add: column_cost_def is_valid_def)
    ultimately show ?thesis using Some nb count_valid [of nb n k]
      by (simp add: column_byte_cost_def null_count_def)
  qed
next
  case None
  have spans: "(\<Sum>r\<leftarrow>[0 ..< n]. if is_valid nb r then o' ! (r + 1) - o' ! r else 0) \<le> offsets_span o'"
    if "length o' = n + 1" "sorted o'" for nb and o' :: "nat list"
  proof -
    have "(\<Sum>r\<leftarrow>[0 ..< n]. if is_valid nb r then o' ! (r + 1) - o' ! r else 0) \<le>
        (\<Sum>r\<leftarrow>[0 ..< n]. o' ! (r + 1) - o' ! r)"
      by (rule sum_list_mono) simp
    then show ?thesis using offsets_sum [OF that] that by (simp add: offsets_span_def)
  qed
  show ?thesis
    using None assms spans
    by (cases "aa_data col")
      (simp_all add: column_cost_text column_byte_cost_def array_ok_def fixed_cell_cost_def)
qed


lemma sum_swap:
  fixes f :: "'a \<Rightarrow> 'b \<Rightarrow> nat"
  shows "(\<Sum>r\<leftarrow>rs. \<Sum>c\<leftarrow>cs. f c r) = (\<Sum>c\<leftarrow>cs. \<Sum>r\<leftarrow>rs. f c r)"
  by (induction rs) (simp_all add: sum_list_addf)

lemma foldl_add_sum: "foldl (\<lambda>total c. total + f c) (a :: nat) cs = a + (\<Sum>c\<leftarrow>cs. f c)"
  by (induction cs arbitrary: a) simp_all

text \<open>The estimate is an upper bound on the sum of the row costs.\<close>

lemma batch_byte_cost_ge:
  assumes "batch_ok batch" "length (rb_columns batch) = length meta"
  shows "sum_list (compute_row_costs batch meta) \<le> batch_byte_cost batch meta"
proof -
  let ?n = "rb_num_rows batch"
  let ?cs = "[0 ..< length meta]"
  have "compute_row_costs batch meta =
      map (\<lambda>r. \<Sum>c\<leftarrow>?cs. column_cost (rb_columns batch ! c) r) [0 ..< ?n]"
    by (rule nth_equalityI) (simp_all add: compute_row_costs_nth)
  then have "sum_list (compute_row_costs batch meta) =
      (\<Sum>c\<leftarrow>?cs. \<Sum>r\<leftarrow>[0 ..< ?n]. column_cost (rb_columns batch ! c) r)"
    using sum_swap [of "\<lambda>c r. column_cost (rb_columns batch ! c) r" ?cs "[0 ..< ?n]"] by simp
  also have "\<dots> \<le> (\<Sum>c\<leftarrow>?cs. column_byte_cost ?n (rb_columns batch ! c))"
    using assms by (intro sum_list_mono column_byte_cost_ge) (simp add: batch_ok_def list_all_length)
  finally show ?thesis by (simp add: batch_byte_cost_def foldl_add_sum)
qed

text \<open>The packer's row costs are the row path's.\<close>

lemma column_cost_value:
  assumes "build_accessor (aa_data a) ty = Some acc" "ty \<noteq> TUnsupported" "array_ok n a" "r < n"
  shows "column_cost a r = value_byte_cost (batch_cell E r (acc, column_nulls a))"
proof -
  have valid: "is_valid (column_nulls a) r = is_valid (aa_nulls a) r"
    using assms(3,4)
    by (auto simp: column_nulls_def is_valid_def array_ok_def filter_empty_conv split: option.splits)
  have len: "length (text_at o' data r) = o' ! (r + 1) - o' ! r"
    if "length o' = n + 1" "sorted o'" "o' ! n \<le> length data" for o' and data :: bytes
  proof -
    have "o' ! (r + 1) \<le> o' ! n" using that assms(4) by (intro sorted_nth_mono) simp_all
    then show ?thesis using that by (simp add: text_at_def length_slice)
  qed
  have scale: "unat (word_of_int s :: 8 word) = nat s" if "0 \<le> s" "s \<le> 127" for s
    using that by (simp add: unat_eq_nat_uint uint_word_of_int)
  show ?thesis
  proof (cases "is_valid (aa_nulls a) r")
    case False
    then show ?thesis by (simp add: column_cost_def batch_cell_def valid value_byte_cost_def)
  next
    case True
    then show ?thesis
      using assms len scale
      by (cases "aa_data a"; cases ty) (auto simp: column_cost_def batch_cell_def valid value_byte_cost_def
          build_accessor_def accessor_value_def fixed_cell_cost_def array_ok_def cost_defs
          is_string_family_exatype_def split: time_unit.splits)
  qed
qed

section \<open>Batches flush where their rows would\<close>

lemma fits_packs:
  assumes "fits ty acc"
  shows "packs E ty (accessor_value E acc r)"
  using assms fits_not_null [OF assms, of E r]
  by (cases acc) (auto simp: packs_def fits_def accessor_value_def value_to_i64_def
      is_string_family_exatype_def)

lemma packs_batch_row:
  assumes "list_all2 (batch_col_ok n) meta cs"
  shows "packs_row E meta (batch_row E cs r)"
  unfolding packs_row_def batch_row_def list_all2_map2
  using assms
  by (rule list_all2_mono) (auto simp: batch_cell_def batch_col_ok_def intro: fits_packs)

lemma sum_list_zip: 
  "length xs = length ys \<Longrightarrow> (\<And>i. i < length xs \<Longrightarrow> f (ys ! i) = g (xs ! i)) \<Longrightarrow>
    sum_list (map f ys) = (\<Sum>x\<leftarrow>xs. g x)"
  by (intro arg_cong [of _ _ sum_list] nth_equalityI) simp_all

lemma row_costs_row_cost:
  assumes "build_accessors dd dt batch meta = Ok accs" "batch_ok batch"
    and "list_all (\<lambda>m. ci_typ m \<noteq> TUnsupported) meta" "r < rb_num_rows batch"
  shows "row_cost (batch_row E (batch_cols dd dt batch meta) r) =
    compute_row_costs batch meta ! r + BYTES_ROW_NUMBER"
proof -
  have len: "length (rb_columns batch) = length meta"
    and cols: "build_columns dd dt 0 (rb_columns batch) meta = Ok accs"
    using assms(1) by (auto simp: build_accessors_def split: if_splits)
  note all = build_columns_all [OF cols len]
  have lenacc: "length accs = length meta" using list_all2_lengthD [OF all] len by simp
  have cell: "value_byte_cost (batch_row E (batch_cols dd dt batch meta) r ! i) =
      column_cost (rb_columns batch ! i) r" if "i < length meta" for i
  proof -
    have "build_accessor (aa_data (rb_columns batch ! i)) (ci_typ (meta ! i)) = Some (accs ! i)"
      using list_all2_nthD [OF all, of i] that len by simp
    moreover have "ci_typ (meta ! i) \<noteq> TUnsupported" "array_ok (rb_num_rows batch) (rb_columns batch ! i)"
      using assms(2,3) that len by (simp_all add: list_all_length batch_ok_def)
    ultimately show ?thesis
      using column_cost_value [of "rb_columns batch ! i" "ci_typ (meta ! i)" "accs ! i"
          "rb_num_rows batch" r E] assms(4) that len lenacc
      by (simp add: batch_cols_def assms(1) batch_row_def)
  qed
  have "sum_list (map value_byte_cost (batch_row E (batch_cols dd dt batch meta) r)) =
      (\<Sum>c\<leftarrow>[0 ..< length meta]. column_cost (rb_columns batch ! c) r)"
    using cell len lenacc
    by (intro sum_list_zip) (simp_all add: batch_cols_def assms(1) batch_row_def)
  then show ?thesis
    using assms(4) by (simp add: row_cost_def compute_row_costs_nth)
qed

context arrow_wire
begin

lemma push_add_rows:
  assumes "packs_row E meta vs"
  shows "push P E vs n meta b =
    Some (account 1 (row_cost vs) b\<lparr>eb_table := add_rows P E meta [vs] n (eb_table b)\<rparr>)"
  using push_costed_eq [OF assms, of n "row_cost vs" b]
  by (simp add: push_eq_costed add_rows_def add_cells_def)

text \<open>What the caller does with the rows left after the last flush.\<close>

definition pack_tail :: "batch_packer \<Rightarrow> nat \<Rightarrow> nat \<Rightarrow> (udf_error, nat) result \<times> emit_buffer \<times> 's \<Rightarrow>
    ((udf_error, unit) result \<times> emit_buffer \<times> 's) option" where
  "pack_tail p N n x = (case x of (res, b, s) \<Rightarrow> (case res of
      Inl e \<Rightarrow> Some (Err e, b, s)
    | Inr start \<Rightarrow> Some (Ok (), b\<lparr>eb_table := pack P E p start N n (eb_table b)\<rparr>, s)))"

lemma push_batch_rows_eq:
  assumes cols: "list_all2 (batch_col_ok N) meta cs" "holds_batch p cs"
    and costs: "\<And>r. r < N \<Longrightarrow> row_cost (batch_row E cs r) = costs ! r + BYTES_ROW_NUMBER"
    and "length costs = N" "start \<le> r" "r \<le> N"
  shows "Option.bind (push_batch_rows P E p n flusher start r (drop r costs) b s) (pack_tail p N n) =
    push_rows_flushing P E meta n flusher (map (batch_row E cs) [r ..< N])
      (b\<lparr>eb_table := add_rows P E meta (map (batch_row E cs) [start ..< r]) n (eb_table b)\<rparr>) s"
  using assms(5,6)
proof (induction "N - r" arbitrary: r start b s)
  case 0
  then have "r = N" by simp
  then show ?case
    using assms(4) 0 pack_eq [OF cols, of start n "eb_table b"] by (simp add: pack_tail_def)
next
  case (Suc k)
  then have r: "r < N" by simp
  let ?row = "batch_row E cs"
  let ?cost = "costs ! r + BYTES_ROW_NUMBER"
  have drop: "drop r costs = costs ! r # drop (Suc r) costs"
    using r assms(4) by (simp add: Cons_nth_drop_Suc)
  have upt: "[r ..< N] = r # [Suc r ..< N]" using r by (rule upt_conv_Cons)
  have rows: "add_rows P E meta (map ?row [start ..< Suc r]) n t =
      add_rows P E meta [?row r] n (add_rows P E meta (map ?row [start ..< r]) n t)" for t
    using Suc.prems(1) by (simp add: add_rows_append)
  define b1 where "b1 = account 1 ?cost b"
  define t where "t = add_rows P E meta (map ?row [start ..< Suc r]) n (eb_table b)"
  let ?b2 = "b\<lparr>eb_table := add_rows P E meta (map ?row [start ..< r]) n (eb_table b)\<rparr>"
  have table: "eb_table b1 = eb_table b" by (simp add: b1_def account_def)
  have step: "push P E (?row r) n meta ?b2 = Some (b1\<lparr>eb_table := t\<rparr>)"
    unfolding push_add_rows [OF packs_batch_row [OF cols(1)]] costs [OF r] t_def rows
    by (simp add: account_def b1_def)
  have cols': "list_all2 (batch_col_ok (Suc r)) meta cs"
    using cols(1) by (rule list_all2_mono) (use r in \<open>auto simp: batch_col_ok_def split: option.splits\<close>)
  have tail: "pack P E p start (r + 1) n (eb_table b1) = t"
    unfolding t_def table using Suc.prems(1) pack_eq [OF cols' cols(2), of start n] by simp
  have flushes: "should_flush (b1\<lparr>eb_table := t\<rparr>) = should_flush b1" by (simp add: should_flush_def)
  show ?case
  proof (cases "should_flush b1")
    case True
    define b3 where "b3 = clear_buffer (b1\<lparr>eb_table := t\<rparr>)"
    have IH: "Option.bind (push_batch_rows P E p n flusher (r + 1) (r + 1) (drop (Suc r) costs) b3 s') (pack_tail p N n) =
        push_rows_flushing P E meta n flusher (map ?row [Suc r ..< N]) b3 s'" for s'
      using Suc.hyps(1) [of "Suc r" "Suc r" b3 s'] Suc.hyps(2) r by simp
    have left: "push_batch_rows P E p n flusher start r (drop r costs) b s =
        Option.bind (flusher t s) (\<lambda>(res, s). case res of
             Inl e \<Rightarrow> Some (Err e, b3, s)
           | Inr _ \<Rightarrow> push_batch_rows P E p n flusher (r + 1) (r + 1) (drop (Suc r) costs) b3 s)"
    proof -
      have "eb_table (b1\<lparr>eb_table := t\<rparr>) = t" by simp
      then show ?thesis
        unfolding drop push_batch_rows.simps Let_def b1_def [symmetric] tail flush_def prod.case b3_def
        using True by (simp only: if_True)
    qed
    have right: "push_rows_flushing P E meta n flusher (map ?row [r ..< N]) ?b2 s =
        Option.bind (flusher t s) (\<lambda>(res, s). case res of
             Inl e \<Rightarrow> Some (Err e, b3, s)
           | Inr _ \<Rightarrow> push_rows_flushing P E meta n flusher (map ?row [Suc r ..< N]) b3 s)"
      using True unfolding upt b3_def by (simp add: step flushes flush_def)
    show ?thesis
      unfolding left right IH [symmetric]
      by (cases "flusher t s") (auto simp: pack_tail_def split: sum.split)
  next
    case False
    have "Option.bind (push_batch_rows P E p n flusher start (Suc r) (drop (Suc r) costs) b1 s) (pack_tail p N n) =
        push_rows_flushing P E meta n flusher (map ?row [Suc r ..< N])
          (b1\<lparr>eb_table := add_rows P E meta (map ?row [start ..< Suc r]) n (eb_table b1)\<rparr>) s"
      using Suc.hyps(2) Suc.prems r by (intro Suc.hyps(1)) simp_all
    then show ?thesis
      using False unfolding drop upt table t_def [symmetric] push_batch_rows.simps Let_def b1_def [symmetric]
      by (simp add: step flushes)
  qed
qed

lemma push_rows_below:
  assumes "list_all (packs_row E meta) rs"
    and "byte_estimate b + sum_list (map row_cost rs) < EMIT_BUFFER_LIMIT_BYTES"
  shows "push_rows_flushing P E meta n flusher rs b s =
    Some (Ok (), (account (length rs) (sum_list (map row_cost rs)) b)
      \<lparr>eb_table := add_rows P E meta rs n (eb_table b)\<rparr>, s)"
  using assms
proof (induction rs arbitrary: b)
  case Nil
  then show ?case by (simp add: account_def)
next
  case (Cons vs rs)
  let ?b = "account 1 (row_cost vs) b\<lparr>eb_table := add_rows P E meta [vs] n (eb_table b)\<rparr>"
  have "\<not> should_flush ?b" using Cons.prems(2) by (simp add: should_flush_def account_def)
  moreover have "push P E vs n meta b = Some ?b" using Cons.prems(1) by (intro push_add_rows) simp
  moreover have "byte_estimate ?b + sum_list (map row_cost rs) < EMIT_BUFFER_LIMIT_BYTES"
    using Cons.prems(2) by (simp add: account_def)
  ultimately show ?case
    using Cons.IH [of ?b] Cons.prems(1) add_rows_append [of P E meta "[vs]" rs n "eb_table b"]
    by (simp add: account_def add.assoc)
qed

end

text \<open>Two outcomes with the same answer, the same session and the same buffered rows; the batch
  path may estimate the buffer higher.\<close>

definition same_outcome :: "((udf_error, unit) result \<times> emit_buffer \<times> 's) option \<Rightarrow>
    ((udf_error, unit) result \<times> emit_buffer \<times> 's) option \<Rightarrow> bool" where
  "same_outcome x y = (case (x, y) of
      (None, None) \<Rightarrow> True
    | (Some (r, b, s), Some (r', b', s')) \<Rightarrow> r = r' \<and> s = s' \<and> eb_table b = eb_table b' \<and>
        cumulative_rows b = cumulative_rows b' \<and> flush_count b = flush_count b' \<and>
        byte_estimate b' \<le> byte_estimate b \<and> cumulative_bytes b' \<le> cumulative_bytes b
    | _ \<Rightarrow> False)"

lemma same_outcome_refl: "same_outcome x x"
  by (auto simp: same_outcome_def split: option.split)

context arrow_wire
begin

lemma push_batch_row_path:
  assumes "build_accessors dd dt batch meta = Ok accs" "batch_ok batch"
    and "list_all (\<lambda>m. ci_typ m \<noteq> TUnsupported) meta"
  shows "same_outcome (push_batch dd dt P E batch meta n flusher b s)
    (push_rows_flushing P E meta n flusher
      (map (batch_row E (batch_cols dd dt batch meta)) [0 ..< rb_num_rows batch]) b s)"
proof (cases "rb_num_rows batch = 0")
  case True
  then show ?thesis by (simp add: push_batch_def same_outcome_refl)
next
  case False
  let ?N = "rb_num_rows batch"
  let ?cs = "batch_cols dd dt batch meta"
  let ?rs = "map (batch_row E ?cs) [0 ..< ?N]"
  obtain p where p: "packer_new dd dt batch meta = Ok p"
    using assms(1) by (auto simp: packer_new_def)
  note cols = packer_cols [OF p assms(2,3)]
  have len: "length (rb_columns batch) = length meta"
    using assms(1) by (auto simp: build_accessors_def split: if_splits)
  have cost: "row_cost (batch_row E ?cs r) = compute_row_costs batch meta ! r + BYTES_ROW_NUMBER"
    if "r < ?N" for r
    using row_costs_row_cost [OF assms that] .
  have sum: "sum_list (map row_cost ?rs) = sum_list (compute_row_costs batch meta) + ?N * BYTES_ROW_NUMBER"
  proof -
    have "map row_cost ?rs = map (\<lambda>c. c + BYTES_ROW_NUMBER) (compute_row_costs batch meta)"
      by (rule nth_equalityI) (simp_all add: compute_row_costs_nth(1) cost)
    then show ?thesis
      by (simp add: sum_list_addf sum_list_triv compute_row_costs_nth(1))
  qed
  then have le: "sum_list (map row_cost ?rs) \<le> batch_byte_cost batch meta + ?N * BYTES_ROW_NUMBER"
    using batch_byte_cost_ge [OF assms(2) len] by simp
  have table: "pack P E p 0 ?N n t = add_rows P E meta ?rs n t" for t
    using pack_eq [OF cols, of 0 n t] by simp
  show ?thesis
  proof (cases "byte_estimate b + (batch_byte_cost batch meta + ?N * BYTES_ROW_NUMBER) < EMIT_BUFFER_LIMIT_BYTES")
    case True
    moreover have "push_rows_flushing P E meta n flusher ?rs b s =
        Some (Ok (), (account (length ?rs) (sum_list (map row_cost ?rs)) b)
          \<lparr>eb_table := add_rows P E meta ?rs n (eb_table b)\<rparr>, s)"
      using True le by (intro push_rows_below) (simp_all add: list_all_iff packs_batch_row [OF cols(1)])
    moreover have "push_batch dd dt P E batch meta n flusher b s =
        Some (Ok (), (account ?N (batch_byte_cost batch meta + ?N * BYTES_ROW_NUMBER) b)
          \<lparr>eb_table := add_rows P E meta ?rs n (eb_table b)\<rparr>, s)"
      using True False p unfolding push_batch_def Let_def by (simp add: table account_def)
    ultimately show ?thesis
      using le by (simp add: same_outcome_def account_def)
  next
    case high: False
    have "push_batch dd dt P E batch meta n flusher b s =
        Option.bind (push_batch_rows P E p n flusher 0 0 (drop 0 (compute_row_costs batch meta)) b s)
          (pack_tail p ?N n)"
      using high False p unfolding push_batch_def Let_def
      by (auto simp: pack_tail_def intro!: arg_cong2 [of _ _ _ _ Option.bind])
    also have "\<dots> = push_rows_flushing P E meta n flusher ?rs b s"
      using push_batch_rows_eq [OF cols cost compute_row_costs_nth(1), of 0 0 n flusher b s]
      by (simp add: add_rows_Nil)
    finally show ?thesis by (simp add: same_outcome_refl)
  qed
qed

end

section \<open>The Gregorian instance\<close>

lemma date_of_ce_day: "valid_date y m d \<Longrightarrow> date_of (ce_day y m d) = (y, m, d)"
  using ce_day_unique [OF date_of_valid(1)] date_of_valid(2)
  by (metis prod.collapse)

lemma nanos_split:
  fixes days s n :: int
  assumes "0 \<le> s" "s < 86400" "0 \<le> n" "n < 1000000000"
  shows "((days * 86400 + s) * 1000000000 + n) div day_nanos = days"
    "((days * 86400 + s) * 1000000000 + n) mod day_nanos div 1000000000 = s"
    "((days * 86400 + s) * 1000000000 + n) mod 1000000000 = n"
proof -
  have eq: "(days * 86400 + s) * 1000000000 + n = day_nanos * days + (s * 1000000000 + n)"
    by (simp add: day_nanos_def)
  have r: "0 \<le> s * 1000000000 + n" "s * 1000000000 + n < day_nanos"
    using assms by (simp_all add: day_nanos_def)
  show "((days * 86400 + s) * 1000000000 + n) div day_nanos = days"
    by (rule int_div_pos_eq [OF eq r])
  have "((days * 86400 + s) * 1000000000 + n) mod day_nanos = s * 1000000000 + n"
    by (rule int_mod_pos_eq [OF eq r])
  then show "((days * 86400 + s) * 1000000000 + n) mod day_nanos div 1000000000 = s"
    using assms by (simp add: int_div_pos_eq [of "s * 1000000000 + n" 1000000000 s n])
  show "((days * 86400 + s) * 1000000000 + n) mod 1000000000 = n"
    by (rule int_mod_pos_eq [of _ _ "days * 86400 + s"]) (use assms in simp_all)
qed

lemma clock_split:
  fixes h mi s :: nat
  assumes "h < 24" "mi < 60" "s < 60"
  defines "t \<equiv> h * 3600 + mi * 60 + s"
  shows "t < 86400" "t div 3600 = h" "t div 60 mod 60 = mi" "t mod 60 = s"
proof -
  have "t div 60 = h * 60 + mi" "t mod 60 = s"
    using assms(3) by (simp_all add: t_def div_nat_eqI mod_nat_eqI)
  moreover have "t div 3600 = t div 60 div 60" using div_mult2_eq [of t 60 60] by simp
  ultimately show "t div 3600 = h" "t div 60 mod 60 = mi" "t mod 60 = s"
    using assms(2) by simp_all
  show "t < 86400" using assms unfolding t_def by linarith
qed

lemma gregorian_fields:
  "d_year (gregorian base) d = fst (date_of d)" "d_month (gregorian base) d = fst (snd (date_of d))"
  "d_day (gregorian base) d = snd (snd (date_of d))"
  "t_date (gregorian base) t = t div day_nanos + EPOCH_CE_DAY"
  "t_hour (gregorian base) t = nat (t mod day_nanos div 1000000000) div 3600"
  "t_minute (gregorian base) t = nat (t mod day_nanos div 1000000000) div 60 mod 60"
  "t_second (gregorian base) t = nat (t mod day_nanos div 1000000000) mod 60"
  "t_nanosecond (gregorian base) t = nat (t mod 1000000000)"
  "from_timestamp (gregorian base) s n = Some (s * 1000000000 + int n)"
  by (simp_all add: gregorian_def)

lemma gregorian_arrow_ext: "arrow_ext (gregorian base)"
proof (rule arrow_ext.intro [OF gregorian_cell_ext], unfold_locales)
  fix y :: int and m d :: nat
  assume v: "valid_date y m d"
  then show "\<exists>x. from_num_days_from_ce_opt (gregorian base) (ce_day y m d) = Some x \<and>
      d_year (gregorian base) x = y \<and> d_month (gregorian base) x = m \<and> d_day (gregorian base) x = d"
    by (simp add: gregorian_def date_of_ce_day)
  fix h mi s n :: nat
  assume "h < 24" "mi < 60" "s < 60" and n: "n < 1000000000"
  define t where "t = h * 3600 + mi * 60 + s"
  note clock = clock_split [OF \<open>h < 24\<close> \<open>mi < 60\<close> \<open>s < 60\<close>, folded t_def]
  have nanos: "0 \<le> int t" "int t < 86400" "0 \<le> int n" "int n < 1000000000" using clock(1) n by simp_all
  note split = nanos_split [OF nanos, of "ce_day y m d - EPOCH_CE_DAY"]
  define x where "x = ((ce_day y m d - EPOCH_CE_DAY) * 86400 + int t) * 1000000000 + int n"
  have x: "x div day_nanos = ce_day y m d - EPOCH_CE_DAY" "x mod day_nanos div 1000000000 = int t"
    "x mod 1000000000 = int n"
    unfolding x_def by (rule split)+
  have day: "ce_day y m d - EPOCH_CE_DAY + EPOCH_CE_DAY = ce_day y m d" by simp
  show "\<exists>x. from_timestamp (gregorian base)
        ((ce_day y m d - EPOCH_CE_DAY) * 86400 + int (h * 3600 + mi * 60 + s)) n = Some x \<and>
      d_year (gregorian base) (t_date (gregorian base) x) = y \<and>
      d_month (gregorian base) (t_date (gregorian base) x) = m \<and>
      d_day (gregorian base) (t_date (gregorian base) x) = d \<and> t_hour (gregorian base) x = h \<and>
      t_minute (gregorian base) x = mi \<and> t_second (gregorian base) x = s \<and>
      t_nanosecond (gregorian base) x = n"
    unfolding t_def [symmetric] gregorian_fields
    by (intro exI [of _ x]) (simp only: x day nat_int clock date_of_ce_day [OF v] fst_conv snd_conv
        x_def [symmetric] simp_thms)
next
  fix v :: int
  have "v = v div 1000 * 1000 + v mod 1000" by simp
  moreover have "0 \<le> v mod 1000" by simp
  ultimately have "v * 1000000 = v div 1000 * 1000000000 + int (nat (v mod 1000 * 1000000))" by linarith
  then show "from_timestamp_millis (gregorian base) v =
      from_timestamp (gregorian base) (v div 1000) (nat (v mod 1000 * 1000000))"
    by (simp add: gregorian_def)
next
  fix v :: int
  have "v = v div 1000000 * 1000000 + v mod 1000000" by simp
  moreover have "0 \<le> v mod 1000000" by simp
  ultimately have "v * 1000 = v div 1000000 * 1000000000 + int (nat (v mod 1000000 * 1000))" by linarith
  then show "from_timestamp_micros (gregorian base) v =
      from_timestamp (gregorian base) (v div 1000000) (nat (v mod 1000000 * 1000))"
    by (simp add: gregorian_def)
qed

interpretation gregorian: arrow_ext "gregorian base" for base
  by (rule gregorian_arrow_ext)

lemma gregorian_wire: "wire (protobuf dec) (gregorian base)"
  by (intro wire.intro protobuf_wire gregorian_cell_ext)

lemma gregorian_arrow_wire: "arrow_wire (protobuf dec) (gregorian base)"
  by (intro arrow_wire.intro protobuf_wire gregorian_arrow_ext)

interpretation pbg: wire "protobuf dec" "gregorian base" for dec base
  by (rule gregorian_wire)

interpretation pbga: arrow_wire "protobuf dec" "gregorian base" for dec base
  by (rule gregorian_arrow_wire)

end
