(* ===== verification/Row_Facts.thy ===== *)
theory Row_Facts
  imports Packer
begin

text \<open>
  The properties of the row data path: decimal and cell texts, the emit frame, the two row
  containers, the calendar and the Arrow packer. Each is instantiated once at a concrete input,
  with the protobuf encoding and the Gregorian calendar in place of the external crates.
\<close>

section \<open>A concrete environment\<close>

definition sample_base :: "(int, int) ext" where
  "sample_base = \<lparr>itoa_format = show_int, from_ymd_opt = (\<lambda>_ _ _. None),
     from_num_days_from_ce_opt = (\<lambda>_. None), d_default = 0, d_year = id, d_month = (\<lambda>_. 1),
     d_day = (\<lambda>_. 1), and_hms_nano_opt = (\<lambda>_ _ _ _ _. None), from_timestamp = (\<lambda>_ _. None),
     from_timestamp_millis = (\<lambda>_. None), from_timestamp_micros = (\<lambda>_. None), t_default = 0,
     t_date = id, t_hour = (\<lambda>_. 0), t_minute = (\<lambda>_. 0), t_second = (\<lambda>_. 0),
     t_nanosecond = (\<lambda>_. 0), date_parse_from_str = (\<lambda>_ _. None),
     datetime_parse_from_str = (\<lambda>_ _. None), date_format = (\<lambda>d _. show_int d),
     datetime_format = (\<lambda>t _. show_int t), f64_show = (\<lambda>f. show_nat (unat f)),
     f64_parse = (\<lambda>_. None), f64_of_int = (\<lambda>_. 0), f64_as_i64 = id, f64_div = (\<lambda>a _. a),
     f64_powi = (\<lambda>a _. a), dbg_value = (\<lambda>_. ''..'')\<rparr>"

definition sample_ext :: "(int, int) ext" where
  "sample_ext = gregorian sample_base"

definition sample_prost :: prost where
  "sample_prost = protobuf (\<lambda>_. Err ''not decoded'')"

lemma sample_wire: "prost_wire sample_prost" "cell_ext sample_ext" "arrow_ext sample_ext"
  by (simp_all add: sample_prost_def sample_ext_def protobuf_wire gregorian_cell_ext gregorian_arrow_ext)

definition sample_column :: "string \<Rightarrow> exa_type \<Rightarrow> column_info" where
  "sample_column name typ = \<lparr>ci_name = name, ci_typ = typ, ci_type_name = ''T'', ci_size = None,
     ci_precision = None, ci_scale = None\<rparr>"

definition sample_columns :: "column_info list" where
  "sample_columns = [sample_column ''A'' (TNumeric 18 2), sample_column ''B'' TInt64,
     sample_column ''C'' (TString 10)]"

definition sample_row :: "(int, int) sql_value list" where
  "sample_row = [VNumeric \<lparr>unscaled = 12345, dscale = 2\<rparr>, VInt32 7, VString ''ab'']"

section \<open>Decimals\<close>

text \<open>C18: Every decimal the SDK prints parses back to the same unscaled value and scale, so a NUMERIC
  round-trips its text losslessly for every \<open>i128\<close> and every scale.\<close>

theorem decimal_display_parses: "decimal_try_from (decimal_fmt d) = Ok d"
  by (rule decimal_fmt_roundtrip)

text \<open>A literal with more than 255 fractional digits is refused with the scale error before any
  digit is read.\<close>

lemma decimal_scale_too_large:
  assumes "find_char (CHR ''.'') s = Some point" "255 < length s - point - 1"
  shows "decimal_try_from s = Err (TypeErr (''decimal scale too large in '' @ quoted s))"
  using assms by (simp add: decimal_try_from_def Let_def)

lemma decimal_scale_too_large_witness:
  "decimal_try_from (''.'' @ replicate 256 (CHR ''0'')) =
    Err (TypeErr (''decimal scale too large in '' @ quoted (''.'' @ replicate 256 (CHR ''0''))))"
  by (rule decimal_scale_too_large [of _ 0]) simp_all

section \<open>Cells\<close>

text \<open>C13: A NUMERIC, DATE, TIMESTAMP, VARCHAR or CHAR cell the row check accepts is written as valid
  UTF-8 that the input decoder reads back as the value of the declared column: the fast digit
  writers, the decimal writer and the fast parsers are inverse on every value the wire can carry.\<close>

theorem string_cells_roundtrip:
  assumes "cell_ext E" "is_string_family_exatype typ" "column_accepts typ v" "v \<noteq> VNull" "wire_value E v"
  shows "valid_utf8 (write_block_value E v []) \<and>
    decode_string_block E typ (write_block_value E v []) = canon typ v"
  using cell_ext.string_cell_roundtrip [OF assms] .

theorem string_cells_roundtrip_witness:
  "decode_string_block sample_ext (TNumeric 18 2)
     (write_block_value sample_ext (VNumeric \<lparr>unscaled = -5, dscale = 2\<rparr>) []) =
   canon (TNumeric 18 2) (VNumeric \<lparr>unscaled = -5, dscale = 2\<rparr>)"
  using string_cells_roundtrip [OF sample_wire(2), of "TNumeric 18 2" "VNumeric \<lparr>unscaled = -5, dscale = 2\<rparr>"]
  by (simp add: is_string_family_exatype_def column_accepts_def wire_value_def wf_value_def)




text \<open>C19: The row check lets a row through exactly when it has one value per column and each value
  fits its column's declared type, and then answers with the row's buffered cost.\<close>

theorem check_output_row_iff:
  "check_output_row E vs cols = Ok n \<longleftrightarrow>
    length vs = length cols \<and> (\<forall>i < length cols. column_accepts (ci_typ (cols ! i)) (vs ! i)) \<and>
    n = BYTES_ROW_NUMBER + sum_list (map value_byte_cost vs)"
  by (auto simp: check_output_row_ok accepts_row_def list_all2_conv_all_nth)

theorem check_output_row_iff_witness:
  "check_output_row sample_ext sample_row sample_columns = Ok 58 \<and>
   column_accepts (ci_typ (sample_columns ! 1)) (sample_row ! 1)"
proof -
  have ok: "check_output_row sample_ext sample_row sample_columns = Ok 58"
    by (simp add: check_output_row_def sample_row_def sample_columns_def sample_column_def
        column_accepts_def value_byte_cost_def cost_defs)
  moreover have "length sample_columns = 3" by (simp add: sample_columns_def)
  ultimately show ?thesis
    using check_output_row_iff [of sample_ext sample_row sample_columns 58] by simp
qed

section \<open>The emit frame\<close>

text \<open>C14: The frame an \<open>MT_EMIT\<close> is encoded to in place is byte for byte the frame \<open>prost\<close> encodes
  from the generated request message of the same table.\<close>

theorem emit_frame_is_prost_frame:
  assumes "prost_wire P" "holds_cells P ss t" "to_proto P t = Some d"
  shows "encode_frame P (Emit \<lparr>er_connection_id = cid, er_table = t\<rparr>) =
    encode_frame P (Request (request_default\<lparr>rq_type := mt_i32 MtEmit, rq_connection_id := cid,
      rq_emit := Some d\<rparr>))"
  using prost_wire.emit_frame_identical [OF assms] .

theorem emit_frame_is_prost_frame_witness:
  "\<exists>d. to_proto sample_prost emit_table_default = Some d \<and>
    encode_frame sample_prost (Emit \<lparr>er_connection_id = 7, er_table = emit_table_default\<rparr>) =
    encode_frame sample_prost (Request (request_default\<lparr>rq_type := mt_i32 MtEmit, rq_connection_id := 7,
      rq_emit := Some d\<rparr>))"
proof -
  obtain d where d: "to_proto sample_prost emit_table_default = Some d"
    using prost_wire.to_proto_cells [OF sample_wire(1) holds_cells_default(1)] by blast
  then show ?thesis
    using emit_frame_is_prost_frame [OF sample_wire(1) holds_cells_default(1) d] by blast
qed

text \<open>C15: A cell written through the closure writer lands in the string block exactly as one pushed as
  a slice, and the cells of any sequence of pushes are read back in order.\<close>

theorem string_block_roundtrip:
  assumes "prost_wire P" "list_all (\<lambda>s. length s < 2 ^ 64) ss"
  shows "fold (\<lambda>s. push_string_with P (\<lambda>out. out @ s)) ss t = fold (push_string P) ss t \<and>
    string_cells P (strings (fold (push_string P) ss emit_table_default)) = Some ss"
proof -
  have same: "push_string_with P (\<lambda>out. out @ s) = push_string P s" for s
    using prost_wire.push_string_with_eq [OF assms(1), of "\<lambda>out. out @ s" s] by (intro ext) simp
  have holds: "holds_cells P (done @ ss) (fold (push_string P) ss t)"
    if "holds_cells P done t" for "done" t
    using that assms(2)
  proof (induction ss arbitrary: "done" t)
    case Nil
    then show ?case by simp
  next
    case (Cons s ss)
    then show ?case
      using Cons.IH [OF prost_wire.push_string_cells [OF assms(1) Cons.prems(1)]] by simp
  qed
  have "string_cells P (strings (fold (push_string P) ss emit_table_default)) = Some ss"
    using holds [OF holds_cells_default(1)] prost_wire.string_cells_block [OF assms(1)]
    by (simp add: holds_cells_def)
  then show ?thesis by (simp add: same)
qed

theorem string_block_roundtrip_witness:
  "string_cells sample_prost (strings (fold (push_string sample_prost) [''ab'', replicate 200 (CHR ''x'')]
     emit_table_default)) = Some [''ab'', replicate 200 (CHR ''x'')]"
  using string_block_roundtrip [OF sample_wire(1), of "[''ab'', replicate 200 (CHR ''x'')]"] by simp

section \<open>Row containers\<close>

text \<open>C1: Rows the row check accepts can always be pushed (no cell panics), the buffer's blocks convert
  to the wire message, and the input decoder reads the same rows back: every value as its declared
  column carries it, in order, with its row number, and none shifted by a NULL.\<close>

theorem emitted_rows_roundtrip:
  assumes "prost_wire P" "cell_ext E"
    and "list_all (\<lambda>(vs, _). accepts_row cols vs \<and> list_all (wire_value E) vs) rs"
    and "list_all (\<lambda>s. length s < 2 ^ 64) (rows_block (cell_strings E) cols (map fst rs))"
  shows "\<exists>b td. push_rows P E cols rs emit_buffer_new = Some b \<and>
    take_proto P b = Some (td, clear_buffer b) \<and>
    from_proto E td cols = Ok \<lparr>cells = concat (map (canon_row cols \<circ> fst) rs), n_rows = length rs,
      n_cols = length cols, irs_row_numbers = map snd rs, cur_row = 0, irs_rows_in_group = 0\<rparr>"
proof -
  have acc: "list_all (accepts_row cols \<circ> fst) rs" "list_all (list_all (wire_value E) \<circ> fst) rs"
    using assms(3) by (auto simp: list_all_iff)
  then have packs: "list_all (packs_row E cols \<circ> fst) rs"
    by (auto simp: list_all_iff intro: accepts_packs)
  obtain b where b: "push_rows P E cols rs emit_buffer_new = Some b" "buffer_holds P E cols rs b"
    using prost_wire.push_rows_holds [OF assms(1) buffer_holds_new(1) packs] by auto
  show ?thesis
    using wire.buffer_roundtrip [OF wire.intro [OF assms(1,2)] b(2) acc assms(4)] b(1) by blast
qed

theorem emitted_rows_roundtrip_witness:
  "\<exists>b td. push_rows sample_prost sample_ext sample_columns [(sample_row, 4), ([VNull, VNull, VString ''''], 5)]
      emit_buffer_new = Some b \<and>
    take_proto sample_prost b = Some (td, clear_buffer b) \<and>
    from_proto sample_ext td sample_columns = Ok \<lparr>cells =
        [VNumeric \<lparr>unscaled = 12345, dscale = 2\<rparr>, VInt64 7, VString ''ab'', VNull, VNull, VString ''''],
      n_rows = 2, n_cols = 3, irs_row_numbers = [4, 5], cur_row = 0, irs_rows_in_group = 0\<rparr>"
proof -
  let ?rs = "[(sample_row, 4), ([VNull, VNull, VString ''''], 5)] :: ((int, int) sql_value list \<times> nat) list"
  have acc: "list_all (\<lambda>(vs, _). accepts_row sample_columns vs \<and> list_all (wire_value sample_ext) vs) ?rs"
    by (simp add: accepts_row_def sample_columns_def sample_column_def sample_row_def column_accepts_def
        wire_value_def wf_value_def ascii_valid_utf8 byte_def)
  have len: "list_all (\<lambda>s. length s < 2 ^ 64) (rows_block (cell_strings sample_ext) sample_columns (map fst ?rs))"
    using cell_ext.write_decimal_eq [OF sample_wire(2), of "\<lparr>unscaled = 12345, dscale = 2\<rparr>" "[]"]
      length_decimal_fmt [of "\<lparr>unscaled = 12345, dscale = 2\<rparr>"]
    by (simp add: sample_columns_def sample_column_def sample_row_def cell_strings_def
        is_string_family_exatype_def write_block_value_def value_byte_cost_def cost_defs)
  have canon: "concat (map (canon_row sample_columns \<circ> fst) ?rs) =
      [VNumeric \<lparr>unscaled = 12345, dscale = 2\<rparr>, VInt64 7, VString ''ab'', VNull, VNull, VString '''']"
    by (simp add: canon_row_def sample_columns_def sample_column_def sample_row_def canon_def)
  show ?thesis
    using emitted_rows_roundtrip [OF sample_wire(1,2) acc len] unfolding canon
    by (simp add: sample_columns_def numeral_2_eq_2 numeral_3_eq_3)
qed

section \<open>The calendar\<close>

text \<open>C16: \<open>civil_from_days\<close> inverts the proleptic Gregorian day count: it returns the one valid
  date whose day number is the given one, for every day number.\<close>

theorem civil_from_days_iff:
  "civil_from_days days = (y, m, d) \<longleftrightarrow> valid_date y m d \<and> ce_day y m d = days + EPOCH_CE_DAY"
proof -
  obtain y' m' d' where date: "civil_from_days days = (y', m', d')" by (cases "civil_from_days days")
  then have "valid_date y' m' d'" "ce_day y' m' d' = days + EPOCH_CE_DAY"
    using civil_from_days_correct [of days] by simp_all
  then show ?thesis using date ce_day_unique by auto
qed

text \<open>C17: The year cache never changes an answer: after any sequence of lookups, in any order, a
  cached lookup gives the date the direct computation gives.\<close>

theorem year_cache_transparent:
  "fst (civil days (fold (\<lambda>d c. snd (civil d c)) earlier year_cache_default)) = civil_from_days days"
proof -
  have "cache_ok c \<Longrightarrow> cache_ok (fold (\<lambda>d c. snd (civil d c)) ds c)" for ds c
    by (induction ds arbitrary: c) (simp_all add: civil_cache)
  then show ?thesis by (simp add: civil_cache cache_ok_default)
qed

section \<open>Arrow batches\<close>

definition sample_batch :: record_batch where
  "sample_batch = \<lparr>rb_num_rows = 2, rb_columns =
     [\<lparr>aa_data = AInt32 [7, 8], aa_nulls = Some [True, False]\<rparr>,
      \<lparr>aa_data = AUtf8 [0, 2, 2] ''ab'', aa_nulls = None\<rparr>,
      \<lparr>aa_data = ADecimal128 [12345, 0] 2, aa_nulls = None\<rparr>]\<rparr>"

definition batch_columns :: "column_info list" where
  "batch_columns = [sample_column ''A'' TInt32, sample_column ''B'' (TString 10),
     sample_column ''C'' (TNumeric 18 2)]"

definition sample_accessors :: "col_accessor list" where
  "sample_accessors = [AccInt32 [7, 8], AccUtf8 [0, 2, 2] ''ab'', AccDecimal128 [12345, 0] 2]"

lemma sample_batch_ok: "batch_ok sample_batch" "list_all (\<lambda>m. ci_typ m \<noteq> TUnsupported) batch_columns"
  "arrow_wire sample_prost sample_ext"
  by (simp_all add: batch_ok_def array_ok_def sample_batch_def batch_columns_def sample_column_def
      sample_prost_def sample_ext_def gregorian_arrow_wire)

lemma sample_batch_accessors: "build_accessors dd dt sample_batch batch_columns = Ok sample_accessors"
proof -
  have "build_accessor (AInt32 xs) TInt32 = Some (AccInt32 xs)"
    "build_accessor (AUtf8 o' data) (TString n) = Some (AccUtf8 o' data)"
    "build_accessor (ADecimal128 ds scale) (TNumeric p q) = Some (AccDecimal128 ds scale)"
    for xs o' data n ds scale p q
    by (simp_all add: build_accessor_def is_string_family_exatype_def)
  then show ?thesis
    by (simp add: build_accessors_def sample_batch_def batch_columns_def sample_column_def
        sample_accessors_def)
qed





text \<open>The whole-batch estimate is an upper bound of the exact per-row costs, so a batch taken
  without row costs never hides a flush the row path would have made.\<close>

lemma batch_cost_bounds_rows:
  assumes "batch_ok batch" "length (rb_columns batch) = length meta"
  shows "sum_list (compute_row_costs batch meta) \<le> batch_byte_cost batch meta"
  by (rule batch_byte_cost_ge [OF assms])

lemma batch_cost_bounds_rows_witness:
  "sum_list (compute_row_costs sample_batch batch_columns) \<le> batch_byte_cost sample_batch batch_columns"
  using batch_cost_bounds_rows [OF sample_batch_ok(1), of batch_columns]
  by (simp add: sample_batch_def batch_columns_def)


end
