(* ===== verification/Meta.thy ===== *)
theory Meta
  imports Proto
begin

text \<open>
  The handshake metadata of \<open>exa-zmq-protocol/src/meta.rs\<close>: how the protobuf column
  definitions and iteration axes become the \<open>ColumnInfo\<close> and \<open>IterType\<close> the runtime works
  with, and the connection credentials of an \<open>MT_IMPORT\<close> reply.
\<close>

section \<open>Metadata\<close>

datatype iter_type = ExactlyOnce | Multiple

record udf_meta =
  um_input_iter :: iter_type
  um_output_iter :: iter_type
  um_input_columns :: "column_info list"
  um_output_columns :: "column_info list"
  um_single_call_mode :: bool
  um_source_code :: string
  um_script_name :: string
  um_script_schema :: string
  um_database_name :: string
  um_database_version :: string
  um_session_id :: nat
  um_statement_id :: nat
  um_node_id :: nat
  um_node_count :: nat
  um_vm_id :: nat
  um_current_user :: "string option"
  um_current_schema :: "string option"
  um_scope_user :: "string option"
  um_maximal_memory_limit :: nat

record conn_info =
  ci_kind :: string
  ci_address :: string
  ci_user :: string
  ci_password :: string

definition conn_info_from_pb :: "connection_information_rep \<Rightarrow> conn_info" where
  "conn_info_from_pb pb = \<lparr>ci_kind = cir_kind pb, ci_address = cir_address pb,
     ci_user = cir_user pb, ci_password = cir_password pb\<rparr>"

definition refine_string :: "string \<Rightarrow> nat option \<Rightarrow> exa_type" where
  "refine_string type_name sz =
     (if starts_with type_name ''CHAR'' then TChar (unwrap_or 1 sz) else TString (unwrap_or 2000000 sz))"

definition parse_timestamp_precision :: "string \<Rightarrow> nat option" where
  "parse_timestamp_precision type_name =
     Option.bind (find_char (CHR ''('') type_name) (\<lambda>op.
       Option.bind (find_char (CHR '')'') (drop op type_name)) (\<lambda>i.
         let close = i + op in parse_u32 (slice (op + 1) close type_name)))"

definition refine_timestamp :: "string \<Rightarrow> nat option \<Rightarrow> exa_type" where
  "refine_timestamp type_name precision =
     TTimestamp (unwrap_or 3 (or_else (parse_timestamp_precision type_name) precision))"

definition column_from_pb :: "column_definition \<Rightarrow> column_info" where
  "column_from_pb col =
     (let typ = (case cd_type_get col of
          PbDouble \<Rightarrow> TDouble
        | PbInt32 \<Rightarrow> TInt32
        | PbInt64 \<Rightarrow> TInt64
        | PbNumeric \<Rightarrow> TNumeric (unwrap_or 18 (cd_precision col)) (unwrap_or 0 (cd_scale col))
        | PbDate \<Rightarrow> TDate
        | PbBoolean \<Rightarrow> TBoolean
        | PbUnsupported \<Rightarrow> TUnsupported
        | PbTimestamp \<Rightarrow> refine_timestamp (cd_type_name col) (cd_precision col)
        | PbString \<Rightarrow> refine_string (cd_type_name col) (cd_size col))
      in \<lparr>ci_name = cd_name col, ci_typ = typ, ci_type_name = cd_type_name col,
          ci_size = cd_size col, ci_precision = cd_precision col, ci_scale = cd_scale col\<rparr>)"

definition iter_from_pb :: "pb_iter_type \<Rightarrow> iter_type" where
  "iter_from_pb iter = (case iter of PbExactlyOnce \<Rightarrow> ExactlyOnce | PbMultiple \<Rightarrow> Multiple)"

definition udf_meta_from_pb :: "exascript_metadata \<Rightarrow> exascript_info \<Rightarrow> udf_meta" where
  "udf_meta_from_pb meta info =
     \<lparr>um_input_iter = iter_from_pb (pb_iter_get (em_input_iter_type meta)),
      um_output_iter = iter_from_pb (pb_iter_get (em_output_iter_type meta)),
      um_input_columns = map column_from_pb (em_input_columns meta),
      um_output_columns = map column_from_pb (em_output_columns meta),
      um_single_call_mode = em_single_call_mode meta,
      um_source_code = ei_source_code info,
      um_script_name = ei_script_name info,
      um_script_schema = ei_script_schema info,
      um_database_name = ei_database_name info,
      um_database_version = ei_database_version info,
      um_session_id = ei_session_id info,
      um_statement_id = ei_statement_id info,
      um_node_id = ei_node_id info,
      um_node_count = ei_node_count info,
      um_vm_id = ei_vm_id info,
      um_current_user = ei_current_user info,
      um_current_schema = ei_current_schema info,
      um_scope_user = ei_scope_user info,
      um_maximal_memory_limit = ei_maximal_memory_limit info\<rparr>"

section \<open>Column definitions read back\<close>

text \<open>
  The definition the database sends for a column: the enum number of its block and the
  column's own attributes. Reading it back gives the column, provided the attributes spell its
  type, which \<open>column_ok\<close> says.
\<close>

definition column_number :: "exa_type \<Rightarrow> i32" where
  "column_number ty = (case ty of
      TUnsupported \<Rightarrow> 0 | TDouble \<Rightarrow> 1 | TInt32 \<Rightarrow> 2 | TInt64 \<Rightarrow> 3 | TNumeric _ _ \<Rightarrow> 4
    | TTimestamp _ \<Rightarrow> 5 | TDate \<Rightarrow> 6 | TString _ \<Rightarrow> 7 | TChar _ \<Rightarrow> 7 | TBoolean \<Rightarrow> 8)"

definition column_definition_of :: "column_info \<Rightarrow> column_definition" where
  "column_definition_of c = \<lparr>cd_name = ci_name c, cd_type = Some (column_number (ci_typ c)),
     cd_type_name = ci_type_name c, cd_size = ci_size c, cd_precision = ci_precision c,
     cd_scale = ci_scale c\<rparr>"

definition column_ok :: "column_info \<Rightarrow> bool" where
  "column_ok c = (case ci_typ c of
      TNumeric p s \<Rightarrow> p = unwrap_or 18 (ci_precision c) \<and> s = unwrap_or 0 (ci_scale c)
    | TTimestamp p \<Rightarrow>
        p = unwrap_or 3 (or_else (parse_timestamp_precision (ci_type_name c)) (ci_precision c))
    | TString n \<Rightarrow> \<not> starts_with (ci_type_name c) ''CHAR'' \<and> n = unwrap_or 2000000 (ci_size c)
    | TChar n \<Rightarrow> starts_with (ci_type_name c) ''CHAR'' \<and> n = unwrap_or 1 (ci_size c)
    | _ \<Rightarrow> True)"

lemma cd_type_get_number:
  "cd_type_get (column_definition_of c) = (case ci_typ c of
      TUnsupported \<Rightarrow> PbUnsupported | TDouble \<Rightarrow> PbDouble | TInt32 \<Rightarrow> PbInt32 | TInt64 \<Rightarrow> PbInt64
    | TNumeric _ _ \<Rightarrow> PbNumeric | TTimestamp _ \<Rightarrow> PbTimestamp | TDate \<Rightarrow> PbDate
    | TString _ \<Rightarrow> PbString | TChar _ \<Rightarrow> PbString | TBoolean \<Rightarrow> PbBoolean)"
  by (cases "ci_typ c") (simp_all add: cd_type_get_def column_definition_of_def column_number_def
      column_type_try_from_def)

lemma column_read_back: "column_ok c \<Longrightarrow> column_from_pb (column_definition_of c) = c"
  unfolding column_from_pb_def Let_def cd_type_get_number
  by (cases "ci_typ c") (simp_all add: column_definition_of_def column_ok_def refine_timestamp_def
      refine_string_def)

lemma column_from_pb_ok: "column_ok (column_from_pb d)"
  unfolding column_from_pb_def Let_def
  by (cases "cd_type_get d") (simp_all add: column_ok_def refine_timestamp_def refine_string_def)

text \<open>The precision inside the parentheses of a type name.\<close>

lemma parse_u32_show_nat:
  assumes "n < 2 ^ 32"
  shows "parse_u32 (show_nat n) = Some n"
proof -
  have "parse_int 0 (2 ^ 32 - 1) (show_nat n) = Ok (int (digits_val (show_nat n)))"
    using assms show_nat_digits [of n] show_nat_nonempty [of n]
    by (intro parse_int_digits) (auto simp: digits_val_show_nat)
  then show ?thesis by (simp add: parse_u32_def digits_val_show_nat)
qed

lemma timestamp_precision_of_name:
  assumes "CHR ''('' \<notin> set p" "n < 2 ^ 32"
  shows "parse_timestamp_precision (p @ CHR ''('' # show_nat n @ CHR '')'' # rest) = Some n"
proof -
  have "CHR '')'' \<notin> set (show_nat n)"
    using show_nat_digits [of n] by (auto simp: list_all_iff is_digit_def)
  then have "find_char (CHR '')'') (CHR ''('' # show_nat n @ CHR '')'' # rest) =
      Some (Suc (length (show_nat n)))"
    by (simp add: find_char_append)
  then show ?thesis
    using assms parse_u32_show_nat
    by (simp add: parse_timestamp_precision_def find_char_append slice_def)
qed

end
