(* ===== verification/Protocol.thy ===== *)
theory Protocol
  imports Meta Frame
begin

text \<open>
  The protocol state machine of \<open>exa-zmq-protocol/src/loop_.rs\<close>: one response frame is one
  step, which answers with the event to handle, and the builders of the requests. The theory
  shows that every accepted exchange is a session: a handshake that ends with one metadata
  event, then a run phase, then a closing phase from which no data event returns.
\<close>

section \<open>Events, actions and errors\<close>

datatype host_event =
    EvPending
  | EvMeta udf_meta
  | EvRun
  | EvEmitAck
  | EvNextData table_data
  | EvDone
  | EvCleanup
  | EvSingleCallAck
  | EvUndefinedCallAck
  | EvFinished
  | EvClose "string option"
  | EvPing string
  | EvTryAgain
  | EvReset
  | EvSingleCall (sc_fn_id: single_call_function_id) (sc_json: "string option")
      (sc_import: "import_specification_rep option") (sc_export: "export_specification_rep option")
  | EvConnInfo conn_info
  | EvImportRefused string

datatype host_action = MetaRequest | PingReply string

text \<open>A socket error is \<open>EAGAIN\<close>, the only one the code tells apart, or another with its text; a
  decoding error is its text.\<close>

datatype zmq_error = EAGAIN | OtherZmq string

datatype protocol_error =
    ZmqErr zmq_error
  | DecodeErr string
  | UnexpectedMessage i32 string
  | ProtocolErr string

definition show_zmq_error :: "zmq_error \<Rightarrow> string" where
  "show_zmq_error e = (case e of EAGAIN \<Rightarrow> ''Resource temporarily unavailable'' | OtherZmq s \<Rightarrow> s)"

definition show_protocol_error :: "protocol_error \<Rightarrow> string" where
  "show_protocol_error e = (case e of
      ZmqErr z \<Rightarrow> ''ZMQ error: '' @ show_zmq_error z
    | DecodeErr d \<Rightarrow> ''Prost decode error: '' @ d
    | UnexpectedMessage i s \<Rightarrow>
        ''Unexpected message type '' @ show_int (sint i) @ '' in state '' @ s
    | ProtocolErr m \<Rightarrow> ''Protocol error: '' @ m)"

section \<open>The state machine\<close>

datatype phase = PHandshake | PRun | PCleanup | PDone

record protocol =
  pr_connection_id :: nat
  pr_phase :: phase
  pr_pending_info :: "exascript_info option"
  pr_single_call_mode :: bool

definition protocol_new :: protocol where
  "protocol_new = \<lparr>pr_connection_id = 0, pr_phase = PHandshake, pr_pending_info = None,
     pr_single_call_mode = False\<rparr>"

definition phase_name :: "phase \<Rightarrow> string" where
  "phase_name ph = (case ph of PHandshake \<Rightarrow> ''Handshake'' | PRun \<Rightarrow> ''Run''
     | PCleanup \<Rightarrow> ''Cleanup'' | PDone \<Rightarrow> ''Done'')"

definition unexpected_message :: "exascript_response \<Rightarrow> protocol \<Rightarrow>
    (protocol_error, host_event \<times> host_action option) result \<times> protocol" where
  "unexpected_message resp p = (Err (UnexpectedMessage (rs_type resp) (phase_name (pr_phase p))), p)"

definition step_info :: "exascript_response \<Rightarrow> protocol \<Rightarrow>
    (protocol_error, host_event \<times> host_action option) result \<times> protocol" where
  "step_info resp p = (case rs_info resp of
      None \<Rightarrow> (Err (ProtocolErr ''MT_INFO missing info field''), p)
    | Some info \<Rightarrow> (Ok (EvPending, Some MetaRequest), p\<lparr>pr_pending_info := Some info\<rparr>))"

definition step_meta :: "exascript_response \<Rightarrow> protocol \<Rightarrow>
    (protocol_error, host_event \<times> host_action option) result \<times> protocol" where
  "step_meta resp p = (case rs_meta resp of
      None \<Rightarrow> (Err (ProtocolErr ''MT_META missing meta field''), p)
    | Some meta_pb \<Rightarrow>
        let info = pr_pending_info p;
            p = p\<lparr>pr_pending_info := None\<rparr>
        in (case info of
              None \<Rightarrow> (Err (ProtocolErr ''MT_META before MT_INFO''), p)
            | Some info \<Rightarrow>
                let meta = udf_meta_from_pb meta_pb info
                in (Ok (EvMeta meta, None),
                    p\<lparr>pr_single_call_mode := um_single_call_mode meta, pr_phase := PRun\<rparr>)))"

definition step_next :: "exascript_response \<Rightarrow> protocol \<Rightarrow>
    (protocol_error, host_event \<times> host_action option) result \<times> protocol" where
  "step_next resp p = (case rs_next resp of
      None \<Rightarrow> (Err (ProtocolErr ''MT_NEXT missing table''), p)
    | Some table \<Rightarrow> (Ok (EvNextData table, None), p))"

definition step_call :: "exascript_response \<Rightarrow> protocol \<Rightarrow>
    (protocol_error, host_event \<times> host_action option) result \<times> protocol" where
  "step_call resp p = (case rs_call resp of
      None \<Rightarrow> (Err (ProtocolErr ''MT_CALL missing call field''), p)
    | Some call \<Rightarrow>
        let fn_id = unwrap_or ScFnNil (single_call_function_try_from (sc_fn call))
        in (Ok (EvSingleCall fn_id (sc_json_arg call) (sc_import_specification call)
                  (sc_export_specification call), None), p))"

definition step_import :: "exascript_response \<Rightarrow> protocol \<Rightarrow>
    (protocol_error, host_event \<times> host_action option) result \<times> protocol" where
  "step_import resp p = (case rs_import resp of
      None \<Rightarrow> (Err (ProtocolErr ''MT_IMPORT missing import field''), p)
    | Some import \<Rightarrow>
        (case (irp_exception_message import, irp_connection_information import) of
           (Some reason, _) \<Rightarrow> (Ok (EvImportRefused reason, None), p)
         | (None, Some conn_pb) \<Rightarrow> (Ok (EvConnInfo (conn_info_from_pb conn_pb), None), p)
         | (None, None) \<Rightarrow>
             (Err (ProtocolErr ''MT_IMPORT response missing connection_information''), p)))"

definition step :: "exascript_response \<Rightarrow> protocol \<Rightarrow>
    (protocol_error, host_event \<times> host_action option) result \<times> protocol" where
  "step resp p =
     (let mt = unwrap_or MtUnknown (message_type_try_from (rs_type resp));
          p = p\<lparr>pr_connection_id := rs_connection_id resp\<rparr>;
          ph = pr_phase p
      in case mt of
           MtInfo \<Rightarrow> if ph = PHandshake then step_info resp p else unexpected_message resp p
         | MtMeta \<Rightarrow> if ph = PHandshake then step_meta resp p else unexpected_message resp p
         | MtRun \<Rightarrow> if ph = PRun then (Ok (EvRun, None), p) else unexpected_message resp p
         | MtEmit \<Rightarrow> if ph = PRun then (Ok (EvEmitAck, None), p) else unexpected_message resp p
         | MtNext \<Rightarrow> if ph = PRun then step_next resp p else unexpected_message resp p
         | MtDone \<Rightarrow> if ph = PRun then (Ok (EvDone, None), p) else unexpected_message resp p
         | MtReset \<Rightarrow> if ph = PRun then (Ok (EvReset, None), p) else unexpected_message resp p
         | MtReturn \<Rightarrow> if ph = PRun \<and> pr_single_call_mode p then (Ok (EvSingleCallAck, None), p)
                      else unexpected_message resp p
         | MtUndefinedCall \<Rightarrow>
             if ph = PRun \<and> pr_single_call_mode p then (Ok (EvUndefinedCallAck, None), p)
             else unexpected_message resp p
         | MtCall \<Rightarrow> if ph = PRun \<and> pr_single_call_mode p then step_call resp p
                    else unexpected_message resp p
         | MtImport \<Rightarrow> step_import resp p
         | MtCleanup \<Rightarrow> (Ok (EvCleanup, None), p\<lparr>pr_phase := PCleanup\<rparr>)
         | MtFinished \<Rightarrow> (Ok (EvFinished, None), p\<lparr>pr_phase := PDone\<rparr>)
         | MtClose \<Rightarrow> (Ok (EvClose (Option.bind (rs_close resp) (\<lambda>c. c)), None),
                      p\<lparr>pr_phase := PDone\<rparr>)
         | MtPingPong \<Rightarrow>
             let meta_info = unwrap_or [] (rs_ping resp)
             in (Ok (EvPing meta_info, Some (PingReply meta_info)), p)
         | MtTryAgain \<Rightarrow> (Ok (EvTryAgain, None), p)
         | _ \<Rightarrow> unexpected_message resp p)"

section \<open>Request builders\<close>

definition base_request :: "message_type \<Rightarrow> protocol \<Rightarrow> exascript_request" where
  "base_request mt p = request_default\<lparr>rq_type := mt_i32 mt, rq_connection_id := pr_connection_id p\<rparr>"

definition client_request :: "string \<Rightarrow> protocol \<Rightarrow> exascript_request" where
  "client_request client_name p = (base_request MtClient p)\<lparr>rq_client :=
     Some \<lparr>ec_client_name = client_name, ec_meta_info = None\<rparr>\<rparr>"

definition meta_request :: "protocol \<Rightarrow> exascript_request" where
  "meta_request p = base_request MtMeta p"

definition run_request :: "protocol \<Rightarrow> exascript_request" where
  "run_request p = base_request MtRun p"

definition next_request :: "protocol \<Rightarrow> exascript_request" where
  "next_request p = base_request MtNext p"

definition emit_request_of :: "emit_table \<Rightarrow> protocol \<Rightarrow> emit_request" where
  "emit_request_of table p = \<lparr>er_connection_id = pr_connection_id p, er_table = table\<rparr>"

definition done_request :: "protocol \<Rightarrow> exascript_request" where
  "done_request p = base_request MtDone p"

definition finished_reply :: "protocol \<Rightarrow> exascript_request" where
  "finished_reply p = base_request MtFinished p"

definition close_request :: "string option \<Rightarrow> protocol \<Rightarrow> exascript_request" where
  "close_request exception_msg p = (base_request MtClose p)\<lparr>rq_close := Some exception_msg\<rparr>"

definition ping_reply :: "string \<Rightarrow> protocol \<Rightarrow> exascript_request" where
  "ping_reply meta_info p = (base_request MtPingPong p)\<lparr>rq_ping := Some meta_info\<rparr>"

text \<open>\<open>{:04}\<close> pads the code to four digits.\<close>

definition error_close_request :: "nat \<Rightarrow> string \<Rightarrow> protocol \<Rightarrow> exascript_request" where
  "error_close_request code message p =
     (let full_msg = ''F-UDF-CL-RUST-'' @ pad_left (CHR ''0'') 4 (show_nat code) @ '': '' @ message
      in close_request (Some full_msg) p)"

definition return_request :: "string \<Rightarrow> protocol \<Rightarrow> exascript_request" where
  "return_request r p = (base_request MtReturn p)\<lparr>rq_call_result := Some r\<rparr>"

definition undefined_call_request :: "string \<Rightarrow> protocol \<Rightarrow> exascript_request" where
  "undefined_call_request remote_fn p =
     (base_request MtUndefinedCall p)\<lparr>rq_undefined_call := Some remote_fn\<rparr>"

definition PB_IMPORT_CONNECTION_INFORMATION :: i32 where
  "PB_IMPORT_CONNECTION_INFORMATION = 2"

definition import_connection_request :: "string \<Rightarrow> protocol \<Rightarrow> exascript_request" where
  "import_connection_request script_name p = (base_request MtImport p)\<lparr>rq_import :=
     Some \<lparr>ir_script_name = script_name, ir_kind = Some PB_IMPORT_CONNECTION_INFORMATION\<rparr>\<rparr>"

section \<open>Sessions\<close>

text \<open>
  What a session is, without message formats: it opens (with the info it has buffered), runs
  (in one of the two modes), and ends. Pings, retries and connection lookups are allowed in
  every stage.
\<close>

datatype stage = Opening "exascript_info option" | Running bool | Ending

fun neutral_event :: "host_event \<Rightarrow> bool" where
  "neutral_event (EvPing _) = True"
| "neutral_event EvTryAgain = True"
| "neutral_event (EvConnInfo _) = True"
| "neutral_event (EvImportRefused _) = True"
| "neutral_event _ = False"

fun ending_event :: "host_event \<Rightarrow> bool" where
  "ending_event EvCleanup = True"
| "ending_event EvFinished = True"
| "ending_event (EvClose _) = True"
| "ending_event _ = False"

fun run_event :: "bool \<Rightarrow> host_event \<Rightarrow> bool" where
  "run_event single EvRun = True"
| "run_event single EvEmitAck = True"
| "run_event single (EvNextData _) = True"
| "run_event single EvDone = True"
| "run_event single EvReset = True"
| "run_event single EvSingleCallAck = single"
| "run_event single EvUndefinedCallAck = single"
| "run_event single (EvSingleCall _ _ _ _) = single"
| "run_event single _ = False"

inductive session :: "stage \<Rightarrow> host_event \<Rightarrow> stage \<Rightarrow> bool" where
  info: "session (Opening i) EvPending (Opening (Some info))"
| meta: "session (Opening (Some info)) (EvMeta (udf_meta_from_pb m info)) (Running (em_single_call_mode m))"
| run: "run_event single e \<Longrightarrow> session (Running single) e (Running single)"
| neutral: "neutral_event e \<Longrightarrow> session s e s"
| ending: "ending_event e \<Longrightarrow> session s e Ending"

inductive_cases session_OpeningE: "session (Opening i) e s"
inductive_cases session_RunningE: "session (Running b) e s"
inductive_cases session_EndingE: "session Ending e s"

definition stage_of :: "protocol \<Rightarrow> stage" where
  "stage_of p = (case pr_phase p of
      PHandshake \<Rightarrow> Opening (pr_pending_info p)
    | PRun \<Rightarrow> Running (pr_single_call_mode p)
    | PCleanup \<Rightarrow> Ending
    | PDone \<Rightarrow> Ending)"

lemma um_single_call_mode_from_pb [simp]:
  "um_single_call_mode (udf_meta_from_pb m info) = em_single_call_mode m"
  by (simp add: udf_meta_from_pb_def)

lemma stage_of_simps [simp]:
  "stage_of (p\<lparr>pr_connection_id := c\<rparr>) = stage_of p"
  "stage_of (p\<lparr>pr_phase := PCleanup\<rparr>) = Ending"
  "stage_of (p\<lparr>pr_phase := PDone\<rparr>) = Ending"
  by (simp_all add: stage_of_def split: phase.split)

lemma stage_of_phase:
  "pr_phase p = PHandshake \<Longrightarrow> stage_of p = Opening (pr_pending_info p)"
  "pr_phase p = PRun \<Longrightarrow> stage_of p = Running (pr_single_call_mode p)"
  by (simp_all add: stage_of_def)

lemmas step_defs = step_def step_info_def step_meta_def step_next_def step_call_def step_import_def
  unexpected_message_def

lemma step_meta_session:
  assumes "step_meta resp p = (Ok (e, a), p')" "pr_phase p = PHandshake"
  shows "session (stage_of p) e (stage_of p')"
proof -
  obtain m info where "rs_meta resp = Some m" and info: "pr_pending_info p = Some info"
    and e: "e = EvMeta (udf_meta_from_pb m info)"
    and p': "p' = p\<lparr>pr_pending_info := None, pr_single_call_mode := em_single_call_mode m, pr_phase := PRun\<rparr>"
    using assms(1) by (auto simp: step_meta_def Let_def udf_meta_from_pb_def split: option.splits)
  have "stage_of p = Opening (Some info)" "stage_of p' = Running (em_single_call_mode m)"
    by (simp_all add: stage_of_def assms(2) info p')
  then show ?thesis unfolding e by (simp add: session.meta)
qed

lemma step_session:
  assumes "step resp p = (Ok (e, a), p')"
  shows "session (stage_of p) e (stage_of p')"
proof -
  let ?p = "p\<lparr>pr_connection_id := rs_connection_id resp\<rparr>"
  let ?mt = "unwrap_or MtUnknown (message_type_try_from (rs_type resp))"
  show ?thesis
  proof (cases "?mt = MtMeta")
    case True
    then have "pr_phase ?p = PHandshake" "step_meta resp ?p = (Ok (e, a), p')"
      using assms by (simp_all add: step_def Let_def unexpected_message_def split: if_splits)
    then show ?thesis using step_meta_session by fastforce
  next
    case False
    then show ?thesis
      using assms unfolding step_def Let_def
      by (cases ?mt)
        (auto simp: step_info_def step_next_def step_call_def step_import_def unexpected_message_def
          stage_of_phase session.intros split: if_splits option.splits)
  qed
qed

lemma step_error_stage:
  assumes "step resp p = (Err e, p')"
  shows "stage_of p' = stage_of p"
  using assms unfolding step_def Let_def
  by (cases "unwrap_or MtUnknown (message_type_try_from (rs_type resp))")
    (auto simp: step_defs Let_def stage_of_phase split: if_splits option.splits)

lemma step_connection_id: "pr_connection_id (snd (step resp p)) = rs_connection_id resp"
  unfolding step_def Let_def
  by (cases "unwrap_or MtUnknown (message_type_try_from (rs_type resp))")
    (auto simp: step_defs Let_def split: option.split)

section \<open>Whole exchanges\<close>

text \<open>A sequence of accepted frames, with the events they surface.\<close>

inductive exchange :: "protocol \<Rightarrow> exascript_response list \<Rightarrow> host_event list \<Rightarrow> protocol \<Rightarrow> bool" where
  none: "exchange p [] [] p"
| more: "step r p = (Ok (e, a), p') \<Longrightarrow> exchange p' rs es p'' \<Longrightarrow> exchange p (r # rs) (e # es) p''"

inductive_simps exchange_Nil [simp]: "exchange p [] es p'"
inductive_simps exchange_Cons: "exchange p (r # rs) es p'"

definition opening_event :: "host_event \<Rightarrow> bool" where
  "opening_event e = (neutral_event e \<or> e = EvPending)"

definition closing_event :: "host_event \<Rightarrow> bool" where
  "closing_event e = (neutral_event e \<or> ending_event e)"

definition running_event :: "bool \<Rightarrow> host_event \<Rightarrow> bool" where
  "running_event single e = (neutral_event e \<or> run_event single e)"

definition running_shape :: "bool \<Rightarrow> host_event list \<Rightarrow> bool" where
  "running_shape single es \<longleftrightarrow> (\<exists>ds ts. es = ds @ ts \<and> list_all (running_event single) ds \<and>
     list_all closing_event ts)"

definition session_shape :: "host_event list \<Rightarrow> bool" where
  "session_shape es \<longleftrightarrow>
     (\<exists>hs ts. es = hs @ ts \<and> list_all opening_event hs \<and> list_all closing_event ts) \<or>
     (\<exists>hs m ds. es = hs @ EvMeta m # ds \<and> list_all opening_event hs \<and>
        running_shape (um_single_call_mode m) ds)"

lemma ending_exchange:
  assumes "exchange p rs es p'" "stage_of p = Ending"
  shows "list_all closing_event es \<and> stage_of p' = Ending"
  using assms
proof induction
  case (more r p e a p' rs es p'')
  from step_session [OF more.hyps(1)] more.prems
  have "session Ending e (stage_of p')" by simp
  then have "stage_of p' = Ending \<and> closing_event e"
    by (rule session_EndingE) (auto simp: closing_event_def)
  then show ?case using more.IH by simp
qed simp

lemma running_exchange:
  assumes "exchange p rs es p'" "stage_of p = Running single"
  shows "running_shape single es"
  using assms
proof induction
  case none
  then show ?case by (simp add: running_shape_def)
next
  case (more r p e a p' rs es p'')
  from step_session [OF more.hyps(1)] more.prems
  have "session (Running single) e (stage_of p')" by simp
  then consider "stage_of p' = Running single" "running_event single e"
    | "stage_of p' = Ending" "closing_event e"
    by (rule session_RunningE) (auto simp: running_event_def closing_event_def)
  then show ?case
  proof cases
    case 1
    then obtain ds ts where "es = ds @ ts" "list_all (running_event single) ds" "list_all closing_event ts"
      using more.IH by (auto simp: running_shape_def)
    then show ?thesis
      using 1 unfolding running_shape_def by (intro exI [of _ "e # ds"] exI [of _ ts]) simp
  next
    case 2
    then have "list_all closing_event (e # es)" using ending_exchange [OF more.hyps(2)] by simp
    then show ?thesis unfolding running_shape_def by (auto intro: exI [of _ "[]"])
  qed
qed

lemma opening_exchange:
  assumes "exchange p rs es p'" "stage_of p = Opening i"
  shows "session_shape es"
  using assms
proof (induction arbitrary: i)
  case none
  then show ?case by (simp add: session_shape_def)
next
  case (more r p e a p' rs es p'')
  from step_session [OF more.hyps(1)] more.prems
  have "session (Opening i) e (stage_of p')" by simp
  then consider j where "stage_of p' = Opening j" "opening_event e"
    | m info where "stage_of p' = Running (em_single_call_mode m)" "e = EvMeta (udf_meta_from_pb m info)"
    | "stage_of p' = Ending" "closing_event e"
    by (rule session_OpeningE)
      (auto simp: opening_event_def closing_event_def)
  then show ?case
  proof cases
    case 1
    have "session_shape es" by (rule more.IH [OF 1(1)])
    then consider hs ts where "es = hs @ ts" "list_all opening_event hs" "list_all closing_event ts"
      | hs m ds where "es = hs @ EvMeta m # ds" "list_all opening_event hs"
          "running_shape (um_single_call_mode m) ds"
      unfolding session_shape_def by blast
    then show ?thesis
      using 1(2) unfolding session_shape_def
      by cases (metis append_Cons list.pred_inject(2))+
  next
    case 2
    then show ?thesis
      using running_exchange [OF more.hyps(2)] unfolding session_shape_def
      by (intro disjI2) (fastforce intro: exI [of _ "[]"])
  next
    case 3
    then have "list_all closing_event (e # es)" using ending_exchange [OF more.hyps(2)] by simp
    then show ?thesis unfolding session_shape_def by (intro disjI1) (auto intro: exI [of _ "[]"])
  qed
qed

text \<open>The info an opening session holds after the given frames.\<close>

fun latest_info :: "exascript_info option \<Rightarrow> (exascript_response \<times> host_event) list \<Rightarrow>
    exascript_info option" where
  "latest_info i [] = i"
| "latest_info i ((r, e) # xs) = latest_info (if e = EvPending then rs_info r else i) xs"

lemma step_opening:
  assumes "step r p = (Ok (e, a), p')" "stage_of p = Opening i"
  shows "(\<forall>m. e = EvMeta m \<longrightarrow> (\<exists>mp info. rs_meta r = Some mp \<and> i = Some info \<and>
      m = udf_meta_from_pb mp info)) \<and>
    (opening_event e \<longrightarrow> stage_of p' = Opening (if e = EvPending then rs_info r else i))"
proof -
  have p: "pr_phase p = PHandshake" "pr_pending_info p = i"
    using assms(2) by (auto simp: stage_of_def split: phase.splits)
  let ?mt = "unwrap_or MtUnknown (message_type_try_from (rs_type r))"
  show ?thesis
    using assms(1) p unfolding step_def Let_def
    by (cases ?mt) (auto simp: step_defs Let_def stage_of_phase opening_event_def
        split: if_splits option.splits)
qed

lemma not_opening_stays:
  assumes "exchange p rs es p'" "\<forall>i. stage_of p \<noteq> Opening i"
  shows "EvMeta m \<notin> set es"
proof (cases "stage_of p")
  case (Running single)
  then have "running_shape single es" by (rule running_exchange [OF assms(1)])
  then show ?thesis
    by (fastforce simp: running_shape_def list_all_iff running_event_def closing_event_def)
next
  case Ending
  then show ?thesis
    using ending_exchange [OF assms(1)] by (fastforce simp: list_all_iff closing_event_def)
qed (use assms(2) in simp)

lemma exchange_meta:
  assumes "exchange p rs es p'" "stage_of p = Opening i" "k < length es" "es ! k = EvMeta m"
  shows "\<exists>mp info. rs_meta (rs ! k) = Some mp \<and> latest_info i (zip (take k rs) (take k es)) = Some info \<and>
    m = udf_meta_from_pb mp info"
  using assms
proof (induction arbitrary: i k)
  case (more r p e a p' rs es p'')
  show ?case
  proof (cases k)
    case 0
    then show ?thesis using step_opening [OF more.hyps(1) more.prems(1)] more.prems(3) by auto
  next
    case (Suc j)
    have m: "EvMeta m \<in> set es" using more.prems(2,3) nth_mem [of j es] Suc by simp
    then obtain i' where "stage_of p' = Opening i'" using not_opening_stays [OF more.hyps(2)] by blast
    moreover from this have "opening_event e"
      using step_session [OF more.hyps(1)] more.prems(1)
      by (auto elim: session_OpeningE simp: opening_event_def)
    ultimately show ?thesis
      using more.IH [of "if e = EvPending then rs_info r else i" j]
        step_opening [OF more.hyps(1) more.prems(1)] more.prems Suc by auto
  qed
qed simp

section \<open>Requests\<close>

lemma base_request_fields [simp]:
  "rq_type (base_request mt p) = mt_i32 mt" "rq_connection_id (base_request mt p) = pr_connection_id p"
  by (simp_all add: base_request_def)

lemmas request_defs = client_request_def meta_request_def run_request_def next_request_def
  done_request_def finished_reply_def close_request_def ping_reply_def return_request_def
  undefined_call_request_def import_connection_request_def

end
