(* ===== verification/Effects.thy ===== *)
theory Effects
  imports Prelude
begin

text \<open>
  Effectful code: a computation takes the state it may change and gives a \<open>Result\<close> and the
  state it leaves, or nothing when it never returns. Loops that wait for the database are
  partial functions into \<open>option\<close>, so that not returning is \<open>None\<close> and a theorem that a
  computation returns says so. \<open>io_bind\<close> is the sequencing of statements with the early
  return of \<open>?\<close>.
\<close>

type_synonym ('s, 'e, 'a) io = "'s \<Rightarrow> (('e, 'a) result \<times> 's) option"

named_theorems io_simps \<open>evaluation of the sequencing of computations\<close>

definition io_return :: "'a \<Rightarrow> ('s, 'e, 'a) io" where
  "io_return a s = Some (Ok a, s)"

definition io_fail :: "'e \<Rightarrow> ('s, 'e, 'a) io" where
  "io_fail e s = Some (Err e, s)"

definition io_bind :: "('s, 'e, 'a) io \<Rightarrow> ('a \<Rightarrow> ('s, 'e, 'b) io) \<Rightarrow> ('s, 'e, 'b) io" where
  "io_bind m k s = Option.bind (m s) (\<lambda>(r, s'). case r of
      Inl e \<Rightarrow> Some (Inl e, s') | Inr a \<Rightarrow> k a s')"

definition io_map_err :: "('e \<Rightarrow> 'f) \<Rightarrow> ('s, 'e, 'a) io \<Rightarrow> ('s, 'f, 'a) io" where
  "io_map_err f m s = map_option (\<lambda>(r, s'). (map_err f r, s')) (m s)"

definition io_lift :: "('e, 'a) result \<Rightarrow> ('s, 'e, 'a) io" where
  "io_lift r s = Some (r, s)"

text \<open>The whole result, error included, as a value: what \<open>match f() { .. }\<close> inspects.\<close>

definition io_try :: "('s, 'e, 'a) io \<Rightarrow> ('s, 'f, ('e, 'a) result) io" where
  "io_try m s = map_option (\<lambda>(r, s'). (Ok r, s')) (m s)"

lemma io_unit_simps [simp, io_simps]:
  "io_return a s = Some (Ok a, s)" "io_fail e s = Some (Err e, s)" "io_lift r s = Some (r, s)"
  by (simp_all add: io_return_def io_fail_def io_lift_def)

lemma io_bind_cases [io_simps]:
  "m s = None \<Longrightarrow> io_bind m k s = None"
  "m s = Some (Inl e, s') \<Longrightarrow> io_bind m k s = Some (Inl e, s')"
  "m s = Some (Inr a, s') \<Longrightarrow> io_bind m k s = k a s'"
  by (simp_all add: io_bind_def)

lemma io_map_err_cases [io_simps]:
  "m s = None \<Longrightarrow> io_map_err f m s = None"
  "m s = Some (Inl e, s') \<Longrightarrow> io_map_err f m s = Some (Inl (f e), s')"
  "m s = Some (Inr a, s') \<Longrightarrow> io_map_err f m s = Some (Inr a, s')"
  by (simp_all add: io_map_err_def)

lemma io_bind_Ok:
  "io_bind m k s = Some (Inr b, s') \<longleftrightarrow> (\<exists>a t. m s = Some (Inr a, t) \<and> k a t = Some (Inr b, s'))"
  by (cases "m s"; cases "fst (the (m s))") (auto simp: io_bind_def split: prod.splits)

lemma io_bind_Err:
  "io_bind m k s = Some (Inl e, s') \<longleftrightarrow> m s = Some (Inl e, s') \<or>
     (\<exists>a t. m s = Some (Inr a, t) \<and> k a t = Some (Inl e, s'))"
  by (cases "m s"; cases "fst (the (m s))") (auto simp: io_bind_def split: prod.splits)

lemma io_bind_None:
  "io_bind m k s = None \<longleftrightarrow> m s = None \<or> (\<exists>a t. m s = Some (Inr a, t) \<and> k a t = None)"
  by (cases "m s"; cases "fst (the (m s))") (auto simp: io_bind_def split: prod.splits)

lemma io_map_err_Ok: "io_map_err f m s = Some (Inr a, s') \<longleftrightarrow> m s = Some (Inr a, s')"
  by (cases "m s"; cases "fst (the (m s))") (auto simp: io_map_err_def split: prod.splits)

lemma io_map_err_Err:
  "io_map_err f m s = Some (Inl e, s') \<longleftrightarrow> (\<exists>e'. m s = Some (Inl e', s') \<and> e = f e')"
  by (cases "m s"; cases "fst (the (m s))") (auto simp: io_map_err_def split: prod.splits)

lemma io_map_err_None: "io_map_err f m s = None \<longleftrightarrow> m s = None"
  by (simp add: io_map_err_def)

lemma io_bind_mono [partial_function_mono]:
  assumes B: "\<And>s. mono_option (\<lambda>f. B f s)" and C: "\<And>a s. mono_option (\<lambda>f. C f a s)"
  shows "mono_option (\<lambda>f. io_bind (B f) (C f) s)"
  unfolding io_bind_def
proof (rule Partial_Function.bind_mono [OF B])
  fix y
  show "mono_option (\<lambda>f. case y of (r, s') \<Rightarrow> case r of Inl e \<Rightarrow> Some (Inl e, s') | Inr a \<Rightarrow> C f a s')"
  proof (cases y)
    case (Pair r s')
    then show ?thesis by (cases r) (simp_all add: C option.const_mono)
  qed
qed

lemma io_map_err_bind:
  "io_map_err g m s = Option.bind (m s) (\<lambda>y. Some (map_err g (fst y), snd y))"
  by (cases "m s") (auto simp: io_map_err_def)

lemma io_map_err_mono [partial_function_mono]:
  assumes "\<And>s. mono_option (\<lambda>f. B f s)"
  shows "mono_option (\<lambda>f. io_map_err g (B f) s)"
  unfolding io_map_err_bind by (rule Partial_Function.bind_mono [OF assms option.const_mono])

end
