(* ===== verification/Transport.thy ===== *)
theory Transport
  imports Protocol Effects
begin

text \<open>
  The REQ transport of \<open>exa-zmq-protocol/src/transport.rs\<close>. The socket and the clock are
  foreign: what the code calls on them are the fields of the record \<open>zmq\<close>, functions on the
  state \<open>'w\<close> of the outside world. The theory shows that every blocking call ends after at
  most 120 polls, whatever the peer does, that a frame is queued exactly once however often it
  is retried, and that the socket's own alternation of sends and receives is all that is used.
\<close>

section \<open>The socket\<close>

record 'w zmq =
  zmq_socket :: "'w \<Rightarrow> (zmq_error, unit) result \<times> 'w"
  zmq_set_linger :: "int \<Rightarrow> 'w \<Rightarrow> (zmq_error, unit) result \<times> 'w"
  zmq_set_rcvtimeo :: "int \<Rightarrow> 'w \<Rightarrow> (zmq_error, unit) result \<times> 'w"
  zmq_set_sndtimeo :: "int \<Rightarrow> 'w \<Rightarrow> (zmq_error, unit) result \<times> 'w"
  zmq_connect :: "string \<Rightarrow> 'w \<Rightarrow> (zmq_error, unit) result \<times> 'w"
  zmq_send :: "bytes \<Rightarrow> 'w \<Rightarrow> (zmq_error, unit) result \<times> 'w"
  zmq_recv :: "'w \<Rightarrow> (zmq_error, bytes) result \<times> 'w"
  instant_now :: "'w \<Rightarrow> nat \<times> 'w" \<comment> \<open>nanoseconds of the monotonic clock\<close>
  show_duration :: "nat \<Rightarrow> string" \<comment> \<open>the derived \<open>Debug\<close> text of a duration\<close>

definition POLL_INTERVAL_MS :: int where
  "POLL_INTERVAL_MS = 1000"

definition MAX_TOTAL_WAIT :: nat where
  "MAX_TOTAL_WAIT = 120 * 1000000000"

definition is_transient_timeout :: "zmq_error \<Rightarrow> bool" where
  "is_transient_timeout err = (case err of EAGAIN \<Rightarrow> True | _ \<Rightarrow> False)"

text \<open>A socket call as a computation, its error converted by \<open>?\<close>.\<close>

definition zmq_call :: "('w \<Rightarrow> (zmq_error, 'a) result \<times> 'w) \<Rightarrow> ('w, protocol_error, 'a) io" where
  "zmq_call op w = (let (r, w) = op w in Some (map_err ZmqErr r, w))"

definition transport_connect :: "'w zmq \<Rightarrow> string \<Rightarrow> ('w, protocol_error, unit) io" where
  "transport_connect Z endpoint =
     io_bind (zmq_call (zmq_socket Z)) (\<lambda>_.
     io_bind (zmq_call (zmq_set_linger Z 0)) (\<lambda>_.
     io_bind (zmq_call (zmq_set_rcvtimeo Z POLL_INTERVAL_MS)) (\<lambda>_.
     io_bind (zmq_call (zmq_set_sndtimeo Z POLL_INTERVAL_MS)) (\<lambda>_.
     zmq_call (zmq_connect Z endpoint)))))"

definition timed_out :: "'w zmq \<Rightarrow> string \<Rightarrow> nat \<Rightarrow> protocol_error" where
  "timed_out Z what elapsed = ProtocolErr (what @ '' timed out after '' @ show_duration Z elapsed @
     '' of polling a non-responsive database (poll interval '' @ show_int POLL_INTERVAL_MS @ '' ms)'')"

partial_function (option) retry_loop :: "'w zmq \<Rightarrow> ('w \<Rightarrow> (zmq_error, 'a) result \<times> 'w) \<Rightarrow> string \<Rightarrow>
    nat \<Rightarrow> 'w \<Rightarrow> ((protocol_error, 'a) result \<times> 'w) option" where
  "retry_loop Z op what start w =
     (case op w of
        (Inr value, w) \<Rightarrow> Some (Ok value, w)
      | (Inl err, w) \<Rightarrow>
          if is_transient_timeout err then
            (case instant_now Z w of (now, w) \<Rightarrow>
               let elapsed = now - start in
               if MAX_TOTAL_WAIT \<le> elapsed then Some (Err (timed_out Z what elapsed), w)
               else retry_loop Z op what start w)
          else Some (Err (ZmqErr err), w))"

definition retry_transient :: "'w zmq \<Rightarrow> ('w \<Rightarrow> (zmq_error, 'a) result \<times> 'w) \<Rightarrow> string \<Rightarrow>
    ('w, protocol_error, 'a) io" where
  "retry_transient Z op what w = (case instant_now Z w of (start, w) \<Rightarrow> retry_loop Z op what start w)"

definition transport_send :: "prost \<Rightarrow> 'w zmq \<Rightarrow> frame \<Rightarrow> ('w, protocol_error, unit) io" where
  "transport_send P Z req = retry_transient Z (\<lambda>w. zmq_send Z (encode_frame P req) w) ''send''"

definition transport_recv :: "prost \<Rightarrow> 'w zmq \<Rightarrow> ('w, protocol_error, exascript_response) io" where
  "transport_recv P Z =
     io_bind (retry_transient Z (zmq_recv Z) ''recv'') (\<lambda>bs.
       io_lift (map_err DecodeErr (decode_response P bs)))"

section \<open>Polling ends\<close>

text \<open>
  The documented behaviour of the poll timeouts and of the monotonic clock: a call that
  returns \<open>EAGAIN\<close> has waited for the poll interval, and the clock never runs backwards.
\<close>

locale timed_socket =
  fixes Z :: "'w zmq" and clock :: "'w \<Rightarrow> nat"
  assumes now: "instant_now Z w = (t, w') \<Longrightarrow> clock w \<le> t \<and> t \<le> clock w'"
    and send_waits: "zmq_send Z b w = (Err EAGAIN, w') \<Longrightarrow> clock w + 1000000000 \<le> clock w'"
    and recv_waits: "zmq_recv Z w = (Err EAGAIN, w') \<Longrightarrow> clock w + 1000000000 \<le> clock w'"
begin

text \<open>An operation that waits for the poll interval before it reports \<open>EAGAIN\<close>.\<close>

definition polls :: "('w \<Rightarrow> (zmq_error, 'a) result \<times> 'w) \<Rightarrow> bool" where
  "polls op \<longleftrightarrow> (\<forall>w w'. op w = (Err EAGAIN, w') \<longrightarrow> clock w + 1000000000 \<le> clock w')"

lemma polls_send: "polls (zmq_send Z b)" and polls_recv: "polls (zmq_recv Z)"
  using send_waits recv_waits by (simp_all add: polls_def)

end

text \<open>The same loop with a bound on its polls.\<close>

fun retry_polls :: "nat \<Rightarrow> 'w zmq \<Rightarrow> ('w \<Rightarrow> (zmq_error, 'a) result \<times> 'w) \<Rightarrow> string \<Rightarrow> nat \<Rightarrow>
    'w \<Rightarrow> ((protocol_error, 'a) result \<times> 'w) option" where
  "retry_polls 0 Z op what start w = None"
| "retry_polls (Suc n) Z op what start w =
     (case op w of
        (Inr value, w) \<Rightarrow> Some (Ok value, w)
      | (Inl err, w) \<Rightarrow>
          if is_transient_timeout err then
            (case instant_now Z w of (now, w) \<Rightarrow>
               let elapsed = now - start in
               if MAX_TOTAL_WAIT \<le> elapsed then Some (Err (timed_out Z what elapsed), w)
               else retry_polls n Z op what start w)
          else Some (Err (ZmqErr err), w))"

declare retry_polls.simps [simp del]

lemma is_transient_timeout_iff [simp]: "is_transient_timeout e \<longleftrightarrow> e = EAGAIN"
  by (cases e) (simp_all add: is_transient_timeout_def)

context timed_socket
begin

lemma retry_loop_polls:
  assumes "polls op" "start + (120 - n) * 1000000000 \<le> clock w" "0 < n" "n \<le> 120"
  shows "retry_loop Z op what start w = retry_polls n Z op what start w \<and>
    retry_polls n Z op what start w \<noteq> None"
  using assms(2-4)
proof (induction n arbitrary: w)
  case (Suc n)
  show ?case
  proof (cases "op w")
    case (Pair r w1)
    show ?thesis
    proof (cases "r = Inl EAGAIN")
      case True
      obtain t w2 where t: "instant_now Z w1 = (t, w2)" by (cases "instant_now Z w1")
      have "clock w + 1000000000 \<le> clock w1" using assms(1) Pair True by (auto simp: polls_def)
      then have late: "start + (120 - n) * 1000000000 \<le> clock w1" using Suc.prems by simp
      then have after: "start + (120 - n) * 1000000000 \<le> t" "start + (120 - n) * 1000000000 \<le> clock w2"
        using now [OF t] by simp_all
      show ?thesis
      proof (cases "MAX_TOTAL_WAIT \<le> t - start")
        case stop: True
        then show ?thesis
          using Pair True t by (simp add: retry_loop.simps retry_polls.simps)
      next
        case False
        then have "0 < n" using after(1) by (cases n) (simp_all add: MAX_TOTAL_WAIT_def)
        then show ?thesis
          using Suc.IH [OF after(2)] Suc.prems False Pair True t
          by (simp add: retry_loop.simps [of Z op what start w] retry_polls.simps)
      qed
    next
      case False
      then show ?thesis
        using Pair by (cases r) (auto simp: retry_loop.simps [of Z op what start w] retry_polls.simps)
    qed
  qed
qed simp

lemma retry_transient_returns:
  assumes "polls op"
  shows "\<exists>y. retry_transient Z op what w = Some y"
proof -
  obtain t w1 where t: "instant_now Z w = (t, w1)" by (cases "instant_now Z w")
  have "t \<le> clock w1" using now [OF t] by simp
  then have "retry_loop Z op what t w1 \<noteq> None"
    using retry_loop_polls [OF assms, of t 120 w1] by simp
  then show ?thesis using t by (auto simp: retry_transient_def)
qed

lemma transport_send_returns: "\<exists>y. transport_send P Z fr w = Some y"
  unfolding transport_send_def by (rule retry_transient_returns [OF polls_send])

lemma transport_recv_returns: "\<exists>y. transport_recv P Z w = Some y"
proof -
  obtain r w' where "retry_transient Z (zmq_recv Z) ''recv'' w = Some (r, w')"
    using retry_transient_returns [OF polls_recv] by fastforce
  then show ?thesis
    unfolding transport_recv_def by (cases r) (auto simp: io_bind_cases)
qed

end

section \<open>Retries and the outcome\<close>

text \<open>What every attempt keeps, the loop keeps; what a success establishes, it establishes.\<close>

lemma retry_loop_outcome:
  assumes "retry_loop Z op what start w = Some (r, w')"
    and now: "\<And>w t w'. Q w \<Longrightarrow> instant_now Z w = (t, w') \<Longrightarrow> Q w'"
    and err: "\<And>w e w'. Q w \<Longrightarrow> op w = (Err e, w') \<Longrightarrow> Q w'"
    and ok: "\<And>w v w'. Q w \<Longrightarrow> op w = (Ok v, w') \<Longrightarrow> R v w'"
    and "Q w"
  shows "(\<forall>v. r = Ok v \<longrightarrow> R v w') \<and> (\<forall>e. r = Err e \<longrightarrow> Q w')"
proof -
  have "Z' = Z \<longrightarrow> op' = op \<longrightarrow> Q w \<longrightarrow>
      (\<forall>v. fst y = Ok v \<longrightarrow> R v (snd y)) \<and> (\<forall>e. fst y = Err e \<longrightarrow> Q (snd y))"
    if "retry_loop Z' op' what' start' w = Some y" for Z' op' what' start' w y
    using that
  proof (induction rule: retry_loop.raw_induct [rotated, consumes 1, case_names attempt])
    case (attempt loop Z' op' what' start' w y)
    obtain r1 w1 where op: "op' w = (r1, w1)" by (cases "op' w")
    obtain t w2 where t: "instant_now Z' w1 = (t, w2)" by (cases "instant_now Z' w1")
    show ?case
      using attempt.IH [of Z' op' what' start' w2 y] attempt.hyps op t err [of w _ w1] ok [of w _ w1] now [of w1 t w2]
      by (cases r1) (auto simp: Let_def split: if_splits)
  qed
  then show ?thesis using assms(1,5) by fastforce
qed

lemma retry_transient_outcome:
  assumes "retry_transient Z op what w = Some (r, w')"
    and now: "\<And>w t w'. Q w \<Longrightarrow> instant_now Z w = (t, w') \<Longrightarrow> Q w'"
    and err: "\<And>w e w'. Q w \<Longrightarrow> op w = (Err e, w') \<Longrightarrow> Q w'"
    and ok: "\<And>w v w'. Q w \<Longrightarrow> op w = (Ok v, w') \<Longrightarrow> R v w'"
    and "Q w"
  shows "(\<forall>v. r = Ok v \<longrightarrow> R v w') \<and> (\<forall>e. r = Err e \<longrightarrow> Q w')"
proof -
  obtain t w1 where t: "instant_now Z w = (t, w1)" by (cases "instant_now Z w")
  show ?thesis
    by (rule retry_loop_outcome [where Q = Q and R = R and w = w1, OF _ now err ok now [OF assms(5) t]])
      (use assms(1) t in \<open>simp_all add: retry_transient_def\<close>)
qed

section \<open>The alternation of a REQ socket\<close>

text \<open>
  The documented contract of a REQ socket, over what the peer has been sent and has answered:
  a send is accepted only when every earlier one was answered, and queues the frame once; a
  receive returns only while an answer is awaited; a call that fails changes neither.
\<close>

locale req_socket =
  fixes Z :: "'w zmq" and sent received :: "'w \<Rightarrow> bytes list"
  assumes now_keeps: "instant_now Z w = (t, w') \<Longrightarrow> sent w' = sent w \<and> received w' = received w"
    and send_Ok: "zmq_send Z b w = (Ok u, w') \<Longrightarrow>
      length (sent w) = length (received w) \<and> sent w' = sent w @ [b] \<and> received w' = received w"
    and send_Err: "zmq_send Z b w = (Err e, w') \<Longrightarrow> sent w' = sent w \<and> received w' = received w"
    and recv_Ok: "zmq_recv Z w = (Ok b, w') \<Longrightarrow>
      length (sent w) = Suc (length (received w)) \<and> sent w' = sent w \<and> received w' = received w @ [b]"
    and recv_Err: "zmq_recv Z w = (Err e, w') \<Longrightarrow> sent w' = sent w \<and> received w' = received w"
begin

definition idle :: "'w \<Rightarrow> bool" where
  "idle w \<longleftrightarrow> length (sent w) = length (received w)"

lemma transport_send_once:
  assumes "transport_send P Z fr w = Some (r, w')"
  shows "(\<forall>u. r = Ok u \<longrightarrow> idle w \<and> sent w' = sent w @ [encode_frame P fr] \<and> received w' = received w) \<and>
    (\<forall>e. r = Err e \<longrightarrow> sent w' = sent w \<and> received w' = received w)"
  by (rule retry_transient_outcome [where Q = "\<lambda>v. sent v = sent w \<and> received v = received w"
        and R = "\<lambda>_ v. idle w \<and> sent v = sent w @ [encode_frame P fr] \<and> received v = received w",
        OF assms [unfolded transport_send_def]])
    (auto simp: idle_def dest: now_keeps send_Err send_Ok)

lemma transport_recv_once:
  assumes "transport_recv P Z w = Some (r, w')"
  shows "(\<forall>resp. r = Ok resp \<longrightarrow> idle w' \<and> (\<exists>b. decode_response P b = Ok resp \<and>
      sent w' = sent w \<and> received w' = received w @ [b])) \<and>
    (\<forall>e. r = Err e \<longrightarrow> sent w' = sent w \<and> (received w' = received w \<or>
      (idle w' \<and> (\<exists>b. received w' = received w @ [b]))))"
proof -
  obtain q w1 where q: "retry_transient Z (zmq_recv Z) ''recv'' w = Some (q, w1)"
    using assms by (auto simp: transport_recv_def io_bind_def bind_eq_Some_conv)
  have "(\<forall>b. q = Ok b \<longrightarrow> idle w1 \<and> sent w1 = sent w \<and> received w1 = received w @ [b]) \<and>
      (\<forall>e. q = Err e \<longrightarrow> sent w1 = sent w \<and> received w1 = received w)"
    by (rule retry_transient_outcome [where Q = "\<lambda>v. sent v = sent w \<and> received v = received w"
        and R = "\<lambda>b v. idle v \<and> sent v = sent w \<and> received v = received w @ [b]", OF q])
      (auto simp: idle_def dest: now_keeps recv_Err recv_Ok)
  then show ?thesis
    using assms q by (cases q) (auto simp: transport_recv_def io_bind_cases map_err_def split: sum.splits)
qed

end

section \<open>A scripted database\<close>

text \<open>
  A socket whose peer answers with a fixed list of frames and is then silent: an instance of
  both contracts, in which sessions are evaluated.
\<close>

record db =
  db_clock :: nat
  db_sent :: "bytes list"
  db_received :: "bytes list"
  db_replies :: "bytes list"

definition EFSM :: zmq_error where
  "EFSM = OtherZmq ''Operation cannot be accomplished in current state''"

definition db_send :: "bytes \<Rightarrow> db \<Rightarrow> (zmq_error, unit) result \<times> db" where
  "db_send b w = (if length (db_sent w) = length (db_received w)
     then (Ok (), w\<lparr>db_sent := db_sent w @ [b]\<rparr>) else (Err EFSM, w))"

definition db_recv :: "db \<Rightarrow> (zmq_error, bytes) result \<times> db" where
  "db_recv w = (if length (db_sent w) \<noteq> Suc (length (db_received w)) then (Err EFSM, w)
     else case db_replies w of
       [] \<Rightarrow> (Err EAGAIN, w\<lparr>db_clock := db_clock w + 1000000000\<rparr>)
     | b # bs \<Rightarrow> (Ok b, w\<lparr>db_received := db_received w @ [b], db_replies := bs\<rparr>))"

definition scripted :: "db zmq" where
  "scripted = \<lparr>zmq_socket = Pair (Ok ()), zmq_set_linger = (\<lambda>_. Pair (Ok ())),
     zmq_set_rcvtimeo = (\<lambda>_. Pair (Ok ())), zmq_set_sndtimeo = (\<lambda>_. Pair (Ok ())),
     zmq_connect = (\<lambda>_. Pair (Ok ())), zmq_send = db_send, zmq_recv = db_recv,
     instant_now = (\<lambda>w. (db_clock w, w)), show_duration = show_nat\<rparr>"

interpretation scripted: timed_socket scripted db_clock
  by unfold_locales
    (auto simp: scripted_def db_send_def db_recv_def EFSM_def split: if_splits list.splits)

interpretation scripted: req_socket scripted db_sent db_received
  by unfold_locales
    (auto simp: scripted_def db_send_def db_recv_def EFSM_def split: if_splits list.splits)

end
