(* ===== verification/Wire.thy ===== *)
theory Wire
  imports Transport
begin

text \<open>
  The exchange of \<open>exa-udf-runtime/src/wire.rs\<close> and the runtime's error type (\<open>error.rs\<close>): one
  request, its answer, and the pings in between. The theory shows that an exchange keeps the
  REQ alternation and returns as soon as the database stops pinging.
\<close>

section \<open>Runtime errors\<close>

datatype runtime_error =
    LoaderErr string
  | AbiMismatch nat nat
  | FingerprintMismatch string string
  | OutputShapeMismatch string string
  | Unsupported string
  | ProtocolError protocol_error
  | UdfErr string
  | Unexplained string
  | IoErr string

definition show_runtime_error :: "runtime_error \<Rightarrow> string" where
  "show_runtime_error e = (case e of
      LoaderErr m \<Rightarrow> ''Loader error: '' @ m
    | AbiMismatch ex fo \<Rightarrow>
        ''ABI version mismatch: expected '' @ show_nat ex @ '', found '' @ show_nat fo
    | FingerprintMismatch ex fo \<Rightarrow> ''Fingerprint mismatch: expected '' @ ex @ '', found '' @ fo
    | OutputShapeMismatch co re \<Rightarrow>
        ''Output shape mismatch: UDF compiled as '' @ co @ '' but registered as '' @ re
    | Unsupported m \<Rightarrow> ''Unsupported feature: '' @ m
    | ProtocolError p \<Rightarrow> show_protocol_error p
    | UdfErr m \<Rightarrow> ''UDF error: '' @ m
    | Unexplained m \<Rightarrow> ''UDF error: '' @ m
    | IoErr m \<Rightarrow> ''IO error: '' @ m)"

definition with_recorded_detail :: "string option \<Rightarrow> runtime_error \<Rightarrow> runtime_error" where
  "with_recorded_detail detail self = (case (self, detail) of
      (Unexplained text, Some detail) \<Rightarrow> UdfErr (text @ '': '' @ detail)
    | (error, _) \<Rightarrow> error)"

section \<open>Exchanges\<close>

text \<open>The state of the channel: the outside world and the protocol machine.\<close>

record 'w wire =
  wi_world :: 'w
  wi_proto :: protocol

definition on_world :: "('w, protocol_error, 'a) io \<Rightarrow> (('w, 'z) wire_scheme, runtime_error, 'a) io" where
  "on_world m s = map_option (\<lambda>(r, w). (map_err ProtocolError r, s\<lparr>wi_world := w\<rparr>)) (m (wi_world s))"

definition wire_send :: "prost \<Rightarrow> 'w zmq \<Rightarrow> frame \<Rightarrow> (('w, 'z) wire_scheme, runtime_error, unit) io" where
  "wire_send P Z req = on_world (transport_send P Z req)"

definition wire_recv :: "prost \<Rightarrow> 'w zmq \<Rightarrow> (('w, 'z) wire_scheme, runtime_error, exascript_response) io" where
  "wire_recv P Z = on_world (transport_recv P Z)"

definition wire_step :: "exascript_response \<Rightarrow>
    (('w, 'z) wire_scheme, runtime_error, host_event \<times> host_action option) io" where
  "wire_step resp s = (let (r, p) = step resp (wi_proto s)
     in Some (map_err ProtocolError r, s\<lparr>wi_proto := p\<rparr>))"

definition send_ping_reply :: "prost \<Rightarrow> 'w zmq \<Rightarrow> string \<Rightarrow> (('w, 'z) wire_scheme, runtime_error, unit) io" where
  "send_ping_reply P Z m s = wire_send P Z (Request (ping_reply m (wi_proto s))) s"

partial_function (option) request_loop :: "prost \<Rightarrow> 'w zmq \<Rightarrow> ('w, 'z) wire_scheme \<Rightarrow>
    ((runtime_error, host_event) result \<times> ('w, 'z) wire_scheme) option" where
  "request_loop Pb Z s =
     io_bind (wire_recv Pb Z) (\<lambda>resp.
     io_bind (wire_step resp) (\<lambda>(event, action).
       case action of
         Some (PingReply m) \<Rightarrow> io_bind (send_ping_reply Pb Z m) (\<lambda>_ s. request_loop Pb Z s)
       | _ \<Rightarrow> io_return event)) s"

definition request :: "prost \<Rightarrow> 'w zmq \<Rightarrow> frame \<Rightarrow> (('w, 'z) wire_scheme, runtime_error, host_event) io" where
  "request P Z req = io_bind (wire_send P Z req) (\<lambda>_. request_loop P Z)"

definition close_error :: "string option \<Rightarrow> (runtime_error, unit) result" where
  "close_error msg = Err (UdfErr (unwrap_or ''connection closed by database'' msg))"

definition conn_requester :: "prost \<Rightarrow> 'w zmq \<Rightarrow> string \<Rightarrow>
    (('w, 'z) wire_scheme, udf_error, conn_info) io" where
  "conn_requester P Z conn_name =
     (let failed = (\<lambda>reason. Connection (''CONNECTION '' @ conn_name @ '': '' @ reason))
      in io_bind (io_map_err (\<lambda>e. failed (show_runtime_error e))
             (\<lambda>s. request P Z (Request (import_connection_request conn_name (wi_proto s))) s))
           (\<lambda>event. io_lift (case event of
              EvConnInfo ci \<Rightarrow> if ci_kind ci = [] then Err (failed ''refused without a reason'') else Ok ci
            | EvImportRefused reason \<Rightarrow> Err (Connection reason)
            | EvClose msg \<Rightarrow> Err (failed (unwrap_or ''connection closed by database'' msg))
            | _ \<Rightarrow> Err (failed ''MT_IMPORT reply was not ConnInfo''))))"

section \<open>Exchanges keep the alternation\<close>

lemma on_world_cases:
  "on_world m s = None \<longleftrightarrow> m (wi_world s) = None"
  "on_world m s = Some (Inr a, s') \<longleftrightarrow> (\<exists>w. m (wi_world s) = Some (Inr a, w) \<and> s' = s\<lparr>wi_world := w\<rparr>)"
  "on_world m s = Some (Inl e, s') \<longleftrightarrow> (\<exists>d w. m (wi_world s) = Some (Inl d, w) \<and> e = ProtocolError d \<and>
     s' = s\<lparr>wi_world := w\<rparr>)"
  by (cases "m (wi_world s)"; cases "fst (the (m (wi_world s)))"; auto simp: on_world_def)+

lemma wire_step_cases:
  "wire_step resp s = Some (Inr x, s') \<longleftrightarrow> (\<exists>p. step resp (wi_proto s) = (Inr x, p) \<and> s' = s\<lparr>wi_proto := p\<rparr>)"
  "wire_step resp s = Some (Inl e, s') \<longleftrightarrow> (\<exists>d p. step resp (wi_proto s) = (Inl d, p) \<and> e = ProtocolError d \<and>
     s' = s\<lparr>wi_proto := p\<rparr>)"
  "wire_step resp s \<noteq> None"
  by (cases "step resp (wi_proto s)"; cases "fst (step resp (wi_proto s))"; auto simp: wire_step_def)+

lemma step_ping:
  assumes "step resp p = (Ok (e, a), p')"
  shows "e = EvPing m \<longleftrightarrow> a = Some (PingReply m)"
  using assms unfolding step_def Let_def
  by (cases "unwrap_or MtUnknown (message_type_try_from (rs_type resp))")
    (auto simp: step_defs Let_def split: if_splits option.splits)

text \<open>One turn of the loop: an answer that is not a ping ends it.\<close>

definition request_body :: "prost \<Rightarrow> 'w zmq \<Rightarrow>
    (('w, 'z) wire_scheme, runtime_error, host_event) io \<Rightarrow> (('w, 'z) wire_scheme, runtime_error, host_event) io" where
  "request_body P Z loop =
     io_bind (wire_recv P Z) (\<lambda>resp.
     io_bind (wire_step resp) (\<lambda>(event, action).
       case action of
         Some (PingReply m) \<Rightarrow> io_bind (send_ping_reply P Z m) (\<lambda>_. loop)
       | _ \<Rightarrow> io_return event))"

lemma request_body_Ok:
  assumes "request_body P Z loop s = Some (Ok ev, s')"
  obtains (answer) resp a s1 where "wire_recv P Z s = Some (Ok resp, s1)"
      "wire_step resp s1 = Some (Ok (ev, a), s')" "\<And>m. ev \<noteq> EvPing m"
    | (ping) resp m s1 s2 s3 where "wire_recv P Z s = Some (Ok resp, s1)"
      "wire_step resp s1 = Some (Ok (EvPing m, Some (PingReply m)), s2)"
      "send_ping_reply P Z m s2 = Some (Ok (), s3)" "loop s3 = Some (Ok ev, s')"
proof -
  obtain resp s1 e a s2 where recv: "wire_recv P Z s = Some (Ok resp, s1)"
    and st: "wire_step resp s1 = Some (Ok (e, a), s2)"
    and rest: "(case a of Some (PingReply m) \<Rightarrow> io_bind (send_ping_reply P Z m) (\<lambda>_. loop)
       | _ \<Rightarrow> io_return e) s2 = Some (Ok ev, s')"
    using assms by (auto simp: request_body_def io_bind_Ok)
  obtain p where p: "step resp (wi_proto s1) = (Ok (e, a), p)" using st by (auto simp: wire_step_cases)
  show thesis
  proof (cases "\<exists>m. a = Some (PingReply m)")
    case True
    then obtain m where "a = Some (PingReply m)" "e = EvPing m" using step_ping [OF p] by auto
    then show thesis using ping recv st rest by (auto simp: io_bind_Ok)
  next
    case False
    then have "\<And>m. e \<noteq> EvPing m" using step_ping [OF p] by auto
    moreover from False rest have "e = ev" "s2 = s'" by (auto split: option.splits host_action.splits)
    ultimately show thesis using answer recv st by blast
  qed
qed

text \<open>What one turn keeps, the loop keeps.\<close>

lemma request_loop_induct [consumes 1, case_names turn]:
  assumes "request_loop P Z s = Some (Ok ev, s')"
    and turn: "\<And>loop s ev s'. (\<And>s ev s'. loop s = Some (Ok ev, s') \<Longrightarrow> I s ev s') \<Longrightarrow>
      request_body P Z loop s = Some (Ok ev, s') \<Longrightarrow> I s ev s'"
  shows "I s ev s'"
proof -
  have "P' = P \<longrightarrow> Z' = Z \<longrightarrow> (\<forall>ev s'. y = (Ok ev, s') \<longrightarrow> I s ev s')"
    if "request_loop P' Z' s = Some y" for P' Z' s y
    using that
  proof (induction rule: request_loop.raw_induct [rotated, consumes 1, case_names attempt])
    case (attempt loop P' Z' s y)
    then show ?case
      using turn [of "loop P Z" s] by (auto simp: request_body_def)
  qed
  then show ?thesis using assms(1) by blast
qed

context req_socket
begin

abbreviation sent_on :: "('w, 'z) wire_scheme \<Rightarrow> bytes list" where
  "sent_on s \<equiv> sent (wi_world s)"

abbreviation received_on :: "('w, 'z) wire_scheme \<Rightarrow> bytes list" where
  "received_on s \<equiv> received (wi_world s)"

text \<open>An exchange: frames sent, of which all but the first answer pings, and their replies.\<close>

definition exchanged :: "prost \<Rightarrow> bytes list \<Rightarrow> ('w, 'z) wire_scheme \<Rightarrow> ('w, 'z) wire_scheme \<Rightarrow> bool" where
  "exchanged P frames s s' \<longleftrightarrow> idle (wi_world s') \<and>
     (\<exists>pongs replies. sent_on s' = sent_on s @ frames @ pongs \<and> received_on s' = received_on s @ replies \<and>
        (\<forall>b \<in> set pongs. \<exists>m p. b = encode_frame P (Request (ping_reply m p))))"

lemma wire_send_Ok:
  assumes "wire_send P Z fr s = Some (Ok u, s')"
  shows "idle (wi_world s) \<and> sent_on s' = sent_on s @ [encode_frame P fr] \<and> received_on s' = received_on s"
  using assms transport_send_once [of P fr "wi_world s"] by (auto simp: wire_send_def on_world_cases)

lemma wire_recv_Ok:
  assumes "wire_recv P Z s = Some (Ok resp, s')"
  shows "idle (wi_world s') \<and> sent_on s' = sent_on s \<and> (\<exists>b. received_on s' = received_on s @ [b])"
  using assms transport_recv_once [of P "wi_world s"] by (auto simp: wire_recv_def on_world_cases)

lemma request_loop_exchanged:
  assumes "request_loop P Z s = Some (Ok ev, s')"
  shows "exchanged P [] s s' \<and> (\<forall>m. ev \<noteq> EvPing m)"
  using assms
proof (induction rule: request_loop_induct)
  case (turn loop s ev s')
  from turn(2) show ?case
  proof (cases rule: request_body_Ok)
    case (answer resp a s1)
    then show ?thesis
      using wire_recv_Ok [OF answer(1)] by (auto simp: exchanged_def wire_step_cases)
  next
    case (ping resp m s1 s2 s3)
    have "exchanged P [] s3 s'" "\<forall>m. ev \<noteq> EvPing m" using turn(1) [OF ping(4)] by simp_all
    moreover have "sent_on s3 = sent_on s @ [encode_frame P (Request (ping_reply m (wi_proto s2)))]"
      "\<exists>b. received_on s3 = received_on s @ [b]"
      using wire_recv_Ok [OF ping(1)] ping(2) wire_send_Ok [OF ping(3) [unfolded send_ping_reply_def]]
      by (auto simp: wire_step_cases)
    ultimately show ?thesis unfolding exchanged_def by fastforce
  qed
qed

lemma request_exchanged:
  assumes "request P Z fr s = Some (Ok ev, s')"
  shows "idle (wi_world s) \<and> exchanged P [encode_frame P fr] s s' \<and> (\<forall>m. ev \<noteq> EvPing m)"
proof -
  obtain s1 where "wire_send P Z fr s = Some (Ok (), s1)" "request_loop P Z s1 = Some (Ok ev, s')"
    using assms by (auto simp: request_def io_bind_Ok)
  then show ?thesis
    using wire_send_Ok [of P fr s "()" s1] request_loop_exchanged [of P s1 ev s'] unfolding exchanged_def by auto
qed

end

section \<open>Exchanges return\<close>

text \<open>A peer that answers finitely often: \<open>left\<close> bounds the answers still to come.\<close>

locale finite_peer = timed_socket Z clock for Z :: "'w zmq" and clock :: "'w \<Rightarrow> nat" +
  fixes left :: "'w \<Rightarrow> nat"
  assumes now_left: "instant_now Z w = (t, w') \<Longrightarrow> left w' \<le> left w"
    and send_left: "zmq_send Z b w = (u, w') \<Longrightarrow> left w' \<le> left w"
    and recv_left: "zmq_recv Z w = (Ok b, w') \<Longrightarrow> left w' < left w"
    and recv_Err_left: "zmq_recv Z w = (Err e, w') \<Longrightarrow> left w' \<le> left w"
begin

abbreviation left_on :: "('w, 'z) wire_scheme \<Rightarrow> nat" where
  "left_on s \<equiv> left (wi_world s)"

lemma transport_send_left:
  assumes "transport_send P Z fr w = Some (r, w')"
  shows "left w' \<le> left w"
proof -
  have "(\<forall>u. r = Ok u \<longrightarrow> left w' \<le> left w) \<and> (\<forall>e. r = Err e \<longrightarrow> left w' \<le> left w)"
    by (rule retry_transient_outcome [where Q = "\<lambda>v. left v \<le> left w" and R = "\<lambda>_ v. left v \<le> left w",
          OF assms [unfolded transport_send_def]])
      (auto dest: now_left send_left le_trans)
  then show ?thesis by (cases r) auto
qed

lemma transport_recv_left:
  assumes "transport_recv P Z w = Some (r, w')"
  shows "left w' \<le> left w \<and> (\<forall>resp. r = Ok resp \<longrightarrow> left w' < left w)"
proof -
  obtain q w1 where q: "retry_transient Z (zmq_recv Z) ''recv'' w = Some (q, w1)"
    using assms by (auto simp: transport_recv_def io_bind_def bind_eq_Some_conv)
  have "(\<forall>b. q = Ok b \<longrightarrow> left w1 < left w) \<and> (\<forall>e. q = Err e \<longrightarrow> left w1 \<le> left w)"
    by (rule retry_transient_outcome [where Q = "\<lambda>v. left v \<le> left w" and R = "\<lambda>_ v. left v < left w", OF q])
      (auto dest: now_left recv_left recv_Err_left le_trans less_le_trans)
  then show ?thesis
    using assms q by (cases q) (auto simp: transport_recv_def io_bind_cases map_err_def split: sum.splits)
qed

lemma wire_send_returns: "\<exists>r s'. wire_send P Z fr s = Some (r, s') \<and> left_on s' \<le> left_on s"
proof -
  obtain r w where w: "transport_send P Z fr (wi_world s) = Some (r, w)"
    using transport_send_returns [of P fr "wi_world s"] by auto
  then show ?thesis
    using transport_send_left [OF w] by (auto simp: wire_send_def on_world_def)
qed

lemma wire_recv_returns: "\<exists>r s'. wire_recv P Z s = Some (r, s') \<and> left_on s' \<le> left_on s \<and>
    (is_ok r \<longrightarrow> left_on s' < left_on s)"
proof -
  obtain r w where w: "transport_recv P Z (wi_world s) = Some (r, w)"
    using transport_recv_returns [of P "wi_world s"] by auto
  then show ?thesis
    using transport_recv_left [OF w] by (cases r) (auto simp: wire_recv_def on_world_def)
qed

lemma wire_step_returns: "\<exists>r s'. wire_step resp s = Some (r, s') \<and> wi_world s' = wi_world s"
  by (auto simp: wire_step_def split: prod.split)

text \<open>An exchange returns, and one that succeeds has used up an answer.\<close>

lemma request_loop_returns:
  "\<exists>r s'. request_loop P Z s = Some (r, s') \<and> left_on s' \<le> left_on s \<and> (is_ok r \<longrightarrow> left_on s' < left_on s)"
proof (induction "left_on s" arbitrary: s rule: less_induct)
  case less
  obtain r1 s1 where recv: "wire_recv P Z s = Some (r1, s1)" "left_on s1 \<le> left_on s"
    "is_ok r1 \<longrightarrow> left_on s1 < left_on s" using wire_recv_returns [of P s] by auto
  show ?case
  proof (cases r1)
    case (Inr resp)
    obtain r2 s2 where st: "wire_step resp s1 = Some (r2, s2)" "wi_world s2 = wi_world s1"
      using wire_step_returns [of resp s1] by auto
    show ?thesis
    proof (cases "\<exists>e m. r2 = Ok (e, Some (PingReply m))")
      case True
      then obtain e m where r2: "r2 = Ok (e, Some (PingReply m))" by blast
      obtain r3 s3 where ping: "send_ping_reply P Z m s2 = Some (r3, s3)" "left_on s3 \<le> left_on s2"
        using wire_send_returns [of P _ s2] unfolding send_ping_reply_def by blast
      have smaller: "left_on s3 < left_on s" using recv st ping Inr by simp
      then obtain r s' where "request_loop P Z s3 = Some (r, s')" "left_on s' \<le> left_on s3"
        "is_ok r \<longrightarrow> left_on s' < left_on s3" using less by blast
      then show ?thesis
        using recv st ping smaller Inr r2
        by (subst request_loop.simps) (cases r3; auto simp: io_bind_cases)
    next
      case False
      then have "\<exists>r. request_loop P Z s = Some (r, s2)"
        using recv st Inr
        by (subst request_loop.simps)
          (cases r2; auto simp: io_bind_cases split: option.splits host_action.splits)
      then show ?thesis using recv st Inr by auto
    qed
  qed (use recv in \<open>subst request_loop.simps, auto simp: io_bind_cases\<close>)
qed

lemma request_returns:
  "\<exists>r s'. request P Z fr s = Some (r, s') \<and> left_on s' \<le> left_on s \<and> (is_ok r \<longrightarrow> left_on s' < left_on s)"
proof -
  obtain r1 s1 where send: "wire_send P Z fr s = Some (r1, s1)" "left_on s1 \<le> left_on s"
    using wire_send_returns [of P fr s] by auto
  obtain r s' where "request_loop P Z s1 = Some (r, s')" "left_on s' \<le> left_on s1"
    "is_ok r \<longrightarrow> left_on s' < left_on s1" using request_loop_returns [of P s1] by auto
  then show ?thesis using send by (cases r1) (auto simp: request_def io_bind_cases)
qed

end

interpretation scripted: finite_peer scripted db_clock "\<lambda>w. length (db_replies w)"
  by unfold_locales
    (auto simp: scripted_def db_send_def db_recv_def EFSM_def split: if_splits list.splits)

end
