(* ===== verification/Session_Facts.thy ===== *)
theory Session_Facts
  imports Row_Facts Wire
begin

text \<open>
  The properties of the protocol machine, the transport and the exchange loop. They are
  instantiated on a scripted database that opens a session, answers one \<open>MT_NEXT\<close> behind a ping
  and closes.
\<close>

section \<open>A scripted session\<close>

definition sample_info :: exascript_info where
  "sample_info = \<lparr>ei_database_name = ''DB'', ei_database_version = ''8'', ei_script_name = ''S'',
     ei_source_code = ''%udf_object'', ei_session_id = 1, ei_statement_id = 2, ei_node_count = 1,
     ei_node_id = 0, ei_vm_id = 5, ei_maximal_memory_limit = 100, ei_meta_info = None,
     ei_script_schema = ''X'', ei_current_user = None, ei_current_schema = None,
     ei_scope_user = None\<rparr>"

definition sample_meta :: exascript_metadata where
  "sample_meta = \<lparr>em_input_iter_type = 2, em_output_iter_type = 2,
     em_input_columns = map column_definition_of [sample_column ''A'' TInt64],
     em_output_columns = map column_definition_of [sample_column ''B'' TInt64],
     em_single_call_mode = False\<rparr>"

definition sample_table :: table_data where
  "sample_table = \<lparr>td_rows = 1, td_rows_in_group = 1, td_string = [], td_nulls = [False],
     td_bool = [], td_int32 = [], td_int64 = [7], td_double = [], td_row_number = [0]\<rparr>"

definition sample_reply :: "char \<Rightarrow> exascript_response" where
  "sample_reply c = (let r = response_default\<lparr>rs_connection_id := 9\<rparr> in
     if c = CHR ''I'' then r\<lparr>rs_type := mt_i32 MtInfo, rs_info := Some sample_info\<rparr>
     else if c = CHR ''M'' then r\<lparr>rs_type := mt_i32 MtMeta, rs_meta := Some sample_meta\<rparr>
     else if c = CHR ''N'' then r\<lparr>rs_type := mt_i32 MtNext, rs_next := Some sample_table\<rparr>
     else if c = CHR ''P'' then r\<lparr>rs_type := mt_i32 MtPingPong, rs_ping := Some ''p''\<rparr>
     else if c = CHR ''R'' then r\<lparr>rs_type := mt_i32 MtRun\<rparr>
     else if c = CHR ''E'' then r\<lparr>rs_type := mt_i32 MtEmit\<rparr>
     else if c = CHR ''D'' then r\<lparr>rs_type := mt_i32 MtDone\<rparr>
     else if c = CHR ''C'' then r\<lparr>rs_type := mt_i32 MtCleanup\<rparr>
     else if c = CHR ''F'' then r\<lparr>rs_type := mt_i32 MtFinished\<rparr>
     else if c = CHR ''K'' then r\<lparr>rs_type := mt_i32 MtImport, rs_import := Some
       \<lparr>irp_source_code = None, irp_exception_message = None, irp_connection_information =
         Some \<lparr>cir_kind = ''password'', cir_address = ''a'', cir_user = ''u'', cir_password = ''s''\<rparr>\<rparr>\<rparr>
     else r\<lparr>rs_type := mt_i32 MtClose\<rparr>)"

definition session_prost :: prost where
  "session_prost = protobuf (\<lambda>bs. case bs of [c] \<Rightarrow> Ok (sample_reply c) | _ \<Rightarrow> Err ''not a reply'')"

text \<open>A channel on which the database will answer with the given letters.\<close>

definition sample_wire_state :: "string \<Rightarrow> protocol \<Rightarrow> db wire" where
  "sample_wire_state replies p = \<lparr>wi_world = \<lparr>db_clock = 0, db_sent = [], db_received = [],
     db_replies = map (\<lambda>c. [c]) replies\<rparr>, wi_proto = p\<rparr>"

definition running_protocol :: protocol where
  "running_protocol = protocol_new\<lparr>pr_connection_id := 9, pr_phase := PRun\<rparr>"

lemma sample_replies:
  "message_type_try_from (rs_type (sample_reply (CHR ''I''))) = Some MtInfo"
  "message_type_try_from (rs_type (sample_reply (CHR ''M''))) = Some MtMeta"
  "message_type_try_from (rs_type (sample_reply (CHR ''N''))) = Some MtNext"
  "message_type_try_from (rs_type (sample_reply (CHR ''P''))) = Some MtPingPong"
  "message_type_try_from (rs_type (sample_reply (CHR ''R''))) = Some MtRun"
  "message_type_try_from (rs_type (sample_reply (CHR ''E''))) = Some MtEmit"
  "message_type_try_from (rs_type (sample_reply (CHR ''D''))) = Some MtDone"
  "message_type_try_from (rs_type (sample_reply (CHR ''C''))) = Some MtCleanup"
  "message_type_try_from (rs_type (sample_reply (CHR ''F''))) = Some MtFinished"
  "message_type_try_from (rs_type (sample_reply (CHR ''K''))) = Some MtImport"
  "rs_connection_id (sample_reply c) = 9"
  by (simp_all add: sample_reply_def Let_def)

text \<open>The state after the handshake frames.\<close>

lemma sample_handshake:
  "step (sample_reply (CHR ''I'')) protocol_new = (Ok (EvPending, Some MetaRequest),
     protocol_new\<lparr>pr_connection_id := 9, pr_pending_info := Some sample_info\<rparr>)"
  "step (sample_reply (CHR ''M'')) (protocol_new\<lparr>pr_connection_id := 9, pr_pending_info := Some sample_info\<rparr>) =
     (Ok (EvMeta (udf_meta_from_pb sample_meta sample_info), None), running_protocol)"
  unfolding step_def Let_def sample_replies
  by (simp_all add: protocol_new_def running_protocol_def step_info_def step_meta_def
      sample_reply_def Let_def udf_meta_from_pb_def sample_meta_def)

lemma sample_running:
  "step (sample_reply (CHR ''N'')) running_protocol = (Ok (EvNextData sample_table, None), running_protocol)"
  "step (sample_reply (CHR ''P'')) running_protocol = (Ok (EvPing ''p'', Some (PingReply ''p'')), running_protocol)"
  "step (sample_reply (CHR ''R'')) running_protocol = (Ok (EvRun, None), running_protocol)"
  "step (sample_reply (CHR ''E'')) running_protocol = (Ok (EvEmitAck, None), running_protocol)"
  "step (sample_reply (CHR ''D'')) running_protocol = (Ok (EvDone, None), running_protocol)"
  "step (sample_reply (CHR ''C'')) running_protocol = (Ok (EvCleanup, None), running_protocol\<lparr>pr_phase := PCleanup\<rparr>)"
  "step (sample_reply (CHR ''F'')) (running_protocol\<lparr>pr_phase := PCleanup\<rparr>) =
     (Ok (EvFinished, None), running_protocol\<lparr>pr_phase := PDone\<rparr>)"
  "step (sample_reply (CHR ''K'')) running_protocol = (Ok (EvConnInfo \<lparr>ci_kind = ''password'',
     ci_address = ''a'', ci_user = ''u'', ci_password = ''s''\<rparr>, None), running_protocol)"
  unfolding step_def Let_def sample_replies
  by (simp_all add: protocol_new_def running_protocol_def step_next_def step_import_def
      sample_reply_def Let_def conn_info_from_pb_def)


text \<open>The calls of the scripted socket.\<close>

definition db_answer :: "bytes \<Rightarrow> bytes list \<Rightarrow> (db, 'z) wire_scheme \<Rightarrow> (db, 'z) wire_scheme" where
  "db_answer b bs s = s\<lparr>wi_world := (wi_world s)\<lparr>db_received := db_received (wi_world s) @ [b],
     db_replies := bs\<rparr>\<rparr>"

definition db_queue :: "bytes \<Rightarrow> (db, 'z) wire_scheme \<Rightarrow> (db, 'z) wire_scheme" where
  "db_queue b s = s\<lparr>wi_world := (wi_world s)\<lparr>db_sent := db_sent (wi_world s) @ [b]\<rparr>\<rparr>"

lemma scripted_send:
  assumes "scripted.idle (wi_world s)"
  shows "wire_send P scripted fr s = Some (Ok (), db_queue (encode_frame P fr) s)"
  using assms
  by (simp add: wire_send_def on_world_def transport_send_def retry_transient_def scripted_def db_queue_def
      retry_loop.simps db_send_def scripted.idle_def)

lemma scripted_recv:
  assumes "length (db_sent (wi_world s)) = Suc (length (db_received (wi_world s)))"
    "db_replies (wi_world s) = b # bs" "decode_response P b = Ok resp"
  shows "wire_recv P scripted s = Some (Ok resp, db_answer b bs s)"
  using assms
  by (simp add: wire_recv_def on_world_def transport_recv_def retry_transient_def scripted_def
      retry_loop.simps db_recv_def io_bind_cases db_answer_def)

lemma scripted_loop:
  assumes "length (db_sent (wi_world s)) = Suc (length (db_received (wi_world s)))"
    "db_replies (wi_world s) = b # bs" "decode_response P b = Ok resp"
    "step resp q = (Ok (ev, a), p)" "wi_proto s = q"
  shows "a = None \<or> a = Some MetaRequest \<Longrightarrow>
      request_loop P scripted s = Some (Ok ev, (db_answer b bs s)\<lparr>wi_proto := p\<rparr>)"
    "a = Some (PingReply m) \<Longrightarrow> request_loop P scripted s = request_loop P scripted
      (db_queue (encode_frame P (Request (ping_reply m p))) ((db_answer b bs s)\<lparr>wi_proto := p\<rparr>))"
proof -
  note recv = scripted_recv [OF assms(1-3)]
  have st: "wire_step resp (db_answer b bs s) = Some (Ok (ev, a), (db_answer b bs s)\<lparr>wi_proto := p\<rparr>)"
    using assms(4,5) by (simp add: wire_step_def db_answer_def)
  show "request_loop P scripted s = Some (Ok ev, (db_answer b bs s)\<lparr>wi_proto := p\<rparr>)"
    if "a = None \<or> a = Some MetaRequest"
    using that by (subst request_loop.simps) (auto simp: io_bind_cases recv st)
  show "request_loop P scripted s = request_loop P scripted
      (db_queue (encode_frame P (Request (ping_reply m p))) ((db_answer b bs s)\<lparr>wi_proto := p\<rparr>))"
    if "a = Some (PingReply m)"
  proof -
    have "scripted.idle (wi_world ((db_answer b bs s)\<lparr>wi_proto := p\<rparr>))"
      using assms(1) by (simp add: scripted.idle_def db_answer_def)
    then show ?thesis
      using that
      by (subst request_loop.simps)
        (simp add: io_bind_cases recv st send_ping_reply_def scripted_send)
  qed
qed

lemma scripted_request:
  assumes "scripted.idle (wi_world s)"
  shows "request P scripted fr s = request_loop P scripted (db_queue (encode_frame P fr) s)"
  using scripted_send [OF assms] by (simp add: request_def io_bind_cases)

lemma sample_decode [simp]: "decode_response session_prost [c] = Ok (sample_reply c)"
  by (simp add: session_prost_def protobuf_def)

text \<open>The request of the sample channel: a ping, then the batch.\<close>

lemma sample_next:
  "\<exists>s'. request session_prost scripted (Request (next_request running_protocol))
      (sample_wire_state ''PN'' running_protocol) = Some (Ok (EvNextData sample_table), s') \<and>
    db_received (wi_world s') = [''P'', ''N'']"
proof -
  have idle: "scripted.idle (wi_world (sample_wire_state ''PN'' running_protocol))"
    by (simp add: scripted.idle_def sample_wire_state_def)
  show ?thesis
    unfolding scripted_request [OF idle]
    apply (subst scripted_loop(2) [OF _ _ sample_decode sample_running(2) _ refl])
       apply (simp_all add: sample_wire_state_def db_queue_def db_answer_def)
    apply (subst scripted_loop(1) [OF _ _ sample_decode sample_running(1)])
        apply simp_all
    apply (simp add: db_answer_def)
    done
qed


section \<open>Sessions\<close>

text \<open>C4: Every frame the machine accepts is a move of the abstract session: an opening stage that
  collects the info, a run stage in one of the two modes, an ending stage no data returns from; and
  it asks for a reply exactly to a ping and for the metadata exactly after the info.\<close>

theorem step_refines_session:
  assumes "step resp p = (Ok (e, a), p')"
  shows "session (stage_of p) e (stage_of p') \<and>
    (\<forall>m. e = EvPing m \<longleftrightarrow> a = Some (PingReply m)) \<and> pr_connection_id p' = rs_connection_id resp"
  using step_session [OF assms] step_ping [OF assms] step_connection_id [of resp p] assms by simp

theorem step_refines_session_witness:
  "session (stage_of protocol_new) EvPending (Opening (Some sample_info))"
  using step_refines_session [OF sample_handshake(1)]
  by (simp add: stage_of_def protocol_new_def)

text \<open>C3: The events of any accepted exchange from a new connection have the shape of a session: before
  the metadata only buffering, pings and lookups; the metadata at most once; then only events of the
  announced mode; and after a clean-up, finish or close no data event ever again.\<close>

theorem exchange_is_session:
  assumes "exchange protocol_new rs es p'"
  shows "session_shape es"
  using opening_exchange [OF assms] by (simp add: stage_of_def protocol_new_def)

theorem exchange_is_session_witness:
  "session_shape [EvPending, EvMeta (udf_meta_from_pb sample_meta sample_info), EvNextData sample_table,
     EvCleanup, EvFinished]"
  using sample_handshake sample_running
  by (intro exchange_is_session [of "map sample_reply ''IMNCF''"])
    (auto simp: exchange_Cons)

text \<open>C23: The metadata a session surfaces is the \<open>MT_META\<close> payload joined with the most recent
  \<open>MT_INFO\<close> before it, however many infos, pings and retries came in between.\<close>

theorem metadata_from_latest_info:
  assumes "exchange protocol_new rs es p'" "k < length es" "es ! k = EvMeta m"
  shows "\<exists>mp info. rs_meta (rs ! k) = Some mp \<and> latest_info None (zip (take k rs) (take k es)) = Some info \<and>
    m = udf_meta_from_pb mp info"
  using exchange_meta [OF assms(1) _ assms(2,3)] by (simp add: stage_of_def protocol_new_def)

theorem metadata_from_latest_info_witness:
  "\<exists>mp info. rs_meta (map sample_reply ''IM'' ! 1) = Some mp \<and>
     udf_meta_from_pb sample_meta sample_info = udf_meta_from_pb mp info"
proof -
  have "exchange protocol_new (map sample_reply ''IM'')
      [EvPending, EvMeta (udf_meta_from_pb sample_meta sample_info)] running_protocol"
    using sample_handshake by (auto simp: exchange_Cons)
  then show ?thesis using metadata_from_latest_info [of _ _ _ 1] by fastforce
qed

section \<open>Column metadata\<close>


text \<open>The precision of a TIMESTAMP column is the number in its type name, whatever surrounds it.\<close>

lemma timestamp_type_name_precision:
  assumes "CHR ''('' \<notin> set name" "n < 2 ^ 32"
  shows "refine_timestamp (name @ CHR ''('' # show_nat n @ CHR '')'' # rest) prec = TTimestamp n"
  using timestamp_precision_of_name [OF assms] by (simp add: refine_timestamp_def)

lemma timestamp_type_name_precision_witness:
  "refine_timestamp ''TIMESTAMP(6) WITH LOCAL TIME ZONE'' (Some 3) = TTimestamp 6"
proof -
  have "digit_char 6 = CHR ''6''" by code_simp
  then show ?thesis
    using timestamp_type_name_precision [of "''TIMESTAMP''" 6 "'' WITH LOCAL TIME ZONE''" "Some 3"]
    by (simp add: show_nat.simps)
qed

section \<open>The transport\<close>

text \<open>C7: Under the documented poll timeouts a blocking send or receive always returns, after at most
  120 polls, however long the database stays silent.\<close>

theorem transport_calls_return:
  assumes "timed_socket Z clock"
  shows "(\<exists>y. transport_send P Z fr w = Some y) \<and> (\<exists>y. transport_recv P Z w = Some y) \<and>
    (\<exists>t w'. instant_now Z w = (t, w') \<and>
      retry_loop Z (zmq_recv Z) ''recv'' t w' = retry_polls 120 Z (zmq_recv Z) ''recv'' t w' \<and>
      retry_loop Z (zmq_send Z b) ''send'' t w' = retry_polls 120 Z (zmq_send Z b) ''send'' t w')"
proof -
  obtain t w' where t: "instant_now Z w = (t, w')" by (cases "instant_now Z w")
  have "t \<le> clock w'" using timed_socket.now [OF assms t] by simp
  then show ?thesis
    using t timed_socket.transport_send_returns [OF assms] timed_socket.transport_recv_returns [OF assms]
      timed_socket.retry_loop_polls [OF assms timed_socket.polls_recv [OF assms], of t 120 w' "''recv''"]
      timed_socket.retry_loop_polls [OF assms timed_socket.polls_send [OF assms], of t 120 w' b "''send''"]
    by simp
qed

theorem transport_calls_return_witness:
  "\<exists>y. transport_recv session_prost scripted
     \<lparr>db_clock = 0, db_sent = [''x''], db_received = [], db_replies = []\<rparr> = Some y"
  using transport_calls_return [OF scripted.timed_socket_axioms] by blast

text \<open>C22: A frame is queued once when a send succeeds, however many polls it took, and not at all when it
  fails; a receive consumes one reply when it succeeds and at most one when it fails.\<close>

theorem frames_are_sent_once:
  assumes "req_socket Z snt rcv"
    and "transport_send P Z fr w = Some (r, w')" "transport_recv P Z v = Some (q, v')"
  shows "(if is_ok r then snt w' = snt w @ [encode_frame P fr] else snt w' = snt w) \<and> rcv w' = rcv w \<and>
    snt v' = snt v \<and> (if is_ok q then \<exists>b. rcv v' = rcv v @ [b] else \<exists>bs. rcv v' = rcv v @ bs \<and> length bs \<le> 1)"
  using req_socket.transport_send_once [OF assms(1,2)] req_socket.transport_recv_once [OF assms(1,3)]
  by (cases r; cases q) auto

theorem frames_are_sent_once_witness:
  "\<exists>w'. transport_send session_prost scripted (Request (next_request running_protocol))
      \<lparr>db_clock = 0, db_sent = [], db_received = [], db_replies = []\<rparr> = Some (Ok (), w') \<and>
    length (db_sent w') = 1"
proof -
  have snd: "transport_send session_prost scripted (Request (next_request running_protocol))
      \<lparr>db_clock = 0, db_sent = [], db_received = [], db_replies = []\<rparr> = Some (Ok (),
      \<lparr>db_clock = 0, db_sent = [encode_frame session_prost (Request (next_request running_protocol))],
        db_received = [], db_replies = []\<rparr>)"
    by (simp add: transport_send_def retry_transient_def scripted_def retry_loop.simps db_send_def)
  have rcv: "transport_recv session_prost scripted
      \<lparr>db_clock = 0, db_sent = [''x''], db_received = [], db_replies = [''N'']\<rparr> =
      Some (Ok (sample_reply (CHR ''N'')),
        \<lparr>db_clock = 0, db_sent = [''x''], db_received = [''N''], db_replies = []\<rparr>)"
    by (simp add: transport_recv_def retry_transient_def scripted_def retry_loop.simps db_recv_def
        io_bind_cases)
  show ?thesis using frames_are_sent_once [OF scripted.req_socket_axioms snd rcv] snd by simp
qed

text \<open>C5: An exchange that succeeds starts and ends with every request answered, puts the request and then
  only ping answers on the wire, and never surfaces a ping.\<close>

theorem request_keeps_lockstep:
  assumes "req_socket Z snt rcv" "request P Z fr s = Some (Ok ev, s')"
  shows "length (snt (wi_world s)) = length (rcv (wi_world s)) \<and>
    length (snt (wi_world s')) = length (rcv (wi_world s')) \<and>
    (\<exists>pongs. snt (wi_world s') = snt (wi_world s) @ encode_frame P fr # pongs \<and>
      (\<forall>b \<in> set pongs. \<exists>m p. b = encode_frame P (Request (ping_reply m p)))) \<and> (\<forall>m. ev \<noteq> EvPing m)"
  using req_socket.request_exchanged [OF assms]
  by (auto simp: req_socket.exchanged_def [OF assms(1)] req_socket.idle_def [OF assms(1)])

theorem request_keeps_lockstep_witness:
  "\<exists>s'. request session_prost scripted (Request (next_request running_protocol))
      (sample_wire_state ''PN'' running_protocol) = Some (Ok (EvNextData sample_table), s') \<and>
    length (db_sent (wi_world s')) = 2"
proof -
  obtain s' where s': "request session_prost scripted (Request (next_request running_protocol))
      (sample_wire_state ''PN'' running_protocol) = Some (Ok (EvNextData sample_table), s')"
    "db_received (wi_world s') = [''P'', ''N'']" using sample_next by blast
  then show ?thesis
    using request_keeps_lockstep [OF scripted.req_socket_axioms s'(1)] by simp
qed

text \<open>C6: An exchange returns as soon as the peer sends only finitely many frames, and one that succeeds
  has used up at least one of them.\<close>

theorem request_terminates:
  assumes "finite_peer Z clock left"
  shows "\<exists>r s'. request P Z fr s = Some (r, s') \<and> left (wi_world s') \<le> left (wi_world s) \<and>
    (is_ok r \<longrightarrow> left (wi_world s') < left (wi_world s))"
  using finite_peer.request_returns [OF assms] .

theorem request_terminates_witness:
  "\<exists>r s'. request session_prost scripted (Request (next_request running_protocol))
    (sample_wire_state ''PPP'' running_protocol) = Some (r, s')"
  using request_terminates [OF scripted.finite_peer_axioms] by blast

end
