(* ===== verification/Context.thy ===== *)
theory Context
  imports Packer Wire
begin

text \<open>
  The context of a UDF call (\<open>exasol-udf-sdk/src/context.rs\<close>): what UDF code may ask of the
  host, the defaults of the trait, and its typed getters. A UDF is foreign code; it is modelled
  as the sequence of calls it makes, each depending on the replies so far, which ends with a
  return code, a text and the state the \<open>.so\<close> keeps for its next call. It need not be finite.
\<close>

section \<open>The context interface\<close>

datatype input_type = Scalar | SetInput

datatype output_type = Returns | Emits

datatype level = LevelError | LevelWarn | LevelInfo | LevelDebug | LevelTrace

record connection_object =
  co_kind :: string
  co_address :: string
  co_user :: string
  co_password :: string

text \<open>A batch handed over the C data interface: two pointers that may be null, and what
  importing them gives.\<close>

record ffi_batch =
  ffi_array_null :: bool
  ffi_schema_null :: bool
  ffi_import :: "(string, record_batch) result"

datatype ('d, 't) ctx_call =
    InputColumnCount
  | InputColumn nat
  | OutputColumnCount
  | OutputColumn nat
  | GetCell nat
  | EmitRow "('d, 't) sql_value list"
  | NextRow
  | SetReturn "('d, 't) sql_value option"
  | EmitRecordBatchFfi ffi_batch
  | MemoryLimit | SessionId | StatementId | NodeId | NodeCount | VmId
  | DatabaseName | DatabaseVersion | ScriptName | ScriptSchema
  | CurrentUser | CurrentSchema | ScopeUser
  | DebugLevel
  | RowsInGroup
  | InputTypeOf
  | OutputTypeOf
  | ClusterIp
  | ConnectionLookup string
  | ConnectBackTo connection_object

text \<open>\<open>RPanic\<close> is a host method that unwinds.\<close>

datatype ('d, 't) reply =
    RUnit "(udf_error, unit) result"
  | RBool "(udf_error, bool) result"
  | RCell "(udf_error, ('d, 't) sql_value) result"
  | RColumn "(udf_error, column_info) result"
  | RNat nat
  | RText string
  | ROptText "string option"
  | RLevel level
  | RInputType "input_type option"
  | ROutputType "output_type option"
  | RTextResult "(udf_error, string) result"
  | RConnection "(udf_error, connection_object) result"
  | RSession "(udf_error, unit) result"
  | RPanic

text \<open>The defaults of the trait; its three required methods have none.\<close>

definition trait_default :: "('d, 't) ctx_call \<Rightarrow> ('d, 't) reply option" where
  "trait_default call = (case call of
      InputColumnCount \<Rightarrow> None
    | GetCell _ \<Rightarrow> None
    | EmitRow _ \<Rightarrow> None
    | NextRow \<Rightarrow> None
    | InputColumn _ \<Rightarrow> Some (RColumn (Err (Unimplemented ''input_column'')))
    | OutputColumnCount \<Rightarrow> Some (RNat 0)
    | OutputColumn _ \<Rightarrow> Some (RColumn (Err (Unimplemented ''output_column'')))
    | SetReturn _ \<Rightarrow> Some (RUnit (Err (Unimplemented ''set_return'')))
    | EmitRecordBatchFfi _ \<Rightarrow> Some (RUnit (Err (Unimplemented ''emit_record_batch_ffi'')))
    | DatabaseName \<Rightarrow> Some (RText [])
    | DatabaseVersion \<Rightarrow> Some (RText [])
    | ScriptName \<Rightarrow> Some (RText [])
    | ScriptSchema \<Rightarrow> Some (RText [])
    | CurrentUser \<Rightarrow> Some (ROptText None)
    | CurrentSchema \<Rightarrow> Some (ROptText None)
    | ScopeUser \<Rightarrow> Some (ROptText None)
    | DebugLevel \<Rightarrow> Some (RLevel LevelInfo)
    | InputTypeOf \<Rightarrow> Some (RInputType None)
    | OutputTypeOf \<Rightarrow> Some (ROutputType None)
    | ClusterIp \<Rightarrow> Some (RTextResult (Err (Unimplemented ''connect-back not available'')))
    | ConnectionLookup _ \<Rightarrow> Some (RConnection (Err (Unimplemented ''CONNECTION lookup not available'')))
    | ConnectBackTo _ \<Rightarrow> Some (RSession (Err (Unimplemented ''connect-back not available'')))
    | _ \<Rightarrow> Some (RNat 0))"

section \<open>Typed getters\<close>

text \<open>Each getter reads the answer of \<open>get\<close>.\<close>

definition expected :: "string \<Rightarrow> ('d, 't) ext \<Rightarrow> ('d, 't) sql_value \<Rightarrow> (udf_error, 'a) result" where
  "expected what E other = Err (TypeErr (''expected '' @ what @ '', got '' @ dbg_value E other))"

definition get_value :: "(udf_error, ('d, 't) sql_value) result \<Rightarrow> (udf_error, ('d, 't) sql_value option) result" where
  "get_value r = rbind r (\<lambda>v. case v of VNull \<Rightarrow> Ok None | v \<Rightarrow> Ok (Some v))"

definition get_i64 :: "('d, 't) ext \<Rightarrow> (udf_error, ('d, 't) sql_value) result \<Rightarrow> (udf_error, i64 option) result" where
  "get_i64 E r = rbind r (\<lambda>v. case v of
      VNull \<Rightarrow> Ok None
    | VInt64 i \<Rightarrow> Ok (Some i)
    | VInt32 i \<Rightarrow> Ok (Some (scast i))
    | VNumeric d \<Rightarrow>
        if dscale d = 0 then
          if - (2 ^ 63) \<le> sint (unscaled d) \<and> sint (unscaled d) < 2 ^ 63
          then Ok (Some (ucast (unscaled d)))
          else Err (TypeErr (''Numeric value '' @ decimal_fmt d @ '' overflows i64''))
        else Err (TypeErr (''Numeric value '' @ decimal_fmt d @ '' has non-zero scale; use get_decimal''))
    | other \<Rightarrow> expected ''i64'' E other)"

definition get_f64 :: "('d, 't) ext \<Rightarrow> (udf_error, ('d, 't) sql_value) result \<Rightarrow> (udf_error, f64 option) result" where
  "get_f64 E r = rbind r (\<lambda>v. case v of
      VNull \<Rightarrow> Ok None | VDouble f \<Rightarrow> Ok (Some f) | other \<Rightarrow> expected ''f64'' E other)"

definition get_string :: "('d, 't) ext \<Rightarrow> (udf_error, ('d, 't) sql_value) result \<Rightarrow> (udf_error, string option) result" where
  "get_string E r = rbind r (\<lambda>v. case v of
      VNull \<Rightarrow> Ok None | VString s \<Rightarrow> Ok (Some s) | other \<Rightarrow> expected ''string'' E other)"

definition get_bool :: "('d, 't) ext \<Rightarrow> (udf_error, ('d, 't) sql_value) result \<Rightarrow> (udf_error, bool option) result" where
  "get_bool E r = rbind r (\<lambda>v. case v of
      VNull \<Rightarrow> Ok None | VBool b \<Rightarrow> Ok (Some b) | other \<Rightarrow> expected ''bool'' E other)"

definition get_decimal :: "('d, 't) ext \<Rightarrow> (udf_error, ('d, 't) sql_value) result \<Rightarrow> (udf_error, decimal option) result" where
  "get_decimal E r = rbind r (\<lambda>v. case v of
      VNull \<Rightarrow> Ok None | VNumeric d \<Rightarrow> Ok (Some d) | other \<Rightarrow> expected ''decimal'' E other)"

definition get_date :: "('d, 't) ext \<Rightarrow> (udf_error, ('d, 't) sql_value) result \<Rightarrow> (udf_error, 'd option) result" where
  "get_date E r = rbind r (\<lambda>v. case v of
      VNull \<Rightarrow> Ok None | VDate d \<Rightarrow> Ok (Some d) | other \<Rightarrow> expected ''date'' E other)"

definition get_timestamp :: "('d, 't) ext \<Rightarrow> (udf_error, ('d, 't) sql_value) result \<Rightarrow> (udf_error, 't option) result" where
  "get_timestamp E r = rbind r (\<lambda>v. case v of
      VNull \<Rightarrow> Ok None | VTimestamp t \<Rightarrow> Ok (Some t) | other \<Rightarrow> expected ''timestamp'' E other)"

text \<open>An integer column reads as the integer it holds, at any of the widths it may travel in.\<close>

definition int_of_value :: "('d, 't) sql_value \<Rightarrow> int option" where
  "int_of_value v = (case v of
      VInt32 i \<Rightarrow> Some (sint i) | VInt64 i \<Rightarrow> Some (sint i)
    | VNumeric d \<Rightarrow> if dscale d = 0 then Some (sint (unscaled d)) else None
    | _ \<Rightarrow> None)"

lemma i64_bounds: "- (2 ^ 63) \<le> sint (w :: i64)" "sint (w :: i64) < 2 ^ 63"
  using sint_greater_eq [of w] sint_less [of w] by simp_all

lemma narrow_i128:
  assumes "- (2 ^ 63) \<le> sint (u :: i128)" "sint u < 2 ^ 63"
  shows "sint (ucast u :: i64) = sint u"
proof -
  have "signed_take_bit 63 (sint u) = signed_take_bit 63 (uint u)"
    by (simp add: sint_uint signed_take_bit_signed_take_bit)
  moreover have "sint (ucast u :: i64) = signed_take_bit 63 (uint u)"
    by (simp add: sint_uint unsigned_ucast_eq signed_take_bit_take_bit)
  ultimately show ?thesis using assms by (simp add: signed_take_bit_int_eq_self)
qed

lemma widen_i32: "sint (scast (j :: i32) :: i64) = sint j"
  by (simp add: sint_up_scast is_up)

lemma get_i64_value:
  "get_i64 E (Ok v) = Ok (Some i) \<longleftrightarrow> int_of_value v = Some (sint i)"
proof (cases v)
  case (VInt32 j)
  have "scast j = i \<longleftrightarrow> sint j = sint i" using widen_i32 [of j] by (metis signed_word_eqI)
  then show ?thesis using VInt32 by (simp add: get_i64_def int_of_value_def)
next
  case (VInt64 j)
  then show ?thesis by (auto simp: get_i64_def int_of_value_def signed_word_eqI)
next
  case (VNumeric d)
  have "ucast (unscaled d) = i \<longleftrightarrow> sint (unscaled d) = sint i"
    if "- (2 ^ 63) \<le> sint (unscaled d)" "sint (unscaled d) < 2 ^ 63"
    using narrow_i128 [OF that] by (metis signed_word_eqI)
  then show ?thesis using VNumeric i64_bounds [of i] by (auto simp: get_i64_def int_of_value_def)
qed (simp_all add: get_i64_def int_of_value_def expected_def)

section \<open>UDF code\<close>

text \<open>A piece of UDF code ends with a result, or makes one more call of the context.\<close>

codatatype ('d, 't, 'a) prog =
    Finish 'a
  | Invoke "('d, 't) ctx_call" "('d, 't) reply \<Rightarrow> ('d, 't, 'a) prog"

primcorec prog_bind :: "('d, 't, 'a) prog \<Rightarrow> ('a \<Rightarrow> ('d, 't, 'b) prog) \<Rightarrow> ('d, 't, 'b) prog" where
  "prog_bind p k = (case p of
      Finish a \<Rightarrow> k a
    | Invoke call f \<Rightarrow> Invoke call (\<lambda>r. prog_bind (f r) k))"

type_synonym ('c, 'd, 't) handler = "('d, 't) ctx_call \<Rightarrow> 'c \<Rightarrow> (('d, 't) reply \<times> 'c) option"

partial_function (option) run_prog :: "('c, 'd, 't) handler \<Rightarrow> ('d, 't, 'a) prog \<Rightarrow> 'c \<Rightarrow>
    ('a \<times> 'c) option" where
  "run_prog h p c = (case p of
      Finish a \<Rightarrow> Some (a, c)
    | Invoke call k \<Rightarrow> Option.bind (h call c) (\<lambda>(r, c). run_prog h (k r) c))"

lemma run_prog_simps [simp]:
  "run_prog h (Finish a) c = Some (a, c)"
  "run_prog h (Invoke call k) c = Option.bind (h call c) (\<lambda>(r, c). run_prog h (k r) c)"
  by (subst run_prog.simps, simp)+

text \<open>
  UDF code that makes progress: it may go on for ever only by asking for row after row and being
  given one each time. Between two rows, and without rows, it stops.
\<close>

definition next_row :: "('d, 't) ctx_call \<Rightarrow> ('d, 't) reply \<Rightarrow> bool" where
  "next_row call r \<longleftrightarrow> call = NextRow \<and> r = RBool (Ok True)"

inductive pauses :: "(('d, 't, 'a) prog \<Rightarrow> bool) \<Rightarrow> ('d, 't, 'a) prog \<Rightarrow> bool" for X where
  finish: "pauses X (Finish a)"
| invoke: "(\<And>r. next_row call r \<Longrightarrow> X (k r)) \<Longrightarrow> (\<And>r. \<not> next_row call r \<Longrightarrow> pauses X (k r)) \<Longrightarrow>
    pauses X (Invoke call k)"

inductive_simps pauses_simps: "pauses X (Finish a)" "pauses X (Invoke call k)"

lemma pauses_weaken: "pauses X p \<Longrightarrow> (\<And>q. X q \<Longrightarrow> Y q) \<Longrightarrow> pauses Y p"
  by (induction rule: pauses.induct) (auto intro: pauses.intros)

lemma pauses_mono [mono]: "X \<le> Y \<Longrightarrow> pauses X \<le> pauses Y"
  by (auto intro: pauses_weaken)

coinductive progresses :: "('d, 't, 'a) prog \<Rightarrow> bool" where
  progress: "pauses progresses p \<Longrightarrow> progresses p"

lemma progresses_unfold: "progresses p \<longleftrightarrow> pauses progresses p"
  by (auto intro: progress elim: progresses.cases)

lemma progresses_simps [simp]:
  "progresses (Finish a)" "progresses (Invoke call k) \<longleftrightarrow> (\<forall>r. progresses (k r))"
  by (auto simp: progresses_unfold pauses_simps)

lemma prog_bind_simps [simp]:
  "prog_bind (Finish a) k = k a"
  "prog_bind (Invoke call f) k = Invoke call (\<lambda>r. prog_bind (f r) k)"
  by (subst prog_bind.code, simp)+

lemma pauses_bind:
  assumes "pauses X p" "\<And>q. X q \<Longrightarrow> Y (prog_bind q k)" "\<And>a. pauses Y (k a)"
  shows "pauses Y (prog_bind p k)"
  using assms(1) by (induction rule: pauses.induct) (auto intro: pauses.intros assms(2,3))

lemma progresses_bind:
  assumes "progresses p" "\<And>a. progresses (k a)"
  shows "progresses (prog_bind p k)"
  using assms(1)
proof (coinduction arbitrary: p rule: progresses.coinduct)
  case progresses
  then have "pauses progresses p" by (auto elim: progresses.cases)
  then have "pauses (\<lambda>x. (\<exists>p. x = prog_bind p k \<and> progresses p) \<or> progresses x) (prog_bind p k)"
    by (rule pauses_bind) (auto intro: pauses_weaken progresses.cases [OF assms(2)])
  then show ?case by auto
qed

text \<open>Running a continuation, and mapping the result, in terms of the run of the code itself.\<close>

lemma run_prog_bind_Some:
  assumes "run_prog h p c = Some (a, c')"
  shows "run_prog h (prog_bind p k) c = run_prog h (k a) c'"
proof -
  have "run_prog h (prog_bind p k) c = run_prog h (k (fst y)) (snd y)" if "run_prog h p c = Some y" for h p c y
    using that
  proof (induction rule: run_prog.raw_induct [rotated, consumes 1, case_names attempt])
    case (attempt run h p c y)
    then show ?case by (cases p) (auto simp: bind_eq_Some_conv)
  qed
  then show ?thesis using assms by fastforce
qed

lemma prog_bind_Finish: "prog_bind p (\<lambda>a. Finish (f a)) = map_prog f p"
  by (coinduction arbitrary: p rule: prog.coinduct_strong)
    (auto simp: rel_fun_def split: prod.split prog.split)

lemma run_prog_map_Some:
  "run_prog h p c = Some (a, c') \<Longrightarrow> run_prog h (map_prog f p) c = Some (f a, c')"
  using run_prog_bind_Some [of h p c a c' "\<lambda>a. Finish (f a)"] by (simp add: prog_bind_Finish)

lemma progresses_map: "progresses p \<Longrightarrow> progresses (map_prog f p)"
  unfolding prog_bind_Finish [symmetric] by (rule progresses_bind) simp_all

text \<open>What every answer of a context keeps, a UDF call keeps, and a context that always answers lets
  every UDF that stops return.\<close>

locale udf_context =
  fixes handle :: "('c, 'd, 't) handler" and inv :: "'c \<Rightarrow> 'c \<Rightarrow> bool"
  assumes inv_refl: "inv c c"
    and inv_trans: "inv a b \<Longrightarrow> inv b c \<Longrightarrow> inv a c"
    and handle_inv: "handle call c = Some (r, c') \<Longrightarrow> inv c c'"
begin

lemma run_keeps:
  assumes "run_prog handle p c = Some (x, c')"
  shows "inv c c'"
proof -
  have "h = handle \<longrightarrow> inv c (snd y)" if "run_prog h p c = Some y" for h p y c
    using that
  proof (induction rule: run_prog.raw_induct [rotated, consumes 1, case_names attempt])
    case (attempt run h p c y)
    show ?case
    proof (cases p)
      case (Invoke call k)
      then obtain r c1 where "h call c = Some (r, c1)" and y: "run h (k r) c1 = Some y"
        using attempt.hyps by (auto simp: bind_eq_Some_conv)
      then show ?thesis using attempt.IH [OF y] handle_inv inv_trans by blast
    qed (use attempt.hyps inv_refl in auto)
  qed
  then show ?thesis using assms by fastforce
qed

end

text \<open>A context that always answers, on which every row given uses up some of a well-founded order.\<close>

locale answering_context =
  fixes handle :: "('c, 'd, 't) handler" and alive :: "'c \<Rightarrow> bool" and used kept :: "('c \<times> 'c) set"
  assumes answers: "alive c \<Longrightarrow> \<exists>r c'. handle call c = Some (r, c') \<and> alive c' \<and> (c', c) \<in> kept \<and>
      (next_row call r \<longrightarrow> (c', c) \<in> used)"
    and used_wf: "wf used" and used_kept: "(c2, c1) \<in> used \<Longrightarrow> (c1, c) \<in> kept \<Longrightarrow> (c2, c) \<in> used"
    and kept_refl: "(c, c) \<in> kept" and kept_trans: "(c2, c1) \<in> kept \<Longrightarrow> (c1, c) \<in> kept \<Longrightarrow> (c2, c) \<in> kept"
begin

lemma run_returns:
  assumes "progresses p" "alive c"
  shows "\<exists>x c'. run_prog handle p c = Some (x, c') \<and> alive c'"
  using used_wf assms
proof (induction c arbitrary: p rule: wf_induct_rule)
  case (less c)
  have "pauses progresses p" using less.prems(1) by (auto elim: progresses.cases)
  then have "\<exists>x c'. run_prog handle p c1 = Some (x, c') \<and> alive c'"
    if "(c1, c) \<in> kept" "alive c1" for c1
    using that
  proof (induction arbitrary: c1)
    case (invoke call k)
    obtain r c2 where r: "handle call c1 = Some (r, c2)" "alive c2" "(c2, c1) \<in> kept"
      "next_row call r \<longrightarrow> (c2, c1) \<in> used" using answers invoke.prems(2) by blast
    then have below: "(c2, c) \<in> kept" "next_row call r \<Longrightarrow> (c2, c) \<in> used"
      using invoke.prems(1) used_kept kept_trans by blast+
    show ?case
      using r below invoke.hyps invoke.IH [of r c2] less.IH [of c2 "k r"] by (cases "next_row call r") auto
  qed simp
  then show ?case using less.prems(2) kept_refl by simp
qed

end

end
