(* ===== verification/Bridge.thy ===== *)
theory Bridge
  imports Context
begin

text \<open>
  The three contexts the runtime hands to UDF code (\<open>exa-udf-runtime/src/rowset.rs\<close>): the bridge
  over one input group, the context of a single call and the context of the cleanup hook. What
  the bridge's closures reach - the wire to the database - is the state \<open>'s\<close> behind the field
  \<open>cx_chan\<close>. The interfaces of the machine (network interfaces, the connect-back driver, the log
  filter) are the fields of \<open>host_env\<close>.
\<close>

section \<open>Handshake metadata\<close>

definition input_type_of :: "iter_type \<Rightarrow> input_type" where
  "input_type_of it = (case it of ExactlyOnce \<Rightarrow> Scalar | Multiple \<Rightarrow> SetInput)"

definition output_type_of :: "iter_type \<Rightarrow> output_type" where
  "output_type_of it = (case it of ExactlyOnce \<Rightarrow> Returns | Multiple \<Rightarrow> Emits)"

record handshake_meta =
  hm_session_id :: nat
  hm_statement_id :: nat
  hm_node_id :: nat
  hm_node_count :: nat
  hm_vm_id :: nat
  hm_memory_limit :: nat
  hm_database_name :: string
  hm_database_version :: string
  hm_script_name :: string
  hm_script_schema :: string
  hm_current_user :: "string option"
  hm_current_schema :: "string option"
  hm_scope_user :: "string option"

definition handshake_meta_from :: "udf_meta \<Rightarrow> handshake_meta" where
  "handshake_meta_from meta = \<lparr>hm_session_id = um_session_id meta,
     hm_statement_id = um_statement_id meta, hm_node_id = um_node_id meta,
     hm_node_count = um_node_count meta, hm_vm_id = um_vm_id meta,
     hm_memory_limit = um_maximal_memory_limit meta, hm_database_name = um_database_name meta,
     hm_database_version = um_database_version meta, hm_script_name = um_script_name meta,
     hm_script_schema = um_script_schema meta, hm_current_user = um_current_user meta,
     hm_current_schema = um_current_schema meta, hm_scope_user = um_scope_user meta\<rparr>"

section \<open>The machine\<close>

text \<open>An interface of \<open>getifaddrs\<close>: its flags and its address, if any; the address of an \<open>AF_INET\<close>
  interface is the \<open>s_addr\<close> word, in network byte order.\<close>

datatype sockaddr = AfInet "32 word" | OtherFamily nat

record ifaddr =
  ifa_flags :: "32 word"
  ifa_addr :: "sockaddr option"

definition IFF_UP :: "32 word" where
  "IFF_UP = 1"

text \<open>\<open>u32::from_be\<close> on the little-endian targets of the container, and \<open>to_be_bytes\<close>.\<close>

definition byte_of :: "32 word \<Rightarrow> nat \<Rightarrow> nat" where
  "byte_of w i = unat w div 256 ^ i mod 256"

definition u32_of_bytes :: "nat \<Rightarrow> nat \<Rightarrow> nat \<Rightarrow> nat \<Rightarrow> 32 word" where
  "u32_of_bytes a b c d = of_nat (((a * 256 + b) * 256 + c) * 256 + d)"

definition from_be :: "32 word \<Rightarrow> 32 word" where
  "from_be w = u32_of_bytes (byte_of w 0) (byte_of w 1) (byte_of w 2) (byte_of w 3)"

definition to_be_bytes :: "32 word \<Rightarrow> nat list" where
  "to_be_bytes w = [byte_of w 3, byte_of w 2, byte_of w 1, byte_of w 0]"

definition ipv4_text :: "nat list \<Rightarrow> string" where
  "ipv4_text octets = show_nat (octets ! 0) @ ''.'' @ show_nat (octets ! 1) @ ''.'' @
     show_nat (octets ! 2) @ ''.'' @ show_nat (octets ! 3)"

fun walk_interfaces :: "ifaddr list \<Rightarrow> string option" where
  "walk_interfaces [] = None"
| "walk_interfaces (ifa # rest) =
     (if and (ifa_flags ifa) IFF_UP \<noteq> 0 then
        case ifa_addr ifa of
          Some (AfInet s_addr) \<Rightarrow>
            let octets = to_be_bytes (from_be s_addr) in
            if octets ! 0 \<noteq> 127 then Some (ipv4_text octets) else walk_interfaces rest
        | _ \<Rightarrow> walk_interfaces rest
      else walk_interfaces rest)"

definition first_nonloopback_ipv4 :: "(int, ifaddr list) result \<Rightarrow> (udf_error, string) result" where
  "first_nonloopback_ipv4 getifaddrs = (case getifaddrs of
      Inl rc \<Rightarrow> Err (ConnectBack (''getifaddrs failed with return code '' @ show_int rc))
    | Inr ifap \<Rightarrow> ok_or (ConnectBack ''no non-loopback IPv4 interface found'') (walk_interfaces ifap))"

record ('s, 'd, 't) host_env =
  he_prost :: prost
  he_ext :: "('d, 't) ext"
  he_dbg_data :: "arrow_data \<Rightarrow> string"
  he_dbg_type :: "exa_type \<Rightarrow> string"
  he_dbg_event :: "host_event \<Rightarrow> string" \<comment> \<open>the derived \<open>Debug\<close> text\<close>
  he_getifaddrs :: "'s \<Rightarrow> (int, ifaddr list) result \<times> 's"
  he_open_connection :: "conn_info \<Rightarrow> ('s, udf_error, unit) io"
  he_level_filter :: "'s \<Rightarrow> level option" \<comment> \<open>\<open>None\<close> is \<open>OFF\<close>\<close>

definition current_debug_level :: "('s, 'd, 't) host_env \<Rightarrow> 's \<Rightarrow> level" where
  "current_debug_level H s = unwrap_or LevelInfo (he_level_filter H s)"

section \<open>What the contexts share\<close>

record 's context_base =
  cx_chan :: 's
  cx_last_error :: "string option"
  cx_handshake :: handshake_meta
  cx_input_iter :: iter_type
  cx_output_iter :: iter_type

definition take_last_error :: "('s, 'z) context_base_scheme \<Rightarrow> string option \<times> ('s, 'z) context_base_scheme" where
  "take_last_error c = (cx_last_error c, c\<lparr>cx_last_error := None\<rparr>)"

definition record_error :: "string \<Rightarrow> ('s, 'z) context_base_scheme \<Rightarrow> ('s, 'z) context_base_scheme" where
  "record_error message c = c\<lparr>cx_last_error := Some message\<rparr>"

text \<open>\<open>if let Err(ref e) = result { self.record_error(e.to_string()) }\<close>.\<close>

definition record_failure :: "(udf_error, 'a) result \<Rightarrow> ('s, 'z) context_base_scheme \<Rightarrow>
    ('s, 'z) context_base_scheme" where
  "record_failure result c = (case result of Inl e \<Rightarrow> record_error (show_udf_error e) c | Inr _ \<Rightarrow> c)"

definition on_chan :: "('s, 'e, 'a) io \<Rightarrow> (('s, 'z) context_base_scheme, 'e, 'a) io" where
  "on_chan m c = map_option (\<lambda>(r, s). (r, c\<lparr>cx_chan := s\<rparr>)) (m (cx_chan c))"

text \<open>The macros \<open>delegate_handshake_meta\<close> and \<open>delegate_iter_types\<close>: \<open>None\<close> is a method they do
  not define.\<close>

definition delegate_handshake_meta :: "('s, 'd, 't) host_env \<Rightarrow> ('s, 'z) context_base_scheme \<Rightarrow>
    ('d, 't) ctx_call \<Rightarrow> ('d, 't) reply option" where
  "delegate_handshake_meta H c call = (let hm = cx_handshake c in case call of
      MemoryLimit \<Rightarrow> Some (RNat (hm_memory_limit hm))
    | SessionId \<Rightarrow> Some (RNat (hm_session_id hm))
    | StatementId \<Rightarrow> Some (RNat (hm_statement_id hm))
    | NodeId \<Rightarrow> Some (RNat (hm_node_id hm))
    | NodeCount \<Rightarrow> Some (RNat (hm_node_count hm))
    | VmId \<Rightarrow> Some (RNat (hm_vm_id hm))
    | DatabaseName \<Rightarrow> Some (RText (hm_database_name hm))
    | DatabaseVersion \<Rightarrow> Some (RText (hm_database_version hm))
    | ScriptName \<Rightarrow> Some (RText (hm_script_name hm))
    | ScriptSchema \<Rightarrow> Some (RText (hm_script_schema hm))
    | CurrentUser \<Rightarrow> Some (ROptText (hm_current_user hm))
    | CurrentSchema \<Rightarrow> Some (ROptText (hm_current_schema hm))
    | ScopeUser \<Rightarrow> Some (ROptText (hm_scope_user hm))
    | DebugLevel \<Rightarrow> Some (RLevel (current_debug_level H (cx_chan c)))
    | _ \<Rightarrow> None)"

definition delegate_iter_types :: "('s, 'z) context_base_scheme \<Rightarrow> ('d, 't) ctx_call \<Rightarrow>
    ('d, 't) reply option" where
  "delegate_iter_types c call = (case call of
      InputTypeOf \<Rightarrow> Some (RInputType (Some (input_type_of (cx_input_iter c))))
    | OutputTypeOf \<Rightarrow> Some (ROutputType (Some (output_type_of (cx_output_iter c))))
    | _ \<Rightarrow> None)"

definition connection_object_of :: "conn_info \<Rightarrow> connection_object" where
  "connection_object_of ci = \<lparr>co_kind = ci_kind ci, co_address = ci_address ci,
     co_user = ci_user ci, co_password = ci_password ci\<rparr>"

type_synonym 's requester = "string \<Rightarrow> ('s, udf_error, conn_info) io"

definition request_connection :: "'s requester \<Rightarrow> string \<Rightarrow> ('s, udf_error, connection_object) io" where
  "request_connection requester name =
     io_bind (requester name) (\<lambda>ci. io_return (connection_object_of ci))"

definition delegate_connection_lookup :: "'s requester \<Rightarrow> string \<Rightarrow>
    ('s, 'z) context_base_scheme \<Rightarrow> (('d, 't) reply \<times> ('s, 'z) context_base_scheme) option" where
  "delegate_connection_lookup requester name c =
     map_option (\<lambda>(result, c). (RConnection result, record_failure result c))
       (on_chan (request_connection requester name) c)"

definition open_connect_back :: "('s, 'd, 't) host_env \<Rightarrow> connection_object \<Rightarrow> ('s, udf_error, unit) io" where
  "open_connect_back H conn = he_open_connection H
     \<lparr>ci_kind = co_kind conn, ci_address = co_address conn, ci_user = co_user conn,
      ci_password = co_password conn\<rparr>"

definition cluster_ip :: "('s, 'd, 't) host_env \<Rightarrow> ('s, 'z) context_base_scheme \<Rightarrow>
    ('d, 't) reply \<times> ('s, 'z) context_base_scheme" where
  "cluster_ip H c = (case he_getifaddrs H (cx_chan c) of (ifs, s) \<Rightarrow>
     let result = first_nonloopback_ipv4 ifs
     in (RTextResult result, record_failure result (c\<lparr>cx_chan := s\<rparr>)))"

definition connect_back :: "('s, 'd, 't) host_env \<Rightarrow> connection_object \<Rightarrow>
    ('s, 'z) context_base_scheme \<Rightarrow> (('d, 't) reply \<times> ('s, 'z) context_base_scheme) option" where
  "connect_back H conn c =
     map_option (\<lambda>(result, c). (RSession result, record_failure result c))
       (on_chan (open_connect_back H conn) c)"

text \<open>What no method of a context overrides answers with the default of the trait.\<close>

definition answer :: "('d, 't) reply option \<Rightarrow> ('d, 't) ctx_call \<Rightarrow> 'c \<Rightarrow> (('d, 't) reply \<times> 'c) option" where
  "answer reply call c = Some (unwrap_or RPanic (or_else reply (trait_default call)), c)"

text \<open>The macro \<open>refuse_row_io\<close>.\<close>

definition refuse_row_io :: "string \<Rightarrow> string \<Rightarrow> string \<Rightarrow> ('d, 't) ctx_call \<Rightarrow> ('d, 't) reply option" where
  "refuse_row_io get_text emit_text next_text call = (case call of
      InputColumnCount \<Rightarrow> Some (RNat 0)
    | GetCell _ \<Rightarrow> Some (RCell (Err (Unimplemented get_text)))
    | EmitRow _ \<Rightarrow> Some (RUnit (Err (Unimplemented emit_text)))
    | NextRow \<Rightarrow> Some (RBool (Err (Unimplemented next_text)))
    | _ \<Rightarrow> None)"


section \<open>The bridge of an input group\<close>

record ('s, 'd, 't) bridge = "'s context_base" +
  br_input :: "('d, 't) input_row_set"
  br_emit_buf :: emit_buffer
  br_input_cols :: "column_info list"
  br_output_meta :: "column_info list"
  br_fetcher :: "('s, udf_error, table_data option) io"
  br_started :: bool
  br_flusher :: "emit_table \<Rightarrow> ('s, udf_error, unit) io"
  br_conn_requester :: "'s requester"

definition bridge_new :: "('d, 't) input_row_set \<Rightarrow> emit_buffer \<Rightarrow> column_info list \<Rightarrow>
    column_info list \<Rightarrow> (emit_table \<Rightarrow> ('s, udf_error, unit) io) \<Rightarrow> handshake_meta \<Rightarrow>
    's requester \<Rightarrow> 's \<Rightarrow> ('s, 'd, 't) bridge" where
  "bridge_new input emit_buf input_cols output_meta flusher handshake requester chan =
     \<lparr>cx_chan = chan, cx_last_error = None, cx_handshake = handshake, cx_input_iter = Multiple,
      cx_output_iter = Multiple, br_input = input, br_emit_buf = emit_buf,
      br_input_cols = input_cols, br_output_meta = output_meta,
      br_fetcher = io_return None, br_started = False, br_flusher = flusher,
      br_conn_requester = requester\<rparr>"

definition configure_group_input :: "iter_type \<Rightarrow> iter_type \<Rightarrow> ('s, udf_error, table_data option) io \<Rightarrow>
    ('s, 'd, 't) bridge \<Rightarrow> ('s, 'd, 't) bridge" where
  "configure_group_input input_iter output_iter fetcher b =
     b\<lparr>cx_input_iter := input_iter, cx_output_iter := output_iter, br_fetcher := fetcher\<rparr>"

definition reload_input :: "('d, 't) ext \<Rightarrow> table_data \<Rightarrow> (('s, 'd, 't) bridge, udf_error, unit) io" where
  "reload_input E table b = (let (r, input) = reload E table (br_input_cols b) (br_input b)
     in Some (r, b\<lparr>br_input := input\<rparr>))"

partial_function (option) refill :: "('d, 't) ext \<Rightarrow> ('s, 'd, 't) bridge \<Rightarrow>
    ((udf_error, bool) result \<times> ('s, 'd, 't) bridge) option" where
  "refill E b =
     io_bind (on_chan (br_fetcher b)) (\<lambda>fetched. case fetched of
         Some table \<Rightarrow> io_bind (reload_input E table) (\<lambda>_ b.
           if \<not> irs_is_empty (br_input b) then Some (Ok True, b) else refill E b)
       | None \<Rightarrow> io_return False) b"

definition advance_row :: "('d, 't) ext \<Rightarrow> (('s, 'd, 't) bridge, udf_error, bool) io" where
  "advance_row E b = (let (more, input) = advance (br_input b); b = b\<lparr>br_input := input\<rparr>
     in if more then Some (Ok True, b) else refill E b)"

text \<open>A panicking push unwinds before the row is counted; only code that catches the panic itself
  could see the buffer in between, so the panic leaves the state it found.\<close>

definition push_output_row :: "('s, 'd, 't) host_env \<Rightarrow> ('d, 't) sql_value list \<Rightarrow> ('s, 'd, 't) bridge \<Rightarrow>
    (('d, 't) reply \<times> ('s, 'd, 't) bridge) option" where
  "push_output_row H out b =
     (case check_output_row (he_ext H) out (br_output_meta b) of
        Inl e \<Rightarrow> Some (RUnit (Err e), b)
      | Inr out_cost \<Rightarrow>
          (case push_costed (he_prost H) (he_ext H) out (current_row_number (br_input b))
                  (br_output_meta b) out_cost (br_emit_buf b) of
             None \<Rightarrow> Some (RPanic, b)
           | Some buf \<Rightarrow>
               if should_flush buf then
                 let (send, buf) = flush (br_flusher b) buf
                 in map_option (\<lambda>(r, b). (RUnit r, b)) (on_chan send (b\<lparr>br_emit_buf := buf\<rparr>))
               else Some (RUnit (Ok ()), b\<lparr>br_emit_buf := buf\<rparr>)))"

definition emit_banned :: udf_error where
  "emit_banned = User ''emit() is not allowed in RETURNS output context; return the value instead''"

definition bridge_emit :: "('s, 'd, 't) host_env \<Rightarrow> ('d, 't) sql_value list \<Rightarrow> ('s, 'd, 't) bridge \<Rightarrow>
    (('d, 't) reply \<times> ('s, 'd, 't) bridge) option" where
  "bridge_emit H vals b = (if cx_output_iter b = ExactlyOnce then Some (RUnit (Err emit_banned), b)
     else push_output_row H vals b)"

definition bridge_set_return :: "('s, 'd, 't) host_env \<Rightarrow> ('d, 't) sql_value option \<Rightarrow> ('s, 'd, 't) bridge \<Rightarrow>
    (('d, 't) reply \<times> ('s, 'd, 't) bridge) option" where
  "bridge_set_return H v b = push_output_row H [unwrap_or VNull v] b"

definition bridge_emit_ffi :: "('s, 'd, 't) host_env \<Rightarrow> ffi_batch \<Rightarrow> ('s, 'd, 't) bridge \<Rightarrow>
    (('d, 't) reply \<times> ('s, 'd, 't) bridge) option" where
  "bridge_emit_ffi H ffi b =
     (if cx_output_iter b = ExactlyOnce then Some (RUnit (Err emit_banned), b)
      else if ffi_array_null ffi \<or> ffi_schema_null ffi
      then Some (RUnit (Err (TypeErr ''emit_batch: null C Data Interface pointer'')), b)
      else case ffi_import ffi of
        Inl e \<Rightarrow> Some (RUnit (Err (TypeErr (''emit_batch: FFI import: '' @ e))), b)
      | Inr batch \<Rightarrow>
          let row_number = current_row_number (br_input b)
          in map_option (\<lambda>(r, buf, s). (RUnit r, b\<lparr>br_emit_buf := buf, cx_chan := s\<rparr>))
               (push_batch (he_dbg_data H) (he_dbg_type H) (he_prost H) (he_ext H) batch
                 (br_output_meta b) row_number (br_flusher b) (br_emit_buf b) (cx_chan b)))"

definition bridge_next :: "('d, 't) ext \<Rightarrow> (('s, 'd, 't) bridge, udf_error, bool) io" where
  "bridge_next E b = (case cx_input_iter b of
      ExactlyOnce \<Rightarrow> Some (Err (User ''next() is not allowed in scalar context''), b)
    | Multiple \<Rightarrow>
        if \<not> br_started b then
          let b = b\<lparr>br_started := True\<rparr>
          in if \<not> irs_is_empty (br_input b) then Some (Ok True, b) else refill E b
        else
          let (more, input) = advance (br_input b); b = b\<lparr>br_input := input\<rparr>
          in if more then Some (Ok True, b) else refill E b)"

text \<open>Reading a cell slices the current row; a slice past the cells panics.\<close>

definition bridge_get :: "nat \<Rightarrow> ('s, 'd, 't) bridge \<Rightarrow> ('d, 't) reply" where
  "bridge_get col b = (case current_row (br_input b) of
      None \<Rightarrow> RPanic
    | Some r \<Rightarrow> RCell (ok_or (TypeErr (''column '' @ show_nat col @ '' out of range'')) (nth_opt r col)))"

definition bridge_call :: "('s, 'd, 't) host_env \<Rightarrow> (('s, 'd, 't) bridge, 'd, 't) handler" where
  "bridge_call H call b = (case call of
      InputColumnCount \<Rightarrow> Some (RNat (length (br_input_cols b)), b)
    | InputColumn idx \<Rightarrow> Some (RColumn (ok_or (TypeErr (''input column '' @ show_nat idx @ '' out of range''))
        (nth_opt (br_input_cols b) idx)), b)
    | OutputColumnCount \<Rightarrow> Some (RNat (length (br_output_meta b)), b)
    | OutputColumn idx \<Rightarrow> Some (RColumn (ok_or (TypeErr (''output column '' @ show_nat idx @ '' out of range''))
        (nth_opt (br_output_meta b) idx)), b)
    | GetCell col \<Rightarrow> Some (bridge_get col b, b)
    | EmitRow vals \<Rightarrow> bridge_emit H vals b
    | SetReturn v \<Rightarrow> bridge_set_return H v b
    | EmitRecordBatchFfi ffi \<Rightarrow> bridge_emit_ffi H ffi b
    | NextRow \<Rightarrow> map_option (\<lambda>(r, b). (RBool r, b)) (bridge_next (he_ext H) b)
    | RowsInGroup \<Rightarrow> Some (RNat (irs_rows_in_group (br_input b)), b)
    | ConnectionLookup name \<Rightarrow> delegate_connection_lookup (br_conn_requester b) name b
    | ClusterIp \<Rightarrow> Some (cluster_ip H b)
    | ConnectBackTo conn \<Rightarrow> connect_back H conn b
    | _ \<Rightarrow> answer (or_else (delegate_handshake_meta H b call) (delegate_iter_types b call)) call b)"

section \<open>The contexts without rows\<close>

record 's single_call_context = "'s context_base" +
  sc_conn_requester :: "'s requester"

definition single_call_context_new :: "handshake_meta \<Rightarrow> iter_type \<Rightarrow> iter_type \<Rightarrow> 's requester \<Rightarrow>
    's \<Rightarrow> 's single_call_context" where
  "single_call_context_new handshake input_iter output_iter requester chan =
     \<lparr>cx_chan = chan, cx_last_error = None, cx_handshake = handshake, cx_input_iter = input_iter,
      cx_output_iter = output_iter, sc_conn_requester = requester\<rparr>"

definition single_call_call :: "('s, 'd, 't) host_env \<Rightarrow> ('s single_call_context, 'd, 't) handler" where
  "single_call_call H call c = (case call of
      ConnectionLookup name \<Rightarrow> delegate_connection_lookup (sc_conn_requester c) name c
    | ClusterIp \<Rightarrow> Some (cluster_ip H c)
    | ConnectBackTo conn \<Rightarrow> connect_back H conn c
    | _ \<Rightarrow> answer (or_else (delegate_handshake_meta H c call) (or_else (delegate_iter_types c call)
        (refuse_row_io ''single-call mode has no input columns'' ''single-call mode does not emit rows''
          ''single-call mode has no input rows'' call))) call c)"

type_synonym 's cleanup_context = "'s context_base"

definition cleanup_context_new :: "handshake_meta \<Rightarrow> iter_type \<Rightarrow> iter_type \<Rightarrow> 's \<Rightarrow> 's cleanup_context" where
  "cleanup_context_new handshake input_iter output_iter chan =
     \<lparr>cx_chan = chan, cx_last_error = None, cx_handshake = handshake, cx_input_iter = input_iter,
      cx_output_iter = output_iter\<rparr>"

definition cleanup_context_from :: "udf_meta \<Rightarrow> 's \<Rightarrow> 's cleanup_context" where
  "cleanup_context_from meta chan = cleanup_context_new (handshake_meta_from meta) (um_input_iter meta)
     (um_output_iter meta) chan"

definition cleanup_connection :: "string \<Rightarrow> 's cleanup_context \<Rightarrow> ('d, 't) reply \<times> 's cleanup_context" where
  "cleanup_connection name c =
     (let refusal = Connection (''CONNECTION lookups are unavailable during cleanup: resolve '' @
            CHR 0x22 # name @ CHR 0x22 # '' in run() and keep it for cleanup'')
      in (RConnection (Err refusal), record_error (show_udf_error refusal) c))"

definition cleanup_call :: "('s, 'd, 't) host_env \<Rightarrow> ('s cleanup_context, 'd, 't) handler" where
  "cleanup_call H call c = (case call of
      ConnectionLookup name \<Rightarrow> Some (cleanup_connection name c)
    | ClusterIp \<Rightarrow> Some (cluster_ip H c)
    | ConnectBackTo conn \<Rightarrow> connect_back H conn c
    | _ \<Rightarrow> answer (or_else (delegate_handshake_meta H c call) (or_else (delegate_iter_types c call)
        (refuse_row_io ''cleanup has no input row to read''
          ''cleanup cannot emit rows: the database accepts no output after MT_CLEANUP''
          ''cleanup has no input rows'' call))) call c)"

end
