(* ===== verification/Loader.thy ===== *)
theory Loader
  imports Bridge
begin

text \<open>
  The loader (\<open>exa-udf-runtime/src/loader.rs\<close>), the vtable it reads (\<open>exasol-udf-sdk/src/abi.rs\<close>),
  the shims the \<open>#[exasol_udf]\<close> macro fills it with (\<open>exasol-udf-macros/src/lib.rs\<close>) and the
  cleanup hook's error folding (\<open>cleanup.rs\<close>). \<open>dlopen\<close> and the code of the shared object are
  foreign: a library is a table of symbols and the statics its code starts with, and a slot of
  the vtable is UDF code that runs on those statics.
\<close>

section \<open>Text across the boundary\<close>

text \<open>The sequence \<open>String::from_utf8_lossy\<close> looks at next: whether it is well formed, and its length.\<close>

definition byte_at :: "bytes \<Rightarrow> nat \<Rightarrow> nat" where
  "byte_at s i = (if i < length s then byte (s ! i) else 0)"

definition cont_at :: "bytes \<Rightarrow> nat \<Rightarrow> bool" where
  "cont_at s i = (128 \<le> byte_at s i \<and> byte_at s i < 192)"

definition utf8_chunk :: "bytes \<Rightarrow> bool \<times> nat" where
  "utf8_chunk s = (let a = byte_at s 0; b = byte_at s 1 in
     if a < 128 then (True, 1)
     else if 194 \<le> a \<and> a \<le> 223 then if cont_at s 1 then (True, 2) else (False, 1)
     else if 224 \<le> a \<and> a \<le> 239 then
       if \<not> (cont_at s 1 \<and> (a = 224 \<longrightarrow> 160 \<le> b) \<and> (a = 237 \<longrightarrow> b \<le> 159)) then (False, 1)
       else if cont_at s 2 then (True, 3) else (False, 2)
     else if 240 \<le> a \<and> a \<le> 244 then
       if \<not> (cont_at s 1 \<and> (a = 240 \<longrightarrow> 144 \<le> b) \<and> (a = 244 \<longrightarrow> b \<le> 143)) then (False, 1)
       else if \<not> cont_at s 2 then (False, 2)
       else if cont_at s 3 then (True, 4) else (False, 3)
     else (False, 1))"

definition REPLACEMENT :: bytes where
  "REPLACEMENT = [CHR 0xEF, CHR 0xBF, CHR 0xBD]"

function utf8_lossy :: "bytes \<Rightarrow> string" where
  "utf8_lossy s = (if s = [] then [] else
     (case utf8_chunk s of (ok, n) \<Rightarrow>
        (if ok then take n s else REPLACEMENT) @ utf8_lossy (drop n s)))"
  by auto
termination
  by (relation "measure length") (auto simp: utf8_chunk_def Let_def split: if_splits)

declare utf8_lossy.simps [simp del]

lemma utf8_lossy_Nil [simp]: "utf8_lossy [] = []"
  by (simp add: utf8_lossy.simps)

text \<open>Well-formed text crosses unchanged.\<close>

lemma utf8_chunk_valid:
  assumes "valid_utf8 (a # r)"
  shows "\<exists>n. utf8_chunk (a # r) = (True, n) \<and> 0 < n \<and> valid_utf8 (drop n (a # r))"
proof -
  have cont: "cont_byte c \<longleftrightarrow> 128 \<le> byte c \<and> byte c < 192" for c by (auto simp: cont_byte_def)
  consider "byte a < 128" | "194 \<le> byte a" "byte a \<le> 223" | "224 \<le> byte a" "byte a \<le> 239"
    | "240 \<le> byte a" "byte a \<le> 244"
    using assms by (auto split: if_splits)
  then show ?thesis
  proof cases
    case 1
    then have "utf8_chunk (a # r) = (True, 1)" by (simp add: utf8_chunk_def byte_at_def)
    then show ?thesis using 1 assms by simp
  next
    case 2
    then obtain b r1 where r: "r = b # r1" "cont_byte b" "valid_utf8 r1" using assms by (auto split: list.splits)
    then have "utf8_chunk (a # r) = (True, 2)"
      using 2 cont by (simp add: utf8_chunk_def byte_at_def cont_at_def Let_def)
    then show ?thesis using r by simp
  next
    case 3
    then obtain b c r1 where r: "r = b # c # r1" "cont_byte b" "cont_byte c" "valid_utf8 r1"
      "byte a = 224 \<longrightarrow> 160 \<le> byte b" "byte a = 237 \<longrightarrow> byte b \<le> 159"
      using assms by (auto split: list.splits)
    then have "utf8_chunk (a # r) = (True, 3)"
      using 3 cont by (simp add: utf8_chunk_def byte_at_def cont_at_def Let_def numeral_2_eq_2)
    then show ?thesis using r by simp
  next
    case 4
    then obtain b c d r1 where r: "r = b # c # d # r1" "cont_byte b" "cont_byte c" "cont_byte d"
      "valid_utf8 r1" "byte a = 240 \<longrightarrow> 144 \<le> byte b" "byte a = 244 \<longrightarrow> byte b \<le> 143"
      using assms by (auto split: list.splits)
    then have "utf8_chunk (a # r) = (True, 4)"
      using 4 cont
      by (simp add: utf8_chunk_def byte_at_def cont_at_def Let_def numeral_2_eq_2 numeral_3_eq_3)
    then show ?thesis using r by simp
  qed
qed

lemma utf8_lossy_valid: "valid_utf8 s \<Longrightarrow> utf8_lossy s = s"
proof (induction s rule: utf8_lossy.induct)
  case (1 s)
  show ?case
  proof (cases s)
    case (Cons a r)
    obtain n where n: "utf8_chunk s = (True, n)" "0 < n" "valid_utf8 (drop n s)"
      using utf8_chunk_valid 1(2) Cons by blast
    then have "utf8_lossy (drop n s) = drop n s" using 1(1) [OF _ n(1) [symmetric] n(3)] Cons by simp
    then show ?thesis using n(1) Cons by (subst utf8_lossy.simps) simp
  qed simp
qed

text \<open>\<open>write_c_string\<close>: interior NULs are replaced, so the text up to its terminator is all of it.\<close>

definition write_c_string :: "string \<Rightarrow> bytes" where
  "write_c_string text = concat (map (\<lambda>c. if c = CHR 0x00 then REPLACEMENT else [c]) text)"

definition take_c_string :: "bytes option \<Rightarrow> string" where
  "take_c_string ptr = (case ptr of None \<Rightarrow> [] | Some s \<Rightarrow> utf8_lossy s)"

definition c_str_opt :: "bytes option \<Rightarrow> string option" where
  "c_str_opt ptr = (case ptr of None \<Rightarrow> None | Some s \<Rightarrow> if valid_utf8 s then Some s else None)"

section \<open>The vtable\<close>

datatype output_shape = ShapeReturns | ShapeEmits

definition EXA_UDF_ABI_VERSION :: nat where
  "EXA_UDF_ABI_VERSION = 12"

text \<open>A call of a slot: the return code, the C string it wrote, if any, and the statics it leaves.\<close>

type_synonym 'u slot_end = "i32 \<times> bytes option \<times> 'u"

type_synonym ('d, 't, 'u) slot = "'u \<Rightarrow> ('d, 't, 'u slot_end) prog"

record ('d, 't, 'u) vtable =
  vt_abi_version :: nat
  vt_fingerprint :: bytes
  vt_run :: "('d, 't, 'u) slot"
  vt_cleanup :: "('d, 't, 'u) slot option"
  vt_default_output_columns :: "('u \<Rightarrow> 'u slot_end) option"
  vt_virtual_schema_adapter_call :: "(string \<Rightarrow> ('d, 't, 'u) slot) option"
  vt_generate_sql_for_import_spec :: "(string \<Rightarrow> ('d, 't, 'u) slot) option"
  vt_generate_sql_for_export_spec :: "(string \<Rightarrow> ('d, 't, 'u) slot) option"
  vt_annotated_input_schema :: "bytes option"
  vt_annotated_output_schema :: "bytes option"
  vt_output_shape :: output_shape

text \<open>A loaded object: an entry symbol that is absent, answers null, or answers a vtable.\<close>

record ('d, 't, 'u) shared_object =
  so_entry :: "string \<Rightarrow> ('d, 't, 'u) vtable option option"
  so_statics :: 'u

record ('d, 't, 'u) loaded_udf =
  lu_lib :: "('d, 't, 'u) shared_object"
  lu_vtable :: "('d, 't, 'u) vtable"

definition entry_symbol :: "string \<Rightarrow> string" where
  "entry_symbol script_name = ''__exa_udf_entry_'' @ script_name"

definition EM_DASH :: string where
  "EM_DASH = [CHR 0xE2, CHR 0x80, CHR 0x94]"

definition no_entry_point :: "string \<Rightarrow> string" where
  "no_entry_point script_name = ''no entry point found for script '' @ quoted script_name @
     '': the UDF .so exports no '' @ quoted (entry_symbol script_name) @
     '' symbol. The script name must match the UDF'' @ [CHR 0x27] @
     ''s exported entry '' @ EM_DASH @ '' a plain `fn run` exports `__exa_udf_entry_RUN`, and `#[exasol_udf(name = '' @
     [CHR 0x22] @ ''...'' @ [CHR 0x22] @ '')]` overrides it '' @ EM_DASH @ '' so rename the script or the function so they agree. '' @
     ''If the .so exports no `__exa_udf_entry_*` symbol at all, it predates entry-point naming: rebuild with sdk >= 0.14.0.''"

definition open_udf :: "(string \<Rightarrow> (string, ('d, 't, 'u) shared_object) result) \<Rightarrow> string \<Rightarrow> string \<Rightarrow>
    string \<Rightarrow> (runtime_error, ('d, 't, 'u) loaded_udf) result" where
  "open_udf dlopen sdk_fingerprint path script_name =
     (case dlopen path of
        Inl e \<Rightarrow> Err (LoaderErr e)
      | Inr lib \<Rightarrow>
          (case so_entry lib (entry_symbol script_name) of
             None \<Rightarrow> Err (LoaderErr (no_entry_point script_name))
           | Some None \<Rightarrow> Err (LoaderErr (entry_symbol script_name @ '' returned null''))
           | Some (Some vtable) \<Rightarrow>
               if vt_abi_version vtable \<noteq> EXA_UDF_ABI_VERSION
               then Err (AbiMismatch EXA_UDF_ABI_VERSION (vt_abi_version vtable))
               else
                 let so_fp = (if valid_utf8 (vt_fingerprint vtable) then vt_fingerprint vtable else []);
                     host_fp = trim_end_matches (CHR 0x00) (sdk_fingerprint @ [CHR 0x00])
                 in if so_fp \<noteq> host_fp then Err (FingerprintMismatch host_fp so_fp)
                    else Ok \<lparr>lu_lib = lib, lu_vtable = vtable\<rparr>))"

definition shape_name :: "output_shape \<Rightarrow> string" where
  "shape_name shape = (case shape of ShapeReturns \<Rightarrow> ''RETURNS'' | ShapeEmits \<Rightarrow> ''EMITS'')"

definition registered_shape :: "iter_type \<Rightarrow> output_shape" where
  "registered_shape output_iter = (case output_iter of
      ExactlyOnce \<Rightarrow> ShapeReturns | Multiple \<Rightarrow> ShapeEmits)"

definition validate_output_shape :: "('d, 't, 'u) vtable \<Rightarrow> iter_type \<Rightarrow> (runtime_error, unit) result" where
  "validate_output_shape vt output_iter =
     (let compiled = vt_output_shape vt; registered = registered_shape output_iter in
      if compiled \<noteq> registered
      then Err (OutputShapeMismatch (shape_name compiled) (shape_name registered))
      else Ok ())"

section \<open>Calling a slot\<close>

definition hook_error :: "i32 \<Rightarrow> string \<Rightarrow> string \<Rightarrow> runtime_error" where
  "hook_error rc text fallback =
     (if text = [] then Unexplained fallback
      else if rc = 1 then UdfErr text else Unexplained text)"

text \<open>The state of a call is the context and the statics of the shared object.\<close>

definition call_lifecycle_slot :: "('c, 'd, 't) handler \<Rightarrow> string \<Rightarrow> ('d, 't, 'u) slot \<Rightarrow>
    ('c \<times> 'u, runtime_error, unit) io" where
  "call_lifecycle_slot h slot_name slot cu = (case cu of (c, u) \<Rightarrow>
     map_option (\<lambda>((rc, error_out, u), c).
       (if rc = 0 then Ok ()
        else Err (hook_error rc (take_c_string error_out)
          (''UDF '' @ slot_name @ '' returned error code '' @ show_int (sint rc))), c, u))
       (run_prog h (slot u) c))"

definition run_udf_code :: "('c, 'd, 't) handler \<Rightarrow> ('d, 't, 'u) vtable \<Rightarrow>
    ('c \<times> 'u, runtime_error, unit) io" where
  "run_udf_code h vt = call_lifecycle_slot h ''run'' (vt_run vt)"

definition cleanup_udf :: "('c, 'd, 't) handler \<Rightarrow> ('d, 't, 'u) vtable \<Rightarrow>
    ('c \<times> 'u, runtime_error, unit) io option" where
  "cleanup_udf h vt = map_option (call_lifecycle_slot h ''cleanup'') (vt_cleanup vt)"

definition hook_failure :: "string \<Rightarrow> i32 \<Rightarrow> bytes option \<Rightarrow> (runtime_error, string) result" where
  "hook_failure name rc out =
     (if rc \<noteq> 0 then Err (hook_error rc (take_c_string out)
        (''single-call hook '' @ name @ '' returned error code '' @ show_int (sint rc)))
      else Ok (take_c_string out))"

definition call_noarg_hook :: "string \<Rightarrow> ('u \<Rightarrow> 'u slot_end) \<Rightarrow> 'u \<Rightarrow>
    (runtime_error, string) result \<times> 'u" where
  "call_noarg_hook name hook u = (case hook u of (rc, out, u) \<Rightarrow> (hook_failure name rc out, u))"

definition call_ctx_arg_hook :: "('c, 'd, 't) handler \<Rightarrow> string \<Rightarrow> string \<Rightarrow> (string \<Rightarrow> ('d, 't, 'u) slot) \<Rightarrow>
    ('c \<times> 'u, runtime_error, string) io" where
  "call_ctx_arg_hook h name arg hook cu =
     (if CHR 0x00 \<in> set arg then Some (Err (UdfErr (name @ '': argument contains interior NUL'')), cu)
      else case cu of (c, u) \<Rightarrow>
        map_option (\<lambda>((rc, out, u), c). (hook_failure name rc out, c, u)) (run_prog h (hook arg u) c))"

definition annotated_input_schema :: "('d, 't, 'u) vtable \<Rightarrow> string option" where
  "annotated_input_schema vt = c_str_opt (vt_annotated_input_schema vt)"

definition annotated_output_schema :: "('d, 't, 'u) vtable \<Rightarrow> string option" where
  "annotated_output_schema vt = c_str_opt (vt_annotated_output_schema vt)"

section \<open>The macro's shims\<close>

text \<open>What the author's function ends with: its \<open>Result\<close>, or a panic.\<close>

datatype 'a ending = Returned "(udf_error, 'a) result" | Panicked

definition lifecycle_end :: "unit ending \<times> 'u \<Rightarrow> 'u slot_end" where
  "lifecycle_end x = (case x of
      (Returned (Inr _), u) \<Rightarrow> (0, None, u)
    | (Returned (Inl e), u) \<Rightarrow> (1, Some (write_c_string (show_udf_error e)), u)
    | (Panicked, u) \<Rightarrow> (2, None, u))"

definition lifecycle_shim :: "('u \<Rightarrow> ('d, 't, unit ending \<times> 'u) prog) \<Rightarrow> ('d, 't, 'u) slot" where
  "lifecycle_shim call_body u = map_prog lifecycle_end (call_body u)"

text \<open>The RETURNS body threads the returned value through \<open>set_return\<close>.\<close>

definition set_return_ending :: "('d, 't) reply \<Rightarrow> unit ending" where
  "set_return_ending r = (case r of RUnit result \<Rightarrow> Returned result | _ \<Rightarrow> Panicked)"

definition returns_body :: "('a \<Rightarrow> ('d, 't) host_value) \<Rightarrow>
    ('u \<Rightarrow> ('d, 't, 'a option ending \<times> 'u) prog) \<Rightarrow> 'u \<Rightarrow> ('d, 't, unit ending \<times> 'u) prog" where
  "returns_body host f u = prog_bind (f u) (\<lambda>(e, u). case e of
      Panicked \<Rightarrow> Finish (Panicked, u)
    | Returned (Inl err) \<Rightarrow> Finish (Returned (Err err), u)
    | Returned (Inr ret) \<Rightarrow>
        Invoke (SetReturn (map_option (into_value \<circ> host) ret)) (\<lambda>r. Finish (set_return_ending r, u)))"

definition ctx_hook_end :: "string \<Rightarrow> string ending \<times> 'u \<Rightarrow> 'u slot_end" where
  "ctx_hook_end hook_name x = (case x of
      (Returned (Inr s), u) \<Rightarrow> (0, Some (write_c_string s), u)
    | (Returned (Inl e), u) \<Rightarrow> (1, Some (write_c_string (show_udf_error e)), u)
    | (Panicked, u) \<Rightarrow> (2, Some (write_c_string (hook_name @ '' panicked'')), u))"

definition ctx_hook_shim :: "string \<Rightarrow> (string \<Rightarrow> 'u \<Rightarrow> ('d, 't, string ending \<times> 'u) prog) \<Rightarrow>
    string \<Rightarrow> ('d, 't, 'u) slot" where
  "ctx_hook_shim hook_name hook_fn json_arg u =
     (let json = (if valid_utf8 json_arg then json_arg else [])
      in map_prog (ctx_hook_end hook_name) (hook_fn json u))"

section \<open>The cleanup hook\<close>

definition message_of :: "runtime_error \<Rightarrow> string" where
  "message_of e = (case e of UdfErr text \<Rightarrow> text | Unexplained text \<Rightarrow> text
     | other \<Rightarrow> show_runtime_error other)"

definition fold_errors :: "(runtime_error, unit) result \<Rightarrow> runtime_error \<Rightarrow> (runtime_error, unit) result" where
  "fold_errors outcome cleanup = (case outcome of
      Inr _ \<Rightarrow> Err cleanup
    | Inl original \<Rightarrow> Err (UdfErr (message_of original @ '' (cleanup also failed: '' @
        message_of cleanup @ '')'')))"

text \<open>The hook runs on a cleanup context over the channel, whose state it may change only through
  the machine's interfaces.\<close>

definition run_hook :: "('s, 'd, 't) host_env \<Rightarrow> ('d, 't, 'u) vtable \<Rightarrow> udf_meta \<Rightarrow>
    (runtime_error, unit) result \<Rightarrow> ('s \<times> 'u, runtime_error, unit) io" where
  "run_hook H vt meta outcome su = (case su of (s, u) \<Rightarrow>
     let ctx = cleanup_context_from meta s in
     (case cleanup_udf (cleanup_call H) vt of
        None \<Rightarrow> Some (outcome, su)
      | Some hook \<Rightarrow>
          map_option (\<lambda>(r, ctx, u). case r of
              Inr _ \<Rightarrow> (outcome, cx_chan ctx, u)
            | Inl e \<Rightarrow> (let (detail, ctx) = take_last_error ctx
                in (fold_errors outcome (with_recorded_detail detail e), cx_chan ctx, u)))
            (hook (ctx, u))))"

end
