(* ===== verification/Json_Text.thy ===== *)
theory Json_Text
  imports Text
begin

text \<open>
  A JSON value and its compact text, with a parser that reads the text back. It is the concrete
  library in which the payload theorems are instantiated; the program's own JSON library is a
  parameter of its model.
\<close>

datatype json_value =
    JNull
  | JBool bool
  | JNum nat
  | JStr string
  | JArr "json_value list"
  | JObj "(string \<times> json_value) list"

abbreviation QUOTE :: char where
  "QUOTE \<equiv> CHR 0x22"

abbreviation BACKSLASH :: char where
  "BACKSLASH \<equiv> CHR 0x5C"

section \<open>Strings\<close>

definition escape :: "string \<Rightarrow> string" where
  "escape s = concat (map (\<lambda>c. if c = QUOTE \<or> c = BACKSLASH then [BACKSLASH, c] else [c]) s)"

fun read_string :: "string \<Rightarrow> (string \<times> string) option" where
  "read_string [] = None"
| "read_string (c # cs) =
     (if c = QUOTE then Some ([], cs)
      else if c = BACKSLASH then
        (case cs of [] \<Rightarrow> None | d # ds \<Rightarrow> map_option (\<lambda>(s, r). (d # s, r)) (read_string ds))
      else map_option (\<lambda>(s, r). (c # s, r)) (read_string cs))"

lemma read_escaped [simp]: "read_string (escape s @ QUOTE # rest) = Some (s, rest)"
  by (induction s) (auto simp: escape_def)

section \<open>Printing\<close>

fun join :: "string list \<Rightarrow> string" where
  "join [] = []"
| "join [x] = x"
| "join (x # y # xs) = x @ CHR '','' # join (y # xs)"

fun print_json :: "json_value \<Rightarrow> string" where
  "print_json JNull = ''null''"
| "print_json (JBool b) = (if b then ''true'' else ''false'')"
| "print_json (JNum n) = show_nat n"
| "print_json (JStr s) = QUOTE # escape s @ [QUOTE]"
| "print_json (JArr vs) = CHR ''['' # join (map print_json vs) @ '']''"
| "print_json (JObj kvs) = CHR ''{'' # join (map (\<lambda>(k, v). QUOTE # escape k @ QUOTE # CHR '':'' # print_json v) kvs) @ ''}''"

section \<open>Parsing\<close>

fun read_digits :: "string \<Rightarrow> string \<times> string" where
  "read_digits [] = ([], [])"
| "read_digits (c # cs) = (if is_digit c then (case read_digits cs of (ds, r) \<Rightarrow> (c # ds, r)) else ([], c # cs))"

lemma read_digits_append:
  "list_all is_digit ds \<Longrightarrow> (rest = [] \<or> \<not> is_digit (hd rest)) \<Longrightarrow> read_digits (ds @ rest) = (ds, rest)"
proof (induction ds)
  case Nil
  then show ?case by (cases rest) auto
qed auto

fun read_value :: "nat \<Rightarrow> string \<Rightarrow> (json_value \<times> string) option"
  and read_elements :: "nat \<Rightarrow> string \<Rightarrow> (json_value list \<times> string) option"
  and read_members :: "nat \<Rightarrow> string \<Rightarrow> ((string \<times> json_value) list \<times> string) option" where
  "read_value 0 s = None"
| "read_value (Suc n) s = (case s of
      [] \<Rightarrow> None
    | c # cs \<Rightarrow>
        if c = CHR ''n'' then map_option (Pair JNull) (strip_prefix s ''null'')
        else if c = CHR ''t'' then map_option (Pair (JBool True)) (strip_prefix s ''true'')
        else if c = CHR ''f'' then map_option (Pair (JBool False)) (strip_prefix s ''false'')
        else if c = QUOTE then map_option (\<lambda>(t, r). (JStr t, r)) (read_string cs)
        else if c = CHR ''['' then
          (if cs \<noteq> [] \<and> hd cs = CHR '']'' then Some (JArr [], tl cs)
           else map_option (\<lambda>(vs, r). (JArr vs, r)) (read_elements n cs))
        else if c = CHR ''{'' then
          (if cs \<noteq> [] \<and> hd cs = CHR ''}'' then Some (JObj [], tl cs)
           else map_option (\<lambda>(kvs, r). (JObj kvs, r)) (read_members n cs))
        else if is_digit c then (case read_digits s of (ds, r) \<Rightarrow> Some (JNum (digits_val ds), r))
        else None)"
| "read_elements 0 s = None"
| "read_elements (Suc n) s = Option.bind (read_value n s) (\<lambda>(v, r). case r of
      [] \<Rightarrow> None
    | c # cs \<Rightarrow>
        if c = CHR '','' then map_option (\<lambda>(vs, r). (v # vs, r)) (read_elements n cs)
        else if c = CHR '']'' then Some ([v], cs) else None)"
| "read_members 0 s = None"
| "read_members (Suc n) s = (case s of
      [] \<Rightarrow> None
    | q # s \<Rightarrow>
        if q \<noteq> QUOTE then None
        else Option.bind (read_string s) (\<lambda>(k, r). case r of
            [] \<Rightarrow> None
          | c # cs \<Rightarrow>
              if c \<noteq> CHR '':'' then None
              else Option.bind (read_value n cs) (\<lambda>(v, r). case r of
                  [] \<Rightarrow> None
                | c # cs \<Rightarrow>
                    if c = CHR '','' then map_option (\<lambda>(kvs, r). ((k, v) # kvs, r)) (read_members n cs)
                    else if c = CHR ''}'' then Some ([(k, v)], cs) else None)))"

definition parse_json :: "string \<Rightarrow> (string, json_value) result" where
  "parse_json s = (case read_value (Suc (length s)) s of
      Some (v, []) \<Rightarrow> Ok v
    | _ \<Rightarrow> Err ''expected value'')"

section \<open>The text is read back\<close>

definition ends_value :: "string \<Rightarrow> bool" where
  "ends_value rest = (rest = [] \<or> \<not> is_digit (hd rest))"

definition reads_back :: "json_value \<Rightarrow> bool" where
  "reads_back v \<longleftrightarrow> (\<forall>n rest. length (print_json v) \<le> n \<and> ends_value rest \<longrightarrow>
     read_value n (print_json v @ rest) = Some (v, rest))"

lemma ends_value_simps [simp]: "ends_value []" "ends_value (CHR '','' # r)" "ends_value (CHR '']'' # r)"
  "ends_value (CHR ''}'' # r)"
  by (simp_all add: ends_value_def is_digit_def)

lemma print_json_nonempty: "print_json v \<noteq> []"
  by (cases v) (auto simp: show_nat_nonempty)

lemma read_elements_join:
  assumes "vs \<noteq> []" "\<And>v. v \<in> set vs \<Longrightarrow> reads_back v" "length (join (map print_json vs)) < n"
  shows "read_elements n (join (map print_json vs) @ CHR '']'' # rest) = Some (vs, rest)"
  using assms
proof (induction vs arbitrary: n rule: induct_list012)
  case (2 v)
  then show ?case by (cases n) (auto simp: reads_back_def)
next
  case (3 v w vs)
  then obtain m where n: "n = Suc m" by (cases n) auto
  have "read_value m (print_json v @ CHR '','' # join (map print_json (w # vs)) @ CHR '']'' # rest) =
      Some (v, CHR '','' # join (map print_json (w # vs)) @ CHR '']'' # rest)"
    using 3(4) [of v] 3(5) n by (auto simp: reads_back_def)
  then show ?case using 3(2) [of m] 3(4,5) n by auto
qed simp

lemma read_members_join:
  assumes "kvs \<noteq> []" "\<And>k v. (k, v) \<in> set kvs \<Longrightarrow> reads_back v"
    "length (join (map (\<lambda>(k, v). QUOTE # escape k @ QUOTE # CHR '':'' # print_json v) kvs)) < n"
  shows "read_members n (join (map (\<lambda>(k, v). QUOTE # escape k @ QUOTE # CHR '':'' # print_json v) kvs) @
    CHR ''}'' # rest) = Some (kvs, rest)"
  using assms
proof (induction kvs arbitrary: n rule: induct_list012)
  case (2 kv)
  obtain k v where "kv = (k, v)" by force
  then show ?case using 2 by (cases n) (auto simp: reads_back_def)
next
  case (3 kv lw kvs)
  let ?text = "join (map (\<lambda>(k, v). QUOTE # escape k @ QUOTE # CHR '':'' # print_json v) (lw # kvs)) @ CHR ''}'' # rest"
  obtain k v where kv: "kv = (k, v)" by force
  obtain m where n: "n = Suc m" using 3(5) by (cases n) auto
  have "read_value m (print_json v @ CHR '','' # ?text) = Some (v, CHR '','' # ?text)"
    using 3(4) [of k v] 3(5) n kv by (auto simp: reads_back_def)
  then show ?case using 3(2) [of m] 3(4,5) n kv by auto
qed simp

lemma join_head: "v \<noteq> [] \<Longrightarrow> \<exists>r. join (v # vs) = hd v # r"
  by (cases vs; cases v) auto

lemma print_json_head: "hd (print_json v) \<noteq> CHR '']''"
proof (cases v)
  case (JNum n)
  then show ?thesis using show_nat_digits [of n] show_nat_nonempty [of n]
    by (cases "show_nat n") (auto simp: is_digit_def)
qed auto

lemma json_reads_back: "reads_back v"
proof (induction v)
  case (JNum n)
  obtain c cs where s: "show_nat n = c # cs" "is_digit c"
    using show_nat_digits [of n] show_nat_nonempty [of n] by (cases "show_nat n") auto
  have c: "c \<noteq> CHR ''n''" "c \<noteq> CHR ''t''" "c \<noteq> CHR ''f''" "c \<noteq> QUOTE" "c \<noteq> CHR ''[''" "c \<noteq> CHR ''{''"
    using s(2) by (auto simp: is_digit_def)
  show ?case
    unfolding reads_back_def
  proof (intro allI impI, elim conjE)
    fix m rest
    assume m: "length (print_json (JNum n)) \<le> m" and "ends_value rest"
    then have "read_digits (show_nat n @ rest) = (show_nat n, rest)"
      using show_nat_digits [of n] by (simp add: read_digits_append ends_value_def)
    then show "read_value m (print_json (JNum n) @ rest) = Some (JNum n, rest)"
      using m s c by (cases m) (auto simp: digits_val_show_nat [of n, unfolded s])
  qed
next
  case (JArr vs)
  have "join (map print_json vs) \<noteq> [] \<and> hd (join (map print_json vs)) \<noteq> CHR '']''" if "vs \<noteq> []"
    using join_head [OF print_json_nonempty [of "hd vs"], of "map print_json (tl vs)"] that
      print_json_head [of "hd vs"]
    by (cases vs) auto
  then show ?case
    unfolding reads_back_def
    by (intro allI impI, rename_tac n rest, case_tac n; cases "vs = []")
      (use JArr read_elements_join [of vs] in \<open>auto simp: hd_append\<close>)
next
  case (JObj kvs)
  let ?text = "join (map (\<lambda>(k, v). QUOTE # escape k @ QUOTE # CHR '':'' # print_json v) kvs)"
  have mem: "reads_back v" if "(k, v) \<in> set kvs" for k v using JObj [of "(k, v)" v] that by auto
  show ?case
  proof (cases "kvs = []")
    case True
    then show ?thesis
      unfolding reads_back_def by (intro allI impI, rename_tac n rest, case_tac n) auto
  next
    case False
    then obtain r where head: "?text = QUOTE # r"
      using join_head [of "QUOTE # escape (fst (hd kvs)) @ QUOTE # CHR '':'' # print_json (snd (hd kvs))"
          "map (\<lambda>(k, v). QUOTE # escape k @ QUOTE # CHR '':'' # print_json v) (tl kvs)"]
      by (cases kvs) auto
    have members: "read_members n (?text @ CHR ''}'' # rest) = Some (kvs, rest)" if "length ?text < n" for n rest
      by (rule read_members_join [OF False mem that])
    show ?thesis
      unfolding reads_back_def
    proof (intro allI impI, elim conjE)
      fix n rest
      assume n: "length (print_json (JObj kvs)) \<le> n"
      then obtain m where m: "n = Suc m" by (cases n) auto
      then have "read_members m (QUOTE # r @ CHR ''}'' # rest) = Some (kvs, rest)"
        using members [of m rest] n unfolding head by (simp add: head)
      then show "read_value n (print_json (JObj kvs) @ rest) = Some (JObj kvs, rest)"
        unfolding m by (simp add: head)
    qed
  qed
next
  case (JBool b)
  then show ?case
    unfolding reads_back_def
    by (intro allI impI, rename_tac n rest, case_tac n; cases b) (auto simp: strip_prefix_def)
next
  case (JStr t)
  then show ?case
    unfolding reads_back_def by (intro allI impI, rename_tac n rest, case_tac n) auto
next
  case JNull
  then show ?case
    unfolding reads_back_def
    by (intro allI impI, rename_tac n rest, case_tac n) (auto simp: strip_prefix_def)
qed

lemma parse_print_json: "parse_json (print_json v) = Ok v"
proof -
  have "read_value (Suc (length (print_json v))) (print_json v @ []) = Some (v, [])"
    using json_reads_back [of v] unfolding reads_back_def by (metis ends_value_simps(1) le_SucI order_refl)
  then show ?thesis by (simp add: parse_json_def del: read_value.simps)
qed

end
