(* ===== verification/Payloads.thy ===== *)
theory Payloads
  imports Loader Json_Text
begin

text \<open>
  The text a session carries besides rows: the script directives (\<open>artifact.rs\<close>), the schema
  annotation the macro embeds (\<open>exasol-udf-macros\<close>) and its check (\<open>schema_check.rs\<close>), and the
  specification payloads of the single-call hooks (\<open>spec_json.rs\<close>, \<open>exasol-udf-sdk/src/spec.rs\<close>).
  JSON is the \<open>serde_json\<close> crate's: its value type is \<open>'j\<close> and its operations are the fields of
  the record \<open>serde\<close>; what the code relies on is the locale \<open>json\<close>.
\<close>

section \<open>Script directives\<close>

fun find_udf_object :: "string list \<Rightarrow> string option" where
  "find_udf_object [] = None"
| "find_udf_object (line # rest) =
     (case strip_prefix (trim line) ''%udf_object'' of
        Some arg \<Rightarrow>
          let path = trim (trim_end_matches (CHR '';'') (trim arg))
          in if path \<noteq> [] then Some path else find_udf_object rest
      | None \<Rightarrow> find_udf_object rest)"

definition parse_udf_object_path :: "string \<Rightarrow> string option" where
  "parse_udf_object_path source = find_udf_object (lines source)"

text \<open>A path of printable characters, not ended by a semicolon, is read back from its directive.\<close>

definition object_path :: "string \<Rightarrow> bool" where
  "object_path path \<longleftrightarrow> list_all visible path \<and> path \<noteq> [] \<and> last path \<noteq> CHR '';''"

lemma object_path_read:
  assumes "object_path path"
  shows "parse_udf_object_path (''%udf_object '' @ path) = Some path"
proof -
  obtain c p where c: "path = c # p" "visible c" using assms by (cases path) (auto simp: object_path_def)
  obtain q d where d: "path = q @ [d]" "visible d" "d \<noteq> CHR '';''" using assms by (cases path rule: rev_cases) (auto simp: object_path_def)
  have "\<not> visible (char_of (10 :: nat))" by (simp add: visible_def byte_def)
  then have "char_of (10 :: nat) \<notin> set path" using assms by (auto simp: object_path_def list_all_iff)
  then have "lines (''%udf_object '' @ path) = [''%udf_object '' @ path]" by (intro lines_single) (auto simp: char_of_byte byte_def)
  moreover have "trim (''%udf_object '' @ path) = ''%udf_object '' @ path"
  proof -
    have "visible (CHR ''%'')" by (simp add: visible_def byte_def)
    then have "trim_start (''%udf_object '' @ path) = ''%udf_object '' @ path" by (simp add: trim_start_visible)
    then show ?thesis using trim_end_visible [OF d(2), of "''%udf_object '' @ q"] d(1) by (simp add: trim_def)
  qed
  moreover have "trim_start (CHR '' '' # path) = path" "trim_start path = path" "trim_end path = path"
    by (simp_all only: c(1) trim_start_space [OF c(2)] trim_start_visible [OF c(2)])
      (simp only: c(1) [symmetric] d(1) trim_end_visible [OF d(2)])
  moreover from this have "trim (CHR '' '' # path) = path" "trim path = path" by (simp_all add: trim_def)
  moreover have "trim_end_matches (CHR '';'') path = path" using d(1,3) by (simp add: trim_end_matches_def)
  moreover have "strip_prefix (''%udf_object '' @ path) ''%udf_object'' = Some (CHR '' '' # path)" by (simp add: strip_prefix_def)
  ultimately show ?thesis using assms by (simp add: object_path_def parse_udf_object_path_def)
qed

definition level_of_token :: "string \<Rightarrow> level" where
  "level_of_token lower = (if lower = ''debug'' then LevelDebug else if lower = ''info'' then LevelInfo
     else if lower = ''warn'' then LevelWarn else if lower = ''error'' then LevelError
     else LevelInfo)"

fun find_debug_level :: "string list \<Rightarrow> level" where
  "find_debug_level [] = LevelInfo"
| "find_debug_level (line # rest) =
     (case strip_prefix (trim line) ''%udf_debug_level'' of
        Some arg \<Rightarrow>
          let token = trim (trim_end_matches (CHR '';'') (trim arg))
          in level_of_token (to_ascii_lowercase token)
      | None \<Rightarrow> find_debug_level rest)"

definition parse_debug_level :: "string \<Rightarrow> level" where
  "parse_debug_level source = find_debug_level (lines source)"

text \<open>A script can set its level but never more than debug output.\<close>

lemma level_of_token_no_trace: "level_of_token t \<noteq> LevelTrace"
  by (simp add: level_of_token_def)

lemma find_debug_level_no_trace: "find_debug_level ls \<noteq> LevelTrace"
  by (induction ls) (auto simp: level_of_token_no_trace Let_def split: option.split)

lemma find_udf_object_nonempty: "find_udf_object ls \<noteq> Some []"
  by (induction ls) (auto simp: Let_def split: option.split if_splits)

section \<open>JSON\<close>

record 'j serde =
  js_from_str :: "string \<Rightarrow> (string, 'j) result"
  js_to_string :: "'j \<Rightarrow> string"
  js_null :: 'j
  js_bool :: "bool \<Rightarrow> 'j"
  js_u32 :: "nat \<Rightarrow> 'j"
  js_string :: "string \<Rightarrow> 'j"
  js_array :: "'j list \<Rightarrow> 'j"
  js_object :: "(string \<times> 'j) list \<Rightarrow> 'j"
  js_as_array :: "'j \<Rightarrow> 'j list option"
  js_as_str :: "'j \<Rightarrow> string option"
  js_as_bool :: "'j \<Rightarrow> bool option"
  js_as_u32 :: "'j \<Rightarrow> nat option"
  js_is_null :: "'j \<Rightarrow> bool"
  js_get :: "string \<Rightarrow> 'j \<Rightarrow> 'j option"

definition js_option :: "'j serde \<Rightarrow> ('a \<Rightarrow> 'j) \<Rightarrow> 'a option \<Rightarrow> 'j" where
  "js_option J f x = (case x of None \<Rightarrow> js_null J | Some a \<Rightarrow> f a)"

text \<open>Documented behaviour of the crate: values are what they were built from, an object answers
  by key, and the printed text of a value parses back to it.\<close>

locale json =
  fixes J :: "'j serde"
  assumes parse_print: "js_from_str J (js_to_string J v) = Ok v"
    and array [simp]: "js_as_array J (js_array J vs) = Some vs"
    and str [simp]: "js_as_str J (js_string J s) = Some s"
    and bool [simp]: "js_as_bool J (js_bool J b) = Some b"
    and u32 [simp]: "js_as_u32 J (js_u32 J n) = Some n"
    and nullness [simp]: "js_is_null J (js_null J)" "\<not> js_is_null J (js_string J s)"
      "\<not> js_is_null J (js_u32 J n)" "\<not> js_is_null J (js_object J kvs)"
    and get [simp]: "js_get J k (js_object J kvs) = map_of kvs k"

section \<open>Specifications\<close>

definition credentials :: "'j serde \<Rightarrow> connection_information_rep option \<Rightarrow> 'j" where
  "credentials J conn = (case conn of
      Some conn \<Rightarrow> js_object J [(''kind'', js_string J (cir_kind conn)),
        (''address'', js_string J (cir_address conn)), (''user'', js_string J (cir_user conn)),
        (''password'', js_string J (cir_password conn))]
    | None \<Rightarrow> js_null J)"

definition parameters :: "'j serde \<Rightarrow> key_value_pair list \<Rightarrow> 'j" where
  "parameters J pairs = js_array J (map (\<lambda>pair. js_object J
     [(''key'', js_string J (kv_key pair)), (''value'', js_string J (kv_value pair))]) pairs)"

definition column_type_name :: "column_type \<Rightarrow> string" where
  "column_type_name t = (case t of PbUnsupported \<Rightarrow> ''PB_UNSUPPORTED'' | PbDouble \<Rightarrow> ''PB_DOUBLE''
     | PbInt32 \<Rightarrow> ''PB_INT32'' | PbInt64 \<Rightarrow> ''PB_INT64'' | PbNumeric \<Rightarrow> ''PB_NUMERIC''
     | PbTimestamp \<Rightarrow> ''PB_TIMESTAMP'' | PbDate \<Rightarrow> ''PB_DATE'' | PbString \<Rightarrow> ''PB_STRING''
     | PbBoolean \<Rightarrow> ''PB_BOOLEAN'')"

definition spec_column :: "'j serde \<Rightarrow> column_definition \<Rightarrow> 'j" where
  "spec_column J d = js_object J [(''name'', js_string J (cd_name d)),
     (''type'', js_option J (js_string J)
        (map_option column_type_name (Option.bind (cd_type d) column_type_try_from))),
     (''type_name'', js_string J (cd_type_name d)), (''size'', js_option J (js_u32 J) (cd_size d)),
     (''precision'', js_option J (js_u32 J) (cd_precision d)),
     (''scale'', js_option J (js_u32 J) (cd_scale d))]"

definition serialize_import :: "'j serde \<Rightarrow> import_specification_rep \<Rightarrow> string" where
  "serialize_import J spec = js_to_string J (js_object J
     [(''is_subselect'', js_bool J (is_is_subselect spec)),
      (''connection_information'', credentials J (is_connection_information spec)),
      (''connection_name'', js_option J (js_string J) (is_connection_name spec)),
      (''subselect_column_specification'',
         js_array J (map (spec_column J) (is_subselect_column_specification spec))),
      (''parameters'', parameters J (is_parameters spec))])"

definition serialize_export :: "'j serde \<Rightarrow> export_specification_rep \<Rightarrow> string" where
  "serialize_export J spec = js_to_string J (js_object J
     [(''has_truncate'', js_bool J (es_has_truncate spec)),
      (''has_replace'', js_bool J (es_has_replace spec)),
      (''created_by'', js_option J (js_string J) (es_created_by spec)),
      (''source_column_names'', js_array J (map (js_string J) (es_source_column_names spec))),
      (''connection_information'', credentials J (es_connection_information spec)),
      (''connection_name'', js_option J (js_string J) (es_connection_name spec)),
      (''parameters'', parameters J (es_parameters spec))])"

text \<open>The deserializers the \<open>Deserialize\<close> derive gives the SDK's views: a field must be present and
  of its type, an \<open>Option\<close> field may be null or absent, other fields are ignored.\<close>

definition de_field :: "'j serde \<Rightarrow> ('j \<Rightarrow> 'a option) \<Rightarrow> string \<Rightarrow> 'j \<Rightarrow> 'a option" where
  "de_field J de k v = Option.bind (js_get J k v) de"

definition de_option :: "'j serde \<Rightarrow> ('j \<Rightarrow> 'a option) \<Rightarrow> string \<Rightarrow> 'j \<Rightarrow> 'a option option" where
  "de_option J de k v = (case js_get J k v of
      None \<Rightarrow> Some None
    | Some f \<Rightarrow> if js_is_null J f then Some None else map_option Some (de f))"

definition de_list :: "'j serde \<Rightarrow> ('j \<Rightarrow> 'a option) \<Rightarrow> 'j \<Rightarrow> 'a list option" where
  "de_list J de v = Option.bind (js_as_array J v) (\<lambda>vs. all_some (map de vs))"

record spec_parameter =
  sp_key :: string
  sp_value :: string

record sdk_column =
  sd_name :: string
  sd_type :: "string option"
  sd_type_name :: string
  sd_size :: "nat option"
  sd_precision :: "nat option"
  sd_scale :: "nat option"

record import_spec =
  im_is_subselect :: bool
  im_connection_information :: "connection_object option"
  im_connection_name :: "string option"
  im_subselect_column_specification :: "sdk_column list"
  im_parameters :: "spec_parameter list"

record export_spec =
  ex_has_truncate :: bool
  ex_has_replace :: bool
  ex_created_by :: "string option"
  ex_source_column_names :: "string list"
  ex_connection_information :: "connection_object option"
  ex_connection_name :: "string option"
  ex_parameters :: "spec_parameter list"

definition de_parameter :: "'j serde \<Rightarrow> 'j \<Rightarrow> spec_parameter option" where
  "de_parameter J v =
     Option.bind (de_field J (js_as_str J) ''key'' v) (\<lambda>k.
     Option.bind (de_field J (js_as_str J) ''value'' v) (\<lambda>x. Some \<lparr>sp_key = k, sp_value = x\<rparr>))"

definition de_column :: "'j serde \<Rightarrow> 'j \<Rightarrow> sdk_column option" where
  "de_column J v =
     Option.bind (de_field J (js_as_str J) ''name'' v) (\<lambda>name.
     Option.bind (de_option J (js_as_str J) ''type'' v) (\<lambda>typ.
     Option.bind (de_field J (js_as_str J) ''type_name'' v) (\<lambda>type_name.
     Option.bind (de_option J (js_as_u32 J) ''size'' v) (\<lambda>sz.
     Option.bind (de_option J (js_as_u32 J) ''precision'' v) (\<lambda>precision.
     Option.bind (de_option J (js_as_u32 J) ''scale'' v) (\<lambda>scale.
     Some \<lparr>sd_name = name, sd_type = typ, sd_type_name = type_name, sd_size = sz,
       sd_precision = precision, sd_scale = scale\<rparr>))))))"

definition de_connection :: "'j serde \<Rightarrow> 'j \<Rightarrow> connection_object option" where
  "de_connection J v =
     Option.bind (de_field J (js_as_str J) ''kind'' v) (\<lambda>kind.
     Option.bind (de_field J (js_as_str J) ''address'' v) (\<lambda>address.
     Option.bind (de_field J (js_as_str J) ''user'' v) (\<lambda>user.
     Option.bind (de_field J (js_as_str J) ''password'' v) (\<lambda>password.
     Some \<lparr>co_kind = kind, co_address = address, co_user = user, co_password = password\<rparr>))))"

definition de_import :: "'j serde \<Rightarrow> 'j \<Rightarrow> import_spec option" where
  "de_import J v =
     Option.bind (de_field J (js_as_bool J) ''is_subselect'' v) (\<lambda>sub.
     Option.bind (de_option J (de_connection J) ''connection_information'' v) (\<lambda>info.
     Option.bind (de_option J (js_as_str J) ''connection_name'' v) (\<lambda>name.
     Option.bind (de_field J (de_list J (de_column J)) ''subselect_column_specification'' v) (\<lambda>cols.
     Option.bind (de_field J (de_list J (de_parameter J)) ''parameters'' v) (\<lambda>params.
     Some \<lparr>im_is_subselect = sub, im_connection_information = info, im_connection_name = name,
       im_subselect_column_specification = cols, im_parameters = params\<rparr>)))))"

definition de_export :: "'j serde \<Rightarrow> 'j \<Rightarrow> export_spec option" where
  "de_export J v =
     Option.bind (de_field J (js_as_bool J) ''has_truncate'' v) (\<lambda>truncate.
     Option.bind (de_field J (js_as_bool J) ''has_replace'' v) (\<lambda>replace.
     Option.bind (de_option J (js_as_str J) ''created_by'' v) (\<lambda>created.
     Option.bind (de_field J (de_list J (js_as_str J)) ''source_column_names'' v) (\<lambda>names.
     Option.bind (de_option J (de_connection J) ''connection_information'' v) (\<lambda>info.
     Option.bind (de_option J (js_as_str J) ''connection_name'' v) (\<lambda>name.
     Option.bind (de_field J (de_list J (de_parameter J)) ''parameters'' v) (\<lambda>params.
     Some \<lparr>ex_has_truncate = truncate, ex_has_replace = replace, ex_created_by = created,
       ex_source_column_names = names, ex_connection_information = info, ex_connection_name = name,
       ex_parameters = params\<rparr>)))))))"

text \<open>The error text of a derived deserializer is the crate's.\<close>

definition import_from_json :: "'j serde \<Rightarrow> ('j \<Rightarrow> string) \<Rightarrow> string \<Rightarrow> (udf_error, import_spec) result" where
  "import_from_json J de_error text =
     map_err (\<lambda>e. TypeErr (''parsing the IMPORT specification: '' @ e))
       (rbind (js_from_str J text) (\<lambda>v. ok_or (de_error v) (de_import J v)))"

definition export_from_json :: "'j serde \<Rightarrow> ('j \<Rightarrow> string) \<Rightarrow> string \<Rightarrow> (udf_error, export_spec) result" where
  "export_from_json J de_error text =
     map_err (\<lambda>e. TypeErr (''parsing the EXPORT specification: '' @ e))
       (rbind (js_from_str J text) (\<lambda>v. ok_or (de_error v) (de_export J v)))"

text \<open>The view a specification should be read back as.\<close>

definition connection_of_rep :: "connection_information_rep \<Rightarrow> connection_object" where
  "connection_of_rep r = \<lparr>co_kind = cir_kind r, co_address = cir_address r, co_user = cir_user r,
     co_password = cir_password r\<rparr>"

definition parameter_of_pair :: "key_value_pair \<Rightarrow> spec_parameter" where
  "parameter_of_pair p = \<lparr>sp_key = kv_key p, sp_value = kv_value p\<rparr>"

definition sdk_column_of :: "column_definition \<Rightarrow> sdk_column" where
  "sdk_column_of d = \<lparr>sd_name = cd_name d,
     sd_type = map_option column_type_name (Option.bind (cd_type d) column_type_try_from),
     sd_type_name = cd_type_name d, sd_size = cd_size d, sd_precision = cd_precision d,
     sd_scale = cd_scale d\<rparr>"

definition import_view :: "import_specification_rep \<Rightarrow> import_spec" where
  "import_view s = \<lparr>im_is_subselect = is_is_subselect s,
     im_connection_information = map_option connection_of_rep (is_connection_information s),
     im_connection_name = is_connection_name s,
     im_subselect_column_specification = map sdk_column_of (is_subselect_column_specification s),
     im_parameters = map parameter_of_pair (is_parameters s)\<rparr>"

definition export_view :: "export_specification_rep \<Rightarrow> export_spec" where
  "export_view s = \<lparr>ex_has_truncate = es_has_truncate s, ex_has_replace = es_has_replace s,
     ex_created_by = es_created_by s, ex_source_column_names = es_source_column_names s,
     ex_connection_information = map_option connection_of_rep (es_connection_information s),
     ex_connection_name = es_connection_name s, ex_parameters = map parameter_of_pair (es_parameters s)\<rparr>"

lemma all_some_map: "(\<And>x. x \<in> set xs \<Longrightarrow> f x = Some (g x)) \<Longrightarrow> all_some (map f xs) = Some (map g xs)"
  by (induction xs) auto

context json
begin

lemma de_option_object:
  assumes "map_of kvs k = Some (js_option J f x)" "\<And>a. \<not> js_is_null J (f a)" "\<And>a. de (f a) = Some (g a)"
  shows "de_option J de k (js_object J kvs) = Some (map_option g x)"
  using assms by (cases x) (simp_all add: de_option_def js_option_def)

lemma credentials_option: "credentials J c = js_option J (\<lambda>c. js_object J [(''kind'', js_string J (cir_kind c)),
    (''address'', js_string J (cir_address c)), (''user'', js_string J (cir_user c)),
    (''password'', js_string J (cir_password c))]) c"
  by (simp add: credentials_def js_option_def split: option.split)

lemma de_parameters: "de_list J (de_parameter J) (parameters J ps) = Some (map parameter_of_pair ps)"
proof -
  have "de_parameter J (js_object J [(''key'', js_string J (kv_key p)), (''value'', js_string J (kv_value p))]) =
      Some (parameter_of_pair p)" for p
    by (simp add: de_parameter_def de_field_def parameter_of_pair_def)
  then show ?thesis by (simp add: de_list_def parameters_def all_some_map o_def)
qed

lemma de_strings: "de_list J (js_as_str J) (js_array J (map (js_string J) ss)) = Some ss"
  using all_some_map [of ss "js_as_str J \<circ> js_string J" id] by (simp add: de_list_def o_def)

lemma de_connection_credentials:
  "de_connection J (js_object J [(''kind'', js_string J (cir_kind c)), (''address'', js_string J (cir_address c)),
     (''user'', js_string J (cir_user c)), (''password'', js_string J (cir_password c))]) =
   Some (connection_of_rep c)"
  by (simp add: de_connection_def de_field_def connection_of_rep_def)

lemma de_column_spec: "de_column J (spec_column J d) = Some (sdk_column_of d)"
  unfolding de_column_def spec_column_def
  by (simp add: de_field_def sdk_column_of_def
      de_option_object [where f = "js_string J" and g = id] de_option_object [where f = "js_u32 J" and g = id]
      option.map_id [unfolded id_def] id_def)

lemma import_roundtrip: "import_from_json J err (serialize_import J s) = Ok (import_view s)"
proof -
  have cols: "de_list J (de_column J) (js_array J (map (spec_column J) ds)) = Some (map sdk_column_of ds)" for ds
    by (simp add: de_list_def de_column_spec all_some_map o_def)
  show ?thesis
    unfolding import_from_json_def serialize_import_def parse_print
    by (simp add: de_import_def de_field_def cols de_parameters import_view_def ok_or_def credentials_option
        de_option_object [where f = "js_string J" and g = id]
        de_option_object [where de = "de_connection J" and g = connection_of_rep] de_connection_credentials
        option.map_id [unfolded id_def] id_def)
qed

lemma export_roundtrip: "export_from_json J err (serialize_export J s) = Ok (export_view s)"
  unfolding export_from_json_def serialize_export_def parse_print
  by (simp add: de_export_def de_field_def de_strings de_parameters export_view_def ok_or_def credentials_option
      de_option_object [where f = "js_string J" and g = id]
      de_option_object [where de = "de_connection J" and g = connection_of_rep] de_connection_credentials
      option.map_id [unfolded id_def] id_def)

end

section \<open>A concrete library\<close>

definition json_values :: "json_value serde" where
  "json_values = \<lparr>js_from_str = parse_json, js_to_string = print_json, js_null = JNull,
     js_bool = JBool, js_u32 = JNum, js_string = JStr, js_array = JArr, js_object = JObj,
     js_as_array = (\<lambda>v. case v of JArr vs \<Rightarrow> Some vs | _ \<Rightarrow> None),
     js_as_str = (\<lambda>v. case v of JStr s \<Rightarrow> Some s | _ \<Rightarrow> None),
     js_as_bool = (\<lambda>v. case v of JBool b \<Rightarrow> Some b | _ \<Rightarrow> None),
     js_as_u32 = (\<lambda>v. case v of JNum n \<Rightarrow> Some n | _ \<Rightarrow> None),
     js_is_null = (\<lambda>v. case v of JNull \<Rightarrow> True | _ \<Rightarrow> False),
     js_get = (\<lambda>k v. case v of JObj kvs \<Rightarrow> map_of kvs k | _ \<Rightarrow> None)\<rparr>"

interpretation json_values: json json_values
  by unfold_locales (simp_all add: json_values_def parse_print_json)

section \<open>The annotated schema\<close>

text \<open>The types the macro tells apart: a path by its last segment (with its generic arguments, of
  which a lifetime is \<open>None\<close>), a reference, or other tokens by their text.\<close>

datatype rust_type =
    TyPath "path_segment list"
  | TyRef rust_type
  | TyOther string
and path_segment = Segment (seg_ident: string) (seg_args: "rust_type option list option")

fun type_token_string :: "rust_type \<Rightarrow> string" where
  "type_token_string (TyPath segments) = (if segments = [] then [] else seg_ident (last segments))"
| "type_token_string (TyRef elem) = CHR ''&'' # type_token_string elem"
| "type_token_string (TyOther text) = filter (\<lambda>c. c \<noteq> CHR '' '') text"

definition rust_type_to_exatype :: "rust_type \<Rightarrow> (string, string) result" where
  "rust_type_to_exatype ty = (let name = type_token_string ty in
     if name = ''i32'' then Ok ''Int32'' else if name = ''i64'' then Ok ''Int64''
     else if name = ''f64'' then Ok ''Double'' else if name = ''f32'' then Ok ''Double''
     else if name = ''bool'' then Ok ''Boolean'' else if name = ''String'' then Ok ''String''
     else if name = ''&str'' \<or> name = ''str'' then Ok ''String''
     else if name = ''Decimal'' then Ok ''Numeric'' else if name = ''NaiveDate'' then Ok ''Date''
     else if name = ''NaiveDateTime'' then Ok ''Timestamp''
     else Err (''unknown ExaType for '' @ name))"

record schema_field =
  sf_name :: string
  sf_ty :: rust_type

definition schema_entry :: "string \<Rightarrow> string \<Rightarrow> string" where
  "schema_entry name exatype = CHR ''{'' # QUOTE # ''name'' @ QUOTE # CHR '':'' # QUOTE # name @
     QUOTE # CHR '','' # QUOTE # ''type'' @ QUOTE # CHR '':'' # QUOTE # exatype @ QUOTE # ''}''"

fun schema_entries :: "schema_field list \<Rightarrow> (string, string list) result" where
  "schema_entries [] = Ok []"
| "schema_entries (f # fs) = rbind (rust_type_to_exatype (sf_ty f)) (\<lambda>exatype.
     rbind (schema_entries fs) (\<lambda>es. Ok (schema_entry (sf_name f) exatype # es)))"

definition schema_json :: "schema_field list \<Rightarrow> (string, string) result" where
  "schema_json entries = rbind (schema_entries entries) (\<lambda>texts.
     Ok (CHR ''['' # join texts @ CHR '']'' # [CHR 0x00]))"

section \<open>The check of an annotated schema\<close>

record annotated_field =
  af_name :: string
  af_typ :: string

definition exatype_name :: "exa_type \<Rightarrow> string" where
  "exatype_name typ = (case typ of TInt32 \<Rightarrow> ''Int32'' | TInt64 \<Rightarrow> ''Int64'' | TNumeric _ _ \<Rightarrow> ''Numeric''
     | TDouble \<Rightarrow> ''Double'' | TBoolean \<Rightarrow> ''Boolean'' | TDate \<Rightarrow> ''Date''
     | TTimestamp _ \<Rightarrow> ''Timestamp'' | TString _ \<Rightarrow> ''String'' | TChar _ \<Rightarrow> ''String''
     | TUnsupported \<Rightarrow> ''Unsupported'')"

fun parse_entries :: "'j serde \<Rightarrow> string \<Rightarrow> 'j list \<Rightarrow> (runtime_error, annotated_field list) result" where
  "parse_entries J side [] = Ok []"
| "parse_entries J side (entry # rest) =
     rbind (ok_or (UdfErr (''annotated '' @ side @ '' schema entry missing `name`''))
         (Option.bind (js_get J ''name'' entry) (js_as_str J))) (\<lambda>name.
     rbind (ok_or (UdfErr (''annotated '' @ side @ '' schema entry missing `type`''))
         (Option.bind (js_get J ''type'' entry) (js_as_str J))) (\<lambda>typ.
     rbind (parse_entries J side rest) (\<lambda>entries.
       Ok (\<lparr>af_name = name, af_typ = typ\<rparr> # entries))))"

definition parse_schema :: "'j serde \<Rightarrow> string \<Rightarrow> string \<Rightarrow> (runtime_error, annotated_field list) result" where
  "parse_schema J side text =
     rbind (map_err (\<lambda>e. UdfErr (''invalid annotated '' @ side @ '' schema JSON: '' @ e)) (js_from_str J text))
       (\<lambda>v. rbind (ok_or (UdfErr (''annotated '' @ side @ '' schema is not a JSON array'')) (js_as_array J v))
         (parse_entries J side))"

definition backquoted :: "string \<Rightarrow> string" where
  "backquoted s = CHR 0x60 # s @ [CHR 0x60]"

fun compare_columns :: "string \<Rightarrow> nat \<Rightarrow> annotated_field list \<Rightarrow> column_info list \<Rightarrow>
    (runtime_error, unit) result" where
  "compare_columns side idx (field # entries) (col # cols) =
     (if af_name field \<noteq> ci_name col then
        Err (UdfErr (''annotated '' @ side @ '' column '' @ show_nat idx @ '' is named '' @
          backquoted (af_name field) @ '' but the database supplied '' @ backquoted (ci_name col)))
      else
        let expected = exatype_name (ci_typ col) in
        if af_typ field \<noteq> expected then
          Err (UdfErr (''annotated '' @ side @ '' column '' @ backquoted (af_name field) @ '' is typed '' @
            backquoted (af_typ field) @ '' but the database supplied '' @ backquoted expected))
        else compare_columns side (idx + 1) entries cols)"
| "compare_columns side idx _ _ = Ok ()"

definition validate_one :: "'j serde \<Rightarrow> string \<Rightarrow> string \<Rightarrow> column_info list \<Rightarrow> (runtime_error, unit) result" where
  "validate_one J side text columns =
     rbind (parse_schema J side text) (\<lambda>annotated.
       if length annotated \<noteq> length columns then
         Err (UdfErr (''annotated '' @ side @ '' schema has '' @ show_nat (length annotated) @
           '' column(s) but the database supplied '' @ show_nat (length columns)))
       else compare_columns side 0 annotated columns)"

definition validate_schema :: "'j serde \<Rightarrow> ('d, 't, 'u) vtable \<Rightarrow> udf_meta \<Rightarrow> (runtime_error, unit) result" where
  "validate_schema J vt meta =
     rbind (case annotated_input_schema vt of Some text \<Rightarrow> validate_one J ''input'' text (um_input_columns meta)
              | None \<Rightarrow> Ok ())
       (\<lambda>_. case annotated_output_schema vt of
          Some text \<Rightarrow> validate_one J ''output'' text (um_output_columns meta) | None \<Rightarrow> Ok ())"

section \<open>The macro and the check agree\<close>

text \<open>An identifier needs no escaping in JSON.\<close>

definition plain :: "string \<Rightarrow> bool" where
  "plain s = list_all (\<lambda>c. c \<noteq> QUOTE \<and> c \<noteq> BACKSLASH) s"

lemma escape_plain [simp]: "plain s \<Longrightarrow> escape s = s"
  by (induction s) (auto simp: plain_def escape_def)

text \<open>Documented JSON syntax: the macro's text is an array of objects.\<close>

locale json_syntax = json J for J :: "'j serde" +
  assumes schema_text: "list_all (\<lambda>(name, typ). plain name \<and> plain typ) fs \<Longrightarrow>
    js_from_str J (CHR ''['' # join (map (\<lambda>(name, typ). schema_entry name typ) fs) @ '']'') =
      Ok (js_array J (map (\<lambda>(name, typ). js_object J [(''name'', js_string J name), (''type'', js_string J typ)]) fs))"
begin

lemma parse_entries_objects:
  "parse_entries J side (map (\<lambda>(name, typ). js_object J [(''name'', js_string J name), (''type'', js_string J typ)]) fs) =
    Ok (map (\<lambda>(name, typ). \<lparr>af_name = name, af_typ = typ\<rparr>) fs)"
  by (induction fs) (auto simp: ok_or_def)

lemma compare_columns_Ok:
  "length fs = length cols \<Longrightarrow> compare_columns side i (map (\<lambda>(name, typ). \<lparr>af_name = name, af_typ = typ\<rparr>) fs) cols = Ok () \<longleftrightarrow>
    fs = map (\<lambda>c. (ci_name c, exatype_name (ci_typ c))) cols"
  by (induction fs cols arbitrary: i rule: list_induct2) (auto simp: Let_def split: if_splits)

lemma schema_entries_Ok:
  "schema_entries entries = Ok es \<longleftrightarrow> (\<exists>ts. list_all2 (\<lambda>f t. rust_type_to_exatype (sf_ty f) = Ok t) entries ts \<and>
    es = map2 (\<lambda>f t. schema_entry (sf_name f) t) entries ts)"
proof (induction entries arbitrary: es)
  case (Cons f entries)
  have "(\<exists>ts. list_all2 (\<lambda>f t. rust_type_to_exatype (sf_ty f) = Ok t) (f # entries) ts \<and>
        es = map2 (\<lambda>f t. schema_entry (sf_name f) t) (f # entries) ts) \<longleftrightarrow>
      (\<exists>t us. rust_type_to_exatype (sf_ty f) = Ok t \<and> schema_entries entries = Ok us \<and>
        es = schema_entry (sf_name f) t # us)"
    unfolding Cons.IH list_all2_Cons1 by fastforce
  then show ?case
    by (cases "rust_type_to_exatype (sf_ty f)"; cases "schema_entries entries") (auto simp: rbind_def)
qed auto

lemma exatype_plain: "rust_type_to_exatype ty = Ok t \<Longrightarrow> plain t"
  by (simp add: rust_type_to_exatype_def Let_def split: if_splits) (erule subst, simp add: plain_def)+

lemma annotated_schema_accepts:
  assumes "schema_json entries = Ok (text @ [CHR 0x00])" "list_all (plain \<circ> sf_name) entries"
  shows "validate_one J side text columns = Ok () \<longleftrightarrow>
    list_all2 (\<lambda>f c. sf_name f = ci_name c \<and> rust_type_to_exatype (sf_ty f) = Ok (exatype_name (ci_typ c)))
      entries columns"
proof -
  obtain es where "schema_entries entries = Ok es" and json_text: "text = CHR ''['' # join es @ '']''"
    using assms(1) by (cases "schema_entries entries") (auto simp: schema_json_def)
  then obtain ts where ts: "list_all2 (\<lambda>f t. rust_type_to_exatype (sf_ty f) = Ok t) entries ts"
    and es: "es = map2 (\<lambda>f t. schema_entry (sf_name f) t) entries ts"
    unfolding schema_entries_Ok by blast
  let ?fs = "zip (map sf_name entries) ts"
  have len: "length entries = length ts" using ts by (rule list_all2_lengthD)
  have "es = map (\<lambda>(name, typ). schema_entry name typ) ?fs"
    unfolding es by (simp add: zip_map1 o_def split_def)
  moreover have "list_all (\<lambda>(name, typ). plain name \<and> plain typ) ?fs"
    using assms(2) ts len by (auto simp: list_all_length list_all2_conv_all_nth exatype_plain)
  ultimately have parsed: "parse_schema J side text = Ok (map (\<lambda>(name, typ). \<lparr>af_name = name, af_typ = typ\<rparr>) ?fs)"
    by (simp add: parse_schema_def json_text schema_text parse_entries_objects ok_or_def)
  have "validate_one J side text columns = Ok () \<longleftrightarrow>
      length entries = length columns \<and> ?fs = map (\<lambda>c. (ci_name c, exatype_name (ci_typ c))) columns"
    using compare_columns_Ok [of ?fs columns side 0] len by (auto simp: validate_one_def parsed)
  also have "\<dots> \<longleftrightarrow> list_all2 (\<lambda>f c. sf_name f = ci_name c \<and>
      rust_type_to_exatype (sf_ty f) = Ok (exatype_name (ci_typ c))) entries columns"
    using ts len by (auto simp: list_all2_conv_all_nth list_eq_iff_nth_eq)
  finally show ?thesis .
qed

end

lemma schema_text_printed:
  assumes "list_all (\<lambda>(name, typ). plain name \<and> plain typ) fs"
  shows "CHR ''['' # join (map (\<lambda>(name, typ). schema_entry name typ) fs) @ '']'' =
    print_json (JArr (map (\<lambda>(name, typ). JObj [(''name'', JStr name), (''type'', JStr typ)]) fs))"
proof -
  have entry: "schema_entry n ty = print_json (JObj [(''name'', JStr n), (''type'', JStr ty)])"
    if "plain n" "plain ty" for n ty
    using that by (simp add: schema_entry_def escape_def [of "''name''"] escape_def [of "''type''"])
  have "map (\<lambda>(name, typ). schema_entry name typ) fs =
      map print_json (map (\<lambda>(name, typ). JObj [(''name'', JStr name), (''type'', JStr typ)]) fs)"
    using assms by (auto simp: list_all_iff entry simp del: print_json.simps)
  then show ?thesis by (simp only: print_json.simps)
qed

interpretation json_values: json_syntax json_values
proof unfold_locales
  fix fs :: "(string \<times> string) list"
  assume plain: "list_all (\<lambda>(name, typ). plain name \<and> plain typ) fs"
  show "js_from_str json_values (CHR ''['' # join (map (\<lambda>(name, typ). schema_entry name typ) fs) @ '']'') =
      Ok (js_array json_values (map (\<lambda>(name, typ). js_object json_values
        [(''name'', js_string json_values name), (''type'', js_string json_values typ)]) fs))"
    unfolding schema_text_printed [OF plain] by (simp add: json_values_def parse_print_json case_prod_unfold del: print_json.simps)
qed

section \<open>The macro's output\<close>

fun first_type :: "rust_type option list \<Rightarrow> rust_type option" where
  "first_type [] = None"
| "first_type (Some t # args) = Some t"
| "first_type (None # args) = first_type args"

definition last_path_segment :: "rust_type \<Rightarrow> path_segment option" where
  "last_path_segment ty = (case ty of TyPath segments \<Rightarrow> (if segments = [] then None else Some (last segments))
     | _ \<Rightarrow> None)"

definition result_ok_type :: "rust_type \<Rightarrow> rust_type option" where
  "result_ok_type ty = Option.bind (last_path_segment ty) (\<lambda>seg.
     if seg_ident seg \<noteq> ''Result'' then None
     else Option.bind (seg_args seg) first_type)"

definition is_option_type :: "rust_type \<Rightarrow> bool" where
  "is_option_type ty = (case last_path_segment ty of Some s \<Rightarrow> seg_ident s = ''Option'' | None \<Rightarrow> False)"

definition derive_output_shape :: "rust_type option \<Rightarrow> output_shape" where
  "derive_output_shape output = (case Option.bind output result_ok_type of
      Some ok_ty \<Rightarrow> if is_option_type ok_ty then ShapeReturns else ShapeEmits
    | None \<Rightarrow> ShapeEmits)"

text \<open>The annotations, as the sections the parser reads in order: a later one replaces an earlier.\<close>

datatype 'p annotation_section =
    NameSection string
  | InputSection "schema_field list"
  | EmitsSection "schema_field list"
  | VsAdapterSection 'p
  | ImportSpecSection 'p
  | ExportSpecSection 'p
  | CleanupSection 'p
  | OtherSection string

record 'p annotations =
  an_input :: "schema_field list option"
  an_emits :: "schema_field list option"
  an_vs_adapter :: "'p option"
  an_import_spec :: "'p option"
  an_export_spec :: "'p option"
  an_cleanup :: "'p option"
  an_name :: "string option"

definition annotations_default :: "'p annotations" where
  "annotations_default = \<lparr>an_input = None, an_emits = None, an_vs_adapter = None, an_import_spec = None,
     an_export_spec = None, an_cleanup = None, an_name = None\<rparr>"

definition name_char :: "char \<Rightarrow> bool" where
  "name_char c = (is_digit c \<or> (65 \<le> byte c \<and> byte c \<le> 90) \<or> (97 \<le> byte c \<and> byte c \<le> 122) \<or> c = CHR ''_'')"

definition apply_section :: "'p annotation_section \<Rightarrow> 'p annotations \<Rightarrow> (string, 'p annotations) result" where
  "apply_section s a = (case s of
      NameSection v \<Rightarrow>
        if v = [] \<or> \<not> list_all name_char v
        then Err ''name must be non-empty and contain only ASCII alphanumeric characters and underscores''
        else Ok (a\<lparr>an_name := Some v\<rparr>)
    | InputSection fs \<Rightarrow> Ok (a\<lparr>an_input := Some fs\<rparr>)
    | EmitsSection fs \<Rightarrow> Ok (a\<lparr>an_emits := Some fs\<rparr>)
    | VsAdapterSection p \<Rightarrow> Ok (a\<lparr>an_vs_adapter := Some p\<rparr>)
    | ImportSpecSection p \<Rightarrow> Ok (a\<lparr>an_import_spec := Some p\<rparr>)
    | ExportSpecSection p \<Rightarrow> Ok (a\<lparr>an_export_spec := Some p\<rparr>)
    | CleanupSection p \<Rightarrow> Ok (a\<lparr>an_cleanup := Some p\<rparr>)
    | OtherSection other \<Rightarrow> Err (''unknown annotation '' @ backquoted other @
        '', expected `name`, `input`, `emits`, `vs_adapter`, `import_spec`, `export_spec`, or `cleanup`''))"

fun parse_annotations :: "'p annotation_section list \<Rightarrow> 'p annotations \<Rightarrow> (string, 'p annotations) result" where
  "parse_annotations [] a = Ok a"
| "parse_annotations (s # ss) a = rbind (apply_section s a) (parse_annotations ss)"

text \<open>The annotated function, by the shape of its return type; \<open>upper\<close> is \<open>str::to_uppercase\<close>.\<close>

datatype ('d, 't, 'u) udf_fn =
    EmitsFn "'u \<Rightarrow> ('d, 't, unit ending \<times> 'u) prog"
  | ReturnsFn "'u \<Rightarrow> ('d, 't, ('d, 't) host_value option ending \<times> 'u) prog"

datatype ('d, 't, 'u) annotated_path =
    HookFn "string \<Rightarrow> 'u \<Rightarrow> ('d, 't, string ending \<times> 'u) prog"
  | CleanupFn "'u \<Rightarrow> ('d, 't, unit ending \<times> 'u) prog"

definition udf_name :: "(string \<Rightarrow> string) \<Rightarrow> string option \<Rightarrow> string \<Rightarrow> string" where
  "udf_name upper explicit fn_ident = (case explicit of Some n \<Rightarrow> n | None \<Rightarrow> upper fn_ident)"

definition run_shim :: "('d, 't, 'u) udf_fn \<Rightarrow> ('d, 't, 'u) slot" where
  "run_shim f = (case f of EmitsFn g \<Rightarrow> lifecycle_shim g | ReturnsFn g \<Rightarrow> lifecycle_shim (returns_body id g))"

definition fn_shape :: "('d, 't, 'u) udf_fn \<Rightarrow> output_shape" where
  "fn_shape f = (case f of EmitsFn _ \<Rightarrow> ShapeEmits | ReturnsFn _ \<Rightarrow> ShapeReturns)"

definition hook_slot :: "string \<Rightarrow> ('d, 't, 'u) annotated_path option \<Rightarrow> (string \<Rightarrow> ('d, 't, 'u) slot) option" where
  "hook_slot name p = (case p of Some (HookFn f) \<Rightarrow> Some (ctx_hook_shim name f) | _ \<Rightarrow> None)"

definition cleanup_slot :: "('d, 't, 'u) annotated_path option \<Rightarrow> ('d, 't, 'u) slot option" where
  "cleanup_slot p = (case p of Some (CleanupFn f) \<Rightarrow> Some (lifecycle_shim f) | _ \<Rightarrow> None)"

text \<open>The schema static is the JSON text with a NUL, so the C string ends before it.\<close>

definition schema_ptr :: "schema_field list option \<Rightarrow> (string, bytes option) result" where
  "schema_ptr fs = (case fs of
      None \<Rightarrow> Ok None
    | Some fs \<Rightarrow> rbind (schema_json fs) (\<lambda>json_text. Ok (Some (takeWhile (\<lambda>c. c \<noteq> CHR 0x00) json_text))))"

definition exasol_udf :: "string \<Rightarrow> (string \<Rightarrow> string) \<Rightarrow> string \<Rightarrow> ('d, 't, 'u) annotated_path annotation_section list \<Rightarrow>
    ('d, 't, 'u) udf_fn \<Rightarrow> (string, string \<times> ('d, 't, 'u) vtable) result" where
  "exasol_udf fingerprint upper fn_ident sections f =
     rbind (parse_annotations sections annotations_default) (\<lambda>a.
     rbind (schema_ptr (an_input a)) (\<lambda>input_schema_ptr.
     rbind (schema_ptr (an_emits a)) (\<lambda>output_schema_ptr.
       Ok (entry_symbol (udf_name upper (an_name a) fn_ident),
         \<lparr>vt_abi_version = EXA_UDF_ABI_VERSION, vt_fingerprint = fingerprint,
          vt_run = run_shim f, vt_cleanup = cleanup_slot (an_cleanup a),
          vt_default_output_columns = None,
          vt_virtual_schema_adapter_call = hook_slot ''virtual_schema_adapter_call'' (an_vs_adapter a),
          vt_generate_sql_for_import_spec = hook_slot ''generate_sql_for_import_spec'' (an_import_spec a),
          vt_generate_sql_for_export_spec = hook_slot ''generate_sql_for_export_spec'' (an_export_spec a),
          vt_annotated_input_schema = input_schema_ptr, vt_annotated_output_schema = output_schema_ptr,
          vt_output_shape = fn_shape f\<rparr>))))"

end
