(* ===== verification/Dispatch.thy ===== *)
theory Dispatch
  imports Payloads
begin

text \<open>
  The run phase of a streaming session (\<open>exa-udf-runtime/src/dispatch.rs\<close>): groups, the batches
  within a group, the calls of the UDF and the output. The state is the wire to the database
  and the statics of the UDF; inside a group the wire also carries the cell in which the batch
  fetcher leaves the reason the input ended early.
\<close>

section \<open>The closures of a group\<close>

datatype group_exit = ExitSession | ExitClosed "string option"

record 'w group_wire = "'w wire" +
  gw_exit :: "group_exit option"

definition emit_flusher :: "prost \<Rightarrow> 'w zmq \<Rightarrow> emit_table \<Rightarrow> (('w, 'z) wire_scheme, udf_error, unit) io" where
  "emit_flusher P Z table =
     (if rows table = 0 then io_return ()
      else io_bind (io_map_err (\<lambda>e. ConnectBack (show_runtime_error e))
             (\<lambda>s. request P Z (Emit (emit_request_of table (wi_proto s))) s)) (\<lambda>_. io_return ()))"

definition set_exit :: "group_exit \<Rightarrow> ('w group_wire, udf_error, table_data option) io" where
  "set_exit reason s = Some (Ok None, s\<lparr>gw_exit := Some reason\<rparr>)"

partial_function (option) batch_fetcher :: "prost \<Rightarrow> 'w zmq \<Rightarrow> 'w group_wire \<Rightarrow>
    ((udf_error, table_data option) result \<times> 'w group_wire) option" where
  "batch_fetcher Pb Z s =
     io_bind (io_map_err (\<lambda>e. ConnectBack (show_runtime_error e))
         (\<lambda>s. request Pb Z (Request (next_request (wi_proto s))) s))
       (\<lambda>event. case event of
          EvNextData table \<Rightarrow> io_return (Some table)
        | EvDone \<Rightarrow> io_return None
        | EvCleanup \<Rightarrow> set_exit ExitSession
        | EvClose msg \<Rightarrow> set_exit (ExitClosed msg)
        | _ \<Rightarrow> (\<lambda>s. batch_fetcher Pb Z s)) s"

partial_function (option) first_nonempty_input :: "('d, 't) ext \<Rightarrow> ('s, udf_error, table_data option) io \<Rightarrow>
    column_info list \<Rightarrow> 's \<Rightarrow> ((runtime_error, ('d, 't) input_row_set option) result \<times> 's) option" where
  "first_nonempty_input E fetch input_cols s =
     io_bind (io_map_err (\<lambda>e. UdfErr (show_udf_error e)) fetch) (\<lambda>fetched. case fetched of
         None \<Rightarrow> io_return None
       | Some table \<Rightarrow>
           io_bind (io_lift (map_err (\<lambda>e. UdfErr (show_udf_error e)) (from_proto E table input_cols)))
             (\<lambda>batch s. if \<not> irs_is_empty batch then io_return (Some batch) s
                     else first_nonempty_input E fetch input_cols s)) s"

section \<open>Driving the UDF\<close>

type_synonym ('s, 'd, 't, 'u) driven = "('s, 'd, 't) bridge \<times> 'u"

text \<open>An error recorded on an earlier row is dropped before the call; one recorded by it explains a
  failure without text.\<close>

definition run_once :: "('s, 'd, 't) host_env \<Rightarrow> ('d, 't, 'u) vtable \<Rightarrow>
    (('s, 'd, 't, 'u) driven, runtime_error, unit) io" where
  "run_once H vt bu = (case bu of (b, u) \<Rightarrow>
     let (_, b) = take_last_error b in
     map_option (\<lambda>(r, b, u). case r of
         Inr _ \<Rightarrow> (Ok (), b, u)
       | Inl e \<Rightarrow> (let (detail, b) = take_last_error b in (Err (with_recorded_detail detail e), b, u)))
       (run_udf_code (bridge_call H) vt (b, u)))"

definition advance_driven :: "('d, 't) ext \<Rightarrow> (('s, 'd, 't, 'u) driven, runtime_error, bool) io" where
  "advance_driven E bu = (case bu of (b, u) \<Rightarrow>
     map_option (\<lambda>(r, b). (map_err (\<lambda>e. UdfErr (show_udf_error e)) r, b, u)) (advance_row E b))"

partial_function (option) drive_rows :: "('s, 'd, 't) host_env \<Rightarrow> ('d, 't, 'u) vtable \<Rightarrow>
    ('s, 'd, 't, 'u) driven \<Rightarrow> ((runtime_error, unit) result \<times> ('s, 'd, 't, 'u) driven) option" where
  "drive_rows H vt bu =
     io_bind (run_once H vt) (\<lambda>_. io_bind (advance_driven (he_ext H)) (\<lambda>more bu.
       if more then drive_rows H vt bu else io_return () bu)) bu"

definition drive_group_rows :: "('s, 'd, 't) host_env \<Rightarrow> ('d, 't, 'u) vtable \<Rightarrow> iter_type \<Rightarrow>
    (('s, 'd, 't, 'u) driven, runtime_error, unit) io" where
  "drive_group_rows H vt input_iter = (case input_iter of
      ExactlyOnce \<Rightarrow> drive_rows H vt
    | Multiple \<Rightarrow> run_once H vt)"

section \<open>Groups\<close>

definition tail_flush :: "prost \<Rightarrow> 'w zmq \<Rightarrow> emit_buffer \<Rightarrow> (('w, 'z) wire_scheme, runtime_error, unit) io" where
  "tail_flush P Z emit_buf s =
     (if eb_is_empty emit_buf then Some (Ok (), s)
      else fst (flush (\<lambda>table. io_bind (\<lambda>s. request P Z (Emit (emit_request_of table (wi_proto s))) s)
             (\<lambda>_. io_return ())) emit_buf) s)"

text \<open>The bridge borrows the buffer; when the group delivered no row the buffer is the empty one.\<close>

definition group_bridge :: "('w group_wire, 'd, 't) host_env \<Rightarrow> 'w zmq \<Rightarrow> udf_meta \<Rightarrow>
    ('d, 't) input_row_set \<Rightarrow> 'w group_wire \<Rightarrow> ('w group_wire, 'd, 't) bridge" where
  "group_bridge H Z meta input s =
     (let P = he_prost H;
          bridge = bridge_new input emit_buffer_new (um_input_columns meta) (um_output_columns meta)
            (emit_flusher P Z) (handshake_meta_from meta) (conn_requester P Z) s
      in configure_group_input (um_input_iter meta) (um_output_iter meta) (batch_fetcher P Z) bridge)"

definition run_group_input :: "('w group_wire, 'd, 't) host_env \<Rightarrow> 'w zmq \<Rightarrow> ('d, 't, 'u) vtable \<Rightarrow>
    udf_meta \<Rightarrow> ('w group_wire \<times> 'u, runtime_error, emit_buffer) io" where
  "run_group_input H Z vt meta su = (case su of (s, u) \<Rightarrow>
     Option.bind (first_nonempty_input (he_ext H) (batch_fetcher (he_prost H) Z) (um_input_columns meta) s)
       (\<lambda>(first, s). case first of
          Inl e \<Rightarrow> Some (Err e, s, u)
        | Inr None \<Rightarrow> Some (Ok emit_buffer_new, s, u)
        | Inr (Some input) \<Rightarrow>
            map_option (\<lambda>(r, b, u). (rbind r (\<lambda>_. Ok (br_emit_buf b)), cx_chan b, u))
              (drive_group_rows H vt (um_input_iter meta) (group_bridge H Z meta input s, u))))"

text \<open>The machine's interfaces, over the outside world, as the contexts of a session see them.\<close>

definition wire_env :: "('w, 'd, 't) host_env \<Rightarrow> (('w, 'z) wire_scheme, 'd, 't) host_env" where
  "wire_env H = \<lparr>he_prost = he_prost H, he_ext = he_ext H, he_dbg_data = he_dbg_data H,
     he_dbg_type = he_dbg_type H,
     he_dbg_event = he_dbg_event H,
     he_getifaddrs = (\<lambda>s. case he_getifaddrs H (wi_world s) of (r, w) \<Rightarrow> (r, s\<lparr>wi_world := w\<rparr>)),
     he_open_connection = (\<lambda>ci s. map_option (\<lambda>(r, w). (r, s\<lparr>wi_world := w\<rparr>))
       (he_open_connection H ci (wi_world s))),
     he_level_filter = he_level_filter H \<circ> wi_world\<rparr>"

lemma wire_env_simps [simp]:
  "he_prost (wire_env H) = he_prost H" "he_ext (wire_env H) = he_ext H"
  by (simp_all add: wire_env_def)

text \<open>A group ends with \<open>None\<close> at its boundary, or with the result of the whole session.\<close>

definition run_group :: "('w, 'd, 't) host_env \<Rightarrow> 'w zmq \<Rightarrow> ('d, 't, 'u) vtable \<Rightarrow> udf_meta \<Rightarrow>
    ('w wire \<times> 'u, runtime_error, (runtime_error, unit) result option) io" where
  "run_group H Z vt meta su = (case su of (s, u) \<Rightarrow>
     Option.bind (run_group_input (wire_env H) Z vt meta
         (wire.extend s (group_wire.fields None), u)) (\<lambda>(r, g, u).
       let s = wire.truncate g in case r of
         Inl e \<Rightarrow> Some (Err e, s, u)
       | Inr emit_buf \<Rightarrow>
           (case gw_exit g of
              Some ExitSession \<Rightarrow> Some (Ok (Some (Ok ())), s, u)
            | Some (ExitClosed msg) \<Rightarrow> Some (Ok (Some (close_error msg)), s, u)
            | None \<Rightarrow> map_option (\<lambda>(r, s). (rbind r (\<lambda>_. Ok None), s, u))
                (tail_flush (he_prost H) Z emit_buf s))))"

section \<open>The session loop\<close>

definition on_wire :: "('s, 'e, 'a) io \<Rightarrow> ('s \<times> 'u, 'e, 'a) io" where
  "on_wire m su = (case su of (s, u) \<Rightarrow> map_option (\<lambda>(r, s). (r, s, u)) (m s))"

text \<open>One turn of the loop: \<open>Some\<close> result leaves it (a \<open>break\<close> leaves it with \<open>Ok\<close>).\<close>

definition wire_request :: "('w, 'd, 't) host_env \<Rightarrow> 'w zmq \<Rightarrow> (protocol \<Rightarrow> exascript_request) \<Rightarrow>
    ('w wire \<times> 'u, runtime_error, host_event) io" where
  "wire_request H Z req = on_wire (\<lambda>s. request (he_prost H) Z (Request (req (wi_proto s))) s)"

definition run_turn :: "('w, 'd, 't) host_env \<Rightarrow> 'w zmq \<Rightarrow> ('d, 't, 'u) vtable \<Rightarrow> udf_meta \<Rightarrow>
    ('w wire \<times> 'u, runtime_error, (runtime_error, unit) result option) io" where
  "run_turn H Z vt meta =
     io_bind (wire_request H Z run_request) (\<lambda>event. case event of
         EvCleanup \<Rightarrow> io_return (Some (Ok ()))
       | EvClose msg \<Rightarrow> io_return (Some (close_error msg))
       | _ \<Rightarrow>
         io_bind (run_group H Z vt meta) (\<lambda>early. case early of
             Some result \<Rightarrow> io_return (Some result)
           | None \<Rightarrow>
             io_bind (wire_request H Z done_request) (\<lambda>event. case event of
                 EvCleanup \<Rightarrow> io_return (Some (Ok ()))
               | EvClose msg \<Rightarrow> io_return (Some (close_error msg))
               | _ \<Rightarrow> io_return None)))"

partial_function (option) run_udf :: "('w, 'd, 't) host_env \<Rightarrow> 'w zmq \<Rightarrow> ('d, 't, 'u) vtable \<Rightarrow>
    udf_meta \<Rightarrow> 'w wire \<times> 'u \<Rightarrow> ((runtime_error, unit) result \<times> 'w wire \<times> 'u) option" where
  "run_udf H Z vt meta su =
     io_bind (run_turn H Z vt meta) (\<lambda>left su. case left of
         Some result \<Rightarrow> Some (result, su)
       | None \<Rightarrow> run_udf H Z vt meta su) su"

end
