(* ===== verification/Runtime.thy ===== *)
theory Runtime
  imports Dispatch
begin

text \<open>
  The single-call dispatcher (\<open>exa-udf-runtime/src/single_call.rs\<close>) and the session as a whole
  (\<open>lib.rs\<close>): connect, handshake, load, validate, dispatch, clean up, finish.
\<close>

section \<open>Single calls\<close>

datatype hook_outcome = HookReturned string | HookUndefined

record single_call_request =
  scr_fn_id :: single_call_function_id
  scr_json_arg :: "string option"
  scr_import_spec :: "import_specification_rep option"
  scr_export_spec :: "export_specification_rep option"

definition unexpected :: "('w, 'd, 't) host_env \<Rightarrow> host_event \<Rightarrow> (runtime_error, unit) result" where
  "unexpected H event = Err (UdfErr (''unexpected message in single-call mode: '' @ he_dbg_event H event))"

definition missing_specification :: "string \<Rightarrow> string \<Rightarrow> runtime_error" where
  "missing_specification hook fld = UdfErr (''single-call hook '' @ hook @
     '': the MT_CALL carried no '' @ fld @ '' message'')"

definition hook_name :: "single_call_function_id \<Rightarrow> string" where
  "hook_name fn_id = (case fn_id of
      ScFnDefaultOutputColumns \<Rightarrow> ''default_output_columns''
    | ScFnVirtualSchemaAdapterCall \<Rightarrow> ''virtual_schema_adapter_call''
    | ScFnGenerateSqlForImportSpec \<Rightarrow> ''generate_sql_for_import_spec''
    | ScFnGenerateSqlForExportSpec \<Rightarrow> ''generate_sql_for_export_spec''
    | ScFnNil \<Rightarrow> ''SC_FN_NIL'')"

text \<open>\<open>hook_outcome\<close>, over the hook slot that may be empty.\<close>

definition outcome_of :: "(runtime_error, string) result \<Rightarrow> (runtime_error, hook_outcome) result" where
  "outcome_of r = (case r of Inr s \<Rightarrow> Ok (HookReturned s) | Inl e \<Rightarrow> Err e)"

definition invoke_ctx_hook :: "('w, 'd, 't) host_env \<Rightarrow> 'w zmq \<Rightarrow> udf_meta \<Rightarrow> string \<Rightarrow>
    (string \<Rightarrow> ('d, 't, 'u) slot) option \<Rightarrow> string \<Rightarrow> ('w wire \<times> 'u, runtime_error, hook_outcome) io" where
  "invoke_ctx_hook H Z meta name hook arg su = (case (hook, su) of
      (None, _) \<Rightarrow> Some (Ok HookUndefined, su)
    | (Some f, (s, u)) \<Rightarrow>
        let ctx = single_call_context_new (handshake_meta_from meta) (um_input_iter meta)
              (um_output_iter meta) (conn_requester (he_prost H) Z) s
        in map_option (\<lambda>(r, ctx, u). let (detail, ctx) = take_last_error ctx
             in (outcome_of (map_err (with_recorded_detail detail) r), cx_chan ctx, u))
             (call_ctx_arg_hook (single_call_call (wire_env H)) name arg f (ctx, u)))"

definition invoke_hook :: "('w, 'd, 't) host_env \<Rightarrow> 'w zmq \<Rightarrow> 'j serde \<Rightarrow> ('d, 't, 'u) vtable \<Rightarrow> udf_meta \<Rightarrow>
    single_call_request \<Rightarrow> ('w wire \<times> 'u, runtime_error, hook_outcome) io" where
  "invoke_hook H Z J vt meta call = (case scr_fn_id call of
      ScFnDefaultOutputColumns \<Rightarrow> (\<lambda>su. case (vt_default_output_columns vt, su) of
          (None, _) \<Rightarrow> Some (Ok HookUndefined, su)
        | (Some f, (s, u)) \<Rightarrow> (case call_noarg_hook ''default_output_columns'' f u of
            (r, u) \<Rightarrow> Some (outcome_of r, s, u)))
    | ScFnVirtualSchemaAdapterCall \<Rightarrow>
        invoke_ctx_hook H Z meta ''virtual_schema_adapter_call'' (vt_virtual_schema_adapter_call vt)
          (unwrap_or [] (scr_json_arg call))
    | ScFnGenerateSqlForImportSpec \<Rightarrow>
        (case vt_generate_sql_for_import_spec vt of
           None \<Rightarrow> io_return HookUndefined
         | Some f \<Rightarrow> io_bind (io_lift (ok_or (missing_specification ''generate_sql_for_import_spec''
               ''import_specification'') (scr_import_spec call))) (\<lambda>spec.
             invoke_ctx_hook H Z meta ''generate_sql_for_import_spec'' (Some f) (serialize_import J spec)))
    | ScFnGenerateSqlForExportSpec \<Rightarrow>
        (case vt_generate_sql_for_export_spec vt of
           None \<Rightarrow> io_return HookUndefined
         | Some f \<Rightarrow> io_bind (io_lift (ok_or (missing_specification ''generate_sql_for_export_spec''
               ''export_specification'') (scr_export_spec call))) (\<lambda>spec.
             invoke_ctx_hook H Z meta ''generate_sql_for_export_spec'' (Some f) (serialize_export J spec)))
    | ScFnNil \<Rightarrow> io_return HookUndefined)"

definition hook_reply :: "single_call_function_id \<Rightarrow> hook_outcome \<Rightarrow> protocol \<Rightarrow> exascript_request" where
  "hook_reply fn_id outcome p = (case outcome of
      HookReturned result \<Rightarrow> return_request result p
    | HookUndefined \<Rightarrow> undefined_call_request (hook_name fn_id) p)"

text \<open>The acknowledgement of a reply, and the end of a turn: \<open>None\<close> goes on.\<close>

definition reply_ack :: "('w, 'd, 't) host_env \<Rightarrow> bool \<Rightarrow> host_event \<Rightarrow> (runtime_error, unit) result option" where
  "reply_ack H undefined_call event = (case event of
      EvSingleCallAck \<Rightarrow> if \<not> undefined_call then None else Some (unexpected H event)
    | EvUndefinedCallAck \<Rightarrow> if undefined_call then None else Some (unexpected H event)
    | EvCleanup \<Rightarrow> Some (Ok ())
    | EvClose msg \<Rightarrow> Some (close_error msg)
    | other \<Rightarrow> Some (unexpected H other))"

definition done_ack :: "('w, 'd, 't) host_env \<Rightarrow> host_event \<Rightarrow> (runtime_error, unit) result option" where
  "done_ack H event = (case event of
      EvDone \<Rightarrow> None
    | EvCleanup \<Rightarrow> Some (Ok ())
    | EvClose msg \<Rightarrow> Some (close_error msg)
    | other \<Rightarrow> Some (unexpected H other))"

definition answer_call :: "('w, 'd, 't) host_env \<Rightarrow> 'w zmq \<Rightarrow> 'j serde \<Rightarrow> ('d, 't, 'u) vtable \<Rightarrow> udf_meta \<Rightarrow>
    single_call_request \<Rightarrow> ('w wire \<times> 'u, runtime_error, (runtime_error, unit) result option) io" where
  "answer_call H Z J vt meta call =
     io_bind (invoke_hook H Z J vt meta call) (\<lambda>outcome.
     io_bind (wire_request H Z (hook_reply (scr_fn_id call) outcome)) (\<lambda>ack.
       io_return (reply_ack H (outcome = HookUndefined) ack)))"

definition single_call_turn :: "('w, 'd, 't) host_env \<Rightarrow> 'w zmq \<Rightarrow> 'j serde \<Rightarrow> ('d, 't, 'u) vtable \<Rightarrow>
    udf_meta \<Rightarrow> ('w wire \<times> 'u, runtime_error, (runtime_error, unit) result option) io" where
  "single_call_turn H Z J vt meta =
     io_bind (wire_request H Z run_request) (\<lambda>event. case event of
         EvSingleCall fn_id json_arg import_spec export_spec \<Rightarrow>
           io_bind (answer_call H Z J vt meta \<lparr>scr_fn_id = fn_id, scr_json_arg = json_arg,
               scr_import_spec = import_spec, scr_export_spec = export_spec\<rparr>) (\<lambda>left. case left of
             Some result \<Rightarrow> io_return (Some result)
           | None \<Rightarrow> io_bind (wire_request H Z done_request) (\<lambda>event. io_return (done_ack H event)))
       | EvCleanup \<Rightarrow> io_return (Some (Ok ()))
       | EvClose msg \<Rightarrow> io_return (Some (close_error msg))
       | other \<Rightarrow> io_return (Some (unexpected H other)))"

partial_function (option) run_single_call :: "('w, 'd, 't) host_env \<Rightarrow> 'w zmq \<Rightarrow> 'j serde \<Rightarrow>
    ('d, 't, 'u) vtable \<Rightarrow> udf_meta \<Rightarrow> 'w wire \<times> 'u \<Rightarrow>
    ((runtime_error, unit) result \<times> 'w wire \<times> 'u) option" where
  "run_single_call H Z J vt meta su =
     io_bind (single_call_turn H Z J vt meta) (\<lambda>left su. case left of
         Some result \<Rightarrow> Some (result, su)
       | None \<Rightarrow> run_single_call H Z J vt meta su) su"

section \<open>The handshake\<close>

definition action_reply :: "prost \<Rightarrow> 'w zmq \<Rightarrow> host_action option \<Rightarrow> ('w wire, runtime_error, unit) io" where
  "action_reply P Z action = (case action of
      Some (PingReply m) \<Rightarrow> send_ping_reply P Z m
    | Some MetaRequest \<Rightarrow> (\<lambda>s. wire_send P Z (Request (meta_request (wi_proto s))) s)
    | None \<Rightarrow> io_return ())"

partial_function (option) handshake :: "prost \<Rightarrow> 'w zmq \<Rightarrow> 'w wire \<Rightarrow>
    ((runtime_error, udf_meta) result \<times> 'w wire) option" where
  "handshake Pb Z s =
     io_bind (wire_recv Pb Z) (\<lambda>resp.
     io_bind (wire_step resp) (\<lambda>(event, action).
     io_bind (action_reply Pb Z action) (\<lambda>_. case event of
         EvMeta m \<Rightarrow> io_return m
       | EvClose msg \<Rightarrow> io_fail (ProtocolError (ProtocolErr (unwrap_or ''closed before meta'' msg)))
       | _ \<Rightarrow> (\<lambda>s. handshake Pb Z s)))) s"

section \<open>The session\<close>

definition UDF_ERROR_CLOSE_CODE :: nat where
  "UDF_ERROR_CLOSE_CODE = 9001"

definition SCHEMA_MISMATCH_CLOSE_CODE :: nat where
  "SCHEMA_MISMATCH_CLOSE_CODE = 1001"

record ('w, 'd, 't, 'u, 'j) runtime_env =
  re_host :: "('w, 'd, 't) host_env"
  re_zmq :: "'w zmq"
  re_serde :: "'j serde"
  re_dlopen :: "string \<Rightarrow> (string, ('d, 't, 'u) shared_object) result"
  re_fingerprint :: string
  re_on_level_resolved :: "level \<Rightarrow> 'w \<Rightarrow> 'w"

definition send_finished :: "prost \<Rightarrow> 'w zmq \<Rightarrow> ('w wire, runtime_error, unit) io" where
  "send_finished P Z = io_bind (\<lambda>s. request P Z (Request (finished_reply (wi_proto s))) s) (\<lambda>_. io_return ())"

text \<open>The close message is sent whatever becomes of it, and the error stays the session's.\<close>

definition close_with :: "prost \<Rightarrow> 'w zmq \<Rightarrow> nat \<Rightarrow> runtime_error \<Rightarrow> ('w wire, runtime_error, 'a) io" where
  "close_with P Z code e s =
     io_bind (io_try (\<lambda>s. wire_send P Z (Request (error_close_request code (show_runtime_error e) (wi_proto s))) s))
       (\<lambda>_. io_fail e) s"

definition dispatch :: "('w, 'd, 't, 'u, 'j) runtime_env \<Rightarrow> ('d, 't, 'u) vtable \<Rightarrow> udf_meta \<Rightarrow>
    'w wire \<times> 'u \<Rightarrow> ((runtime_error, unit) result \<times> 'w wire \<times> 'u) option" where
  "dispatch R vt meta = (if um_single_call_mode meta
     then run_single_call (re_host R) (re_zmq R) (re_serde R) vt meta
     else run_udf (re_host R) (re_zmq R) vt meta)"

definition run_loaded :: "('w, 'd, 't, 'u, 'j) runtime_env \<Rightarrow> ('d, 't, 'u) loaded_udf \<Rightarrow> udf_meta \<Rightarrow>
    ('w wire, runtime_error, unit) io" where
  "run_loaded R udf meta s = (let H = re_host R; P = he_prost H; Z = re_zmq R; vt = lu_vtable udf in
     Option.bind (dispatch R vt meta (s, so_statics (lu_lib udf))) (\<lambda>(dispatched, su).
     Option.bind (run_hook (wire_env H) vt meta dispatched su) (\<lambda>(cleaned, s, u).
     Option.bind (io_bind (io_lift cleaned) (\<lambda>_. send_finished P Z) s) (\<lambda>(outcome, s).
       case outcome of
         Inl e \<Rightarrow> close_with P Z UDF_ERROR_CLOSE_CODE e s
       | Inr _ \<Rightarrow> Some (Ok (), s)))))"

definition no_udf_object :: runtime_error where
  "no_udf_object = Unsupported ''no %udf_object directive in source; JIT not supported in v1''"

definition run_with_meta :: "('w, 'd, 't, 'u, 'j) runtime_env \<Rightarrow> udf_meta \<Rightarrow> ('w wire, runtime_error, unit) io" where
  "run_with_meta R meta = (let P = he_prost (re_host R); Z = re_zmq R in
     case parse_udf_object_path (um_source_code meta) of
       None \<Rightarrow> close_with P Z UDF_ERROR_CLOSE_CODE no_udf_object
     | Some so_path \<Rightarrow>
         (case open_udf (re_dlopen R) (re_fingerprint R) so_path (um_script_name meta) of
            Inl e \<Rightarrow> close_with P Z UDF_ERROR_CLOSE_CODE e
          | Inr udf \<Rightarrow>
              (case (if um_single_call_mode meta then Ok ()
                     else validate_output_shape (lu_vtable udf) (um_output_iter meta)) of
                 Inl e \<Rightarrow> close_with P Z UDF_ERROR_CLOSE_CODE e
               | Inr _ \<Rightarrow>
                   (case validate_schema (re_serde R) (lu_vtable udf) meta of
                      Inl e \<Rightarrow> close_with P Z SCHEMA_MISMATCH_CLOSE_CODE e
                    | Inr _ \<Rightarrow> run_loaded R udf meta))))"

definition resolve_level :: "('w, 'd, 't, 'u, 'j) runtime_env \<Rightarrow> udf_meta \<Rightarrow> ('w wire, runtime_error, unit) io" where
  "resolve_level R meta s =
     Some (Ok (), s\<lparr>wi_world := re_on_level_resolved R (parse_debug_level (um_source_code meta)) (wi_world s)\<rparr>)"

definition run_session :: "('w, 'd, 't, 'u, 'j) runtime_env \<Rightarrow> string \<Rightarrow> ('w wire, runtime_error, unit) io" where
  "run_session R client_name = (let P = he_prost (re_host R); Z = re_zmq R in
     io_bind (\<lambda>s. wire_send P Z (Request (client_request client_name (wi_proto s))) s) (\<lambda>_.
     io_bind (handshake P Z) (\<lambda>meta.
     io_bind (resolve_level R meta) (\<lambda>_. run_with_meta R meta))))"

definition runtime_run :: "('w, 'd, 't, 'u, 'j) runtime_env \<Rightarrow> string \<Rightarrow> string \<Rightarrow> ('w, runtime_error, unit) io" where
  "runtime_run R endpoint client_name w =
     io_bind (io_map_err ProtocolError (transport_connect (re_zmq R) endpoint)) (\<lambda>_ w.
       map_option (\<lambda>(r, s). (r, wi_world s))
         (run_session R client_name \<lparr>wi_world = w, wi_proto = protocol_new\<rparr>)) w"

end
