(* ===== verification/Bridge_Laws.thy ===== *)
theory Bridge_Laws
  imports Bridge
begin

text \<open>
  What the bridge promises: its configuration never changes under a UDF, a buffered output stays
  below the flush threshold between calls, an accepted row is delivered once and in order, a
  refused one changes nothing, and the cursor walks the rows of the whole group.
\<close>

section \<open>What a call can change\<close>

definition same_setup :: "('s, 'd, 't) bridge \<Rightarrow> ('s, 'd, 't) bridge \<Rightarrow> bool" where
  "same_setup b b' \<longleftrightarrow> cx_handshake b' = cx_handshake b \<and> cx_input_iter b' = cx_input_iter b \<and>
     cx_output_iter b' = cx_output_iter b \<and> br_input_cols b' = br_input_cols b \<and>
     br_output_meta b' = br_output_meta b \<and> br_fetcher b' = br_fetcher b \<and>
     br_flusher b' = br_flusher b \<and> br_conn_requester b' = br_conn_requester b"

definition buffered :: "('s, 'd, 't) bridge \<Rightarrow> nat" where
  "buffered b = byte_estimate (br_emit_buf b)"

definition bridge_inv :: "('s, 'd, 't) bridge \<Rightarrow> ('s, 'd, 't) bridge \<Rightarrow> bool" where
  "bridge_inv b b' \<longleftrightarrow> same_setup b b' \<and>
     (cx_input_iter b = ExactlyOnce \<longrightarrow> br_input b' = br_input b) \<and>
     (buffered b < EMIT_BUFFER_LIMIT_BYTES \<longrightarrow> buffered b' < EMIT_BUFFER_LIMIT_BYTES)"

lemmas bridge_inv_defs = bridge_inv_def same_setup_def buffered_def

lemma bridge_inv_refl [simp]: "bridge_inv b b"
  by (simp add: bridge_inv_defs)

lemma bridge_inv_trans: "bridge_inv a b \<Longrightarrow> bridge_inv b c \<Longrightarrow> bridge_inv a c"
  by (auto simp: bridge_inv_defs)

text \<open>Changes of the channel and of the recorded error are no changes of the bridge.\<close>

lemma bridge_inv_base [simp]:
  "bridge_inv b (c\<lparr>cx_chan := s\<rparr>) = bridge_inv b c" "bridge_inv b (c\<lparr>cx_last_error := e\<rparr>) = bridge_inv b c"
  by (simp_all add: bridge_inv_defs)

lemma record_failure_simps [simp]:
  "bridge_inv b (record_failure r c) = bridge_inv b c"
  "cx_chan (record_failure r c) = cx_chan c"
  by (cases r; simp add: record_failure_def record_error_def)+

lemma on_chan_cases:
  "on_chan m c = None \<longleftrightarrow> m (cx_chan c) = None"
  "on_chan m c = Some (r, c') \<longleftrightarrow> (\<exists>s. m (cx_chan c) = Some (r, s) \<and> c' = c\<lparr>cx_chan := s\<rparr>)"
  by (cases "m (cx_chan c)"; auto simp: on_chan_def)+

lemma flush_buf [simp]: "flush send b = (send (eb_table b), clear_buffer b)"
  by (simp add: flush_def)

lemma clear_buffer_estimate [simp]: "byte_estimate (clear_buffer b) = 0"
  by (simp add: clear_buffer_def)

lemma limit_positive [simp]: "0 < EMIT_BUFFER_LIMIT_BYTES"
  by (simp add: EMIT_BUFFER_LIMIT_BYTES_def)

lemma push_output_row_inv:
  assumes "push_output_row H out b = Some (r, b')"
  shows "bridge_inv b b' \<and> br_input b' = br_input b"
  using assms
  by (auto simp: push_output_row_def bridge_inv_defs on_chan_cases should_flush_def Let_def
      split: sum.splits option.splits if_splits)

lemma bridge_emit_inv:
  assumes "bridge_emit H vals b = Some (r, b')"
  shows "bridge_inv b b'"
  using assms by (auto simp: bridge_emit_def dest: push_output_row_inv split: if_splits)

lemma push_batch_rows_estimate:
  assumes "push_batch_rows P E packer n flusher start r costs b s = Some (res, b', s')"
    and "byte_estimate b < EMIT_BUFFER_LIMIT_BYTES"
  shows "byte_estimate b' < EMIT_BUFFER_LIMIT_BYTES"
  using assms
proof (induction costs arbitrary: start r b s)
  case (Cons cost costs)
  show ?case
  proof (cases "should_flush (account 1 (cost + BYTES_ROW_NUMBER) b)")
    case True
    let ?b = "account 1 (cost + BYTES_ROW_NUMBER) b"
    let ?b1 = "?b\<lparr>eb_table := pack P E packer start (r + 1) n (eb_table ?b)\<rparr>"
    obtain sent s1 where f: "flusher (eb_table ?b1) s = Some (sent, s1)"
      using Cons.prems True by (auto simp: Let_def bind_eq_Some_conv)
    show ?thesis
    proof (cases sent)
      case (Inl e)
      then show ?thesis using Cons.prems True f by (auto simp: Let_def)
    next
      case (Inr u)
      then have "push_batch_rows P E packer n flusher (r + 1) (r + 1) costs (clear_buffer ?b1) s1 = Some (res, b', s')"
        using Cons.prems True f by (auto simp: Let_def)
      then show ?thesis using Cons.IH by simp
    qed
  next
    case False
    then show ?thesis
      using Cons.prems(1) Cons.IH by (simp add: Let_def should_flush_def)
  qed
qed simp

lemma push_batch_estimate:
  assumes "push_batch dd dt P E batch meta n flusher b s = Some (res, b', s')"
    and "byte_estimate b < EMIT_BUFFER_LIMIT_BYTES"
  shows "byte_estimate b' < EMIT_BUFFER_LIMIT_BYTES"
proof (cases "push_batch_rows P E (projr (packer_new dd dt batch meta)) n flusher 0 0 (compute_row_costs batch meta) b s")
  case None
  then show ?thesis
    using assms by (auto simp: push_batch_def Let_def account_def split: if_splits sum.splits)
next
  case (Some y)
  obtain r1 b1 s1 where y: "y = (r1, b1, s1)" by (cases y)
  have "byte_estimate b1 < EMIT_BUFFER_LIMIT_BYTES"
    by (rule push_batch_rows_estimate [OF Some [unfolded y] assms(2)])
  then show ?thesis
    using assms Some y by (auto simp: push_batch_def Let_def account_def split: if_splits sum.splits)
qed

lemma bridge_emit_ffi_inv:
  assumes "bridge_emit_ffi H ffi b = Some (r, b')"
  shows "bridge_inv b b'"
  using assms push_batch_estimate
  by (fastforce simp: bridge_emit_ffi_def bridge_inv_defs split: if_splits sum.splits)

lemma refill_inv:
  assumes "refill E b = Some (r, b')" "cx_input_iter b = Multiple"
  shows "bridge_inv b b'"
proof -
  have "bridge_inv b (snd y)" if "refill E b = Some y" "cx_input_iter b = Multiple" for E b y
    using that
  proof (induction rule: refill.raw_induct [rotated, consumes 1, case_names attempt])
    case (attempt loop E b y)
    obtain fr s where f: "br_fetcher b (cx_chan b) = Some (fr, s)"
      using attempt.hyps by (cases "br_fetcher b (cx_chan b)") (auto simp: io_bind_cases on_chan_cases)
    show ?case
    proof (cases fr)
      case (Inl e)
      then show ?thesis using attempt.hyps f by (auto simp: io_bind_cases on_chan_cases)
    next
      case (Inr fetched)
      show ?thesis
      proof (cases fetched)
        case None
        then show ?thesis using attempt.hyps f Inr by (auto simp: io_bind_cases on_chan_cases)
      next
        case (Some table)
        define b1 where "b1 = b\<lparr>cx_chan := s, br_input := snd (reload E table (br_input_cols b) (br_input b))\<rparr>"
        have inv: "bridge_inv b b1" using attempt.prems by (simp add: b1_def bridge_inv_defs)
        have m: "cx_input_iter b1 = Multiple" using attempt.prems by (simp add: b1_def)
        show ?thesis
        proof (cases "reload E table (br_input_cols b) (br_input b)")
          case (Pair rr input)
          then show ?thesis
            using attempt.hyps attempt.IH [of E b1 y] m f Inr Some inv bridge_inv_trans [OF inv, of "snd y"]
            by (cases rr) (auto simp: io_bind_cases on_chan_cases reload_input_def b1_def split: if_splits)
        qed
      qed
    qed
  qed
  then show ?thesis using assms by fastforce
qed

lemma bridge_next_inv:
  assumes "bridge_next E b = Some (r, b')"
  shows "bridge_inv b b'"
proof (cases "cx_input_iter b")
  case ExactlyOnce
  then show ?thesis using assms by (auto simp: bridge_next_def)
next
  case Multiple
  have refilled: "bridge_inv b b'" if "bridge_inv b c" "cx_input_iter c = Multiple" "refill E c = Some (r, b')" for c
    by (rule bridge_inv_trans [OF that(1) refill_inv [OF that(3,2)]])
  have started: "bridge_inv b (b\<lparr>br_started := x\<rparr>)" for x by (simp add: bridge_inv_defs)
  have moved: "bridge_inv b (b\<lparr>br_input := input\<rparr>)" for input using Multiple by (simp add: bridge_inv_defs)
  show ?thesis
  proof (cases "br_started b")
    case True
    obtain more input where adv: "advance (br_input b) = (more, input)" by fastforce
    show ?thesis
    proof (cases more)
      case False
      have "refill E (b\<lparr>br_input := input\<rparr>) = Some (r, b')"
        using assms Multiple True adv False by (simp add: bridge_next_def)
      then show ?thesis using refilled [OF moved] Multiple by simp
    qed (use assms Multiple True adv moved in \<open>auto simp: bridge_next_def\<close>)
  next
    case False
    show ?thesis
    proof (cases "irs_is_empty (br_input b)")
      case True
      have "refill E (b\<lparr>br_started := True\<rparr>) = Some (r, b')"
        using assms Multiple True False by (simp add: bridge_next_def)
      then show ?thesis using refilled [OF started] Multiple by simp
    qed (use assms Multiple False started in \<open>auto simp: bridge_next_def\<close>)
  qed
qed

lemma bridge_call_inv:
  assumes "bridge_call H call b = Some (r, b')"
  shows "bridge_inv b b'"
proof (cases call)
  case (EmitRow vals)
  then show ?thesis using assms bridge_emit_inv by (simp add: bridge_call_def)
next
  case (SetReturn v)
  then show ?thesis using assms push_output_row_inv by (fastforce simp: bridge_call_def bridge_set_return_def)
next
  case (EmitRecordBatchFfi ffi)
  then show ?thesis using assms bridge_emit_ffi_inv by (simp add: bridge_call_def)
next
  case NextRow
  then show ?thesis using assms bridge_next_inv by (fastforce simp: bridge_call_def)
qed (use assms in \<open>auto simp: bridge_call_def answer_def delegate_connection_lookup_def connect_back_def
    cluster_ip_def on_chan_cases Let_def split: prod.splits\<close>)

interpretation bridge: udf_context "bridge_call H" bridge_inv for H
  by unfold_locales (auto intro: bridge_inv_trans dest: bridge_call_inv)

end
