(* ===== verification/Liveness.thy ===== *)
theory Liveness
  imports Runtime Bridge_Laws
begin

text \<open>
  A session returns. Against a peer that sends finitely many frames, over interfaces that
  answer and with UDF code that stops, every loop of the runtime ends: an exchange uses up a
  frame, a refill uses up a batch, and the row loop walks a finite batch between two refills.
\<close>

section \<open>Computations that end\<close>

definition ends :: "('r \<times> 's) option \<Rightarrow> ('r \<Rightarrow> 's \<Rightarrow> bool) \<Rightarrow> bool" where
  "ends y Q \<longleftrightarrow> (\<exists>r s. y = Some (r, s) \<and> Q r s)"

lemma ends_simps [simp]: "ends (Some (r, s)) Q \<longleftrightarrow> Q r s" "\<not> ends None Q"
  by (simp_all add: ends_def)

lemma ends_mono: "ends y Q \<Longrightarrow> (\<And>r s. y = Some (r, s) \<Longrightarrow> Q r s \<Longrightarrow> R r s) \<Longrightarrow> ends y R"
  by (auto simp: ends_def)

lemma ends_bind:
  "ends (io_bind m k s) Q \<longleftrightarrow>
     ends (m s) (\<lambda>r t. case r of Inl e \<Rightarrow> Q (Inl e) t | Inr a \<Rightarrow> ends (k a t) Q)"
  by (cases "m s"; cases "fst (the (m s))") (auto simp: io_bind_def ends_def)

lemma ends_map_err: "ends (io_map_err f m s) Q \<longleftrightarrow> ends (m s) (\<lambda>r t. Q (map_err f r) t)"
  by (cases "m s") (auto simp: io_map_err_def ends_def)

lemma ends_map_option:
  "ends (map_option f y) Q \<longleftrightarrow> ends y (\<lambda>r t. Q (fst (f (r, t))) (snd (f (r, t))))"
  by (cases y) (auto simp: ends_def prod_eq_iff)

lemma ends_option_bind: "ends (Option.bind y f) Q \<longleftrightarrow> ends y (\<lambda>r t. ends (f (r, t)) Q)"
  by (cases y) (auto simp: ends_def)

lemma ends_on_chan: "ends (on_chan m c) Q \<longleftrightarrow> ends (m (cx_chan c)) (\<lambda>r s. Q r (c\<lparr>cx_chan := s\<rparr>))"
  by (simp add: on_chan_def ends_map_option)

lemma ends_on_wire: "ends (on_wire m (s, u)) Q \<longleftrightarrow> ends (m s) (\<lambda>r t. Q r (t, u))"
  by (simp add: on_wire_def ends_map_option)

lemmas ends_rules = ends_bind ends_map_err ends_map_option ends_option_bind ends_on_chan ends_on_wire

lemma map_err_ok [simp]: "map_err f r = Inr a \<longleftrightarrow> r = Inr a" "is_ok (map_err f r) = is_ok r"
  by (cases r; simp add: map_err_def is_ok_def)+

lemma record_failure_cursor [simp]:
  "br_input (record_failure r b) = br_input b" "br_started (record_failure r b) = br_started b"
  by (cases r; simp add: record_failure_def record_error_def)+

lemma record_failure_chan [simp]: "cx_chan (record_failure r c) = cx_chan c"
  by (cases r) (simp_all add: record_failure_def record_error_def)

lemma record_failure_requester [simp]: "sc_conn_requester (record_failure r c) = sc_conn_requester c"
  by (cases r) (simp_all add: record_failure_def record_error_def)

section \<open>What an exchange uses up\<close>

context finite_peer
begin

lemma request_ends:
  "ends (request P Z fr s) (\<lambda>r s'. left_on s' \<le> left_on s \<and> (is_ok r \<longrightarrow> left_on s' < left_on s))"
  using request_returns [of P fr s] by (auto simp: ends_def)

lemma wire_send_ends: "ends (wire_send P Z fr s) (\<lambda>r s'. left_on s' \<le> left_on s)"
  using wire_send_returns [of P fr s] by (auto simp: ends_def)

lemma flusher_ends: "ends (emit_flusher P Z table s) (\<lambda>r s'. left_on s' \<le> left_on s)"
  by (auto simp: emit_flusher_def ends_rules intro!: ends_mono [OF request_ends] split: sum.splits)

lemma requester_ends: "ends (conn_requester P Z name s) (\<lambda>r s'. left_on s' \<le> left_on s)"
  by (auto simp: conn_requester_def ends_rules intro!: ends_mono [OF request_ends] split: sum.splits)

lemma fetcher_ends:
  "ends (batch_fetcher P Z s) (\<lambda>r s'. left_on s' \<le> left_on s \<and>
     (\<forall>table. r = Ok (Some table) \<longrightarrow> left_on s' < left_on s))"
proof (induction "left_on s" arbitrary: s rule: less_induct)
  case less
  show ?case
  proof (subst batch_fetcher.simps, unfold ends_rules, rule ends_mono [OF request_ends], goal_cases)
    case (1 r s')
    show ?case
    proof (cases r)
      case (Inr event)
      then have "left_on s' < left_on s" using 1 by simp
      then show ?thesis
        using less [of s'] Inr
        by (cases event) (auto simp: set_exit_def intro: ends_mono)
    qed (use 1 in simp)
  qed
qed

lemma first_input_ends:
  "ends (first_nonempty_input E (batch_fetcher P Z) cols s) (\<lambda>r s'. left_on s' \<le> left_on s)"
proof (induction "left_on s" arbitrary: s rule: less_induct)
  case less
  show ?case
  proof (subst first_nonempty_input.simps, unfold ends_rules, rule ends_mono [OF fetcher_ends], goal_cases)
    case (1 r s')
    then show ?case
      using less [of s']
      by (cases r; auto simp: ends_bind map_err_def split: sum.splits option.splits)
        (erule ends_mono, simp)
  qed
qed

end

section \<open>The bridge answers\<close>

text \<open>The interfaces of the machine answer, and none of them talks to the database.\<close>

locale live_host = finite_peer Z clock left
    for Z :: "'w zmq" and clock left :: "'w \<Rightarrow> nat" +
  fixes H :: "('w, 'd, 't) host_env"
  assumes getifaddrs_left: "he_getifaddrs H w = (r, w') \<Longrightarrow> left w' \<le> left w"
    and open_connection_ends: "ends (he_open_connection H conn w) (\<lambda>r w'. left w' \<le> left w)"
begin

definition quiet :: "nat \<Rightarrow> (('w, 'z) wire_scheme, 'y) context_base_scheme \<Rightarrow> bool" where
  "quiet n c \<longleftrightarrow> left_on (cx_chan c) \<le> n"

lemma cluster_ip_left:
  "cluster_ip (wire_env H) c = (r, c') \<Longrightarrow> left_on (cx_chan c') \<le> left_on (cx_chan c)"
  by (auto simp: cluster_ip_def wire_env_def Let_def record_failure_chan dest: getifaddrs_left split: prod.splits)

lemma connect_back_ends:
  "ends (connect_back (wire_env H) conn c) (\<lambda>r c'. left_on (cx_chan c') \<le> left_on (cx_chan c))"
  by (auto simp: connect_back_def open_connect_back_def wire_env_def ends_rules record_failure_chan
      intro!: ends_mono [OF open_connection_ends])

lemma lookup_ends:
  "ends (delegate_connection_lookup (conn_requester P Z) name c)
     (\<lambda>r c'. left_on (cx_chan c') \<le> left_on (cx_chan c))"
  by (auto simp: delegate_connection_lookup_def request_connection_def ends_rules record_failure_chan
      intro!: ends_mono [OF requester_ends] split: sum.splits)

text \<open>The output: a flush ends, and so does a batch that flushes several times.\<close>

lemma batch_rows_end:
  assumes "\<And>t s. ends (flusher t s) (\<lambda>r s'. left_on s' \<le> left_on s)"
  shows "ends (push_batch_rows P E packer n flusher start r costs b s) (\<lambda>r (b', s'). left_on s' \<le> left_on s)"
proof (induction costs arbitrary: start r b s)
  case (Cons cost costs)
  have "ends (push_batch_rows P E packer n flusher start r costs b t) (\<lambda>r (b', s'). left_on s' \<le> left_on s)"
    if "left_on t \<le> left_on s" for start r b t
    by (rule ends_mono [OF Cons.IH]) (use that in auto)
  then show ?case
    by (auto simp: Let_def ends_option_bind intro!: ends_mono [OF assms] split: sum.splits)
qed simp

lemma batch_ends:
  assumes "\<And>t s. ends (flusher t s) (\<lambda>r s'. left_on s' \<le> left_on s)"
  shows "ends (push_batch dd dt P E batch meta n flusher b s) (\<lambda>r (b', s'). left_on s' \<le> left_on s)"
  by (auto simp: push_batch_def Let_def ends_option_bind intro!: ends_mono [OF batch_rows_end [OF assms]]
      split: sum.splits)

definition wired :: "('w group_wire, 'd, 't) bridge \<Rightarrow> bool" where
  "wired b \<longleftrightarrow> br_fetcher b = batch_fetcher (he_prost H) Z \<and> br_flusher b = emit_flusher (he_prost H) Z \<and>
     br_conn_requester b = conn_requester (he_prost H) Z"

text \<open>Where the cursor stands changes with a new batch only.\<close>

definition same_cursor :: "('w group_wire, 'd, 't) bridge \<Rightarrow> ('w group_wire, 'd, 't) bridge \<Rightarrow> bool" where
  "same_cursor b b' \<longleftrightarrow> br_started b' = br_started b \<and>
     (left_on (cx_chan b') < left_on (cx_chan b) \<or> br_input b' = br_input b)"

lemma refill_ends:
  assumes "wired b"
  shows "ends (refill E b) (\<lambda>r b'. left_on (cx_chan b') \<le> left_on (cx_chan b) \<and> same_setup b b' \<and>
    (r = Ok True \<longrightarrow> left_on (cx_chan b') < left_on (cx_chan b)) \<and> same_cursor b b')"
  using assms
proof (induction "left_on (cx_chan b)" arbitrary: b rule: less_induct)
  case less
  have f: "br_fetcher b = batch_fetcher (he_prost H) Z" using less.prems by (simp add: wired_def)
  show ?case
  proof (subst refill.simps, unfold ends_rules f, rule ends_mono [OF fetcher_ends], goal_cases)
    case (1 out s)
    show ?case
    proof (cases "\<exists>table. out = Ok (Some table)")
      case True
      then obtain table where t: "out = Ok (Some table)" by blast
      define b1 where "b1 = (case reload E table (br_input_cols b) (br_input b) of (r, input) \<Rightarrow>
        b\<lparr>cx_chan := s, br_input := input\<rparr>)"
      have smaller: "left_on (cx_chan b1) < left_on (cx_chan b)" and same: "same_setup b b1" and w: "wired b1"
        using 1 t less.prems by (auto simp: b1_def same_setup_def wired_def split: prod.split)
      then have "ends (refill E b1) (\<lambda>r b'. left_on (cx_chan b') \<le> left_on (cx_chan b) \<and> same_setup b b' \<and>
          (r = Ok True \<longrightarrow> left_on (cx_chan b') < left_on (cx_chan b)) \<and> same_cursor b b')"
        by (intro ends_mono [OF less.hyps [of b1]]) (auto simp: same_setup_def same_cursor_def b1_def split: prod.splits)
      then show ?thesis
        using t smaller same
        by (auto simp: ends_rules reload_input_def b1_def Let_def same_cursor_def split: prod.splits sum.splits)
    qed (use 1 in \<open>auto simp: same_setup_def same_cursor_def split: sum.splits option.splits\<close>)
  qed
qed

abbreviation less_left :: "('w group_wire, 'd, 't) bridge \<Rightarrow> 'r \<Rightarrow> ('w group_wire, 'd, 't) bridge \<Rightarrow> bool" where
  "less_left b r b' \<equiv> left_on (cx_chan b') \<le> left_on (cx_chan b)"

lemma push_output_cursor:
  assumes "push_output_row H' out b = Some (r, b')"
  shows "same_cursor b b'"
  using assms
  by (auto simp: push_output_row_def same_cursor_def on_chan_cases should_flush_def Let_def
      split: sum.splits option.splits if_splits)

lemma bridge_call_cursor:
  assumes "bridge_call H' call b = Some (r, b')" "call \<noteq> NextRow"
  shows "same_cursor b b'"
proof (cases call)
  case (EmitRow vals)
  then show ?thesis
    using assms push_output_cursor by (auto simp: bridge_call_def bridge_emit_def same_cursor_def split: if_splits)
next
  case (SetReturn v)
  then show ?thesis using assms push_output_cursor by (fastforce simp: bridge_call_def bridge_set_return_def)
next
  case (EmitRecordBatchFfi ffi)
  then show ?thesis
    using assms by (auto simp: bridge_call_def bridge_emit_ffi_def same_cursor_def Let_def split: if_splits sum.splits)
qed (use assms in \<open>auto simp: bridge_call_def answer_def delegate_connection_lookup_def connect_back_def
    cluster_ip_def on_chan_cases Let_def same_cursor_def split: prod.splits\<close>)

text \<open>A row given by \<open>next\<close> comes from a new batch, from the rest of the batch, or is its first.\<close>

definition batch_ahead :: "('d, 't) input_row_set \<Rightarrow> nat" where
  "batch_ahead rs = n_rows rs - cur_row rs"

definition rows_ahead :: "('s, 'd, 't) bridge \<Rightarrow> nat" where
  "rows_ahead b = batch_ahead (br_input b) + (if br_started b then 0 else 1)"

definition row_used :: "(('w group_wire, 'd, 't) bridge \<times> ('w group_wire, 'd, 't) bridge) set" where
  "row_used = measures [\<lambda>b. left_on (cx_chan b), rows_ahead]"

definition rows_kept :: "(('w group_wire, 'd, 't) bridge \<times> ('w group_wire, 'd, 't) bridge) set" where
  "rows_kept = {(b', b). left_on (cx_chan b') \<le> left_on (cx_chan b) \<and>
     (left_on (cx_chan b') = left_on (cx_chan b) \<longrightarrow> rows_ahead b' \<le> rows_ahead b)}"

lemma row_used_kept: "(b', b) \<in> row_used \<Longrightarrow> (b', b) \<in> rows_kept"
  by (auto simp: row_used_def rows_kept_def)

lemma same_cursor_kept:
  assumes "less_left b r b'" "same_cursor b b'"
  shows "(b', b) \<in> rows_kept"
  using assms by (auto simp: rows_kept_def same_cursor_def rows_ahead_def)

lemma bridge_next_ends:
  assumes "wired b"
  shows "ends (bridge_next E b) (\<lambda>r b'. (b', b) \<in> rows_kept \<and> (r = Ok True \<longrightarrow> (b', b) \<in> row_used))"
proof -
  have refill: "ends (refill E c) (\<lambda>r b'. (b', b) \<in> rows_kept \<and> (r = Ok True \<longrightarrow> (b', b) \<in> row_used))"
    if "wired c" "cx_chan c = cx_chan b" "rows_ahead c \<le> rows_ahead b" for c
    by (rule ends_mono [OF refill_ends [OF that(1)]])
      (use that(2,3) in \<open>auto simp: row_used_def rows_kept_def same_cursor_def rows_ahead_def\<close>)
  have moved: "(b', b) \<in> rows_kept \<and> (b', b) \<in> row_used"
    if "cx_chan b' = cx_chan b" "rows_ahead b' < rows_ahead b" for b'
    using that by (simp add: row_used_def rows_kept_def)
  show ?thesis
  proof (cases "cx_input_iter b")
    case ExactlyOnce
    then show ?thesis by (simp add: bridge_next_def rows_kept_def)
  next
    case Multiple
    obtain more input where adv: "advance (br_input b) = (more, input)" by fastforce
    then have "batch_ahead input \<le> batch_ahead (br_input b)"
      "more \<Longrightarrow> batch_ahead input < batch_ahead (br_input b)"
      by (auto simp: advance_def batch_ahead_def split: if_splits)
    then show ?thesis
      using assms Multiple adv
      by (auto simp: bridge_next_def wired_def rows_ahead_def Let_def
          intro!: refill [unfolded wired_def rows_ahead_def] moved [unfolded rows_ahead_def])
  qed
qed

lemma push_output_ends:
  assumes "wired b"
  shows "ends (push_output_row (wire_env H) out b) (less_left b)"
  using assms
  by (auto simp: push_output_row_def wired_def ends_rules intro!: ends_mono [OF flusher_ends]
      split: sum.splits option.splits)

lemma emit_ffi_ends:
  assumes "wired b"
  shows "ends (bridge_emit_ffi (wire_env H) ffi b) (less_left b)"
  using assms
  by (auto simp: bridge_emit_ffi_def wired_def ends_rules Let_def
      intro!: ends_mono [OF batch_ends [OF flusher_ends]] split: sum.splits)

lemma bridge_call_ends:
  assumes "wired b"
  shows "ends (bridge_call (wire_env H) call b)
    (\<lambda>r b'. (b', b) \<in> rows_kept \<and> (next_row call r \<longrightarrow> (b', b) \<in> row_used))"
proof (cases "call = NextRow")
  case True
  then show ?thesis
    using bridge_next_ends [OF assms] by (simp add: bridge_call_def ends_rules split_beta next_row_def)
next
  case False
  have "ends (bridge_call (wire_env H) call b) (less_left b)"
  proof (cases call)
    case (EmitRow vals)
    then show ?thesis using push_output_ends [OF assms] by (simp add: bridge_call_def bridge_emit_def)
  next
    case (SetReturn v)
    then show ?thesis using push_output_ends [OF assms] by (simp add: bridge_call_def bridge_set_return_def)
  next
    case (EmitRecordBatchFfi ffi)
    then show ?thesis using emit_ffi_ends [OF assms] by (simp add: bridge_call_def)
  next
    case ClusterIp
    then show ?thesis
      by (cases "cluster_ip (wire_env H) b" rule: prod.exhaust) (auto simp: bridge_call_def dest: cluster_ip_left)
  next
    case (ConnectionLookup name)
    then show ?thesis using lookup_ends assms by (simp add: bridge_call_def wired_def)
  next
    case (ConnectBackTo conn)
    then show ?thesis using connect_back_ends by (simp add: bridge_call_def)
  qed (use False in \<open>simp_all add: bridge_call_def answer_def\<close>)
  then show ?thesis
    by (rule ends_mono) (use False in \<open>auto simp: next_row_def dest: bridge_call_cursor intro: same_cursor_kept\<close>)
qed

lemma wired_setup: "same_setup b b' \<Longrightarrow> wired b \<Longrightarrow> wired b'"
  by (simp add: wired_def same_setup_def)

definition bridge_alive :: "nat \<Rightarrow> ('w group_wire, 'd, 't) bridge \<Rightarrow> bool" where
  "bridge_alive n b \<longleftrightarrow> wired b \<and> left_on (cx_chan b) \<le> n"

definition single_call_alive :: "nat \<Rightarrow> 'w wire single_call_context \<Rightarrow> bool" where
  "single_call_alive n c \<longleftrightarrow> sc_conn_requester c = conn_requester (he_prost H) Z \<and> left_on (cx_chan c) \<le> n"

definition cleanup_alive :: "nat \<Rightarrow> 'w wire cleanup_context \<Rightarrow> bool" where
  "cleanup_alive n c \<longleftrightarrow> left_on (cx_chan c) \<le> n"

lemma bridge_answers:
  assumes "bridge_alive n b"
  shows "\<exists>r b'. bridge_call (wire_env H) call b = Some (r, b') \<and> bridge_alive n b' \<and>
    (b', b) \<in> rows_kept \<and> (next_row call r \<longrightarrow> (b', b) \<in> row_used)"
proof -
  have "wired b" using assms by (simp add: bridge_alive_def)
  then obtain r b' where r: "bridge_call (wire_env H) call b = Some (r, b')" "(b', b) \<in> rows_kept"
    "next_row call r \<longrightarrow> (b', b) \<in> row_used"
    using bridge_call_ends by (fastforce simp: ends_def)
  then have "same_setup b b'" using bridge_call_inv [OF r(1)] by (simp add: bridge_inv_def)
  then show ?thesis using r assms wired_setup by (auto simp: bridge_alive_def rows_kept_def)
qed

lemma single_call_answers:
  assumes "single_call_alive n c"
  shows "\<exists>r c'. single_call_call (wire_env H) call c = Some (r, c') \<and> single_call_alive n c' \<and> \<not> next_row call r"
proof -
  have kept: "sc_conn_requester c' = sc_conn_requester c"
    if "single_call_call (wire_env H) call c = Some (r, c')" for r c'
    using that by (cases call) (auto simp: single_call_call_def answer_def delegate_connection_lookup_def
        cluster_ip_def connect_back_def on_chan_def Let_def split: prod.splits)
  have "ends (single_call_call (wire_env H) call c) (\<lambda>r c'. left_on (cx_chan c') \<le> left_on (cx_chan c))"
  proof (cases call)
    case ClusterIp
    then show ?thesis
      by (cases "cluster_ip (wire_env H) c" rule: prod.exhaust) (auto simp: single_call_call_def dest: cluster_ip_left)
  next
    case (ConnectionLookup name)
    then show ?thesis using lookup_ends assms by (simp add: single_call_call_def single_call_alive_def)
  next
    case (ConnectBackTo conn)
    then show ?thesis using connect_back_ends by (simp add: single_call_call_def)
  qed (simp_all add: single_call_call_def answer_def)
  moreover have "\<not> next_row call r" if "single_call_call (wire_env H) call c = Some (r, c')" for r c'
    using that by (auto simp: next_row_def single_call_call_def answer_def delegate_handshake_meta_def
        delegate_iter_types_def refuse_row_io_def Let_def)
  ultimately show ?thesis using kept assms by (fastforce simp: ends_def single_call_alive_def)
qed

lemma cleanup_answers:
  assumes "cleanup_alive n c"
  shows "\<exists>r c'. cleanup_call (wire_env H) call c = Some (r, c') \<and> cleanup_alive n c' \<and> \<not> next_row call r"
proof -
  have "ends (cleanup_call (wire_env H) call c) (\<lambda>r c'. left_on (cx_chan c') \<le> left_on (cx_chan c))"
  proof (cases call)
    case ClusterIp
    then show ?thesis
      by (cases "cluster_ip (wire_env H) c" rule: prod.exhaust) (auto simp: cleanup_call_def dest: cluster_ip_left)
  next
    case (ConnectBackTo conn)
    then show ?thesis using connect_back_ends by (simp add: cleanup_call_def)
  qed (simp_all add: cleanup_call_def answer_def cleanup_connection_def record_error_def Let_def)
  moreover have "\<not> next_row call r" if "cleanup_call (wire_env H) call c = Some (r, c')" for r c'
    using that by (auto simp: next_row_def cleanup_call_def answer_def delegate_handshake_meta_def
        delegate_iter_types_def refuse_row_io_def Let_def)
  ultimately show ?thesis using assms by (fastforce simp: ends_def cleanup_alive_def)
qed

end

sublocale live_host \<subseteq> bridge: answering_context "bridge_call (wire_env H)" "bridge_alive n" row_used rows_kept for n
  by unfold_locales (erule bridge_answers, auto simp: row_used_def rows_kept_def)

text \<open>A context that gives no rows has nothing to use up.\<close>

sublocale live_host \<subseteq> single_call: answering_context "single_call_call (wire_env H)" "single_call_alive n" "{}" UNIV for n
  by unfold_locales (use single_call_answers in auto)

sublocale live_host \<subseteq> cleanup: answering_context "cleanup_call (wire_env H)" "cleanup_alive n" "{}" UNIV for n
  by unfold_locales (use cleanup_answers in auto)

section \<open>Driving the UDF ends\<close>

definition udf_stops :: "('d, 't, 'u) vtable \<Rightarrow> bool" where
  "udf_stops vt \<longleftrightarrow> (\<forall>u. progresses (vt_run vt u)) \<and>
     (\<forall>f u. vt_cleanup vt = Some f \<longrightarrow> progresses (f u)) \<and>
     (\<forall>f arg u. vt_virtual_schema_adapter_call vt = Some f \<or> vt_generate_sql_for_import_spec vt = Some f \<or>
        vt_generate_sql_for_export_spec vt = Some f \<longrightarrow> progresses (f arg u))"

context live_host
begin

lemma run_once_ends:
  assumes "udf_stops vt" "wired b"
  shows "ends (run_once (wire_env H) vt (b, u)) (\<lambda>r (b', u'). less_left b r b' \<and> wired b' \<and> bridge_inv b b')"
proof -
  let ?b = "b\<lparr>cx_last_error := None\<rparr>"
  have "progresses (vt_run vt u)" "bridge_alive (left_on (cx_chan b)) ?b"
    using assms by (simp_all add: udf_stops_def bridge_alive_def wired_def)
  then obtain x b' where run: "run_prog (bridge_call (wire_env H)) (vt_run vt u) ?b = Some (x, b')"
    and alive: "bridge_alive (left_on (cx_chan b)) b'" using bridge.run_returns by blast
  have "bridge_inv ?b b'" using Bridge_Laws.bridge.run_keeps [OF run] .
  then have "bridge_inv b b'" by (simp add: bridge_inv_defs)
  then show ?thesis
    using run alive
    by (auto simp: run_once_def take_last_error_def run_udf_code_def call_lifecycle_slot_def Let_def
        bridge_alive_def wired_def split: prod.split sum.split)
qed

lemma advance_ends:
  assumes "wired b"
  shows "ends (advance_driven E (b, u)) (\<lambda>r (b', u'). less_left b r b' \<and> same_setup b b' \<and>
    (r = Ok True \<longrightarrow> left_on (cx_chan b') < left_on (cx_chan b) \<or>
       left_on (cx_chan b') = left_on (cx_chan b) \<and> batch_ahead (br_input b') < batch_ahead (br_input b)))"
proof (cases "advance (br_input b)")
  case (Pair more input)
  show ?thesis
  proof (cases more)
    case True
    then show ?thesis
      using Pair by (auto simp: advance_driven_def advance_row_def Let_def batch_ahead_def advance_def
          same_setup_def split: if_splits)
  next
    case False
    let ?b = "b\<lparr>br_input := input\<rparr>"
    have "wired ?b" using assms by (simp add: wired_def)
    from refill_ends [OF this, of E] show ?thesis
      using Pair False
      by (auto simp: advance_driven_def advance_row_def Let_def ends_rules same_setup_def elim!: ends_mono)
  qed
qed

lemma drive_rows_ends:
  assumes "udf_stops vt" "wired b" "cx_input_iter b = ExactlyOnce"
  shows "ends (drive_rows (wire_env H) vt (b, u)) (\<lambda>r (b', u'). less_left b r b')"
  using assms(2,3)
proof (induction "(b, u)" arbitrary: b u
    rule: wf_induct_rule [OF wf_measures [of "[\<lambda>(b, u). left_on (cx_chan b), \<lambda>(b, u). batch_ahead (br_input b)]"]])
  case (1 b u)
  have again: "ends (drive_rows (wire_env H) vt (b', u')) (\<lambda>r (b', u'). less_left b r b')"
    if "wired b'" "same_setup b b'" "left_on (cx_chan b') < left_on (cx_chan b) \<or>
      left_on (cx_chan b') \<le> left_on (cx_chan b) \<and> batch_ahead (br_input b') < batch_ahead (br_input b)" for b' u'
    by (rule ends_mono [OF 1(1) [of b' u']]) (use that 1(3) in \<open>auto simp: same_setup_def\<close>)
  show ?case
  proof (subst drive_rows.simps, unfold ends_bind, rule ends_mono [OF run_once_ends [OF assms(1) 1(2)]], goal_cases)
    case ran: (1 r bu)
    obtain b1 u1 where bu: "bu = (b1, u1)" by (cases bu)
    have b1: "wired b1" "left_on (cx_chan b1) \<le> left_on (cx_chan b)" "same_setup b b1" "br_input b1 = br_input b"
      using ran bu 1(3) by (simp_all add: bridge_inv_def)
    show ?case
    proof (cases r)
      case (Inr x)
      have "ends (advance_driven (he_ext (wire_env H)) (b1, u1))
          (\<lambda>r t. case r of Inl e \<Rightarrow> (case t of (b', u') \<Rightarrow> less_left b (Inl e) b')
            | Inr again \<Rightarrow> ends (if again then drive_rows (wire_env H) vt t else io_return () t)
                (\<lambda>r (b', u'). less_left b r b'))"
      proof (rule ends_mono [OF advance_ends [OF b1(1)]], goal_cases)
        case (1 r2 bu2)
        obtain b2 u2 where bu2: "bu2 = (b2, u2)" by (cases bu2)
        have "same_setup b b2" using 1 bu2 b1(3) by (auto simp: same_setup_def)
        then show ?case
          using 1 bu2 b1 wired_setup [of b1 b2] again [of b2 u2] by (auto split: sum.split)
      qed
      then show ?thesis using Inr bu by simp
    qed (use ran bu in auto)
  qed
qed

lemma group_rows_ends:
  assumes "udf_stops vt" "wired b" "cx_input_iter b = iter"
  shows "ends (drive_group_rows (wire_env H) vt iter (b, u)) (\<lambda>r (b', u'). less_left b r b')"
  using assms
  by (cases iter) (auto simp: drive_group_rows_def intro: drive_rows_ends elim: ends_mono [OF run_once_ends])

lemma group_input_ends:
  assumes "udf_stops vt"
  shows "ends (run_group_input (wire_env H) Z vt meta (s, u)) (\<lambda>r (s', u'). left_on s' \<le> left_on s)"
proof -
  have "ends (drive_group_rows (wire_env H) vt (um_input_iter meta) (group_bridge (wire_env H) Z meta input t, u))
      (\<lambda>r (b', u'). left_on (cx_chan b') \<le> left_on t)" for input t
    by (rule ends_mono [OF group_rows_ends [OF assms]])
      (auto simp: group_bridge_def configure_group_input_def bridge_new_def wired_def Let_def)
  note rows = ends_mono [OF this]
  show ?thesis
    by (auto simp: run_group_input_def ends_rules intro!: ends_mono [OF first_input_ends] rows
        split: sum.splits option.splits)
qed

lemma tail_flush_ends: "ends (tail_flush P Z buf s) (\<lambda>r s'. left_on s' \<le> left_on s)"
  by (auto simp: tail_flush_def ends_rules intro!: ends_mono [OF request_ends] split: sum.splits)

lemma run_group_ends:
  assumes "udf_stops vt"
  shows "ends (run_group H Z vt meta (s, u)) (\<lambda>r (s', u'). left_on s' \<le> left_on s)"
  by (auto simp: run_group_def ends_rules Let_def wire.defs group_wire.defs
      intro!: ends_mono [OF group_input_ends [OF assms]] ends_mono [OF tail_flush_ends]
      split: sum.splits option.splits group_exit.splits)

lemma wire_request_ends:
  "ends (wire_request H Z req (s, u)) (\<lambda>r (s', u'). left_on s' \<le> left_on s \<and> (is_ok r \<longrightarrow> left_on s' < left_on s))"
  by (auto simp: wire_request_def ends_rules intro!: ends_mono [OF request_ends])

lemma run_turn_ends:
  assumes "udf_stops vt"
  shows "ends (run_turn H Z vt meta (s, u)) (\<lambda>r (s', u'). left_on s' \<le> left_on s \<and> (is_ok r \<longrightarrow> left_on s' < left_on s))"
proof -
  let ?ended = "\<lambda>s1. \<lambda>r (s', u'). left_on s' \<le> left_on s1"
  have finish: "ends (io_bind (wire_request H Z done_request) (\<lambda>event. case event of
                 EvCleanup \<Rightarrow> io_return (Some (Ok ()))
               | EvClose msg \<Rightarrow> io_return (Some (close_error msg))
               | _ \<Rightarrow> io_return None) su) (?ended (fst su))" for su :: "'w wire \<times> 'u"
    by (cases su, simp only: ends_bind fst_conv, rule ends_mono [OF wire_request_ends])
      (auto split: sum.split host_event.split)
  have rest: "ends (io_bind (run_group H Z vt meta) (\<lambda>early. case early of
             Some result \<Rightarrow> io_return (Some result)
           | None \<Rightarrow>
             io_bind (wire_request H Z done_request) (\<lambda>event. case event of
                 EvCleanup \<Rightarrow> io_return (Some (Ok ()))
               | EvClose msg \<Rightarrow> io_return (Some (close_error msg))
               | _ \<Rightarrow> io_return None)) (s1, u1)) (?ended s1)" for s1 u1
    unfolding ends_bind [of "run_group H Z vt meta"]
  proof (rule ends_mono [OF run_group_ends [OF assms]], goal_cases)
    case (1 r su)
    then show ?case
      using ends_mono [OF finish [of su], where R = "?ended s1"]
      by (auto split: sum.split option.split)
  qed
  show ?thesis
    unfolding run_turn_def ends_bind [of "wire_request H Z run_request"]
  proof (rule ends_mono [OF wire_request_ends], goal_cases)
    case (1 r su)
    obtain s1 u1 where su: "su = (s1, u1)" by (cases su)
    show ?case
    proof (cases r)
      case (Inr event)
      have less: "left_on s1 < left_on s" using 1 su Inr by simp
      note turn = ends_mono [OF rest [of s1 u1], where R = "\<lambda>r (s', u'). left_on s' \<le> left_on s \<and>
        (is_ok r \<longrightarrow> left_on s' < left_on s)"]
      show ?thesis
        using less Inr su by (cases event) (auto intro!: turn)
    qed (use 1 su in auto)
  qed
qed

lemma run_udf_ends:
  assumes "udf_stops vt"
  shows "ends (run_udf H Z vt meta (s, u)) (\<lambda>r (s', u'). left_on s' \<le> left_on s)"
proof (induction "left_on s" arbitrary: s u rule: less_induct)
  case less
  have again: "ends (run_udf H Z vt meta (s', u')) (\<lambda>r (s', u'). left_on s' \<le> left_on s)"
    if "left_on s' < left_on s" for s' u'
    by (rule ends_mono [OF less [OF that]]) (use that in auto)
  show ?case
    by (subst run_udf.simps, unfold ends_bind, rule ends_mono [OF run_turn_ends [OF assms]])
      (auto intro: again split: sum.split option.split)
qed

section \<open>Single calls end\<close>

lemma ctx_hook_ends:
  assumes "udf_stops vt" "hook = vt_virtual_schema_adapter_call vt \<or> hook = vt_generate_sql_for_import_spec vt \<or>
      hook = vt_generate_sql_for_export_spec vt"
  shows "ends (invoke_ctx_hook H Z meta name hook arg (s, u)) (\<lambda>r (s', u'). left_on s' \<le> left_on s)"
proof (cases hook)
  case (Some f)
  let ?ctx = "single_call_context_new (handshake_meta_from meta) (um_input_iter meta)
    (um_output_iter meta) (conn_requester (he_prost H) Z) s"
  have "progresses (f arg u)" "single_call_alive (left_on s) ?ctx"
    using assms Some by (auto simp: udf_stops_def single_call_alive_def single_call_context_new_def)
  then obtain x c where "run_prog (single_call_call (wire_env H)) (f arg u) ?ctx = Some (x, c)"
    "single_call_alive (left_on s) c" using single_call.run_returns by blast
  then show ?thesis
    using Some
    by (auto simp: Let_def invoke_ctx_hook_def call_ctx_arg_hook_def take_last_error_def single_call_alive_def
        single_call_context_new_def split: prod.split)
qed (simp add: invoke_ctx_hook_def)

lemma invoke_hook_ends:
  assumes "udf_stops vt"
  shows "ends (invoke_hook H Z J vt meta call (s, u)) (\<lambda>r (s', u'). left_on s' \<le> left_on s)"
proof (cases "scr_fn_id call")
  case ScFnVirtualSchemaAdapterCall
  then show ?thesis using ctx_hook_ends [OF assms] by (simp add: invoke_hook_def)
next
  case ScFnGenerateSqlForImportSpec
  then show ?thesis
    using ctx_hook_ends [OF assms]
    by (auto simp: invoke_hook_def ends_bind split: option.split sum.split)
next
  case ScFnGenerateSqlForExportSpec
  then show ?thesis
    using ctx_hook_ends [OF assms]
    by (auto simp: invoke_hook_def ends_bind split: option.split sum.split)
qed (auto simp: invoke_hook_def split: option.split prod.split)

lemma answer_call_ends:
  assumes "udf_stops vt"
  shows "ends (answer_call H Z J vt meta call (s, u)) (\<lambda>r (s', u'). left_on s' \<le> left_on s)"
proof -
  have reply: "ends (wire_request H Z req su) (\<lambda>r (s', u'). left_on s' \<le> left_on s)"
    if "case su of (s', u') \<Rightarrow> left_on s' \<le> left_on s" for req and su :: "'w wire \<times> 'u"
    using that by (cases su) (auto intro!: ends_mono [OF wire_request_ends])
  show ?thesis
    unfolding answer_call_def ends_bind
    by (rule ends_mono [OF invoke_hook_ends [OF assms]])
      (auto split: sum.split intro!: ends_mono [OF reply])
qed

lemma single_call_turn_ends:
  assumes "udf_stops vt"
  shows "ends (single_call_turn H Z J vt meta (s, u))
    (\<lambda>r (s', u'). left_on s' \<le> left_on s \<and> (is_ok r \<longrightarrow> left_on s' < left_on s))"
proof -
  let ?Q = "\<lambda>r (s', u'). left_on s' \<le> left_on s \<and> (is_ok r \<longrightarrow> left_on s' < left_on s)"
  have finish: "ends (io_bind (wire_request H Z done_request) (\<lambda>event. io_return (done_ack H event)) su) ?Q"
    if "case su of (s', u') \<Rightarrow> left_on s' < left_on s" for su :: "'w wire \<times> 'u"
    using that by (cases su) (auto simp: ends_bind intro!: ends_mono [OF wire_request_ends] split: sum.split)
  have rest: "ends (io_bind (answer_call H Z J vt meta call) (\<lambda>left. case left of
             Some result \<Rightarrow> io_return (Some result)
           | None \<Rightarrow> io_bind (wire_request H Z done_request) (\<lambda>event. io_return (done_ack H event))) (s1, u1)) ?Q"
    if "left_on s1 < left_on s" for call s1 u1
    unfolding ends_bind [of "answer_call H Z J vt meta call"]
  proof (rule ends_mono [OF answer_call_ends [OF assms]], goal_cases)
    case (1 r su)
    then show ?case using that finish [of su] by (cases su) (auto split: sum.split option.split)
  qed
  show ?thesis
    unfolding single_call_turn_def ends_bind [of "wire_request H Z run_request"]
  proof (rule ends_mono [OF wire_request_ends], goal_cases)
    case (1 r su)
    obtain s1 u1 where su: "su = (s1, u1)" by (cases su)
    show ?case
    proof (cases r)
      case (Inr event)
      have "left_on s1 < left_on s" using 1 su Inr by simp
      then show ?thesis using Inr su by (cases event) (auto intro!: rest)
    qed (use 1 su in auto)
  qed
qed

lemma run_single_call_ends:
  assumes "udf_stops vt"
  shows "ends (run_single_call H Z J vt meta (s, u)) (\<lambda>r (s', u'). left_on s' \<le> left_on s)"
proof (induction "left_on s" arbitrary: s u rule: less_induct)
  case less
  have again: "ends (run_single_call H Z J vt meta (s', u')) (\<lambda>r (s', u'). left_on s' \<le> left_on s)"
    if "left_on s' < left_on s" for s' u'
    by (rule ends_mono [OF less [OF that]]) (use that in auto)
  show ?case
    by (subst run_single_call.simps, unfold ends_bind, rule ends_mono [OF single_call_turn_ends [OF assms]])
      (auto intro: again split: sum.split option.split)
qed

section \<open>The session ends\<close>

lemma handshake_ends: "ends (handshake P Z s) (\<lambda>r s'. left_on s' \<le> left_on s)"
proof (induction "left_on s" arbitrary: s rule: less_induct)
  case less
  have again: "ends (handshake P Z s') (\<lambda>r s'. left_on s' \<le> left_on s)" if "left_on s' < left_on s" for s'
    by (rule ends_mono [OF less [OF that]]) (use that in auto)
  have reply: "ends (action_reply P Z action s') (\<lambda>r t. left_on t \<le> left_on s')" for action s'
    using wire_send_ends by (cases action; cases "the action") (auto simp: action_reply_def send_ping_reply_def)
  have recv: "ends (wire_recv P Z s) (\<lambda>r s'. left_on s' \<le> left_on s \<and> (is_ok r \<longrightarrow> left_on s' < left_on s))"
    using wire_recv_returns [of P s] by (auto simp: ends_def)
  have st: "ends (wire_step resp t) (\<lambda>r t'. left_on t' = left_on t)" for resp and t :: "'w wire"
    using wire_step_returns [of resp t] by (auto simp: ends_def)
  show ?case
  proof (subst handshake.simps, unfold ends_bind [of "wire_recv P Z"], rule ends_mono [OF recv], goal_cases)
    case (1 r1 s1)
    show ?case
    proof (cases r1)
      case (Inr resp)
      have "ends (io_bind (wire_step resp) (\<lambda>(event, action).
          io_bind (action_reply P Z action) (\<lambda>_. case event of
             EvMeta m \<Rightarrow> io_return m
           | EvClose msg \<Rightarrow> io_fail (ProtocolError (ProtocolErr (unwrap_or ''closed before meta'' msg)))
           | _ \<Rightarrow> (\<lambda>s. handshake P Z s))) s1) (\<lambda>r s'. left_on s' \<le> left_on s)"
        unfolding ends_bind [of "wire_step resp"]
      proof (rule ends_mono [OF st], goal_cases)
        case (1 r2 s2)
        have lt: "left_on s2 < left_on s" using 1 \<open>left_on s1 \<le> left_on s \<and> _\<close> Inr by simp
        show ?case
        proof (cases r2)
          case (Inr ea)
          obtain event action where ea: "ea = (event, action)" by (cases ea)
          have "ends (io_bind (action_reply P Z action) (\<lambda>_. case event of
             EvMeta m \<Rightarrow> io_return m
           | EvClose msg \<Rightarrow> io_fail (ProtocolError (ProtocolErr (unwrap_or ''closed before meta'' msg)))
           | _ \<Rightarrow> (\<lambda>s. handshake P Z s)) s2) (\<lambda>r s'. left_on s' \<le> left_on s)"
            unfolding ends_bind
            by (rule ends_mono [OF reply]) (use lt in \<open>auto intro: again split: sum.split host_event.split\<close>)
          then show ?thesis using Inr ea by simp
        qed (use lt in simp)
      qed
      then show ?thesis using Inr by simp
    qed (use 1 in simp)
  qed
qed

lemma run_hook_ends:
  fixes s :: "'w wire"
  assumes "udf_stops vt"
  shows "ends (run_hook (wire_env H) vt meta outcome (s, u)) (\<lambda>r (s', u'). left_on s' \<le> left_on s)"
proof (cases "vt_cleanup vt")
  case (Some f)
  let ?ctx = "cleanup_context_from meta s"
  have "progresses (f u)" "cleanup_alive (left_on s) ?ctx"
    using assms Some
    by (auto simp: udf_stops_def cleanup_alive_def cleanup_context_from_def cleanup_context_new_def)
  then obtain x c where "run_prog (cleanup_call (wire_env H)) (f u) ?ctx = Some (x, c)"
    "cleanup_alive (left_on s) c" using cleanup.run_returns by blast
  then show ?thesis
    using Some
    by (auto simp: run_hook_def cleanup_udf_def call_lifecycle_slot_def take_last_error_def cleanup_alive_def
        Let_def split: prod.split sum.split)
qed (simp add: run_hook_def cleanup_udf_def)

lemma close_with_ends: "ends (close_with P Z code e s) (\<lambda>r s'. left_on s' \<le> left_on s)"
  unfolding close_with_def ends_bind io_try_def ends_map_option
  by (rule ends_mono [OF wire_send_ends]) simp

lemma send_finished_ends: "ends (send_finished P Z s) (\<lambda>r s'. left_on s' \<le> left_on s)"
  unfolding send_finished_def ends_bind
  by (rule ends_mono [OF request_ends]) (simp split: sum.split)

end

text \<open>Every library the loader may open holds code that makes progress.\<close>

locale live_runtime = live_host "re_zmq R" clock left "re_host R"
    for R :: "('w, 'd, 't, 'u, 'j) runtime_env" and clock left :: "'w \<Rightarrow> nat" +
  assumes loads_stop: "re_dlopen R path = Ok lib \<Longrightarrow> so_entry lib symbol = Some (Some vt) \<Longrightarrow> udf_stops vt"
    and level_left: "left (re_on_level_resolved R level w) \<le> left w"
begin

lemma run_loaded_ends:
  assumes "udf_stops (lu_vtable udf)"
  shows "ends (run_loaded R udf meta s) (\<lambda>r s'. left_on s' \<le> left_on s)"
proof -
  let ?Z = "re_zmq R" and ?H = "re_host R" and ?vt = "lu_vtable udf"
  let ?Q = "\<lambda>r s'. left_on s' \<le> left_on s"
  have closed: "ends (case outcome of Inl e \<Rightarrow> close_with P ?Z code e t | Inr x \<Rightarrow> Some (Ok (), t)) ?Q"
    if "left_on t \<le> left_on s" for outcome P code t
    using that by (cases outcome) (auto intro: ends_mono [OF close_with_ends])
  have finished: "ends (io_bind (io_lift cleaned) (\<lambda>_. send_finished P ?Z) t) ?Q" if "left_on t \<le> left_on s" for cleaned P t
    using that by (cases cleaned) (auto simp: ends_bind intro: ends_mono [OF send_finished_ends])
  have cleaned: "ends (run_hook (wire_env ?H) ?vt meta outcome (t, u)) (\<lambda>r (s', u'). left_on s' \<le> left_on s)"
    if "left_on t \<le> left_on s" for outcome u and t :: "'w wire"
    by (rule ends_mono [OF run_hook_ends [OF assms]]) (use that in auto)
  have "ends (dispatch R ?vt meta (s, u)) (\<lambda>r (s', u'). left_on s' \<le> left_on s)" for u
    by (simp add: dispatch_def run_udf_ends [OF assms] run_single_call_ends [OF assms])
  note dispatched = ends_mono [OF this]
  show ?thesis
    unfolding run_loaded_def Let_def ends_option_bind
  proof (rule dispatched, goal_cases)
    case (1 r su)
    obtain t u where su: "su = (t, u)" by (cases su)
    then have t: "left_on t \<le> left_on s" using 1 by simp
    have "ends (run_hook (wire_env ?H) ?vt meta r (t, u)) (\<lambda>r2 su2. ends
        (io_bind (io_lift r2) (\<lambda>_. send_finished (he_prost ?H) ?Z) (fst su2)) (\<lambda>r3 s3. ends
          (case r3 of Inl e \<Rightarrow> close_with (he_prost ?H) ?Z UDF_ERROR_CLOSE_CODE e s3 | Inr x \<Rightarrow> Some (Ok (), s3)) ?Q))"
      by (rule ends_mono [OF cleaned [OF t]]) (auto intro: ends_mono [OF finished] closed)
    then show ?case using su by (simp add: ends_option_bind split_beta)
  qed
qed

lemma run_with_meta_ends: "ends (run_with_meta R meta s) (\<lambda>r s'. left_on s' \<le> left_on s)"
proof -
  have "udf_stops (lu_vtable udf)" if "open_udf (re_dlopen R) fp path name = Ok udf" for udf fp path name
    using that by (auto simp: open_udf_def Let_def dest: loads_stop split: sum.splits option.splits if_splits)
  then show ?thesis
    unfolding run_with_meta_def Let_def
    by (auto intro: close_with_ends run_loaded_ends split: option.split sum.split)
qed

lemma run_session_ends: "ends (run_session R client s) (\<lambda>r s'. left_on s' \<le> left_on s)"
proof -
  let ?Z = "re_zmq R"
  let ?Q = "\<lambda>r s'. left_on s' \<le> left_on s"
  have meta: "ends (run_with_meta R m t) ?Q" if "left_on t \<le> left_on s" for m t
    by (rule ends_mono [OF run_with_meta_ends]) (use that in simp)
  have resolved: "ends (io_bind (resolve_level R m) (\<lambda>_. run_with_meta R m) t) ?Q" if "left_on t \<le> left_on s" for m t
    using that level_left [of "parse_debug_level (um_source_code m)" "wi_world t"]
    by (auto simp: ends_bind resolve_level_def intro!: meta)
  have "ends (io_bind (handshake P ?Z) (\<lambda>m. io_bind (resolve_level R m) (\<lambda>_. run_with_meta R m)) t) ?Q"
    if "left_on t \<le> left_on s" for P t
    unfolding ends_bind [of "handshake P ?Z"]
    by (rule ends_mono [OF handshake_ends]) (use that in \<open>auto intro: resolved split: sum.split\<close>)
  then show ?thesis
    unfolding run_session_def Let_def
    by (subst ends_bind, intro ends_mono [OF wire_send_ends]) (auto split: sum.split)
qed

lemma runtime_run_ends: "\<exists>r w'. runtime_run R endpoint client w = Some (r, w')"
proof -
  have call: "\<exists>r v. zmq_call op v0 = Some (r, v)" for op v0
    by (cases "op v0") (simp add: zmq_call_def)
  have "ends (zmq_call op v0) (\<lambda>_ _. True)" for op v0 using call by (auto simp: ends_def)
  then have "ends (transport_connect (re_zmq R) endpoint w) (\<lambda>_ _. True)"
    by (auto simp: transport_connect_def ends_bind intro!: ends_mono [OF \<open>\<And>op v0. ends (zmq_call op v0) _\<close>]
        split: sum.split)
  then have "ends (runtime_run R endpoint client w) (\<lambda>_ _. True)"
    by (auto simp: runtime_run_def ends_bind ends_map_err ends_map_option split: sum.split
        elim!: ends_mono intro!: ends_mono [OF run_session_ends])
  then show ?thesis by (auto simp: ends_def)
qed

end

end
