(* ===== verification/Emission.thy ===== *)
theory Emission
  imports Dispatch Bridge_Laws
begin

text \<open>
  The output law. Whatever a UDF does on the bridge, the rows the bridge let in reach the
  database once, in order, cut into tables, and the rows not yet sent are the ones in the
  buffer. The law is proved once over a channel that delivers tables (the locale
  \<open>output_channel\<close>) and interpreted on the runtime's flusher over a REQ socket.
\<close>

section \<open>Rows in a buffer\<close>

type_synonym ('d, 't) numbered_row = "('d, 't) sql_value list \<times> nat"

text \<open>A buffer that carries rows: their table, and an estimate no row's cost is missing from.\<close>

definition carries :: "prost \<Rightarrow> ('d, 't) ext \<Rightarrow> column_info list \<Rightarrow> ('d, 't) numbered_row list \<Rightarrow>
    emit_buffer \<Rightarrow> bool" where
  "carries P E cols rs b \<longleftrightarrow> eb_table b = table_of P E cols rs \<and>
     sum_list (map (row_cost \<circ> fst) rs) \<le> byte_estimate b"

lemma carries_new [simp]: "carries P E cols [] emit_buffer_new" "carries P E cols [] (clear_buffer b)"
  using buffer_holds_new [of P E cols] by (simp_all add: carries_def buffer_holds_def)

lemma table_of_rows [simp]: "rows (table_of P E cols rs) = length rs"
  by (simp add: table_of_def)

context prost_wire
begin

lemma push_carries:
  assumes "carries P E cols rs b" "packs_row E cols vs"
  shows "\<exists>b'. push P E vs n cols b = Some b' \<and> carries P E cols (rs @ [(vs, n)]) b'"
  using assms push_costed_eq [OF assms(2), of n "row_cost vs" b]
  by (simp add: push_eq_costed carries_def table_of_def account_def add_cells_def)

end

section \<open>A channel that delivers tables\<close>

locale output_channel =
  fixes P :: prost and flusher :: "'s flusher" and delivers :: "emit_table list \<Rightarrow> 's \<Rightarrow> 's \<Rightarrow> bool"
  assumes wire: "prost_wire P"
    and delivers_refl: "delivers [] s s"
    and delivers_trans: "delivers ts s s' \<Longrightarrow> delivers us s' s'' \<Longrightarrow> delivers (ts @ us) s s''"
    and flush_delivers: "flusher t s = Some (Ok u, s') \<Longrightarrow> rows t \<noteq> 0 \<Longrightarrow> delivers [t] s s'"
begin

text \<open>Groups of rows that went out, and the rows that stayed, which are in order all the rows that
  came in.\<close>

definition sent_groups :: "('d, 't) ext \<Rightarrow> column_info list \<Rightarrow> ('d, 't) numbered_row list \<Rightarrow>
    ('d, 't) numbered_row list \<Rightarrow> 's \<Rightarrow> ('d, 't) numbered_row list \<Rightarrow> emit_buffer \<Rightarrow> 's \<Rightarrow> bool" where
  "sent_groups E cols held rs s held' b' s' \<longleftrightarrow> carries P E cols held' b' \<and>
     (\<exists>groups. concat groups @ held' = held @ rs \<and> delivers (map (table_of P E cols) groups) s s')"

lemma sent_groups_refl: "carries P E cols held b \<Longrightarrow> sent_groups E cols held [] s held b s"
  using delivers_refl by (auto simp: sent_groups_def intro: exI [of _ "[]"])

lemma sent_groups_trans:
  assumes "sent_groups E cols held rs s held1 b1 s1" "sent_groups E cols held1 rs1 s1 held2 b2 s2"
  shows "sent_groups E cols held (rs @ rs1) s held2 b2 s2"
proof -
  obtain gs gs1 where "concat gs @ held1 = held @ rs" "delivers (map (table_of P E cols) gs) s s1"
    "concat gs1 @ held2 = held1 @ rs1" "delivers (map (table_of P E cols) gs1) s1 s2"
    using assms by (auto simp: sent_groups_def)
  moreover from this have "concat (gs @ gs1) @ held2 = held @ rs @ rs1"
    by (metis append.assoc concat_append)
  ultimately have "concat (gs @ gs1) @ held2 = held @ rs @ rs1 \<and> delivers (map (table_of P E cols) (gs @ gs1)) s s2"
    using delivers_trans by simp
  moreover have "carries P E cols held2 b2" using assms(2) by (simp add: sent_groups_def)
  ultimately show ?thesis unfolding sent_groups_def by blast
qed

text \<open>A row pushed, and the buffer flushed when it is full.\<close>

lemma row_sent:
  assumes "carries P E cols held b" "push P E vs n cols b = Some b1" "packs_row E cols vs"
    and "if should_flush b1 then flusher (eb_table b1) s = Some (Ok u, s') \<and> b' = clear_buffer b1
      else b' = b1 \<and> s' = s"
  shows "\<exists>held'. sent_groups E cols held [(vs, n)] s held' b' s'"
proof -
  have b1: "carries P E cols (held @ [(vs, n)]) b1"
    using prost_wire.push_carries [OF wire assms(1,3), of n] assms(2) by auto
  show ?thesis
  proof (cases "should_flush b1")
    case True
    then have "delivers [table_of P E cols (held @ [(vs, n)])] s s'"
      using assms(4) b1 flush_delivers by (auto simp: carries_def)
    then have "sent_groups E cols held [(vs, n)] s [] b' s'"
      using assms(4) True by (auto simp: sent_groups_def intro!: exI [of _ "[held @ [(vs, n)]]"])
    then show ?thesis by blast
  next
    case False
    then have "sent_groups E cols held [(vs, n)] s (held @ [(vs, n)]) b' s'"
      using assms(4) b1 delivers_refl by (auto simp: sent_groups_def intro!: exI [of _ "[]"])
    then show ?thesis by blast
  qed
qed

lemma rows_sent:
  assumes "push_rows_flushing P E cols n flusher rs b s = Some (Ok u, b', s')"
    and "carries P E cols held b" "list_all (packs_row E cols) rs"
  shows "\<exists>held'. sent_groups E cols held (map (\<lambda>vs. (vs, n)) rs) s held' b' s'"
  using assms
proof (induction rs arbitrary: held b s)
  case Nil
  then have "sent_groups E cols held [] s held b' s'" using sent_groups_refl by auto
  then show ?case by auto
next
  case (Cons vs rs)
  obtain b1 where b1: "push P E vs n cols b = Some b1" using Cons.prems(1) by (auto simp: bind_eq_Some_conv)
  have "\<exists>b2 s2. (if should_flush b1 then flusher (eb_table b1) s = Some (Ok (), s2) \<and> b2 = clear_buffer b1
      else b2 = b1 \<and> s2 = s) \<and> push_rows_flushing P E cols n flusher rs b2 s2 = Some (Ok u, b', s')"
  proof (cases "should_flush b1")
    case True
    then obtain sent s2 where f: "flusher (eb_table b1) s = Some (sent, s2)"
      using Cons.prems(1) b1 by (auto simp: bind_eq_Some_conv)
    then show ?thesis using Cons.prems(1) b1 True by (cases sent) auto
  qed (use Cons.prems(1) b1 in auto)
  then obtain b2 s2 where step: "if should_flush b1 then flusher (eb_table b1) s = Some (Ok (), s2) \<and> b2 = clear_buffer b1
      else b2 = b1 \<and> s2 = s" and rest: "push_rows_flushing P E cols n flusher rs b2 s2 = Some (Ok u, b', s')"
    by blast
  obtain held1 where first: "sent_groups E cols held [(vs, n)] s held1 b2 s2"
    using row_sent [OF Cons.prems(2) b1 _ step] Cons.prems(3) by auto
  then have "carries P E cols held1 b2" by (simp add: sent_groups_def)
  then obtain held' where "sent_groups E cols held1 (map (\<lambda>vs. (vs, n)) rs) s2 held' b' s'"
    using Cons.IH [OF rest] Cons.prems(3) by auto
  from sent_groups_trans [OF first this] show ?case by auto
qed

end

section \<open>The output of a call\<close>

text \<open>The rows a call puts into the buffer, if the bridge lets them in.\<close>

definition attempted :: "('s, 'd, 't) host_env \<Rightarrow> ('d, 't) ctx_call \<Rightarrow> ('s, 'd, 't) bridge \<Rightarrow>
    ('d, 't) numbered_row list" where
  "attempted H call b = (let n = current_row_number (br_input b); cols = br_output_meta b in case call of
      EmitRow vals \<Rightarrow> if cx_output_iter b \<noteq> ExactlyOnce \<and> accepts_row cols vals then [(vals, n)] else []
    | SetReturn v \<Rightarrow> if accepts_row cols [unwrap_or VNull v] then [([unwrap_or VNull v], n)] else []
    | EmitRecordBatchFfi ffi \<Rightarrow>
        if cx_output_iter b \<noteq> ExactlyOnce \<and> \<not> ffi_array_null ffi \<and> \<not> ffi_schema_null ffi then
          (case ffi_import ffi of Inl _ \<Rightarrow> []
           | Inr batch \<Rightarrow> if is_ok (build_accessors (he_dbg_data H) (he_dbg_type H) batch cols)
               then map (\<lambda>r. (batch_row (he_ext H) (batch_cols (he_dbg_data H) (he_dbg_type H) batch cols) r, n))
                 [0 ..< rb_num_rows batch] else [])
        else []
    | _ \<Rightarrow> [])"

text \<open>A batch is what the Arrow format says it is.\<close>

definition sound_call :: "('d, 't) ctx_call \<Rightarrow> bool" where
  "sound_call call = (case call of EmitRecordBatchFfi ffi \<Rightarrow> list_all batch_ok (case ffi_import ffi of Inl _ \<Rightarrow> [] | Inr x \<Rightarrow> [x])
     | _ \<Rightarrow> True)"

text \<open>The handler with a log of the rows attempted and whether the call that brought them succeeded.\<close>

type_synonym ('d, 't) output_log = "(('d, 't) numbered_row list \<times> bool) list"

definition watched :: "('s, 'd, 't) host_env \<Rightarrow> (('s, 'd, 't) bridge \<times> ('d, 't) output_log, 'd, 't) handler" where
  "watched H call bl = (case bl of (b, log) \<Rightarrow>
     map_option (\<lambda>(r, b'). (r, b', log @ [(attempted H call b, r = RUnit (Ok ()) \<and> sound_call call)]))
       (bridge_call H call b))"

definition all_accepted :: "('d, 't) output_log \<Rightarrow> bool" where
  "all_accepted log \<longleftrightarrow> list_all (\<lambda>(rs, ok). rs \<noteq> [] \<longrightarrow> ok) log"

definition accepted_rows :: "('d, 't) output_log \<Rightarrow> ('d, 't) numbered_row list" where
  "accepted_rows log = concat (map fst log)"

text \<open>Watching changes nothing.\<close>

lemma run_watched:
  assumes "run_prog (watched H) p (b, log) = Some (x, b', log')"
  shows "run_prog (bridge_call H) p b = Some (x, b')"
proof -
  have "h = watched H \<longrightarrow> run_prog (bridge_call H) p (fst bl) = Some (fst y, fst (snd y))"
    if "run_prog h p bl = Some y" for h p y bl
    using that
  proof (induction rule: run_prog.raw_induct [rotated, consumes 1, case_names attempt])
    case (attempt run h p bl y)
    show ?case
    proof (cases p)
      case (Invoke call k)
      show ?thesis
      proof (rule impI)
        assume h: "h = watched H"
        obtain r bl1 where step: "watched H call bl = Some (r, bl1)" and y: "run h (k r) bl1 = Some y"
          using attempt.hyps Invoke h by (auto simp: bind_eq_Some_conv)
        then have "bridge_call H call (fst bl) = Some (r, fst bl1)"
          by (cases bl) (auto simp: watched_def)
        then show "run_prog (bridge_call H) p (fst bl) = Some (fst y, fst (snd y))"
          using attempt.IH [OF y] h Invoke by simp
      qed
    qed (use attempt.hyps in auto)
  qed
  from this [OF assms] show ?thesis by simp
qed

section \<open>The bridge over such a channel\<close>

locale bridge_output = output_channel P flusher delivers
    for P :: prost and flusher :: "'s flusher" and delivers +
  fixes H :: "('s, 'd, 't) host_env" and fetcher :: "('s, udf_error, table_data option) io"
    and requester :: "'s requester"
  assumes host: "he_prost H = P" and arrow: "arrow_wire P (he_ext H)"
    and fetch_quiet: "fetcher s = Some (r, s') \<Longrightarrow> delivers [] s s'"
    and lookup_quiet: "requester name s = Some (q, s') \<Longrightarrow> delivers [] s s'"
    and ifaddrs_quiet: "he_getifaddrs H s = (i, s') \<Longrightarrow> delivers [] s s'"
    and open_quiet: "he_open_connection H ci s = Some (u, s') \<Longrightarrow> delivers [] s s'"
begin

definition on_channel :: "('s, 'd, 't) bridge \<Rightarrow> bool" where
  "on_channel b \<longleftrightarrow> br_flusher b = flusher \<and> br_fetcher b = fetcher \<and> br_conn_requester b = requester \<and>
     list_all (\<lambda>m. ci_typ m \<noteq> TUnsupported) (br_output_meta b)"

text \<open>The bridge went from one state to another and sent what it had to.\<close>

definition sends :: "('d, 't) numbered_row list \<Rightarrow> ('s, 'd, 't) bridge \<Rightarrow> ('s, 'd, 't) bridge \<Rightarrow> bool" where
  "sends rs b b' \<longleftrightarrow> same_setup b b' \<and> (\<forall>held. carries P (he_ext H) (br_output_meta b) held (br_emit_buf b) \<longrightarrow>
     (\<exists>held'. sent_groups (he_ext H) (br_output_meta b) held rs (cx_chan b) held' (br_emit_buf b') (cx_chan b')))"

lemma sends_quiet:
  assumes "same_setup b b'" "br_emit_buf b' = br_emit_buf b" "delivers [] (cx_chan b) (cx_chan b')"
  shows "sends [] b b'"
proof -
  have "sent_groups E cols held [] (cx_chan b) held (br_emit_buf b') (cx_chan b')"
    if "carries P E cols held (br_emit_buf b)" for E :: "('d, 't) ext" and cols held
    using assms that by (auto simp: sent_groups_def intro!: exI [of _ "[]"])
  then show ?thesis using assms(1) unfolding sends_def by blast
qed

lemma sends_trans:
  assumes "sends rs b b1" "sends rs1 b1 b2"
  shows "sends (rs @ rs1) b b2"
proof -
  have "br_output_meta b1 = br_output_meta b" "same_setup b b2"
    using assms by (auto simp: sends_def same_setup_def)
  moreover have "\<exists>held'. sent_groups (he_ext H) (br_output_meta b) held (rs @ rs1) (cx_chan b) held'
      (br_emit_buf b2) (cx_chan b2)"
    if held: "carries P (he_ext H) (br_output_meta b) held (br_emit_buf b)" for held
  proof -
    obtain held1 where first: "sent_groups (he_ext H) (br_output_meta b) held rs (cx_chan b) held1 (br_emit_buf b1) (cx_chan b1)"
      using assms(1) held by (auto simp: sends_def)
    then have "carries P (he_ext H) (br_output_meta b1) held1 (br_emit_buf b1)"
      using \<open>br_output_meta b1 = br_output_meta b\<close> by (simp add: sent_groups_def)
    then obtain held2 where "sent_groups (he_ext H) (br_output_meta b) held1 rs1 (cx_chan b1) held2 (br_emit_buf b2) (cx_chan b2)"
      using assms(2) \<open>br_output_meta b1 = br_output_meta b\<close> by (auto simp: sends_def)
    from sent_groups_trans [OF first this] show ?thesis by blast
  qed
  ultimately show ?thesis by (simp add: sends_def)
qed

lemma output_row_sends:
  assumes "push_output_row H out b = Some (r, b')" "on_channel b"
    and "accepts_row (br_output_meta b) out \<longrightarrow> r = RUnit (Ok ())"
  shows "sends (if accepts_row (br_output_meta b) out then [(out, current_row_number (br_input b))] else []) b b'"
proof (cases "accepts_row (br_output_meta b) out")
  case True
  let ?cols = "br_output_meta b" and ?n = "current_row_number (br_input b)"
  have cost: "check_output_row (he_ext H) out ?cols = Ok (row_cost out)"
    using True by (simp add: check_output_row_ok row_cost_def)
  have kept: "same_setup b b'" using push_output_row_inv [OF assms(1)] by (simp add: bridge_inv_def)
  have "\<exists>held'. sent_groups (he_ext H) ?cols held [(out, ?n)] (cx_chan b) held' (br_emit_buf b') (cx_chan b')"
    if held: "carries P (he_ext H) ?cols held (br_emit_buf b)" for held
  proof -
    obtain b1 where b1: "push P (he_ext H) out ?n ?cols (br_emit_buf b) = Some b1"
      using prost_wire.push_carries [OF wire held accepts_packs [OF True]] by blast
    have "if should_flush b1 then flusher (eb_table b1) (cx_chan b) = Some (Ok (), cx_chan b') \<and>
        br_emit_buf b' = clear_buffer b1 else br_emit_buf b' = b1 \<and> cx_chan b' = cx_chan b"
      using assms True cost b1 by (auto simp: push_output_row_def host push_eq_costed on_channel_def on_chan_cases)
    from row_sent [OF held b1 accepts_packs [OF True] this] show ?thesis .
  qed
  then show ?thesis using True kept by (simp add: sends_def)
next
  case False
  then have "b' = b"
    using assms(1) check_output_row_ok [of "he_ext H" out "br_output_meta b"]
    by (auto simp: push_output_row_def split: sum.splits)
  then show ?thesis using False sends_quiet [of b b] delivers_refl by (simp add: same_setup_def)
qed

lemma batch_sends:
  assumes "bridge_emit_ffi H ffi b = Some (r, b')" "on_channel b"
    and "attempted H (EmitRecordBatchFfi ffi) b \<noteq> [] \<longrightarrow> r = RUnit (Ok ()) \<and> sound_call (EmitRecordBatchFfi ffi)"
  shows "sends (attempted H (EmitRecordBatchFfi ffi) b) b b'"
proof -
  let ?cols = "br_output_meta b" and ?n = "current_row_number (br_input b)" and ?E = "he_ext H"
  let ?dd = "he_dbg_data H" and ?dt = "he_dbg_type H"
  have kept: "same_setup b b'" using bridge_emit_ffi_inv [OF assms(1)] by (simp add: bridge_inv_def)
  have refl: "sends [] b b" by (rule sends_quiet) (simp_all add: same_setup_def delivers_refl)
  consider (refused) "cx_output_iter b = ExactlyOnce \<or> ffi_array_null ffi \<or> ffi_schema_null ffi \<or>
      (\<exists>e. ffi_import ffi = Err e)"
    | (batch) x where "cx_output_iter b \<noteq> ExactlyOnce" "\<not> ffi_array_null ffi" "\<not> ffi_schema_null ffi"
      "ffi_import ffi = Ok x"
    by (cases "ffi_import ffi") auto
  then show ?thesis
  proof cases
    case refused
    then have "attempted H (EmitRecordBatchFfi ffi) b = []" "b' = b"
      using assms(1) by (auto simp: attempted_def bridge_emit_ffi_def split: if_split_asm sum.split_asm)
    then show ?thesis using refl by simp
  next
    case (batch x)
    obtain q buf s where push: "push_batch ?dd ?dt P ?E x ?cols ?n flusher (br_emit_buf b) (cx_chan b) = Some (q, buf, s)"
      and b': "b' = b\<lparr>br_emit_buf := buf, cx_chan := s\<rparr>" "r = RUnit q"
      using assms(1,2) batch by (auto simp: bridge_emit_ffi_def on_channel_def host Let_def)
    show ?thesis
    proof (cases "attempted H (EmitRecordBatchFfi ffi) b = []")
      case True
      then have "rb_num_rows x = 0 \<or> \<not> is_ok (build_accessors ?dd ?dt x ?cols)"
        using batch by (auto simp: attempted_def Let_def split: if_splits)
      then have "buf = br_emit_buf b \<and> s = cx_chan b"
      proof
        assume "\<not> is_ok (build_accessors ?dd ?dt x ?cols)"
        then obtain e where "build_accessors ?dd ?dt x ?cols = Err e"
          by (cases "build_accessors ?dd ?dt x ?cols") (auto simp: is_ok_def)
        then have "packer_new ?dd ?dt x ?cols = Err e" by (simp add: packer_new_def)
        then show ?thesis using push by (cases "rb_num_rows x = 0") (simp_all add: push_batch_def Let_def)
      qed (use push in \<open>simp add: push_batch_def\<close>)
      then show ?thesis using True b' refl by simp
    next
      case False
      let ?rs = "map (batch_row ?E (batch_cols ?dd ?dt x ?cols)) [0 ..< rb_num_rows x]"
      obtain accs where accs: "build_accessors ?dd ?dt x ?cols = Ok accs"
        using False batch
        by (cases "build_accessors ?dd ?dt x ?cols") (auto simp: attempted_def is_ok_def Let_def)
      then have rows: "attempted H (EmitRecordBatchFfi ffi) b = map (\<lambda>vs. (vs, ?n)) ?rs"
        using batch by (simp add: attempted_def is_ok_def Let_def)
      have ok: "batch_ok x" "q = Ok ()" using False assms(3) batch b'(2) by (auto simp: sound_call_def)
      have supported: "list_all (\<lambda>m. ci_typ m \<noteq> TUnsupported) ?cols"
        using assms(2) by (simp add: on_channel_def)
      obtain p where p: "packer_new ?dd ?dt x ?cols = Ok p" using accs by (auto simp: packer_new_def)
      have packs: "list_all (packs_row ?E ?cols) ?rs"
        by (auto simp: list_all_iff intro!: packs_batch_row [OF packer_cols(1) [OF p ok(1) supported]])
      have "same_outcome (Some (q, buf, s)) (push_rows_flushing P ?E ?cols ?n flusher ?rs (br_emit_buf b) (cx_chan b))"
        using arrow_wire.push_batch_row_path [OF arrow accs ok(1) supported] push by metis
      then obtain buf1 where path: "push_rows_flushing P ?E ?cols ?n flusher ?rs (br_emit_buf b) (cx_chan b) = Some (Ok (), buf1, s)"
        and same: "eb_table buf = eb_table buf1" "byte_estimate buf1 \<le> byte_estimate buf"
        using ok(2) by (auto simp: same_outcome_def split: option.splits)
      have "\<exists>held'. sent_groups ?E ?cols held (map (\<lambda>vs. (vs, ?n)) ?rs) (cx_chan b) held' buf s"
        if held: "carries P ?E ?cols held (br_emit_buf b)" for held
        using rows_sent [OF path held packs] same by (auto simp: sent_groups_def carries_def intro: le_trans)
      then show ?thesis unfolding rows sends_def using kept b' by simp
    qed
  qed
qed

lemma refill_sends:
  assumes "refill E b = Some (r, b')" "on_channel b"
  shows "sends [] b b'"
proof -
  have "on_channel b \<longrightarrow> sends [] b (snd y)" if "refill E b = Some y" for E b y
    using that
  proof (induction rule: refill.raw_induct [rotated, consumes 1, case_names attempt])
    case (attempt loop E b y)
    show ?case
    proof (rule impI)
      assume on: "on_channel b"
      obtain q s where f: "fetcher (cx_chan b) = Some (q, s)"
        using attempt.hyps on by (cases "fetcher (cx_chan b)") (auto simp: io_bind_cases on_chan_cases on_channel_def)
      then have quiet: "delivers [] (cx_chan b) s" by (rule fetch_quiet)
      have first: "sends [] b (b\<lparr>cx_chan := s, br_input := input\<rparr>)" "sends [] b (b\<lparr>cx_chan := s\<rparr>)" for input
        by (rule sends_quiet; simp add: same_setup_def quiet)+
      show "sends [] b (snd y)"
      proof (cases "\<exists>table. q = Ok (Some table)")
        case True
        then obtain table where t: "q = Ok (Some table)" by blast
        obtain rr input where rl: "reload E table (br_input_cols b) (br_input b) = (rr, input)" by fastforce
        let ?b1 = "b\<lparr>cx_chan := s, br_input := input\<rparr>"
        have "snd y = ?b1 \<or> loop E ?b1 = Some y"
          using attempt.hyps on f t rl
          by (cases rr) (auto simp: io_bind_cases on_chan_cases on_channel_def reload_input_def split: if_splits)
        then show ?thesis
        proof
          assume "loop E ?b1 = Some y"
          from attempt.IH [OF this] have "sends [] ?b1 (snd y)" using on by (simp add: on_channel_def)
          from sends_trans [OF first(1) this] show ?thesis by simp
        qed (use first in simp)
      next
        case False
        then have "snd y = b\<lparr>cx_chan := s\<rparr>"
          using attempt.hyps on f
          by (cases q) (auto simp: io_bind_cases on_chan_cases on_channel_def split: option.splits)
        then show ?thesis using first by simp
      qed
    qed
  qed
  then show ?thesis using assms by fastforce
qed

lemma next_sends:
  assumes "bridge_next E b = Some (r, b')" "on_channel b"
  shows "sends [] b b'"
proof -
  have moved: "sends [] b c" if "same_setup b c" "br_emit_buf c = br_emit_buf b" "cx_chan c = cx_chan b" for c
    by (rule sends_quiet) (use that delivers_refl in simp_all)
  have again: "sends [] b b'" if "same_setup b c" "br_emit_buf c = br_emit_buf b" "cx_chan c = cx_chan b"
    "refill E c = Some (r, b')" for c
  proof -
    have "on_channel c" using assms(2) that(1) by (simp add: on_channel_def same_setup_def)
    from sends_trans [OF moved [OF that(1-3)] refill_sends [OF that(4) this]] show ?thesis by simp
  qed
  show ?thesis
  proof (cases "cx_input_iter b")
    case Multiple
    obtain more input where adv: "advance (br_input b) = (more, input)" by fastforce
    let ?b1 = "b\<lparr>br_started := True\<rparr>" and ?b2 = "b\<lparr>br_input := input\<rparr>"
    have "b' = ?b1 \<or> b' = ?b2 \<or> refill E ?b1 = Some (r, b') \<or> refill E ?b2 = Some (r, b')"
      using assms(1) Multiple adv by (auto simp: bridge_next_def Let_def split: if_split_asm)
    then show ?thesis
      using moved [of ?b1] moved [of ?b2] again [of ?b1] again [of ?b2] by (auto simp: same_setup_def)
  qed (use assms(1) moved in \<open>auto simp: bridge_next_def same_setup_def\<close>)
qed

lemma call_sends:
  assumes "bridge_call H call b = Some (r, b')" "on_channel b"
    and "attempted H call b \<noteq> [] \<longrightarrow> r = RUnit (Ok ()) \<and> sound_call call"
  shows "sends (attempted H call b) b b'"
proof -
  have refl: "sends [] b b" by (rule sends_quiet) (simp_all add: same_setup_def delivers_refl)
  have failed: "sends [] b (record_failure q c)" if "sends [] b c" for q c
    using that by (cases q) (simp_all add: record_failure_def record_error_def sends_def same_setup_def)
  show ?thesis
  proof (cases call)
    case (EmitRow vals)
    then show ?thesis
    proof (cases "cx_output_iter b = ExactlyOnce")
      case False
      then show ?thesis
        using output_row_sends [of vals b r b'] assms EmitRow
        by (auto simp: bridge_call_def bridge_emit_def attempted_def Let_def)
    qed (use assms refl EmitRow in \<open>simp add: bridge_call_def bridge_emit_def attempted_def\<close>)
  next
    case (SetReturn v)
    then show ?thesis
      using output_row_sends [of "[unwrap_or VNull v]" b r b'] assms
      by (auto simp: bridge_call_def bridge_set_return_def attempted_def Let_def)
  next
    case (EmitRecordBatchFfi ffi)
    with assms(1) have "bridge_emit_ffi H ffi b = Some (r, b')" by (simp add: bridge_call_def)
    from batch_sends [OF this assms(2)] assms(3) show ?thesis unfolding EmitRecordBatchFfi .
  next
    case NextRow
    then show ?thesis using next_sends assms by (auto simp: bridge_call_def attempted_def Let_def)
  next
    case ClusterIp
    obtain ifs s where ifs: "he_getifaddrs H (cx_chan b) = (ifs, s)" by fastforce
    have "sends [] b (b\<lparr>cx_chan := s\<rparr>)"
      using ifaddrs_quiet [OF ifs] by (intro sends_quiet) (simp_all add: same_setup_def)
    then show ?thesis
      using assms(1) ClusterIp ifs failed
      by (auto simp: bridge_call_def attempted_def cluster_ip_def Let_def)
  next
    case (ConnectionLookup name)
    have "sends [] b (b\<lparr>cx_chan := s\<rparr>)" if asked: "request_connection requester name (cx_chan b) = Some (q, s)" for q s
    proof -
      obtain q' where "requester name (cx_chan b) = Some (q', s)"
        using asked by (cases "requester name (cx_chan b)"; cases "fst (the (requester name (cx_chan b)))")
          (auto simp: request_connection_def io_bind_cases)
      from lookup_quiet [OF this] show ?thesis by (intro sends_quiet) (simp_all add: same_setup_def)
    qed
    then show ?thesis
      using assms ConnectionLookup failed
      by (auto simp: bridge_call_def attempted_def delegate_connection_lookup_def on_chan_cases on_channel_def Let_def)
  next
    case (ConnectBackTo conn)
    have "sends [] b (b\<lparr>cx_chan := s\<rparr>)" if "open_connect_back H conn (cx_chan b) = Some (q, s)" for q s
      using open_quiet that by (intro sends_quiet) (auto simp: same_setup_def open_connect_back_def)
    then show ?thesis
      using assms ConnectBackTo failed
      by (auto simp: bridge_call_def attempted_def connect_back_def on_chan_cases Let_def)
  qed (use assms(1) refl in \<open>auto simp: bridge_call_def attempted_def answer_def Let_def\<close>)
qed

text \<open>What a watched run keeps: the log only grows, and as long as no attempt failed, what it grew by
  has been sent or is held.\<close>

definition output_inv :: "('s, 'd, 't) bridge \<times> ('d, 't) output_log \<Rightarrow> ('s, 'd, 't) bridge \<times> ('d, 't) output_log \<Rightarrow> bool" where
  "output_inv x y \<longleftrightarrow> (\<exists>new. snd y = snd x @ new \<and> same_setup (fst x) (fst y) \<and>
     (on_channel (fst x) \<longrightarrow> all_accepted new \<longrightarrow> sends (accepted_rows new) (fst x) (fst y)))"

lemma output_inv_trans:
  assumes "output_inv x y" "output_inv y z"
  shows "output_inv x z"
proof -
  obtain new where new: "snd y = snd x @ new" "same_setup (fst x) (fst y)"
    "on_channel (fst x) \<longrightarrow> all_accepted new \<longrightarrow> sends (accepted_rows new) (fst x) (fst y)"
    using assms(1) unfolding output_inv_def by blast
  obtain new1 where new1: "snd z = snd y @ new1" "same_setup (fst y) (fst z)"
    "on_channel (fst y) \<longrightarrow> all_accepted new1 \<longrightarrow> sends (accepted_rows new1) (fst y) (fst z)"
    using assms(2) unfolding output_inv_def by blast
  have "same_setup (fst x) (fst z)" "on_channel (fst x) \<longrightarrow> on_channel (fst y)"
    using new(2) new1(2) by (auto simp: same_setup_def on_channel_def)
  then show ?thesis
    unfolding output_inv_def
    using new new1 sends_trans
    by (intro exI [of _ "new @ new1"]) (auto simp: all_accepted_def accepted_rows_def)
qed

end

sublocale bridge_output \<subseteq> watched: udf_context "watched H" output_inv
proof
  fix c
  show "output_inv c c"
    using sends_quiet [of "fst c" "fst c"] delivers_refl
    by (auto simp: output_inv_def accepted_rows_def same_setup_def intro: exI [of _ "[]"])
next
  fix call r and c c' :: "('s, 'd, 't) bridge \<times> ('d, 't) output_log"
  assume step: "watched H call c = Some (r, c')"
  obtain b log b' where c: "c = (b, log)" and b': "bridge_call H call b = Some (r, b')"
    and c': "c' = (b', log @ [(attempted H call b, r = RUnit (Ok ()) \<and> sound_call call)])"
    using step by (cases c) (auto simp: watched_def)
  have "same_setup b b'" using bridge_call_inv [OF b'] by (simp add: bridge_inv_def)
  moreover have "on_channel b \<longrightarrow> (attempted H call b \<noteq> [] \<longrightarrow> r = RUnit (Ok ()) \<and> sound_call call) \<longrightarrow>
      sends (attempted H call b) b b'" using call_sends [OF b'] by blast
  ultimately show "output_inv c c'"
    unfolding output_inv_def c c'
    by (intro exI [of _ "[(attempted H call b, r = RUnit (Ok ()) \<and> sound_call call)]"])
      (simp add: all_accepted_def accepted_rows_def)
qed (rule output_inv_trans)

context bridge_output
begin

lemma run_output:
  assumes "run_prog (watched H) p (b, []) = Some (x, b', log)" "on_channel b" "all_accepted log"
  shows "sends (accepted_rows log) b b'"
  using watched.run_keeps [OF assms(1)] assms(2,3) by (auto simp: output_inv_def)

end

section \<open>The runtime's channel\<close>

text \<open>What a computation keeps whatever it answers.\<close>

definition io_keeps :: "('s \<Rightarrow> 's \<Rightarrow> bool) \<Rightarrow> ('s, 'e, 'a) io \<Rightarrow> bool" where
  "io_keeps I m \<longleftrightarrow> (\<forall>s r s'. m s = Some (r, s') \<longrightarrow> I s s')"

lemma io_keepsD: "io_keeps I m \<Longrightarrow> m s = Some (r, s') \<Longrightarrow> I s s'"
  by (auto simp: io_keeps_def)

lemma io_keeps_unit: "reflp I \<Longrightarrow> io_keeps I (io_return a)" "reflp I \<Longrightarrow> io_keeps I (io_fail e)"
  "reflp I \<Longrightarrow> io_keeps I (io_lift q)"
  by (auto simp: io_keeps_def reflp_def)

lemma io_keeps_bind:
  assumes "transp I" "io_keeps I m" "\<And>a. io_keeps I (k a)"
  shows "io_keeps I (io_bind m k)"
  unfolding io_keeps_def
proof (intro allI impI)
  fix s r s'
  assume y: "io_bind m k s = Some (r, s')"
  show "I s s'"
  proof (cases r)
    case (Inl e)
    then show ?thesis using y assms by (auto simp: io_bind_Err dest: io_keepsD transpD)
  next
    case (Inr b)
    then show ?thesis using y assms by (auto simp: io_bind_Ok dest: io_keepsD transpD)
  qed
qed

lemma io_keeps_map_err: "io_keeps I m \<Longrightarrow> io_keeps I (io_map_err f m)"
  by (auto simp: io_keeps_def io_map_err_def)

text \<open>Frames that carry tables: an emit request for each, and between them requests of other kinds.\<close>

inductive delivery :: "prost \<Rightarrow> bytes list \<Rightarrow> emit_table list \<Rightarrow> bool" for P where
  nothing: "delivery P [] []"
| quiet: "delivery P fs ts \<Longrightarrow> rq_emit rq = None \<Longrightarrow> delivery P (fs @ [encode_frame P (Request rq)]) ts"
| emit: "delivery P fs ts \<Longrightarrow> delivery P (fs @ [encode_frame P (Emit (emit_request_of t p))]) (ts @ [t])"

lemma delivery_append: "delivery P gs us \<Longrightarrow> delivery P fs ts \<Longrightarrow> delivery P (fs @ gs) (ts @ us)"
proof (induction rule: delivery.induct)
  case (quiet gs us rq)
  then show ?case using delivery.quiet [of P "fs @ gs" "ts @ us" rq] by simp
next
  case (emit gs us t p)
  then show ?case using delivery.emit [of P "fs @ gs" "ts @ us" t p] by simp
qed simp

lemmas delivery_one =
  delivery.quiet [OF delivery.nothing, simplified] delivery.emit [OF delivery.nothing, simplified]

lemma delivery_quiet_list:
  assumes "\<forall>b \<in> set fs. \<exists>rq. b = encode_frame P (Request rq) \<and> rq_emit rq = None"
  shows "delivery P fs []"
  using assms
proof (induction fs rule: rev_induct)
  case (snoc b fs)
  then obtain rq where "b = encode_frame P (Request rq)" "rq_emit rq = None" by auto
  then show ?case using snoc delivery.quiet by auto
qed (rule delivery.nothing)

lemma quiet_requests [simp]:
  "rq_emit (ping_reply m p) = None" "rq_emit (next_request p) = None"
  "rq_emit (import_connection_request name p) = None" "rq_emit (run_request p) = None"
  "rq_emit (done_request p) = None"
  by (simp_all add: ping_reply_def next_request_def import_connection_request_def run_request_def
      done_request_def base_request_def request_default_def)

context req_socket
begin

text \<open>Between two states of the channel the socket queued frames that deliver these tables.\<close>

definition wire_delivers :: "prost \<Rightarrow> emit_table list \<Rightarrow> ('w, 'z) wire_scheme \<Rightarrow> ('w, 'z) wire_scheme \<Rightarrow> bool" where
  "wire_delivers P ts s s' \<longleftrightarrow> (\<exists>fs. sent_on s' = sent_on s @ fs \<and> delivery P fs ts)"

lemma wire_delivers_trans: "wire_delivers P ts s s' \<Longrightarrow> wire_delivers P us s' s'' \<Longrightarrow> wire_delivers P (ts @ us) s s''"
  unfolding wire_delivers_def by (metis append.assoc delivery_append)

lemma wire_delivers_same: "sent_on s' = sent_on s \<Longrightarrow> wire_delivers P [] s s'"
  by (auto simp: wire_delivers_def intro: delivery.nothing)

lemma quiet_rel: "reflp (wire_delivers P [])" "transp (wire_delivers P [])"
  using wire_delivers_trans [of P "[]" _ _ "[]"] by (auto simp: reflp_def transp_def wire_delivers_same)

lemma wire_send_frames:
  assumes "wire_send P Z fr s = Some (r, s')"
  shows "sent_on s' = sent_on s @ (if is_ok r then [encode_frame P fr] else [])"
  using assms transport_send_once [of P fr "wi_world s"]
  by (cases r) (auto simp: wire_send_def on_world_cases is_ok_def)

lemma wire_send_quiet: "rq_emit rq = None \<Longrightarrow> wire_send P Z (Request rq) s = Some (r, s') \<Longrightarrow> wire_delivers P [] s s'"
  using wire_send_frames [of P "Request rq" s r s'] delivery_one(1) [of rq P]
  by (cases "is_ok r") (auto simp: wire_delivers_def intro: delivery.nothing)

lemma wire_recv_quiet: "io_keeps (wire_delivers P []) (wire_recv P Z)"
proof -
  have "sent_on s' = sent_on s" if "wire_recv P Z s = Some (r, s')" for s r s'
    using that transport_recv_once [of P "wi_world s"] by (cases r) (auto simp: wire_recv_def on_world_cases)
  then show ?thesis by (auto simp: io_keeps_def intro: wire_delivers_same)
qed

lemma request_loop_quiet: "io_keeps (wire_delivers P []) (request_loop P Z)"
proof -
  have "P' = P \<longrightarrow> Z' = Z \<longrightarrow> wire_delivers P [] s (snd y)" if "request_loop P' Z' s = Some y" for P' Z' s y
    using that
  proof (induction rule: request_loop.raw_induct [rotated, consumes 1, case_names attempt])
    case (attempt loop P' Z' s y)
    have loop: "P' = P \<Longrightarrow> Z' = Z \<Longrightarrow> io_keeps (wire_delivers P []) (loop P' Z')"
      using attempt.IH by (fastforce simp: io_keeps_def)
    have body: "io_keeps (wire_delivers P []) (request_body P Z (loop P Z))" if "P' = P" "Z' = Z"
      unfolding request_body_def
    proof (intro io_keeps_bind quiet_rel wire_recv_quiet, goal_cases)
      case (1 resp)
      then show ?case by (auto simp: io_keeps_def wire_step_def split: prod.splits intro: wire_delivers_same)
    next
      case (2 resp ea)
      have "io_keeps (wire_delivers P []) (io_bind (send_ping_reply P Z m) (\<lambda>_. loop P Z))" for m
        using loop that
        by (intro io_keeps_bind quiet_rel) (auto simp: io_keeps_def send_ping_reply_def dest: wire_send_quiet [rotated])
      then show ?case
        by (auto simp: io_keeps_unit [OF quiet_rel(1)] split: prod.split option.split host_action.split)
    qed
    show ?case
      using attempt.hyps body by (cases y) (auto simp: request_body_def io_keeps_def)
  qed
  then show ?thesis by (fastforce simp: io_keeps_def)
qed

lemma request_quiet:
  assumes "\<And>p. rq_emit (rq p) = None"
  shows "io_keeps (wire_delivers P []) (\<lambda>s. request P Z (Request (rq (wi_proto s))) s)"
proof -
  have "io_keeps (wire_delivers P []) (\<lambda>s. io_bind (wire_send P Z (Request (rq p))) (\<lambda>_. request_loop P Z) s)" for p
    using assms
    by (intro io_keeps_bind quiet_rel request_loop_quiet) (auto simp: io_keeps_def dest: wire_send_quiet [rotated])
  then show ?thesis by (auto simp: io_keeps_def request_def)
qed

lemma emit_request_delivers:
  assumes "request P Z (Emit (emit_request_of t p)) s = Some (Ok ev, s')"
  shows "wire_delivers P [t] s s'"
proof -
  obtain pongs replies where "sent_on s' = sent_on s @ encode_frame P (Emit (emit_request_of t p)) # pongs"
    and pongs: "\<forall>b \<in> set pongs. \<exists>m p. b = encode_frame P (Request (ping_reply m p))"
    using request_exchanged [OF assms] unfolding exchanged_def by fastforce
  moreover have "delivery P pongs []" by (rule delivery_quiet_list) (use pongs quiet_requests(1) in blast)
  then have "delivery P ([encode_frame P (Emit (emit_request_of t p))] @ pongs) ([t] @ [])"
    by (rule delivery_append) (rule delivery_one)
  ultimately show ?thesis by (auto simp: wire_delivers_def)
qed

lemma fetcher_quiet: "io_keeps (wire_delivers P []) (batch_fetcher P Z)"
proof -
  have "P' = P \<longrightarrow> Z' = Z \<longrightarrow> wire_delivers P [] s (snd y)" if "batch_fetcher P' Z' s = Some y" for P' Z' s y
    using that
  proof (induction rule: batch_fetcher.raw_induct [rotated, consumes 1, case_names attempt])
    case (attempt loop P' Z' s y)
    let ?ev = "\<lambda>loop event. case event of EvNextData table \<Rightarrow> io_return (Some table) | EvDone \<Rightarrow> io_return None
          | EvCleanup \<Rightarrow> set_exit ExitSession | EvClose msg \<Rightarrow> set_exit (ExitClosed msg) | _ \<Rightarrow> (\<lambda>s. loop P Z s)"
    have loop: "P' = P \<Longrightarrow> Z' = Z \<Longrightarrow> io_keeps (wire_delivers P []) (loop P' Z')"
      using attempt.IH by (fastforce simp: io_keeps_def)
    have exit: "io_keeps (wire_delivers P []) (set_exit reason)" for reason
      by (auto simp: io_keeps_def set_exit_def intro: wire_delivers_same)
    have "io_keeps (wire_delivers P []) (?ev loop event)" if "P' = P" "Z' = Z" for event
      using loop [OF that] that exit by (cases event) (simp_all add: io_keeps_unit [OF quiet_rel(1)])
    then have "io_keeps (wire_delivers P []) (io_bind (io_map_err (\<lambda>e. ConnectBack (show_runtime_error e))
         (\<lambda>s. request P Z (Request (next_request (wi_proto s))) s)) (?ev loop))" if "P' = P" "Z' = Z"
      using that by (intro io_keeps_bind quiet_rel io_keeps_map_err request_quiet) simp_all
    then show ?case using attempt.hyps by (cases y) (auto simp: io_keeps_def)
  qed
  then show ?thesis by (fastforce simp: io_keeps_def)
qed

lemma requester_quiet: "io_keeps (wire_delivers P []) (conn_requester P Z name)"
  unfolding conn_requester_def Let_def
  by (intro io_keeps_bind quiet_rel io_keeps_map_err request_quiet io_keeps_unit) simp

lemma flusher_delivers:
  assumes "emit_flusher P Z t s = Some (Ok u, s')" "rows t \<noteq> 0"
  shows "wire_delivers P [t] s s'"
  using assms by (auto simp: emit_flusher_def io_bind_Ok io_map_err_Ok intro: emit_request_delivers)

end

text \<open>The machine's interfaces do not write to the database's socket.\<close>

locale socket_output = req_socket Z snt rcv for Z :: "'w zmq" and snt rcv +
  fixes H :: "('w, 'd, 't) host_env"
  assumes codec: "prost_wire (he_prost H)" "arrow_wire (he_prost H) (he_ext H)"
    and ifaddrs_silent: "he_getifaddrs H w = (i, w') \<Longrightarrow> snt w' = snt w"
    and open_silent: "he_open_connection H ci w = Some (u, w') \<Longrightarrow> snt w' = snt w"

sublocale socket_output \<subseteq> emitted: bridge_output "he_prost H" "emit_flusher (he_prost H) Z"
    "wire_delivers (he_prost H)" "wire_env H" "batch_fetcher (he_prost H) Z" "conn_requester (he_prost H) Z"
proof (intro bridge_output.intro output_channel.intro bridge_output_axioms.intro)
  show "he_prost (wire_env H) = he_prost H" "prost_wire (he_prost H)" "arrow_wire (he_prost H) (he_ext (wire_env H))"
    using codec by (simp_all add: wire_env_def)
qed (auto simp: wire_env_def flusher_delivers wire_delivers_same ifaddrs_silent open_silent
    intro: wire_delivers_trans dest: io_keepsD [OF fetcher_quiet] io_keepsD [OF requester_quiet] split: prod.splits)

end
