(* ===== verification/Udf_Code.thy ===== *)
theory Udf_Code
  imports Loader
begin

text \<open>
  UDF code as an author writes it: sequencing with the early return of \<open>?\<close>, the calls of the
  context, and the loop over the rows of a group. The locale \<open>group_context\<close> is what such code
  may rely on; its lemmas run a loop over any context that keeps the contract.
\<close>

section \<open>Sequencing\<close>

type_synonym ('d, 't, 'a) code = "('d, 't, 'a ending) prog"

definition code_return :: "'a \<Rightarrow> ('d, 't, 'a) code" where
  "code_return a = Finish (Returned (Ok a))"

definition code_fail :: "udf_error \<Rightarrow> ('d, 't, 'a) code" where
  "code_fail e = Finish (Returned (Err e))"

definition code_panic :: "('d, 't, 'a) code" where
  "code_panic = Finish Panicked"

definition code_lift :: "(udf_error, 'a) result \<Rightarrow> ('d, 't, 'a) code" where
  "code_lift r = Finish (Returned r)"

definition code_bind :: "('d, 't, 'a) code \<Rightarrow> ('a \<Rightarrow> ('d, 't, 'b) code) \<Rightarrow> ('d, 't, 'b) code" where
  "code_bind p k = prog_bind p (\<lambda>e. case e of
      Panicked \<Rightarrow> Finish Panicked
    | Returned (Inl err) \<Rightarrow> Finish (Returned (Err err))
    | Returned (Inr a) \<Rightarrow> k a)"

lemma code_bind_simps [simp]:
  "code_bind (Finish (Returned (Inr a))) k = k a"
  "code_bind (Finish (Returned (Inl e))) k = Finish (Returned (Inl e))"
  "code_bind (Finish Panicked) k = Finish Panicked"
  "code_bind (Invoke call f) k = Invoke call (\<lambda>r. code_bind (f r) k)"
  "code_bind (code_return a) k = k a"
  "code_bind (code_fail e) k = code_fail e"
  by (simp_all add: code_bind_def code_return_def code_fail_def)

lemma progresses_code [simp]:
  "progresses (code_return a)" "progresses (code_fail e)" "progresses code_panic" "progresses (code_lift r)"
  by (simp_all add: code_return_def code_fail_def code_panic_def code_lift_def)

lemma progresses_code_bind:
  assumes "progresses p" "\<And>a. progresses (k a)"
  shows "progresses (code_bind p k)"
  unfolding code_bind_def
proof (rule progresses_bind [OF assms(1)])
  fix e
  show "progresses (case e of Panicked \<Rightarrow> Finish Panicked | Returned (Inl err) \<Rightarrow> Finish (Returned (Err err))
      | Returned (Inr a) \<Rightarrow> k a)"
    using assms(2) by (cases e) (auto split: sum.split)
qed

section \<open>Calls\<close>

text \<open>A reply of another method's type cannot occur in the typed interface; a host method that
  unwinds unwinds through its caller.\<close>

definition bool_end :: "('d, 't) reply \<Rightarrow> bool ending" where
  "bool_end r = (case r of RBool q \<Rightarrow> Returned q | _ \<Rightarrow> Panicked)"

definition unit_end :: "('d, 't) reply \<Rightarrow> unit ending" where
  "unit_end r = (case r of RUnit q \<Rightarrow> Returned q | _ \<Rightarrow> Panicked)"

definition cell_end :: "('d, 't) reply \<Rightarrow> ('d, 't) sql_value ending" where
  "cell_end r = (case r of RCell q \<Rightarrow> Returned q | _ \<Rightarrow> Panicked)"

definition typed_end :: "((udf_error, ('d, 't) sql_value) result \<Rightarrow> (udf_error, 'a) result) \<Rightarrow>
    ('d, 't) reply \<Rightarrow> 'a ending" where
  "typed_end getter r = (case r of RCell q \<Rightarrow> Returned (getter q) | _ \<Rightarrow> Panicked)"

definition nat_end :: "('d, 't) reply \<Rightarrow> nat ending" where
  "nat_end r = (case r of RNat n \<Rightarrow> Returned (Ok n) | _ \<Rightarrow> Panicked)"

definition text_end :: "('d, 't) reply \<Rightarrow> string ending" where
  "text_end r = (case r of RText s \<Rightarrow> Returned (Ok s) | _ \<Rightarrow> Panicked)"

definition opt_text_end :: "('d, 't) reply \<Rightarrow> string option ending" where
  "opt_text_end r = (case r of ROptText s \<Rightarrow> Returned (Ok s) | _ \<Rightarrow> Panicked)"

definition column_end :: "('d, 't) reply \<Rightarrow> column_info ending" where
  "column_end r = (case r of RColumn q \<Rightarrow> Returned q | _ \<Rightarrow> Panicked)"

definition connection_end :: "('d, 't) reply \<Rightarrow> connection_object ending" where
  "connection_end r = (case r of RConnection q \<Rightarrow> Returned q | _ \<Rightarrow> Panicked)"

definition ask :: "('d, 't) ctx_call \<Rightarrow> (('d, 't) reply \<Rightarrow> 'a ending) \<Rightarrow> ('d, 't, 'a) code" where
  "ask call f = Invoke call (\<lambda>r. Finish (f r))"

lemma progresses_ask [simp]: "progresses (ask call f)"
  by (simp add: ask_def)

definition ctx_get_i64 :: "('d, 't) ext \<Rightarrow> nat \<Rightarrow> ('d, 't, i64 option) code" where
  "ctx_get_i64 E col = ask (GetCell col) (typed_end (get_i64 E))"

section \<open>The row loop\<close>

text \<open>\<open>while ctx.next()? { .. }\<close> over the local variables \<open>'s\<close>: the loop's second argument is
  what is left of the body it is in.\<close>

definition value_of :: "'a ending \<Rightarrow> 'a option" where
  "value_of e = (case e of Returned (Inr a) \<Rightarrow> Some a | _ \<Rightarrow> None)"

definition loop_end :: "'s \<Rightarrow> bool ending \<Rightarrow> 's ending" where
  "loop_end s q = (case q of Returned (Inr _) \<Rightarrow> Returned (Ok s) | Returned (Inl err) \<Rightarrow> Returned (Err err)
     | Panicked \<Rightarrow> Panicked)"

primcorec rows_loop :: "('s \<Rightarrow> ('d, 't, 's) code) \<Rightarrow> ('d, 't, 's) code \<Rightarrow> ('d, 't, 's) code" where
  "rows_loop body p = (case p of
      Finish e \<Rightarrow>
        if value_of e = None then Finish e
        else Invoke NextRow (\<lambda>r. if bool_end r = Returned (Ok True) then rows_loop body (body (the (value_of e)))
               else Finish (loop_end (the (value_of e)) (bool_end r)))
    | Invoke call k \<Rightarrow> Invoke call (\<lambda>r. rows_loop body (k r)))"

definition while_next :: "('s \<Rightarrow> ('d, 't, 's) code) \<Rightarrow> 's \<Rightarrow> ('d, 't, 's) code" where
  "while_next body s = rows_loop body (code_return s)"

lemma value_of_simps [simp]:
  "value_of (Returned (Inr a)) = Some a" "value_of (Returned (Inl e)) = None" "value_of Panicked = None"
  by (simp_all add: value_of_def)

lemma value_of_None: "value_of e = None \<longleftrightarrow> e = Panicked \<or> (\<exists>err. e = Returned (Err err))"
  by (cases e) (auto simp: value_of_def split: sum.split)

lemma rows_loop_simps:
  "value_of e = None \<Longrightarrow> rows_loop body (Finish e) = Finish e"
  "rows_loop body (Invoke call k) = Invoke call (\<lambda>r. rows_loop body (k r))"
  by (subst rows_loop.code, simp)+

lemma while_next_Invoke:
  "while_next body s = Invoke NextRow (\<lambda>r. if bool_end r = Returned (Ok True) then rows_loop body (body s)
     else Finish (loop_end s (bool_end r)))"
  unfolding while_next_def code_return_def by (subst rows_loop.code) (simp cong: if_cong)

lemma rows_loop_bind: "rows_loop body p = code_bind p (while_next body)"
proof (coinduction arbitrary: p rule: prog.coinduct_strong)
  case (Eq_prog p)
  show ?case
  proof (cases p)
    case (Finish e)
    show ?thesis
    proof (cases "value_of e")
      case None
      then show ?thesis using Finish by (auto simp: value_of_None rows_loop_simps)
    next
      case (Some a)
      then have "e = Returned (Inr a)" by (cases e) (auto simp: value_of_def split: sum.splits)
      then show ?thesis using Finish by (simp add: while_next_def code_return_def rel_fun_def)
    qed
  qed (auto simp: rows_loop_simps rel_fun_def)
qed

lemma while_next_unfold:
  "while_next body s = code_bind (ask NextRow bool_end)
     (\<lambda>got. if got then code_bind (body s) (while_next body) else code_return s)"
proof -
  have "(if e = Returned (Ok True) then code_bind (body s) (while_next body) else Finish (loop_end s e)) =
    code_bind (Finish e) (\<lambda>got. if got then code_bind (body s) (while_next body) else code_return s)" for e
    by (cases e) (auto simp: code_return_def loop_end_def split: sum.split)
  then show ?thesis by (subst while_next_Invoke) (simp only: rows_loop_bind ask_def code_bind_simps)
qed

text \<open>A loop whose body makes progress makes progress: each turn waits for a row.\<close>

lemma progresses_while_next:
  assumes "\<And>s. progresses (body s)"
  shows "progresses (while_next body s)"
proof -
  have "progresses (rows_loop body p)" if "progresses p" for p
    using that
  proof (coinduction arbitrary: p rule: progresses.coinduct)
    case progresses
    let ?X = "\<lambda>x. (\<exists>p. x = rows_loop body p \<and> progresses p) \<or> progresses x"
    have "pauses ?X (rows_loop body p)" if "pauses progresses p" for p
      using that
    proof (induction rule: pauses.induct)
      case (finish e)
      show ?case
      proof (cases "value_of e")
        case None
        then show ?thesis by (simp add: rows_loop_simps pauses.finish)
      next
        case (Some a)
        then have e: "e = Returned (Inr a)" by (cases e) (auto simp: value_of_def split: sum.splits)
        have given: "next_row NextRow r \<longleftrightarrow> bool_end r = Returned (Ok True)" for r
          by (cases r) (auto simp: next_row_def bool_end_def)
        have "pauses ?X (while_next body a)"
          unfolding while_next_Invoke
          by (rule pauses.invoke) (use given assms [of a] in \<open>auto intro: pauses.finish\<close>)
        then show ?thesis by (simp add: e while_next_def code_return_def)
      qed
    next
      case (invoke call k)
      then show ?case unfolding rows_loop_simps by (intro pauses.invoke) auto
    qed
    moreover have "pauses progresses p" using progresses by (auto elim: progresses.cases)
    ultimately show ?case by auto
  qed
  then show ?thesis by (simp add: while_next_def)
qed

section \<open>Runs\<close>

lemma run_code_bind:
  assumes "run_prog h p c = Some (Returned (Inr a), c')"
  shows "run_prog h (code_bind p k) c = run_prog h (k a) c'"
  unfolding code_bind_def by (subst run_prog_bind_Some [OF assms]) simp

lemma run_code_simps [simp]:
  "run_prog h (code_return a) c = Some (Returned (Ok a), c)"
  "run_prog h (code_fail e) c = Some (Returned (Err e), c)"
  "run_prog h (ask call f) c = map_option (\<lambda>(r, c). (f r, c)) (h call c)"
  by (cases "h call c"; simp add: code_return_def code_fail_def ask_def split_beta)+

section \<open>What group code relies on\<close>

text \<open>
  A context stands on a row of its group (none before the first), with rows still to come and an
  output so far. It gives the rows in order, answers \<open>get\<close> with the row's cells, and takes the
  rows it accepts, as emitted rows or as the returned value.
\<close>

locale group_context =
  fixes handle :: "('c, 'd, 't) handler"
    and stands :: "('d, 't) sql_value list option \<Rightarrow> ('d, 't) sql_value list list \<Rightarrow> 'o \<Rightarrow> 'c \<Rightarrow> bool"
    and accepts :: "('d, 't) sql_value list \<Rightarrow> bool" and put :: "('d, 't) sql_value list \<Rightarrow> 'o \<Rightarrow> 'o"
    and accepts_return :: "('d, 't) sql_value option \<Rightarrow> bool"
    and put_return :: "('d, 't) sql_value option \<Rightarrow> 'o \<Rightarrow> 'o"
  assumes row_given: "stands cur (r # rest) out c \<Longrightarrow>
      \<exists>c'. handle NextRow c = Some (RBool (Ok True), c') \<and> stands (Some r) rest out c'"
    and rows_over: "stands cur [] out c \<Longrightarrow>
      \<exists>cur' c'. handle NextRow c = Some (RBool (Ok False), c') \<and> stands cur' [] out c'"
    and cell_read: "stands (Some r) rest out c \<Longrightarrow> i < length r \<Longrightarrow>
      handle (GetCell i) c = Some (RCell (Ok (r ! i)), c)"
    and row_taken: "stands cur rest out c \<Longrightarrow> accepts vals \<Longrightarrow>
      \<exists>c'. handle (EmitRow vals) c = Some (RUnit (Ok ()), c') \<and> stands cur rest (put vals out) c'"
    and return_taken: "stands cur rest out c \<Longrightarrow> accepts_return v \<Longrightarrow>
      \<exists>c'. handle (SetReturn v) c = Some (RUnit (Ok ()), c') \<and> stands cur rest (put_return v out) c'"
begin

lemma run_get:
  assumes "stands (Some r) rest out c" "i < length r"
  shows "run_prog handle (ask (GetCell i) (typed_end getter)) c = Some (Returned (getter (Ok (r ! i))), c)"
    "run_prog handle (ask (GetCell i) cell_end) c = Some (Returned (Ok (r ! i)), c)"
  using cell_read [OF assms] by (simp_all add: typed_end_def cell_end_def)

lemma run_emit:
  assumes "stands cur rest out c" "accepts vals"
  shows "\<exists>c'. run_prog handle (ask (EmitRow vals) unit_end) c = Some (Returned (Ok ()), c') \<and>
    stands cur rest (put vals out) c'"
  using row_taken [OF assms] by (auto simp: unit_end_def)

text \<open>A loop folds its body over the rows that are left.\<close>

lemma run_while_next:
  assumes body: "\<And>s r rest out c. r \<in> set rs \<Longrightarrow> stands (Some r) rest out c \<Longrightarrow>
      \<exists>c'. run_prog handle (body s) c = Some (Returned (Ok (f r s)), c') \<and> stands (Some r) rest (g r out) c'"
    and "stands cur rs out c"
  shows "\<exists>cur' c'. run_prog handle (while_next body s) c = Some (Returned (Ok (fold f rs s)), c') \<and>
    stands cur' [] (fold g rs out) c'"
  using assms
proof (induction rs arbitrary: cur out c s)
  case Nil
  then obtain cur' c' where c': "handle NextRow c = Some (RBool (Ok False), c')" "stands cur' [] out c'"
    using rows_over by blast
  have "run_prog handle (while_next body s) c = Some (Returned (Ok s), c')"
    by (subst while_next_unfold, subst run_code_bind [where a = False and c' = c'])
      (use c'(1) in \<open>simp_all add: bool_end_def\<close>)
  then show ?case using c'(2) by auto
next
  case (Cons r rs)
  obtain c1 where c1: "handle NextRow c = Some (RBool (Ok True), c1)" "stands (Some r) rs out c1"
    using row_given [OF Cons.prems(2)] by blast
  obtain c2 where c2: "run_prog handle (body s) c1 = Some (Returned (Ok (f r s)), c2)" "stands (Some r) rs (g r out) c2"
    using Cons.prems(1) [OF _ c1(2)] by auto
  have step: "run_prog handle (while_next body s) c = run_prog handle (while_next body (f r s)) c2"
    by (subst while_next_unfold, subst run_code_bind [where a = True and c' = c1])
      (use c1(1) in \<open>simp_all add: bool_end_def run_code_bind [OF c2(1)]\<close>)
  show ?case
    using Cons.IH [OF Cons.prems(1) c2(2), of "f r s"] step by auto
qed

text \<open>The shim of a RETURNS function hands its value over.\<close>

lemma run_returns_body:
  assumes "run_prog handle (f u) c = Some ((Returned (Ok ret), u'), c')" "stands cur rest out c'"
    and "accepts_return (map_option (into_value \<circ> host) ret)"
  shows "\<exists>c''. run_prog handle (returns_body host f u) c = Some ((Returned (Ok ()), u'), c'') \<and>
    stands cur rest (put_return (map_option (into_value \<circ> host) ret) out) c''"
  using return_taken [OF assms(2,3)] unfolding returns_body_def
  by (subst run_prog_bind_Some [OF assms(1)]) (auto simp: set_return_ending_def)

end

end
