(* ===== verification/Udfs.thy ===== *)
theory Udfs
  imports Udf_Code Payloads
begin

text \<open>
  UDFs of the repository (\<open>test-udfs\<close>): the functions the SQL scripts of its integration tests
  run. Integer arithmetic wraps, as it does in the release profile the objects are built with.
  Their theorems hold on every context of the contract \<open>group_context\<close>: what the unit tests
  observe on the SDK's double and what the database receives from the runtime.
\<close>

section \<open>The calls an author writes\<close>

definition ctx_next :: "('d, 't, bool) code" where
  "ctx_next = ask NextRow bool_end"

definition ctx_get :: "nat \<Rightarrow> ('d, 't, ('d, 't) sql_value) code" where
  "ctx_get col = ask (GetCell col) cell_end"

definition ctx_emit :: "('d, 't) sql_value list \<Rightarrow> ('d, 't, unit) code" where
  "ctx_emit vals = ask (EmitRow vals) unit_end"

definition ctx_typed :: "((udf_error, ('d, 't) sql_value) result \<Rightarrow> (udf_error, 'a) result) \<Rightarrow> nat \<Rightarrow>
    ('d, 't, 'a) code" where
  "ctx_typed getter col = ask (GetCell col) (typed_end getter)"

text \<open>\<open>for row in rows { ctx.emit(row)?; }\<close> and \<open>while ctx.next()? {}\<close>.\<close>

fun emit_all :: "('d, 't) sql_value list list \<Rightarrow> ('d, 't, unit) code" where
  "emit_all [] = code_return ()"
| "emit_all (r # rs) = code_bind (ctx_emit r) (\<lambda>_. emit_all rs)"

definition drain :: "('d, 't, unit) code" where
  "drain = while_next (\<lambda>_. code_return ()) ()"

definition i64_max :: i64 where
  "i64_max = 0x7FFFFFFFFFFFFFFF"

text \<open>\<open>i64::try_from\<close> of an unscaled decimal.\<close>

definition try_i64 :: "i128 \<Rightarrow> i64 option" where
  "try_i64 u = (if - (2 ^ 63) \<le> sint u \<and> sint u < 2 ^ 63 then Some (ucast u) else None)"

definition decimal_of_i64 :: "i64 \<Rightarrow> decimal" where
  "decimal_of_i64 n = \<lparr>unscaled = scast n, dscale = 0\<rparr>"

section \<open>Rows in, a value or rows out\<close>

definition set_sum :: "('d, 't) ext \<Rightarrow> ('d, 't, i64 option) code" where
  "set_sum E = code_bind
     (while_next (\<lambda>sum. code_bind (ctx_typed (get_i64 E) 0) (\<lambda>cell. code_return (case cell of
         Some n \<Rightarrow> sum + n | None \<Rightarrow> sum))) 0)
     (\<lambda>sum. code_return (Some sum))"

definition set_filter_row :: "('d, 't) sql_value \<Rightarrow> ('d, 't, unit) code" where
  "set_filter_row v = (case v of
      VInt64 n \<Rightarrow> if 0 < sint n then ctx_emit [VInt64 n] else code_return ()
    | VNumeric d \<Rightarrow>
        if dscale d = 0 then
          (case try_i64 (unscaled d) of
             None \<Rightarrow> code_fail (TypeErr (''cannot convert '' @ decimal_fmt d @ '' to i64''))
           | Some n \<Rightarrow> if 0 < sint n then ctx_emit [VNumeric (decimal_of_i64 n)] else code_return ())
        else code_return ()
    | _ \<Rightarrow> code_return ())"

definition set_filter :: "('d, 't, unit) code" where
  "set_filter = while_next (\<lambda>_. code_bind (ctx_get 0) set_filter_row) ()"

definition scalar_double :: "('d, 't, ('d, 't) sql_value option) code" where
  "scalar_double = code_bind (ctx_get 0) (\<lambda>v. case v of
      VInt64 n \<Rightarrow> if n = i64_max then code_panic else code_return (Some (VInt64 (n * 2)))
    | VNumeric d \<Rightarrow>
        if dscale d = 0 then
          (case try_i64 (unscaled d) of
             None \<Rightarrow> code_fail (TypeErr (''Numeric value '' @ decimal_fmt d @ '' overflows i64''))
           | Some n \<Rightarrow> code_return (Some (VNumeric (decimal_of_i64 (n * 2)))))
        else code_fail (TypeErr ''expected Int64 or Numeric'')
    | VNull \<Rightarrow> code_return None
    | _ \<Rightarrow> code_fail (TypeErr ''expected Int64 or Numeric''))"

definition emit_k :: "('d, 't) ext \<Rightarrow> ('d, 't, unit) code" where
  "emit_k E = code_bind (ctx_typed (get_i64 E) 0) (\<lambda>k.
     emit_all (map (\<lambda>i. [VInt64 (of_nat i)]) [0 ..< nat (sint (unwrap_or 0 k))]))"

definition DEFAULT_PAYLOAD :: string where
  "DEFAULT_PAYLOAD = replicate 100 (CHR ''A'')"

definition payload_of_width :: "nat \<Rightarrow> string" where
  "payload_of_width width = replicate width (CHR ''A'')"

definition emit_bulk :: "('d, 't) ext \<Rightarrow> ('d, 't, unit) code" where
  "emit_bulk E = code_bind ctx_next (\<lambda>got.
     if \<not> got then code_return () else
     code_bind (ctx_typed (get_i64 E) 0) (\<lambda>n. case n of
         None \<Rightarrow> code_fail (TypeErr ''n must not be NULL'')
       | Some n \<Rightarrow>
     code_bind (ask InputColumnCount nat_end) (\<lambda>count.
     code_bind (if 1 < count then ctx_typed (get_i64 E) 1 else code_return None) (\<lambda>width.
     code_bind drain (\<lambda>_.
       let payload = (case width of
             Some w \<Rightarrow> if 0 \<le> sint w then payload_of_width (nat (sint w)) else DEFAULT_PAYLOAD
           | None \<Rightarrow> DEFAULT_PAYLOAD)
       in emit_all (replicate (nat (sint n)) [VString payload]))))))"

definition rows_in_group :: "('d, 't) ext \<Rightarrow> ('d, 't, unit) code" where
  "rows_in_group E = code_bind (ask RowsInGroup nat_end) (\<lambda>reported.
     code_bind (while_next (\<lambda>(group_key, iterated).
         if iterated = 0
         then code_bind (ctx_typed (get_i64 E) 0) (\<lambda>k. code_return (unwrap_or 0 k, iterated + 1))
         else code_return (group_key, iterated + 1)) (0 :: i64, 0 :: i64))
       (\<lambda>(group_key, iterated). ctx_emit [VInt64 group_key, VInt64 (of_nat reported), VInt64 iterated]))"

definition returns_with_emit :: "('d, 't, ('d, 't) sql_value option) code" where
  "returns_with_emit = code_bind (ctx_emit [VInt64 1]) (\<lambda>_. code_return (Some (VInt64 42)))"

definition scalar_next_illegal :: "('d, 't, unit) code" where
  "scalar_next_illegal = code_bind ctx_next (\<lambda>_. code_return ())"

text \<open>Adding a second is chrono's; it panics past the representable range.\<close>

definition expected_timestamp :: "('d, 't) ext \<Rightarrow> ('d, 't) sql_value \<Rightarrow> udf_error" where
  "expected_timestamp E other = TypeErr (''expected timestamp, got '' @ dbg_value E other)"

definition timestamp_passthrough :: "('d, 't) ext \<Rightarrow> ('d, 't, 't option) code" where
  "timestamp_passthrough E = code_bind (ctx_get 0) (\<lambda>v. case v of
      VTimestamp ts \<Rightarrow> code_return (Some ts)
    | VNull \<Rightarrow> code_return None
    | other \<Rightarrow> code_fail (expected_timestamp E other))"

definition timestamp_add_second :: "('d, 't) ext \<Rightarrow> ('t \<Rightarrow> nat \<Rightarrow> 't option) \<Rightarrow> ('d, 't, 't option) code" where
  "timestamp_add_second E add_seconds = code_bind (ctx_get 0) (\<lambda>v. case v of
      VTimestamp ts \<Rightarrow> (case add_seconds ts 1 of None \<Rightarrow> code_panic | Some t \<Rightarrow> code_return (Some t))
    | VNull \<Rightarrow> code_return None
    | other \<Rightarrow> code_fail (expected_timestamp E other))"

definition ingest_row :: "decimal option \<Rightarrow> 'd option \<Rightarrow> 't option \<Rightarrow> ('d, 't) sql_value list" where
  "ingest_row amount event_date event_ts = [unwrap_or VNull (map_option VNumeric amount),
     unwrap_or VNull (map_option VDate event_date), unwrap_or VNull (map_option VTimestamp event_ts)]"

definition numeric_temporal_ingest :: "('d, 't) ext \<Rightarrow> ('d, 't, unit) code" where
  "numeric_temporal_ingest E = while_next (\<lambda>_.
     code_bind (ctx_typed (get_decimal E) 0) (\<lambda>amount.
     code_bind (ctx_typed (get_date E) 1) (\<lambda>event_date.
     code_bind (ctx_typed (get_timestamp E) 2) (\<lambda>event_ts.
       ctx_emit (ingest_row amount event_date event_ts))))) ()"

text \<open>The fixed rows of \<open>numeric_temporal_emit\<close>: \<open>unwrap\<close> of a date the calendar refuses panics.\<close>

definition temporal_row :: "('d, 't) ext \<Rightarrow> i128 \<times> (int \<times> nat \<times> nat) \<times> (int \<times> nat \<times> nat) \<times> (nat \<times> nat \<times> nat \<times> nat) \<Rightarrow>
    ('d, 't) sql_value list option" where
  "temporal_row E x = (case x of (amount, (y, m, d), (y', m', d'), (h, mi, s, ms)) \<Rightarrow>
     Option.bind (from_ymd_opt E y m d) (\<lambda>event_date.
     Option.bind (from_ymd_opt E y' m' d') (\<lambda>day.
     Option.bind (and_hms_nano_opt E day h mi s (ms * 1000000)) (\<lambda>event_ts.
       Some [VNumeric \<lparr>unscaled = amount, dscale = 2\<rparr>, VDate event_date, VTimestamp event_ts]))))"

definition temporal_rows :: "('d, 't) ext \<Rightarrow> ('d, 't) sql_value list list option" where
  "temporal_rows E = all_some (map (temporal_row E)
     [(123456, (2026, 7, 6), (2026, 7, 6), (12, 30, 15, 250)),
      (- 4250, (1970, 1, 1), (1999, 12, 31), (23, 59, 59, 0)),
      (0, (2000, 2, 29), (2000, 2, 29), (0, 0, 0, 0))])"

definition numeric_temporal_emit :: "('d, 't) ext \<Rightarrow> ('d, 't, unit) code" where
  "numeric_temporal_emit E = code_bind drain (\<lambda>_. case temporal_rows E of
      None \<Rightarrow> code_panic | Some rs \<Rightarrow> emit_all rs)"

section \<open>Metadata out\<close>

definition handshake_meta_udf :: "('d, 't, string option) code" where
  "handshake_meta_udf =
     code_bind (ask SessionId nat_end) (\<lambda>session_id.
     code_bind (ask NodeId nat_end) (\<lambda>node_id.
     code_bind (ask NodeCount nat_end) (\<lambda>node_count.
     code_bind (ask ScriptName text_end) (\<lambda>script_name.
       code_return (Some (show_nat session_id @ ''|'' @ show_nat node_id @ ''|'' @ show_nat node_count @
         ''|'' @ script_name))))))"

definition ABSENT_FIELD :: string where
  "ABSENT_FIELD = ''<none>''"

definition render_field :: "string option \<Rightarrow> string" where
  "render_field field = unwrap_or ABSENT_FIELD field"

definition current_user_meta :: "('d, 't, string option) code" where
  "current_user_meta =
     code_bind (ask CurrentUser opt_text_end) (\<lambda>current_user.
     code_bind (ask ScopeUser opt_text_end) (\<lambda>scope_user.
     code_bind (ask CurrentSchema opt_text_end) (\<lambda>current_schema.
     code_bind (ask ScriptSchema text_end) (\<lambda>script_schema.
     code_bind (ask ScriptName text_end) (\<lambda>script_name.
       code_return (Some (render_field current_user @ ''|'' @ render_field scope_user @ ''|'' @
         render_field current_schema @ ''|'' @ script_schema @ ''|'' @ script_name)))))))"

definition variant_name :: "('d, 't) sql_value \<Rightarrow> string" where
  "variant_name v = (case v of VNull \<Rightarrow> ''Null'' | VBool _ \<Rightarrow> ''Bool'' | VInt32 _ \<Rightarrow> ''Int32''
     | VInt64 _ \<Rightarrow> ''Int64'' | VDouble _ \<Rightarrow> ''Double'' | VString _ \<Rightarrow> ''String''
     | VNumeric _ \<Rightarrow> ''Numeric'' | VDate _ \<Rightarrow> ''Date'' | VTimestamp _ \<Rightarrow> ''Timestamp'')"

definition show_opt_nat :: "nat option \<Rightarrow> string" where
  "show_opt_nat x = (case x of None \<Rightarrow> ''None'' | Some n \<Rightarrow> ''Some('' @ show_nat n @ '')'')"

fun probe_columns :: "nat list \<Rightarrow> string list \<Rightarrow> ('d, 't) sql_value list \<Rightarrow>
    ('d, 't, string list \<times> ('d, 't) sql_value list) code" where
  "probe_columns [] diag_parts vals = code_return (diag_parts, vals)"
| "probe_columns (col # cols) diag_parts vals =
     code_bind (ctx_get col) (\<lambda>v.
     code_bind (ask (InputColumn col) column_end) (\<lambda>info.
       probe_columns cols (diag_parts @ [ci_name info @ '':'' @ variant_name v @ '':'' @ ci_type_name info @
           '':p='' @ show_opt_nat (ci_precision info) @ '':s='' @ show_opt_nat (ci_scale info)])
         (vals @ [v])))"

definition type_probe :: "('d, 't, unit) code" where
  "type_probe =
     code_bind (ask InputColumnCount nat_end) (\<lambda>n_in.
     code_bind (ask OutputColumnCount nat_end) (\<lambda>n_out.
     while_next (\<lambda>_. code_bind (probe_columns [0 ..< n_in] [] []) (\<lambda>(diag_parts, vals).
       ctx_emit (vals @ [VString (join diag_parts)]))) ()))"

definition described_value :: "('d, 't) ext \<Rightarrow> nat \<Rightarrow> column_info \<Rightarrow> ('d, 't) sql_value" where
  "described_value E idx column = (case ci_typ column of
      TString _ \<Rightarrow> VString (ci_name column @ ''|'' @ ci_type_name column)
    | TChar _ \<Rightarrow> VString (ci_name column @ ''|'' @ ci_type_name column)
    | TDouble \<Rightarrow> VDouble (f64_of_int E (int idx))
    | TInt32 \<Rightarrow> VInt64 (of_nat idx) | TInt64 \<Rightarrow> VInt64 (of_nat idx) | TNumeric _ _ \<Rightarrow> VInt64 (of_nat idx)
    | TBoolean \<Rightarrow> VBool True
    | _ \<Rightarrow> VNull)"

fun describe_columns :: "('d, 't) ext \<Rightarrow> nat list \<Rightarrow> ('d, 't) sql_value list \<Rightarrow>
    ('d, 't, ('d, 't) sql_value list) code" where
  "describe_columns E [] out = code_return out"
| "describe_columns E (idx # rest) out = code_bind (ask (OutputColumn idx) column_end) (\<lambda>column.
     describe_columns E rest (out @ [described_value E idx column]))"

definition describe_output :: "('d, 't) ext \<Rightarrow> ('d, 't, unit) code" where
  "describe_output E = code_bind (ask OutputColumnCount nat_end) (\<lambda>n.
     code_bind (describe_columns E [0 ..< n] []) ctx_emit)"

definition input_column_name :: "('d, 't, string option) code" where
  "input_column_name = code_bind (ask (InputColumn 0) column_end) (\<lambda>column.
     code_return (Some (ci_name column @ ''|'' @ ci_type_name column)))"

definition emit_type_mismatch :: "('d, 't, unit) code" where
  "emit_type_mismatch = ctx_emit [VString ''not a number'']"

section \<open>The cleanup hook and its statics\<close>

record cleanup_statics =
  cs_groups :: i64
  cs_rows :: i64

definition succeed :: "('d, 't, unit) code" where
  "succeed = code_return ()"

definition cleanup_ok :: "('d, 't) ext \<Rightarrow> ('d, 't, ('d, 't) sql_value option) code" where
  "cleanup_ok E = ctx_typed get_value 0"

definition cleanup_reports :: "cleanup_statics \<Rightarrow> ('d, 't, unit ending \<times> cleanup_statics) prog" where
  "cleanup_reports u = prog_bind (while_next (\<lambda>n. code_return (n + 1)) 0) (\<lambda>e. case e of
      Returned (Inr n) \<Rightarrow> map_prog (\<lambda>e. (e, u\<lparr>cs_groups := cs_groups u + 1, cs_rows := cs_rows u + n\<rparr>))
        (ctx_emit [VInt64 n])
    | Returned (Inl err) \<Rightarrow> Finish (Returned (Err err), u)
    | Panicked \<Rightarrow> Finish (Panicked, u))"

definition report_counts :: "cleanup_statics \<Rightarrow> ('d, 't, unit ending \<times> cleanup_statics) prog" where
  "report_counts u = map_prog (\<lambda>e. (e, u))
     (if cs_groups u = 0 then code_return ()
      else code_bind (ask ScriptName text_end) (\<lambda>script_name.
        code_fail (User (''cleanup ran: script='' @ script_name @ '' groups='' @ show_int (sint (cs_groups u)) @
          '' rows='' @ show_int (sint (cs_rows u))))))"

definition cleanup_after_run_error :: "('d, 't, unit) code" where
  "cleanup_after_run_error = code_fail (User ''run failed on purpose'')"

definition fail_cleanup :: "('d, 't, unit) code" where
  "fail_cleanup = code_fail (User ''cleanup failed on purpose'')"

section \<open>Specification hooks\<close>

definition ABSENT :: string where
  "ABSENT = ''<none>''"

definition import_spec_gen :: "('d, 't, i64 option) code" where
  "import_spec_gen = code_return None"

definition export_spec_gen :: "('d, 't, i64 option) code" where
  "export_spec_gen = code_return None"

definition render_parameters :: "spec_parameter list \<Rightarrow> string" where
  "render_parameters params = join (map (\<lambda>p. sp_key p @ ''='' @ sp_value p) params)"

definition quote_sql :: "string \<Rightarrow> string" where
  "quote_sql text = concat (map (\<lambda>c. if c = CHR 0x27 then [c, c] else [c]) text)"

definition show_bool :: "bool \<Rightarrow> string" where
  "show_bool b = (if b then ''true'' else ''false'')"

definition import_sql :: "'j serde \<Rightarrow> ('j \<Rightarrow> string) \<Rightarrow> string \<Rightarrow> ('d, 't, string) code" where
  "import_sql J de_error json_spec =
     code_bind (code_lift (import_from_json J de_error json_spec)) (\<lambda>spec.
     code_bind (case find (\<lambda>p. sp_key p = ''LOOKUP'') (im_parameters spec) of
         Some lookup \<Rightarrow> code_bind (ask (ConnectionLookup (sp_value lookup)) connection_end) (\<lambda>_. code_return ())
       | None \<Rightarrow> code_return ()) (\<lambda>_.
       let summary = ''conn='' @ unwrap_or ABSENT (im_connection_name spec) @ '' params=['' @
             render_parameters (im_parameters spec) @ ''] is_subselect='' @ show_bool (im_is_subselect spec) @
             '' cols=['' @ join (map sd_name (im_subselect_column_specification spec)) @ '']''
       in code_bind (ask ScriptSchema text_end) (\<lambda>schema. code_return
         (''SELECT '' @ schema @ ''.IMPORT_WORKER(SPEC, PARAM_COUNT) FROM (SELECT CAST('' @ [CHR 0x27] @
          quote_sql summary @ [CHR 0x27] @ '' AS VARCHAR(2000)) AS SPEC, CAST('' @
          show_nat (length (im_parameters spec)) @ '' AS DECIMAL(9,0)) AS PARAM_COUNT)''))))"

definition export_sql :: "'j serde \<Rightarrow> ('j \<Rightarrow> string) \<Rightarrow> string \<Rightarrow> ('d, 't, string) code" where
  "export_sql J de_error json_spec =
     code_bind (code_lift (export_from_json J de_error json_spec)) (\<lambda>spec.
       let summary = ''conn='' @ unwrap_or ABSENT (ex_connection_name spec) @ '' params=['' @
             render_parameters (ex_parameters spec) @ ''] has_truncate='' @ show_bool (ex_has_truncate spec) @
             '' has_replace='' @ show_bool (ex_has_replace spec) @
             '' cols=['' @ join (ex_source_column_names spec) @ '']''
       in code_bind (ask ScriptSchema text_end) (\<lambda>schema. code_return
         (''SELECT '' @ schema @ ''.EXPORT_WORKER('' @ [CHR 0x27] @ quote_sql summary @ [CHR 0x27] @ '')'')))"

fun describe_inputs :: "nat list \<Rightarrow> string list \<Rightarrow> ('d, 't, string list) code" where
  "describe_inputs [] described = code_return described"
| "describe_inputs (idx # rest) described = code_bind (ask (InputColumn idx) column_end) (\<lambda>column.
     describe_inputs rest (described @ [ci_name column @ '':'' @ ci_type_name column]))"

definition runtime_schema :: "('d, 't, string) code" where
  "runtime_schema = code_bind (ask InputColumnCount nat_end) (\<lambda>count.
     code_bind (describe_inputs [0 ..< count] []) (\<lambda>described.
       code_return (''cols='' @ show_nat count @ '' ['' @ join described @ '']'')))"

definition import_worker :: "('d, 't) ext \<Rightarrow> ('d, 't, unit) code" where
  "import_worker E = code_bind (ctx_typed (get_string E) 0) (\<lambda>summary.
     code_bind runtime_schema (\<lambda>schema. ctx_emit [VString (unwrap_or [] summary), VString schema]))"

definition export_worker :: "('d, 't) ext \<Rightarrow> ('d, 't, i64 option) code" where
  "export_worker E = code_bind (ctx_typed (get_string E) 0) (\<lambda>summary.
     code_fail (User (''EXPORT_SPEC '' @ unwrap_or [] summary)))"

section \<open>Progress\<close>

lemma progresses_calls [simp]:
  "progresses ctx_next" "progresses (ctx_get i)" "progresses (ctx_emit vals)" "progresses (ctx_typed g i)"
  by (simp_all add: ctx_next_def ctx_get_def ctx_emit_def ctx_typed_def)

lemma progresses_emit_all [simp]: "progresses (emit_all rs)"
  by (induction rs) (auto intro: progresses_code_bind)

lemma progresses_filter_row [simp]: "progresses (set_filter_row v)"
  by (cases v) (auto simp: set_filter_row_def split: option.split)

lemma udfs_progress:
  "progresses (set_sum E)" "progresses set_filter" "progresses scalar_double" "progresses (emit_k E)"
  "progresses (numeric_temporal_ingest E)"
  unfolding set_sum_def set_filter_def scalar_double_def emit_k_def numeric_temporal_ingest_def
  by (auto intro!: progresses_code_bind progresses_while_next split: sql_value.split option.split)

section \<open>What they compute\<close>

text \<open>The integers of the first column, where it has one.\<close>

definition first_int :: "('d, 't) sql_value list \<Rightarrow> int" where
  "first_int r = unwrap_or 0 (int_of_value (r ! 0))"

text \<open>A row whose first cell is NULL or an integer of 64 bits.\<close>

definition int_row :: "('d, 't) sql_value list \<Rightarrow> bool" where
  "int_row r \<longleftrightarrow> r \<noteq> [] \<and> (r ! 0 = VNull \<or>
     (\<exists>n. int_of_value (r ! 0) = Some n \<and> - (2 ^ 63) \<le> n \<and> n < 2 ^ 63))"

lemma int_row_get:
  assumes "int_row r"
  shows "\<exists>cell. get_i64 E (Ok (r ! 0)) = Ok cell \<and> first_int r = (case cell of None \<Rightarrow> 0 | Some n \<Rightarrow> sint n)"
proof (cases "r ! 0 = VNull")
  case False
  then obtain n where n: "int_of_value (r ! 0) = Some n" "- (2 ^ 63) \<le> n" "n < 2 ^ 63"
    using assms by (auto simp: int_row_def)
  have "sint (word_of_int n :: i64) = n"
    using n(2,3) by (simp add: sint_sbintrunc' signed_take_bit_int_eq_self)
  then have "get_i64 E (Ok (r ! 0)) = Ok (Some (word_of_int n))" using n(1) get_i64_value by fastforce
  then show ?thesis using n(1) \<open>sint _ = n\<close> by (simp add: first_int_def)
qed (simp add: get_i64_def first_int_def int_of_value_def)

lemma typed_cells:
  "get_decimal E (Ok (unwrap_or VNull (map_option VNumeric a))) = Ok a"
  "get_date E (Ok (unwrap_or VNull (map_option VDate d))) = Ok d"
  "get_timestamp E (Ok (unwrap_or VNull (map_option VTimestamp t))) = Ok t"
  subgoal by (cases a) (simp_all add: get_decimal_def)
  subgoal by (cases d) (simp_all add: get_date_def)
  subgoal by (cases t) (simp_all add: get_timestamp_def)
  done

text \<open>What the filter lets through, and that it passes the very value on.\<close>

definition passed :: "('d, 't) sql_value list \<Rightarrow> bool" where
  "passed r \<longleftrightarrow> (case r ! 0 of VInt64 n \<Rightarrow> 0 < sint n | VNumeric d \<Rightarrow> dscale d = 0 \<and> 0 < sint (unscaled d)
     | _ \<Rightarrow> False)"

text \<open>The echo UDF gives every row of its three typed columns back unchanged.\<close>

definition temporal_row_ok :: "('d, 't) sql_value list \<Rightarrow> bool" where
  "temporal_row_ok r \<longleftrightarrow> (\<exists>amount d t. r = ingest_row amount d t)"

context group_context
begin

lemma run_set_sum:
  assumes "stands cur rs out c" "list_all int_row rs"
  shows "\<exists>cur' c'. run_prog handle (set_sum E) c =
      Some (Returned (Ok (Some (word_of_int (sum_list (map first_int rs))))), c') \<and> stands cur' [] out c'"
proof -
  let ?body = "\<lambda>sum. code_bind (ctx_typed (get_i64 E) 0) (\<lambda>cell. code_return (case cell of
         Some n \<Rightarrow> sum + n | None \<Rightarrow> sum))"
  have body: "\<exists>c'. run_prog handle (?body s) c = Some (Returned (Ok (s + word_of_int (first_int r))), c') \<and>
      stands (Some r) rest out c'" if "r \<in> set rs" "stands (Some r) rest out c" for s r rest out c
  proof -
    have row: "int_row r" using that(1) assms(2) by (simp add: list_all_iff)
    obtain cell where cell: "get_i64 E (Ok (r ! 0)) = Ok cell" "first_int r = (case cell of None \<Rightarrow> 0 | Some n \<Rightarrow> sint n)"
      using int_row_get [OF row] by blast
    have "run_prog handle (ctx_typed (get_i64 E) 0) c = Some (Returned (Ok cell), c)"
      using run_get(1) [OF that(2), of 0 "get_i64 E"] row cell(1) by (simp add: ctx_typed_def int_row_def)
    then show ?thesis using cell(2) that(2) by (subst run_code_bind) (auto split: option.split)
  qed
  from run_while_next [where f = "\<lambda>r s. s + word_of_int (first_int r)" and g = "\<lambda>_ out. out", OF body assms(1)]
  obtain cur' c' where
    loop: "run_prog handle (while_next ?body 0) c = Some (Returned (Ok (fold (\<lambda>r s. s + word_of_int (first_int r)) rs 0)), c')"
    and "end": "stands cur' [] (fold (\<lambda>_ out. out) rs out) c'" by blast
  have "fold (\<lambda>r s. s + word_of_int (first_int r)) rs a = a + word_of_int (sum_list (map first_int rs))" for a :: i64
    by (induction rs arbitrary: a) (simp_all add: algebra_simps)
  moreover have "fold (\<lambda>_ out. out) rs out = out" by (induction rs) simp_all
  ultimately show ?thesis
    using "end" unfolding set_sum_def by (subst run_code_bind [OF loop]) auto
qed

lemma run_emit_all:
  assumes "stands cur rest out c" "list_all accepts rs"
  shows "\<exists>c'. run_prog handle (emit_all rs) c = Some (Returned (Ok ()), c') \<and> stands cur rest (fold put rs out) c'"
  using assms
proof (induction rs arbitrary: out c)
  case (Cons r rs)
  obtain c1 where c1: "run_prog handle (ctx_emit r) c = Some (Returned (Ok ()), c1)" "stands cur rest (put r out) c1"
    using run_emit [OF Cons.prems(1), of r] Cons.prems(2) unfolding ctx_emit_def by auto
  then show ?case
    using Cons.IH [OF c1(2)] Cons.prems(2) by (simp, subst run_code_bind [OF c1(1)]) auto
qed simp

lemma run_filter_row:
  assumes "stands (Some r) rest out c" "int_row r" "accepts [r ! 0]"
  shows "\<exists>c'. run_prog handle (set_filter_row (r ! 0)) c = Some (Returned (Ok ()), c') \<and>
    stands (Some r) rest (if passed r then put [r ! 0] out else out) c'"
proof -
  have emitted: "\<exists>c'. run_prog handle (ctx_emit [r ! 0]) c = Some (Returned (Ok ()), c') \<and>
      stands (Some r) rest (put [r ! 0] out) c'"
    using run_emit [OF assms(1,3)] by (simp add: ctx_emit_def)
  show ?thesis
  proof (cases "r ! 0")
    case (VInt64 n)
    then show ?thesis using emitted assms(1) by (simp add: set_filter_row_def passed_def)
  next
    case (VNumeric d)
    show ?thesis
    proof (cases "dscale d = 0")
      case True
      have range: "- (2 ^ 63) \<le> sint (unscaled d)" "sint (unscaled d) < 2 ^ 63"
        using assms(2) VNumeric True by (auto simp: int_row_def int_of_value_def)
      have narrow: "sint (ucast (unscaled d) :: i64) = sint (unscaled d)" by (rule narrow_i128 [OF range])
      then have "sint (scast (ucast (unscaled d) :: i64) :: i128) = sint (unscaled d)"
        by (simp add: sint_up_scast is_up)
      then have "decimal_of_i64 (ucast (unscaled d)) = d"
        using True by (simp add: decimal_of_i64_def signed_word_eqI)
      then show ?thesis
        using emitted assms(1) VNumeric True range narrow
        by (simp add: set_filter_row_def passed_def try_i64_def)
    qed (use VNumeric assms(1) in \<open>simp add: set_filter_row_def passed_def\<close>)
  qed (use assms(1) in \<open>simp_all add: set_filter_row_def passed_def\<close>)
qed

lemma run_set_filter:
  assumes "stands cur rs out c" "list_all (\<lambda>r. int_row r \<and> accepts [r ! 0]) rs"
  shows "\<exists>cur' c'. run_prog handle set_filter c = Some (Returned (Ok ()), c') \<and>
    stands cur' [] (fold put (map (\<lambda>r. [r ! 0]) (filter passed rs)) out) c'"
proof -
  have "\<exists>c'. run_prog handle (code_bind (ctx_get 0) set_filter_row) c = Some (Returned (Ok ()), c') \<and>
      stands (Some r) rest (if passed r then put [r ! 0] out else out) c'"
    if "r \<in> set rs" "stands (Some r) rest out c" for s :: unit and r rest out c
  proof -
    have r: "int_row r" "accepts [r ! 0]" using that(1) assms(2) by (simp_all add: list_all_iff)
    then have "run_prog handle (ctx_get 0) c = Some (Returned (Ok (r ! 0)), c)"
      using run_get(2) [OF that(2), of 0] by (simp add: ctx_get_def int_row_def)
    then show ?thesis using run_filter_row [OF that(2) r] by (subst run_code_bind)
  qed
  from run_while_next [where f = "\<lambda>r s. ()" and g = "\<lambda>r out. if passed r then put [r ! 0] out else out", OF this assms(1)]
  obtain cur' c' where "run_prog handle set_filter c = Some (Returned (Ok ()), c')"
    "stands cur' [] (fold (\<lambda>r out. if passed r then put [r ! 0] out else out) rs out) c'"
    unfolding set_filter_def by auto
  moreover have "fold (\<lambda>r out. if passed r then put [r ! 0] out else out) rs x =
      fold put (map (\<lambda>r. [r ! 0]) (filter passed rs)) x" for x
    by (induction rs arbitrary: x) simp_all
  ultimately show ?thesis by auto
qed

lemma run_ingest:
  assumes "stands cur rs out c" "list_all (\<lambda>r. temporal_row_ok r \<and> accepts r) rs"
  shows "\<exists>cur' c'. run_prog handle (numeric_temporal_ingest E) c = Some (Returned (Ok ()), c') \<and>
    stands cur' [] (fold put rs out) c'"
proof -
  let ?body = "\<lambda>_. code_bind (ctx_typed (get_decimal E) 0) (\<lambda>amount.
     code_bind (ctx_typed (get_date E) 1) (\<lambda>event_date.
     code_bind (ctx_typed (get_timestamp E) 2) (\<lambda>event_ts. ctx_emit (ingest_row amount event_date event_ts))))"
  have "\<exists>c'. run_prog handle (?body s) c = Some (Returned (Ok ()), c') \<and> stands (Some r) rest (put r out) c'"
    if member: "r \<in> set rs" and at_row: "stands (Some r) rest out c" for s :: unit and r rest out c
  proof -
    obtain a d t where r: "r = ingest_row a d t" and acc: "accepts r"
      using member assms(2) by (auto simp: list_all_iff temporal_row_ok_def)
    have "run_prog handle (ctx_typed (get_decimal E) 0) c = Some (Returned (Ok a), c)"
      "run_prog handle (ctx_typed (get_date E) 1) c = Some (Returned (Ok d), c)"
      "run_prog handle (ctx_typed (get_timestamp E) 2) c = Some (Returned (Ok t), c)"
      using run_get(1) [OF at_row, of 0 "get_decimal E"] run_get(1) [OF at_row, of 1 "get_date E"]
        run_get(1) [OF at_row, of 2 "get_timestamp E"]
      by (simp_all add: ctx_typed_def r ingest_row_def typed_cells)
    then show ?thesis
      using run_emit [OF at_row acc] r by (simp add: run_code_bind ctx_emit_def)
  qed
  from run_while_next [where f = "\<lambda>r s. ()" and g = put, OF this assms(1)] show ?thesis
    unfolding numeric_temporal_ingest_def by auto
qed

end

end
