(* ===== verification/Runtime_Facts.thy ===== *)
theory Runtime_Facts
  imports Row_Facts Session_Facts Liveness Emission Udfs
begin

text \<open>
  The properties of whole sessions: a session returns, and the rows UDF code puts out reach the
  database. They are instantiated on the scripted database, a machine without network
  interfaces, and a library that exports the repository's filter UDF.
\<close>

section \<open>A machine and a library\<close>

definition sample_host :: "(db, int, int) host_env" where
  "sample_host = \<lparr>he_prost = session_prost, he_ext = sample_ext, he_dbg_data = (\<lambda>_. ''..''),
     he_dbg_type = (\<lambda>_. ''..''), he_dbg_event = (\<lambda>_. ''..''), he_getifaddrs = Pair (Ok []),
     he_open_connection = (\<lambda>_. io_fail (ConnectBack ''no driver'')),
     he_level_filter = (\<lambda>_. Some LevelInfo)\<rparr>"

definition FINGERPRINT :: string where
  "FINGERPRINT = ''0.14.0''"

text \<open>The vtable the macro generates for an EMITS function without other hooks.\<close>

definition emits_vtable :: "('d, 't, unit) code \<Rightarrow> ('d, 't, unit) vtable" where
  "emits_vtable body = \<lparr>vt_abi_version = EXA_UDF_ABI_VERSION, vt_fingerprint = FINGERPRINT,
     vt_run = lifecycle_shim (\<lambda>u. map_prog (\<lambda>e. (e, u)) body), vt_cleanup = None,
     vt_default_output_columns = None, vt_virtual_schema_adapter_call = None,
     vt_generate_sql_for_import_spec = None, vt_generate_sql_for_export_spec = None,
     vt_annotated_input_schema = None, vt_annotated_output_schema = None, vt_output_shape = ShapeEmits\<rparr>"

definition sample_object :: "(int, int, unit) shared_object" where
  "sample_object = \<lparr>so_entry = [entry_symbol ''S'' \<mapsto> Some (emits_vtable set_filter)], so_statics = ()\<rparr>"

definition sample_runtime :: "(db, int, int, unit, json_value) runtime_env" where
  "sample_runtime = \<lparr>re_host = sample_host, re_zmq = scripted, re_serde = json_values,
     re_dlopen = (\<lambda>path. Ok sample_object), re_fingerprint = FINGERPRINT, re_on_level_resolved = (\<lambda>_ w. w)\<rparr>"

lemma sample_runtime_simps [simp]: "re_zmq sample_runtime = scripted" "re_host sample_runtime = sample_host"
  by (simp_all add: sample_runtime_def)

lemma emits_vtable_stops: "progresses body \<Longrightarrow> udf_stops (emits_vtable body)"
  by (simp add: udf_stops_def emits_vtable_def lifecycle_shim_def progresses_map)

interpretation machine: live_host scripted db_clock "\<lambda>w. length (db_replies w)" sample_host
  by unfold_locales (auto simp: sample_host_def io_fail_def)

interpretation sample: live_runtime sample_runtime db_clock "\<lambda>w. length (db_replies w)"
proof (intro live_runtime.intro live_runtime_axioms.intro)
  show "live_host (re_zmq sample_runtime) db_clock (\<lambda>w. length (db_replies w)) (re_host sample_runtime)"
    by (simp add: machine.live_host_axioms)
qed (auto simp: sample_runtime_def sample_object_def emits_vtable_stops udfs_progress split: if_splits)

lemma session_wire: "prost_wire session_prost"
  by (simp add: session_prost_def protobuf_wire)

interpretation machine: socket_output scripted db_sent db_received sample_host
  by (intro socket_output.intro scripted.req_socket_axioms socket_output_axioms.intro)
    (auto simp: sample_host_def sample_ext_def session_wire gregorian_arrow_ext arrow_wire_def io_fail_def)

section \<open>Sessions\<close>

text \<open>C8: A session always returns: against a peer that sends finitely many frames, over interfaces that
  answer and libraries whose code waits for a row before it loops again, \<open>Runtime::run\<close> ends with a
  result - whatever the frames, the batches, the UDF's errors and the clean-up hook do.\<close>

theorem session_returns:
  assumes "live_runtime R clock left"
  shows "\<exists>r w'. runtime_run R endpoint client_name w = Some (r, w')"
  by (rule live_runtime.runtime_run_ends [OF assms])

theorem session_returns_witness:
  "\<exists>r w'. runtime_run sample_runtime ''ipc'' ''c'' \<lparr>db_clock = 0, db_sent = [], db_received = [],
     db_replies = map (\<lambda>c. [c]) ''IMRNNDCF''\<rparr> = Some (r, w')"
  by (rule session_returns [OF sample.live_runtime_axioms])

section \<open>Output\<close>

context socket_output
begin

lemma tail_delivers:
  assumes "tail_flush (he_prost H) Z buf s = Some (Ok (), s')"
    and "carries (he_prost H) (he_ext H) cols held buf"
  shows "wire_delivers (he_prost H) (map (table_of (he_prost H) (he_ext H) cols) (if held = [] then [] else [held])) s s'"
proof (cases "held = []")
  case True
  then have "s' = s" using assms by (simp add: tail_flush_def eb_is_empty_def carries_def)
  then show ?thesis using True by (simp add: wire_delivers_same)
next
  case False
  then have "eb_table buf = table_of (he_prost H) (he_ext H) cols held" "\<not> eb_is_empty buf"
    using assms(2) by (simp_all add: eb_is_empty_def carries_def)
  then show ?thesis
    using assms(1) False
    by (auto simp: tail_flush_def flush_def io_bind_Ok intro: emit_request_delivers)
qed

lemma group_delivers:
  assumes "\<forall>m \<in> set (um_output_columns meta). ci_typ m \<noteq> TUnsupported"
    and "b = group_bridge (wire_env H) Z meta input s"
    and "run_prog (watched (wire_env H)) code (b, []) = Some (x, b', log)" "all_accepted log"
    and "tail_flush (he_prost H) Z (br_emit_buf b') (wire.truncate (cx_chan b')) = Some (Ok (), s')"
  shows "\<exists>groups frames. concat groups = accepted_rows log \<and> sent_on s' = sent_on s @ frames \<and>
      delivery (he_prost H) frames (map (table_of (he_prost H) (he_ext H) (um_output_columns meta)) groups)"
proof -
  have wiring: "cx_chan b = s" "br_output_meta b = um_output_columns meta" "br_emit_buf b = emit_buffer_new"
    "br_flusher b = emit_flusher (he_prost H) Z" "br_fetcher b = batch_fetcher (he_prost H) Z"
    "br_conn_requester b = conn_requester (he_prost H) Z"
    by (simp_all add: assms(2) group_bridge_def bridge_new_def configure_group_input_def Let_def wire_env_def)
  then have "emitted.on_channel b" using assms(1) by (simp add: emitted.on_channel_def list_all_iff)
  then have "emitted.sends (accepted_rows log) b b'" by (rule emitted.run_output [OF assms(3) _ assms(4)])
  then obtain held where "emitted.sent_groups (he_ext H) (um_output_columns meta) [] (accepted_rows log) s held
      (br_emit_buf b') (cx_chan b')"
    using wiring carries_new(1) [of "he_prost H" "he_ext H" "um_output_columns meta"]
    unfolding emitted.sends_def by (metis wire_env_simps(2))
  then obtain groups where carried: "carries (he_prost H) (he_ext H) (um_output_columns meta) held (br_emit_buf b')"
    and groups: "concat groups @ held = accepted_rows log"
      "wire_delivers (he_prost H) (map (table_of (he_prost H) (he_ext H) (um_output_columns meta)) groups) s (cx_chan b')"
    by (auto simp: emitted.sent_groups_def)
  obtain fs where fs: "sent_on (cx_chan b') = sent_on s @ fs"
    "delivery (he_prost H) fs (map (table_of (he_prost H) (he_ext H) (um_output_columns meta)) groups)"
    using groups(2) by (auto simp: wire_delivers_def)
  obtain gs where gs: "sent_on s' = sent_on (cx_chan b') @ gs" "delivery (he_prost H) gs
      (map (table_of (he_prost H) (he_ext H) (um_output_columns meta)) (if held = [] then [] else [held]))"
    using tail_delivers [OF assms(5) carried] by (auto simp: wire_delivers_def wire.truncate_def)
  show ?thesis
    using groups(1) fs gs delivery_append [OF gs(2) fs(2)]
    by (intro exI [of _ "groups @ (if held = [] then [] else [held])"] exI [of _ "fs @ gs"]) auto
qed

end

text \<open>C9: The rows the bridge lets in while UDF code runs over a group, by \<open>emit\<close>, as a returned value
  or in an Arrow batch, are exactly the rows of the tables the group sends: in order, each once, cut
  into consecutive tables, nothing left behind after the tail flush; and watching the calls changes
  nothing about the run.\<close>

theorem emitted_rows_reach_database:
  assumes "socket_output Z snt rcv H"
    and "\<forall>m \<in> set (um_output_columns meta). ci_typ m \<noteq> TUnsupported"
    and "b = group_bridge (wire_env H) Z meta input s"
    and "run_prog (watched (wire_env H)) code (b, []) = Some (x, b', log)" "all_accepted log"
    and "tail_flush (he_prost H) Z (br_emit_buf b') (wire.truncate (cx_chan b')) = Some (Ok (), s')"
  shows "run_prog (bridge_call (wire_env H)) code b = Some (x, b') \<and>
    (\<exists>groups frames. concat groups = accepted_rows log \<and>
      snt (wi_world s') = snt (wi_world s) @ frames \<and>
      delivery (he_prost H) frames (map (table_of (he_prost H) (he_ext H) (um_output_columns meta)) groups))"
  using run_watched [OF assms(4)] socket_output.group_delivers [OF assms(1-6)] by blast

text \<open>A group whose UDF emits one row; the database acknowledges it.\<close>

definition sample_udf_meta :: udf_meta where
  "sample_udf_meta = udf_meta_from_pb sample_meta sample_info"

definition sample_group :: "(db group_wire, int, int) bridge" where
  "sample_group = group_bridge (wire_env sample_host) scripted sample_udf_meta
     \<lparr>cells = [VInt64 7], n_rows = 1, n_cols = 1, irs_row_numbers = [3], cur_row = 0, irs_rows_in_group = 1\<rparr>
     (wire.extend (sample_wire_state ''E'' running_protocol) (group_wire.fields None))"

lemma sample_columns_read [simp]:
  "um_output_columns sample_udf_meta = [sample_column ''B'' TInt64]" "um_output_iter sample_udf_meta = Multiple"
proof -
  have "column_from_pb (column_definition_of (sample_column ''B'' TInt64)) = sample_column ''B'' TInt64"
    by (rule column_read_back) (simp add: column_ok_def sample_column_def)
  then show "um_output_columns sample_udf_meta = [sample_column ''B'' TInt64]"
    "um_output_iter sample_udf_meta = Multiple"
    by (simp_all add: sample_udf_meta_def udf_meta_from_pb_def sample_meta_def iter_from_pb_def pb_iter_get_def pb_iter_type_try_from_def Let_def)
qed

lemma sample_pushed:
  "\<exists>buf. rows (eb_table buf) = 1 \<and> bridge_call (wire_env sample_host) (EmitRow [VInt64 7]) sample_group =
     Some (RUnit (Ok ()), sample_group\<lparr>br_emit_buf := buf\<rparr>)"
proof -
  have "packs_row sample_ext [sample_column ''B'' TInt64] [VInt64 7]"
    by (rule accepts_packs) (simp add: accepts_row_def column_accepts_def sample_column_def)
  from prost_wire.push_costed_eq [OF session_wire this] show ?thesis
    by (simp add: bridge_call_def bridge_emit_def push_output_row_def sample_group_def group_bridge_def Let_def
        bridge_new_def configure_group_input_def check_output_row_def sample_column_def column_accepts_def
        wire_env_def sample_host_def should_flush_def account_def value_byte_cost_def cost_defs
        emit_buffer_new_def emit_table_default_def EMIT_BUFFER_LIMIT_BYTES_def)
qed

lemma sample_emits:
  "\<exists>b' s'. run_prog (watched (wire_env sample_host)) (ctx_emit [VInt64 7]) (sample_group, []) =
      Some (Returned (Ok ()), b', [([([VInt64 7], 3)], True)]) \<and>
    tail_flush session_prost scripted (br_emit_buf b') (wire.truncate (cx_chan b')) = Some (Ok (), s')"
proof -
  obtain buf where buf: "rows (eb_table buf) = 1" "bridge_call (wire_env sample_host) (EmitRow [VInt64 7]) sample_group =
     Some (RUnit (Ok ()), sample_group\<lparr>br_emit_buf := buf\<rparr>)"
    using sample_pushed by blast
  have at_row: "attempted (wire_env sample_host) (EmitRow [VInt64 7]) sample_group = [([VInt64 7], 3)]"
    by (simp add: attempted_def sample_group_def group_bridge_def bridge_new_def configure_group_input_def
      Let_def current_row_number_def nth_or_def accepts_row_def column_accepts_def sample_column_def)
  let ?s = "sample_wire_state ''E'' running_protocol"
  have chan: "wire.truncate (cx_chan sample_group) = ?s"
    by (simp add: sample_group_def group_bridge_def bridge_new_def configure_group_input_def Let_def
        wire.defs group_wire.defs)
  have idle: "scripted.idle (wi_world ?s)" by (simp add: scripted.idle_def sample_wire_state_def)
  have "\<exists>s'. request session_prost scripted (Emit (emit_request_of (eb_table buf) (wi_proto ?s))) ?s =
      Some (Ok EvEmitAck, s')"
    by (subst scripted_request [OF idle])
      (subst scripted_loop(1) [OF _ _ sample_decode sample_running(4)],
       simp_all add: sample_wire_state_def db_queue_def)
  then obtain s' where "request session_prost scripted (Emit (emit_request_of (eb_table buf) (wi_proto ?s))) ?s =
      Some (Ok EvEmitAck, s')" by blast
  then show ?thesis
    using buf(1) chan
    by (simp add: ctx_emit_def watched_def buf(2) at_row sound_call_def unit_end_def tail_flush_def
        eb_is_empty_def flush_def io_bind_cases)
qed

theorem emitted_rows_reach_database_witness:
  "\<exists>groups frames. concat groups = [([VInt64 7], 3)] \<and>
     delivery session_prost frames (map (table_of session_prost sample_ext [sample_column ''B'' TInt64]) groups)"
proof -
  obtain b' s' where run: "run_prog (watched (wire_env sample_host)) (ctx_emit [VInt64 7]) (sample_group, []) =
      Some (Returned (Ok ()), b', [([([VInt64 7], 3)], True)])"
    and tail: "tail_flush session_prost scripted (br_emit_buf b') (wire.truncate (cx_chan b')) = Some (Ok (), s')"
    using sample_emits by blast
  have "he_prost sample_host = session_prost" "he_ext sample_host = sample_ext" by (simp_all add: sample_host_def)
  then show ?thesis
    using emitted_rows_reach_database [OF machine.socket_output_axioms _ sample_group_def run] tail
    by (auto simp: all_accepted_def accepted_rows_def sample_column_def)
qed

end
