(* ===== verification/Test_Support.thy ===== *)
theory Test_Support
  imports Udfs
begin

text \<open>
  The SDK's doubles for unit tests (\<open>exasol-udf-sdk/src/test_support.rs\<close>): \<open>TestContext\<close> over rows
  the test supplies, with its policies, metadata and builder methods, and \<open>DefaultsCtx\<close>, which
  overrides nothing. \<open>TestContext\<close> keeps the contract \<open>group_context\<close> under its default policies.
\<close>

section \<open>State\<close>

datatype emit_policy = RecordRow | RejectEmit udf_error

datatype next_policy = AdvanceRow | RejectNext udf_error

text \<open>The connections are kept by their upper-cased name.\<close>

record test_metadata =
  md_memory_limit :: nat
  md_session_id :: nat
  md_statement_id :: nat
  md_node_id :: nat
  md_node_count :: nat
  md_vm_id :: nat
  md_database_name :: string
  md_database_version :: string
  md_script_name :: string
  md_script_schema :: string
  md_current_user :: "string option"
  md_current_schema :: "string option"
  md_scope_user :: "string option"
  md_debug_level :: level
  md_rows_in_group :: nat
  md_input_type :: "input_type option"
  md_output_type :: "output_type option"
  md_cluster_ip :: "string option"
  md_connections :: "string \<rightharpoonup> connection_object"

definition metadata_default :: test_metadata where
  "metadata_default = \<lparr>md_memory_limit = 0, md_session_id = 0, md_statement_id = 0, md_node_id = 0,
     md_node_count = 0, md_vm_id = 0, md_database_name = [], md_database_version = [],
     md_script_name = [], md_script_schema = [], md_current_user = None, md_current_schema = None,
     md_scope_user = None, md_debug_level = LevelInfo, md_rows_in_group = 0, md_input_type = None,
     md_output_type = None, md_cluster_ip = None, md_connections = Map.empty\<rparr>"

record ('d, 't) test_context =
  tc_rows :: "('d, 't) sql_value list list"
  tc_cursor :: nat \<comment> \<open>1-based; 0 is before the first row\<close>
  tc_emitted :: "('d, 't) sql_value list list"
  tc_captured_return :: "('d, 't) sql_value option option"
  tc_emit_policy :: emit_policy
  tc_next_policy :: next_policy
  tc_meta :: test_metadata
  tc_input_columns :: "column_info list"
  tc_output_columns :: "column_info list"

definition positioned :: "('d, 't) sql_value list list \<Rightarrow> nat \<Rightarrow> ('d, 't) test_context" where
  "positioned rs cursor = \<lparr>tc_rows = rs, tc_cursor = cursor, tc_emitted = [], tc_captured_return = None,
     tc_emit_policy = RecordRow, tc_next_policy = AdvanceRow, tc_meta = metadata_default,
     tc_input_columns = [], tc_output_columns = []\<rparr>"

definition scalar :: "('d, 't) sql_value list \<Rightarrow> ('d, 't) test_context" where
  "scalar vals = positioned [vals] 1"

definition set_group :: "('d, 't) sql_value list list \<Rightarrow> ('d, 't) test_context" where
  "set_group rs = positioned rs 0"

section \<open>Builders\<close>

definition update_meta :: "(test_metadata \<Rightarrow> test_metadata) \<Rightarrow> ('d, 't) test_context \<Rightarrow> ('d, 't) test_context" where
  "update_meta f c = c\<lparr>tc_meta := f (tc_meta c)\<rparr>"

definition with_input_columns :: "column_info list \<Rightarrow> ('d, 't) test_context \<Rightarrow> ('d, 't) test_context" where
  "with_input_columns columns c = c\<lparr>tc_input_columns := columns\<rparr>"

definition with_output_columns :: "column_info list \<Rightarrow> ('d, 't) test_context \<Rightarrow> ('d, 't) test_context" where
  "with_output_columns columns c = c\<lparr>tc_output_columns := columns\<rparr>"

definition with_emit_policy :: "emit_policy \<Rightarrow> ('d, 't) test_context \<Rightarrow> ('d, 't) test_context" where
  "with_emit_policy policy c = c\<lparr>tc_emit_policy := policy\<rparr>"

definition with_next_policy :: "next_policy \<Rightarrow> ('d, 't) test_context \<Rightarrow> ('d, 't) test_context" where
  "with_next_policy policy c = c\<lparr>tc_next_policy := policy\<rparr>"

definition with_memory_limit :: "nat \<Rightarrow> ('d, 't) test_context \<Rightarrow> ('d, 't) test_context" where
  "with_memory_limit limit = update_meta (\<lambda>m. m\<lparr>md_memory_limit := limit\<rparr>)"

definition with_session_id :: "nat \<Rightarrow> ('d, 't) test_context \<Rightarrow> ('d, 't) test_context" where
  "with_session_id i = update_meta (\<lambda>m. m\<lparr>md_session_id := i\<rparr>)"

definition with_statement_id :: "nat \<Rightarrow> ('d, 't) test_context \<Rightarrow> ('d, 't) test_context" where
  "with_statement_id i = update_meta (\<lambda>m. m\<lparr>md_statement_id := i\<rparr>)"

definition with_node_id :: "nat \<Rightarrow> ('d, 't) test_context \<Rightarrow> ('d, 't) test_context" where
  "with_node_id i = update_meta (\<lambda>m. m\<lparr>md_node_id := i\<rparr>)"

definition with_node_count :: "nat \<Rightarrow> ('d, 't) test_context \<Rightarrow> ('d, 't) test_context" where
  "with_node_count count = update_meta (\<lambda>m. m\<lparr>md_node_count := count\<rparr>)"

definition with_vm_id :: "nat \<Rightarrow> ('d, 't) test_context \<Rightarrow> ('d, 't) test_context" where
  "with_vm_id i = update_meta (\<lambda>m. m\<lparr>md_vm_id := i\<rparr>)"

definition with_database_name :: "string \<Rightarrow> ('d, 't) test_context \<Rightarrow> ('d, 't) test_context" where
  "with_database_name name = update_meta (\<lambda>m. m\<lparr>md_database_name := name\<rparr>)"

definition with_database_version :: "string \<Rightarrow> ('d, 't) test_context \<Rightarrow> ('d, 't) test_context" where
  "with_database_version version = update_meta (\<lambda>m. m\<lparr>md_database_version := version\<rparr>)"

definition with_script_name :: "string \<Rightarrow> ('d, 't) test_context \<Rightarrow> ('d, 't) test_context" where
  "with_script_name name = update_meta (\<lambda>m. m\<lparr>md_script_name := name\<rparr>)"

definition with_script_schema :: "string \<Rightarrow> ('d, 't) test_context \<Rightarrow> ('d, 't) test_context" where
  "with_script_schema schema = update_meta (\<lambda>m. m\<lparr>md_script_schema := schema\<rparr>)"

definition with_current_user :: "string \<Rightarrow> ('d, 't) test_context \<Rightarrow> ('d, 't) test_context" where
  "with_current_user user = update_meta (\<lambda>m. m\<lparr>md_current_user := Some user\<rparr>)"

definition with_current_schema :: "string \<Rightarrow> ('d, 't) test_context \<Rightarrow> ('d, 't) test_context" where
  "with_current_schema schema = update_meta (\<lambda>m. m\<lparr>md_current_schema := Some schema\<rparr>)"

definition with_scope_user :: "string \<Rightarrow> ('d, 't) test_context \<Rightarrow> ('d, 't) test_context" where
  "with_scope_user user = update_meta (\<lambda>m. m\<lparr>md_scope_user := Some user\<rparr>)"

definition with_debug_level :: "level \<Rightarrow> ('d, 't) test_context \<Rightarrow> ('d, 't) test_context" where
  "with_debug_level l = update_meta (\<lambda>m. m\<lparr>md_debug_level := l\<rparr>)"

definition with_rows_in_group :: "nat \<Rightarrow> ('d, 't) test_context \<Rightarrow> ('d, 't) test_context" where
  "with_rows_in_group n = update_meta (\<lambda>m. m\<lparr>md_rows_in_group := n\<rparr>)"

definition with_input_type :: "input_type \<Rightarrow> ('d, 't) test_context \<Rightarrow> ('d, 't) test_context" where
  "with_input_type t = update_meta (\<lambda>m. m\<lparr>md_input_type := Some t\<rparr>)"

definition with_output_type :: "output_type \<Rightarrow> ('d, 't) test_context \<Rightarrow> ('d, 't) test_context" where
  "with_output_type t = update_meta (\<lambda>m. m\<lparr>md_output_type := Some t\<rparr>)"

definition with_cluster_ip :: "string \<Rightarrow> ('d, 't) test_context \<Rightarrow> ('d, 't) test_context" where
  "with_cluster_ip ip = update_meta (\<lambda>m. m\<lparr>md_cluster_ip := Some ip\<rparr>)"

definition with_connection :: "string \<Rightarrow> connection_object \<Rightarrow> ('d, 't) test_context \<Rightarrow> ('d, 't) test_context" where
  "with_connection name obj = update_meta (\<lambda>m. m\<lparr>md_connections :=
     (md_connections m)(to_ascii_uppercase name \<mapsto> obj)\<rparr>)"

section \<open>The calls\<close>

definition current_test_row :: "('d, 't) test_context \<Rightarrow> ('d, 't) sql_value list option" where
  "current_test_row c = (if tc_cursor c = 0 then None else nth_opt (tc_rows c) (tc_cursor c - 1))"

definition test_get :: "nat \<Rightarrow> ('d, 't) test_context \<Rightarrow> (udf_error, ('d, 't) sql_value) result" where
  "test_get col c = (case current_test_row c of
      None \<Rightarrow> Err (TypeErr (''get('' @ show_nat col @ '') with no current row; call next() first''))
    | Some r \<Rightarrow> ok_or (TypeErr (''get('' @ show_nat col @ '') out of range; the current row has '' @
        show_nat (length r) @ '' columns'')) (nth_opt r col))"

definition test_emit :: "('d, 't) sql_value list \<Rightarrow> ('d, 't) test_context \<Rightarrow> (udf_error, unit) result \<times> ('d, 't) test_context" where
  "test_emit vals c = (case tc_emit_policy c of
      RecordRow \<Rightarrow> (Ok (), c\<lparr>tc_emitted := tc_emitted c @ [vals]\<rparr>)
    | RejectEmit e \<Rightarrow> (Err e, c))"

definition test_next :: "('d, 't) test_context \<Rightarrow> (udf_error, bool) result \<times> ('d, 't) test_context" where
  "test_next c = (case tc_next_policy c of
      RejectNext e \<Rightarrow> (Err e, c)
    | AdvanceRow \<Rightarrow> if tc_cursor c < length (tc_rows c) then (Ok True, c\<lparr>tc_cursor := tc_cursor c + 1\<rparr>)
        else (Ok False, c))"

definition test_connection :: "string \<Rightarrow> ('d, 't) test_context \<Rightarrow> (udf_error, connection_object) result" where
  "test_connection name c = ok_or (Connection (''connection '' @ name @ '' does not exist''))
     (md_connections (tc_meta c) (to_ascii_uppercase name))"

definition test_meta_call :: "test_metadata \<Rightarrow> ('d, 't) ctx_call \<Rightarrow> ('d, 't) reply option" where
  "test_meta_call m call = (case call of
      MemoryLimit \<Rightarrow> Some (RNat (md_memory_limit m))
    | SessionId \<Rightarrow> Some (RNat (md_session_id m))
    | StatementId \<Rightarrow> Some (RNat (md_statement_id m))
    | NodeId \<Rightarrow> Some (RNat (md_node_id m))
    | NodeCount \<Rightarrow> Some (RNat (md_node_count m))
    | VmId \<Rightarrow> Some (RNat (md_vm_id m))
    | DatabaseName \<Rightarrow> Some (RText (md_database_name m))
    | DatabaseVersion \<Rightarrow> Some (RText (md_database_version m))
    | ScriptName \<Rightarrow> Some (RText (md_script_name m))
    | ScriptSchema \<Rightarrow> Some (RText (md_script_schema m))
    | CurrentUser \<Rightarrow> Some (ROptText (md_current_user m))
    | CurrentSchema \<Rightarrow> Some (ROptText (md_current_schema m))
    | ScopeUser \<Rightarrow> Some (ROptText (md_scope_user m))
    | DebugLevel \<Rightarrow> Some (RLevel (md_debug_level m))
    | RowsInGroup \<Rightarrow> Some (RNat (md_rows_in_group m))
    | InputTypeOf \<Rightarrow> Some (RInputType (md_input_type m))
    | OutputTypeOf \<Rightarrow> Some (ROutputType (md_output_type m))
    | ClusterIp \<Rightarrow> Some (RTextResult (ok_or (Unimplemented ''cluster_ip not set on TestContext'') (md_cluster_ip m)))
    | _ \<Rightarrow> None)"

definition test_call :: "(('d, 't) test_context, 'd, 't) handler" where
  "test_call call c = (case call of
      InputColumnCount \<Rightarrow> Some (RNat (case tc_rows c of [] \<Rightarrow> 0 | r # _ \<Rightarrow> length r), c)
    | InputColumn idx \<Rightarrow> Some (RColumn (ok_or (TypeErr (''input column '' @ show_nat idx @ '' out of range''))
        (nth_opt (tc_input_columns c) idx)), c)
    | OutputColumnCount \<Rightarrow> Some (RNat (length (tc_output_columns c)), c)
    | OutputColumn idx \<Rightarrow> Some (RColumn (ok_or (TypeErr (''output column '' @ show_nat idx @ '' out of range''))
        (nth_opt (tc_output_columns c) idx)), c)
    | GetCell col \<Rightarrow> Some (RCell (test_get col c), c)
    | EmitRow vals \<Rightarrow> (let (r, c) = test_emit vals c in Some (RUnit r, c))
    | NextRow \<Rightarrow> (let (r, c) = test_next c in Some (RBool r, c))
    | SetReturn v \<Rightarrow> Some (RUnit (Ok ()), c\<lparr>tc_captured_return := Some v\<rparr>)
    | ConnectionLookup name \<Rightarrow> Some (RConnection (test_connection name c), c)
    | _ \<Rightarrow> answer (test_meta_call (tc_meta c) call) call c)"

text \<open>\<open>DefaultsCtx\<close>: the four required methods, and the defaults of the trait.\<close>

definition defaults_call :: "(unit, 'd, 't) handler" where
  "defaults_call call c = (case call of
      InputColumnCount \<Rightarrow> Some (RNat 0, c)
    | GetCell col \<Rightarrow> Some (RCell (Err (TypeErr (''get('' @ show_nat col @
        '') out of range; this context has no input columns''))), c)
    | EmitRow vals \<Rightarrow> Some (RUnit (Ok ()), c)
    | NextRow \<Rightarrow> Some (RBool (Ok False), c)
    | _ \<Rightarrow> answer None call c)"

section \<open>The contract\<close>

text \<open>The output of a test is what it reads back: the emitted rows and the returned value.\<close>

type_synonym ('d, 't) observed = "('d, 't) sql_value list list \<times> ('d, 't) sql_value option option"

definition test_stands :: "('d, 't) sql_value list option \<Rightarrow> ('d, 't) sql_value list list \<Rightarrow>
    ('d, 't) observed \<Rightarrow> ('d, 't) test_context \<Rightarrow> bool" where
  "test_stands cur rest out c \<longleftrightarrow> tc_emit_policy c = RecordRow \<and> tc_next_policy c = AdvanceRow \<and>
     tc_cursor c \<le> length (tc_rows c) \<and> drop (tc_cursor c) (tc_rows c) = rest \<and> current_test_row c = cur \<and>
     out = (tc_emitted c, tc_captured_return c)"

lemma test_stands_set: "test_stands None rs ([], None) (set_group rs)"
  by (simp add: test_stands_def set_group_def positioned_def current_test_row_def)

lemma test_stands_scalar: "test_stands (Some vals) [] ([], None) (scalar vals)"
  by (simp add: test_stands_def scalar_def positioned_def current_test_row_def nth_opt_def)

interpretation double: group_context test_call test_stands "\<lambda>_. True" "\<lambda>vals (rs, v). (rs @ [vals], v)"
  "\<lambda>_. True" "\<lambda>v (rs, _). (rs, Some v)"
proof (unfold_locales, goal_cases)
  case (1 cur r rest out c)
  then have "drop (tc_cursor c) (tc_rows c) = r # rest" "tc_next_policy c = AdvanceRow"
    by (simp_all add: test_stands_def)
  with drop_eq_Cons [OF this(1)] show ?case
    using 1 by (auto simp: test_call_def test_next_def test_stands_def current_test_row_def nth_opt_def)
next
  case (2 cur out c)
  then show ?case by (auto simp: test_call_def test_next_def test_stands_def)
next
  case (3 r rest out c i)
  then show ?case by (auto simp: test_call_def test_get_def test_stands_def nth_opt_def)
next
  case (4 cur rest out c vals)
  then show ?case by (auto simp: test_call_def test_emit_def test_stands_def current_test_row_def)
next
  case (5 cur rest out c v)
  then show ?case by (auto simp: test_call_def test_stands_def current_test_row_def)
qed

text \<open>Whatever is called, the configuration of the double stays and its output only grows.\<close>

definition test_inv :: "('d, 't) test_context \<Rightarrow> ('d, 't) test_context \<Rightarrow> bool" where
  "test_inv c c' \<longleftrightarrow> tc_rows c' = tc_rows c \<and> tc_meta c' = tc_meta c \<and> tc_emit_policy c' = tc_emit_policy c \<and>
     tc_next_policy c' = tc_next_policy c \<and> tc_input_columns c' = tc_input_columns c \<and>
     tc_output_columns c' = tc_output_columns c \<and> tc_cursor c \<le> tc_cursor c' \<and>
     (\<exists>new. tc_emitted c' = tc_emitted c @ new)"

lemmas test_call_defs = test_call_def test_emit_def test_next_def answer_def

interpretation double: udf_context test_call test_inv
proof (unfold_locales, goal_cases)
  case (3 call c r c')
  then show ?case
    by (cases call) (auto simp: test_inv_def test_call_defs split: emit_policy.splits next_policy.splits if_splits)
qed (auto simp: test_inv_def)

text \<open>The double always answers, and gives each row once: code that makes progress stops on it.\<close>

definition test_used :: "(('d, 't) test_context \<times> ('d, 't) test_context) set" where
  "test_used = measure (\<lambda>c. length (tc_rows c) - tc_cursor c)"

definition test_kept :: "(('d, 't) test_context \<times> ('d, 't) test_context) set" where
  "test_kept = {(c', c). length (tc_rows c') - tc_cursor c' \<le> length (tc_rows c) - tc_cursor c}"

interpretation double: answering_context test_call "\<lambda>_. True" test_used test_kept
proof (unfold_locales, goal_cases)
  case (1 c call)
  show ?case
    by (cases call) (auto simp: test_used_def test_kept_def test_call_defs next_row_def
        split: emit_policy.splits next_policy.splits if_splits)
qed (auto simp: test_used_def test_kept_def)

end
