(* ===== verification/Feed.thy ===== *)
theory Feed
  imports Udfs Emission
begin

text \<open>
  The bridge as a group context. Over a channel that feeds batches and takes tables (the locale
  \<open>batch_feed\<close>), the bridge of a SET group gives the rows of the batches in order, across batch
  boundaries and empty batches, and holds or has sent the rows it was given.
\<close>

section \<open>The rows of a batch\<close>

definition irs_rows :: "('d, 't) input_row_set \<Rightarrow> ('d, 't) sql_value list list" where
  "irs_rows rs = map (\<lambda>i. slice (i * n_cols rs) (i * n_cols rs + n_cols rs) (cells rs)) [0 ..< n_rows rs]"

definition irs_ok :: "('d, 't) input_row_set \<Rightarrow> bool" where
  "irs_ok rs \<longleftrightarrow> length (cells rs) = n_rows rs * n_cols rs"

lemma decode_row_length:
  "decode_row E table width r c cols out cur = Ok (out', cur') \<Longrightarrow> length out' = length out + length cols"
proof (induction cols arbitrary: c out cur)
  case (Cons col cols)
  then show ?case by (fastforce simp: rbind_eq_Inr split: if_splits prod.splits)
qed simp

lemma decode_rows_length:
  "decode_rows E table meta left r out cur = Ok out' \<Longrightarrow> length out' = length out + left * length meta"
proof (induction left arbitrary: r out cur)
  case (Suc left)
  then obtain out1 cur1 where "decode_row E table (length meta) r 0 meta out cur = Ok (out1, cur1)"
    "decode_rows E table meta left (r + 1) out1 cur1 = Ok out'"
    by (auto simp: rbind_eq_Inr)
  then show ?case using Suc.IH decode_row_length by fastforce
qed simp

lemma decode_ok:
  assumes "decode E table meta [] = Ok rs"
  shows "irs_ok rs \<and> n_cols rs = length meta \<and> cur_row rs = 0 \<and> n_rows rs = td_rows table"
  using assms decode_rows_length [of E table meta "td_rows table" 0 "[]"]
  by (auto simp: decode_def Let_def rbind_eq_Inr irs_ok_def)

lemma length_irs_rows [simp]: "length (irs_rows rs) = n_rows rs"
  by (simp add: irs_rows_def)

lemma current_row_ok:
  assumes "irs_ok rs" "cur_row rs < n_rows rs"
  shows "current_row rs = Some (irs_rows rs ! cur_row rs)"
proof -
  have "cur_row rs * n_cols rs + n_cols rs \<le> n_rows rs * n_cols rs"
    using assms(2) mult_le_mono1 [of "Suc (cur_row rs)" "n_rows rs" "n_cols rs"] by simp
  then show ?thesis
    using assms by (simp add: current_row_def row_def irs_rows_def irs_ok_def Let_def)
qed

definition batch_rows :: "('d, 't) ext \<Rightarrow> column_info list \<Rightarrow> table_data \<Rightarrow> ('d, 't) sql_value list list" where
  "batch_rows E cols table = (case from_proto E table cols of Inl _ \<Rightarrow> [] | Inr rs \<Rightarrow> irs_rows rs)"

section \<open>The rows of a table\<close>

text \<open>A row its columns accept and whose text cells the wire can carry.\<close>

definition row_fits :: "('d, 't) ext \<Rightarrow> column_info list \<Rightarrow> ('d, 't) sql_value list \<Rightarrow> bool" where
  "row_fits E cols vals \<longleftrightarrow> accepts_row cols vals \<and> list_all (\<lambda>s. length s < 2 ^ 64) (row_block (cell_strings E) cols vals)"

definition table_data_of :: "('d, 't) ext \<Rightarrow> column_info list \<Rightarrow> ('d, 't) numbered_row list \<Rightarrow> table_data" where
  "table_data_of E cols g = (let vs = map fst g in
     \<lparr>td_rows = length g, td_rows_in_group = 0, td_string = rows_block (cell_strings E) cols vs,
      td_nulls = concat (map (map is_null) vs), td_bool = rows_block cell_bools cols vs,
      td_int32 = rows_block (cell_int32s E) cols vs, td_int64 = rows_block (cell_int64s E) cols vs,
      td_double = rows_block (cell_doubles E) cols vs, td_row_number = map snd g\<rparr>)"

lemma table_holds:
  assumes "list_all (row_fits E cols) (map fst g)"
  shows "holds_cells P (rows_block (cell_strings E) cols (map fst g)) (table_of P E cols g)"
  using assms by (simp add: holds_cells_def table_of_def rows_block_def list_all_iff row_fits_def)

context prost_wire
begin

lemma table_to_proto:
  assumes "list_all (row_fits E cols) (map fst g)"
  shows "to_proto P (table_of P E cols g) = Some (table_data_of E cols g)"
  using to_proto_cells [OF table_holds [OF assms]] by (simp add: table_of_def table_data_of_def Let_def)

end

section \<open>A channel that feeds\<close>

text \<open>A channel with batches still to come and tables it has taken.\<close>

locale batch_feed =
  fixes H :: "('s, 'd, 't) host_env" and fetch :: "('s, udf_error, table_data option) io"
    and flush :: "emit_table \<Rightarrow> ('s, udf_error, unit) io"
    and feeds :: "table_data list \<Rightarrow> emit_table list \<Rightarrow> 's \<Rightarrow> bool"
  assumes codec: "prost_wire (he_prost H)"
    and fetch_next: "feeds (t # ts) out s \<Longrightarrow> \<exists>s'. fetch s = Some (Ok (Some t), s') \<and> feeds ts out s'"
    and fetch_end: "feeds [] out s \<Longrightarrow> \<exists>s'. fetch s = Some (Ok None, s') \<and> feeds [] out s'"
    and table_taken: "feeds ts out s \<Longrightarrow> rows table \<noteq> 0 \<Longrightarrow>
      holds_cells (he_prost H) css table \<Longrightarrow> \<exists>s'. flush table s = Some (Ok (), s') \<and> feeds ts (out @ [table]) s'"
begin

text \<open>The groups sent and the rows held, numbered, are the rows put out.\<close>

definition output_of :: "column_info list \<Rightarrow> table_data list \<Rightarrow> ('d, 't) sql_value list list \<Rightarrow>
    ('s, 'd, 't) bridge \<Rightarrow> bool" where
  "output_of ocols pend out b \<longleftrightarrow> (\<exists>groups held.
     feeds pend (map (table_of (he_prost H) (he_ext H) ocols) groups) (cx_chan b) \<and>
     carries (he_prost H) (he_ext H) ocols held (br_emit_buf b) \<and> list_all (\<lambda>g. g \<noteq> []) groups \<and>
     map fst (concat groups @ held) = out) \<and> list_all (row_fits (he_ext H) ocols) out"

definition feeding :: "column_info list \<Rightarrow> column_info list \<Rightarrow> iter_type \<Rightarrow> table_data list \<Rightarrow>
    ('s, 'd, 't) bridge \<Rightarrow> bool" where
  "feeding icols ocols oiter pend b \<longleftrightarrow> cx_input_iter b = Multiple \<and> cx_output_iter b = oiter \<and>
     br_fetcher b = fetch \<and> br_flusher b = flush \<and> br_input_cols b = icols \<and> br_output_meta b = ocols \<and>
     list_all (\<lambda>t. is_ok (from_proto (he_ext H) t icols)) pend \<and> irs_ok (br_input b)"

definition standing :: "column_info list \<Rightarrow> column_info list \<Rightarrow> iter_type \<Rightarrow> ('d, 't) sql_value list option \<Rightarrow>
    ('d, 't) sql_value list list \<Rightarrow> ('d, 't) sql_value list list \<Rightarrow> ('s, 'd, 't) bridge \<Rightarrow> bool" where
  "standing icols ocols oiter cur rest out b \<longleftrightarrow> (\<exists>pend. feeding icols ocols oiter pend b \<and>
     output_of ocols pend out b \<and>
     (if br_started b
      then cur = nth_opt (irs_rows (br_input b)) (cur_row (br_input b)) \<and>
        rest = drop (Suc (cur_row (br_input b))) (irs_rows (br_input b)) @ concat (map (batch_rows (he_ext H) icols) pend)
      else cur = None \<and> cur_row (br_input b) = 0 \<and>
        rest = irs_rows (br_input b) @ concat (map (batch_rows (he_ext H) icols) pend)))"

text \<open>A refill skips the empty batches.\<close>

abbreviation rest_of :: "column_info list \<Rightarrow> table_data list \<Rightarrow> ('d, 't) sql_value list list" where
  "rest_of icols pend \<equiv> concat (map (batch_rows (he_ext H) icols) pend)"

lemma refill_feeds:
  assumes "feeding icols ocols oiter pend b" "output_of ocols pend out b" "br_started b"
    and "n_rows (br_input b) \<le> Suc (cur_row (br_input b))"
  shows "if rest_of icols pend = []
    then \<exists>b' cur. refill (he_ext H) b = Some (Ok False, b') \<and> standing icols ocols oiter cur [] out b'
    else \<exists>b'. refill (he_ext H) b = Some (Ok True, b') \<and>
      standing icols ocols oiter (Some (hd (rest_of icols pend))) (tl (rest_of icols pend)) out b'"
  using assms
proof (induction pend arbitrary: b)
  case Nil
  obtain groups held where groups: "feeds [] (map (table_of (he_prost H) (he_ext H) ocols) groups) (cx_chan b)"
    "carries (he_prost H) (he_ext H) ocols held (br_emit_buf b)" "list_all (\<lambda>g. g \<noteq> []) groups"
    "map fst (concat groups @ held) = out" "list_all (row_fits (he_ext H) ocols) out" using Nil.prems(2) by (auto simp: output_of_def)
  obtain s where s: "fetch (cx_chan b) = Some (Ok None, s)"
    "feeds [] (map (table_of (he_prost H) (he_ext H) ocols) groups) s" using fetch_end [OF groups(1)] by blast
  have "refill (he_ext H) b = Some (Ok False, b\<lparr>cx_chan := s\<rparr>)"
    using Nil.prems(1) s(1) by (subst refill.simps) (simp add: io_bind_cases on_chan_def feeding_def)
  moreover have "output_of ocols [] out (b\<lparr>cx_chan := s\<rparr>)"
    unfolding output_of_def using groups s(2) by (intro conjI exI [of _ groups] exI [of _ held]) simp_all
  then have "standing icols ocols oiter (nth_opt (irs_rows (br_input b)) (cur_row (br_input b))) [] out (b\<lparr>cx_chan := s\<rparr>)"
    using Nil.prems unfolding standing_def
    by (intro exI [of _ "[]"]) (simp add: feeding_def)
  ultimately show ?case by auto
next
  case (Cons t pend)
  obtain groups held where groups: "feeds (t # pend) (map (table_of (he_prost H) (he_ext H) ocols) groups) (cx_chan b)"
    "carries (he_prost H) (he_ext H) ocols held (br_emit_buf b)" "list_all (\<lambda>g. g \<noteq> []) groups"
    "map fst (concat groups @ held) = out" "list_all (row_fits (he_ext H) ocols) out" using Cons.prems(2) by (auto simp: output_of_def)
  obtain s where s: "fetch (cx_chan b) = Some (Ok (Some t), s)"
    "feeds pend (map (table_of (he_prost H) (he_ext H) ocols) groups) s" using fetch_next [OF groups(1)] by blast
  obtain rs where rs: "from_proto (he_ext H) t icols = Ok rs"
    using Cons.prems(1) by (cases "from_proto (he_ext H) t icols") (auto simp: feeding_def is_ok_def)
  note ok = decode_ok [OF rs [unfolded from_proto_def]]
  let ?b = "b\<lparr>cx_chan := s, br_input := rs\<rparr>"
  have load: "reload_input (he_ext H) t (b\<lparr>cx_chan := s\<rparr>) = Some (Ok (), ?b)"
    using rs Cons.prems(1) by (simp add: reload_input_def reload_def from_proto_def feeding_def)
  have feeding: "feeding icols ocols oiter pend ?b" using Cons.prems(1) ok by (simp add: feeding_def)
  have "output_of ocols pend out ?b"
    unfolding output_of_def using groups s(2) by (intro conjI exI [of _ groups] exI [of _ held]) simp_all
  note held = feeding this
  have batch: "batch_rows (he_ext H) icols t = irs_rows rs" using rs by (simp add: batch_rows_def)
  show ?case
  proof (cases "n_rows rs = 0")
    case True
    then have "rest_of icols (t # pend) = rest_of icols pend" by (simp add: batch irs_rows_def)
    moreover have "refill (he_ext H) b = refill (he_ext H) ?b"
      using Cons.prems(1) s(1) load True
      by (subst refill.simps) (simp add: io_bind_cases on_chan_def feeding_def irs_is_empty_def)
    moreover have "br_started ?b" "n_rows (br_input ?b) \<le> Suc (cur_row (br_input ?b))"
      using True Cons.prems(3) by simp_all
    note Cons.IH [OF held this]
    ultimately show ?thesis by (simp only:)
  next
    case False
    then have ne: "irs_rows rs \<noteq> []" by (metis length_0_conv length_irs_rows)
    have "refill (he_ext H) b = Some (Ok True, ?b)"
      using Cons.prems(1) s(1) load False
      by (subst refill.simps) (simp add: io_bind_cases on_chan_def feeding_def irs_is_empty_def)
    moreover have "standing icols ocols oiter (Some (hd (irs_rows rs))) (tl (irs_rows rs) @ rest_of icols pend) out ?b"
      unfolding standing_def using held Cons.prems(3) ok ne False
      by (intro exI [of _ pend]) (simp add: nth_opt_def hd_conv_nth drop_Suc)
    ultimately show ?thesis using ne batch by auto
  qed
qed

lemma next_feeds:
  assumes "standing icols ocols oiter cur rest out b"
  shows "if rest = [] then \<exists>b' cur'. bridge_next (he_ext H) b = Some (Ok False, b') \<and> standing icols ocols oiter cur' [] out b'
    else \<exists>b'. bridge_next (he_ext H) b = Some (Ok True, b') \<and> standing icols ocols oiter (Some (hd rest)) (tl rest) out b'"
proof -
  obtain pend where pend: "feeding icols ocols oiter pend b" "output_of ocols pend out b"
    and pos: "if br_started b
      then cur = nth_opt (irs_rows (br_input b)) (cur_row (br_input b)) \<and>
        rest = drop (Suc (cur_row (br_input b))) (irs_rows (br_input b)) @ rest_of icols pend
      else cur = None \<and> cur_row (br_input b) = 0 \<and> rest = irs_rows (br_input b) @ rest_of icols pend"
    using assms by (auto simp: standing_def)
  have multiple: "cx_input_iter b = Multiple" using pend(1) by (simp add: feeding_def)
  show ?thesis
  proof (cases "br_started b")
    case False
    let ?b = "b\<lparr>br_started := True\<rparr>"
    have kept: "feeding icols ocols oiter pend ?b" "output_of ocols pend out ?b"
      using pend by (simp_all add: feeding_def output_of_def)
    show ?thesis
    proof (cases "n_rows (br_input b) = 0")
      case True
      then have "rest = rest_of icols pend" using pos False by (simp add: irs_rows_def)
      moreover have "bridge_next (he_ext H) b = refill (he_ext H) ?b"
        using multiple False True by (simp add: bridge_next_def irs_is_empty_def)
      ultimately show ?thesis using refill_feeds [OF kept] True by (simp only:) simp
    next
      case some: False
      then have ne: "irs_rows (br_input b) \<noteq> []" by (metis length_0_conv length_irs_rows)
      then have "rest \<noteq> []" "hd rest = irs_rows (br_input b) ! 0" "tl rest = tl (irs_rows (br_input b)) @ rest_of icols pend"
        using pos False by (cases "irs_rows (br_input b)"; simp)+
      moreover have "standing icols ocols oiter (Some (irs_rows (br_input b) ! 0))
          (tl (irs_rows (br_input b)) @ rest_of icols pend) out ?b"
        unfolding standing_def using kept pos False some by (intro exI [of _ pend]) (simp add: nth_opt_def drop_Suc)
      ultimately show ?thesis using multiple False some by (simp add: bridge_next_def irs_is_empty_def)
    qed
  next
    case True
    show ?thesis
    proof (cases "Suc (cur_row (br_input b)) < n_rows (br_input b)")
      case False
      then have adv: "advance (br_input b) = (False, br_input b)" by (simp add: advance_def)
      have "rest = rest_of icols pend" using pos True False by simp
      moreover have "bridge_next (he_ext H) b = refill (he_ext H) b"
        using multiple True adv by (simp add: bridge_next_def)
      ultimately show ?thesis using refill_feeds [OF pend True] False by (simp only:) simp
    next
      case more: True
      let ?i = "(br_input b)\<lparr>cur_row := Suc (cur_row (br_input b))\<rparr>"
      let ?b = "b\<lparr>br_input := ?i\<rparr>"
      have same: "irs_rows ?i = irs_rows (br_input b)" by (simp add: irs_rows_def)
      have kept: "feeding icols ocols oiter pend ?b" "output_of ocols pend out ?b"
        using pend by (simp_all add: feeding_def output_of_def irs_ok_def)
      have "rest = irs_rows (br_input b) ! Suc (cur_row (br_input b)) #
          drop (Suc (Suc (cur_row (br_input b)))) (irs_rows (br_input b)) @ rest_of icols pend"
        using pos True more by (simp add: Cons_nth_drop_Suc)
      moreover have "standing icols ocols oiter (Some (irs_rows (br_input b) ! Suc (cur_row (br_input b))))
          (drop (Suc (Suc (cur_row (br_input b)))) (irs_rows (br_input b)) @ rest_of icols pend) out ?b"
        unfolding standing_def using kept same True more by (intro exI [of _ pend]) (simp add: nth_opt_def)
      moreover have "bridge_next (he_ext H) b = Some (Ok True, ?b)"
        using multiple True more by (simp add: bridge_next_def advance_def)
      ultimately show ?thesis by simp
    qed
  qed
qed

text \<open>A row that row_fits its columns is taken: held, or sent when the buffer is full.\<close>

lemma row_taken:
  assumes "standing icols ocols oiter cur rest out b" "row_fits (he_ext H) ocols vals"
  shows "\<exists>b'. push_output_row H vals b = Some (RUnit (Ok ()), b') \<and> standing icols ocols oiter cur rest (out @ [vals]) b'"
proof -
  let ?n = "current_row_number (br_input b)"
  have acc: "accepts_row ocols vals" using assms(2) by (simp add: row_fits_def)
  obtain pend where pend: "feeding icols ocols oiter pend b" "output_of ocols pend out b"
    and pos: "if br_started b
      then cur = nth_opt (irs_rows (br_input b)) (cur_row (br_input b)) \<and>
        rest = drop (Suc (cur_row (br_input b))) (irs_rows (br_input b)) @ rest_of icols pend
      else cur = None \<and> cur_row (br_input b) = 0 \<and> rest = irs_rows (br_input b) @ rest_of icols pend"
    using assms(1) by (auto simp: standing_def)
  obtain groups held where groups: "feeds pend (map (table_of (he_prost H) (he_ext H) ocols) groups) (cx_chan b)"
    "list_all (\<lambda>g. g \<noteq> []) groups" "map fst (concat groups @ held) = out" "list_all (row_fits (he_ext H) ocols) out"
    and held: "carries (he_prost H) (he_ext H) ocols held (br_emit_buf b)"
    using pend(2) by (auto simp: output_of_def)
  obtain b1 where b1: "push (he_prost H) (he_ext H) vals ?n ocols (br_emit_buf b) = Some b1"
    "carries (he_prost H) (he_ext H) ocols (held @ [(vals, ?n)]) b1"
    using prost_wire.push_carries [OF codec held accepts_packs [OF acc]] by blast
  have ok: "check_output_row (he_ext H) vals ocols = Ok (row_cost vals)"
    using acc by (simp add: check_output_row_ok row_cost_def)
  have ocols: "br_output_meta b = ocols" "br_flusher b = flush" using pend(1) by (simp_all add: feeding_def)
  have stands: "standing icols ocols oiter cur rest (out @ [vals]) b'"
    if "output_of ocols pend (out @ [vals]) b'" "\<exists>buf s. b' = b\<lparr>br_emit_buf := buf, cx_chan := s\<rparr>" for b'
    unfolding standing_def using that pend(1) pos by (intro exI [of _ pend]) (auto simp: feeding_def)
  show ?thesis
  proof (cases "should_flush b1")
    case False
    then have "push_output_row H vals b = Some (RUnit (Ok ()), b\<lparr>br_emit_buf := b1\<rparr>)"
      using ok b1(1) ocols by (simp add: push_output_row_def push_eq_costed)
    moreover have "output_of ocols pend (out @ [vals]) (b\<lparr>br_emit_buf := b1\<rparr>)"
      unfolding output_of_def using groups b1(2) assms(2)
      by (intro conjI exI [of _ groups] exI [of _ "held @ [(vals, ?n)]"]) auto
    moreover have "\<exists>buf s. b\<lparr>br_emit_buf := b1\<rparr> = b\<lparr>br_emit_buf := buf, cx_chan := s\<rparr>"
      by (intro exI [of _ b1] exI [of _ "cx_chan b"]) simp
    ultimately show ?thesis using stands by blast
  next
    case True
    have table: "eb_table b1 = table_of (he_prost H) (he_ext H) ocols (held @ [(vals, ?n)])"
      using b1(2) by (simp add: carries_def)
    have "list_all (row_fits (he_ext H) ocols) (map fst (held @ [(vals, ?n)]))"
      using groups(3,4) assms(2) by (fastforce simp: list_all_iff)
    note sound = table_holds [OF this, of "he_prost H", folded table]
    obtain s where s: "flush (eb_table b1) (cx_chan b) = Some (Ok (), s)"
      "feeds pend (map (table_of (he_prost H) (he_ext H) ocols) groups @ [eb_table b1]) s"
      using table_taken [OF groups(1) _ sound] table by auto
    have "push_output_row H vals b = Some (RUnit (Ok ()), b\<lparr>br_emit_buf := clear_buffer b1, cx_chan := s\<rparr>)"
      using ok b1(1) ocols True s(1) by (simp add: push_output_row_def push_eq_costed flush_def on_chan_def)
    moreover have "output_of ocols pend (out @ [vals]) (b\<lparr>br_emit_buf := clear_buffer b1, cx_chan := s\<rparr>)"
      unfolding output_of_def using groups s(2) table assms(2)
      by (intro conjI exI [of _ "groups @ [held @ [(vals, ?n)]]"] exI [of _ "[]"]) auto
    ultimately show ?thesis using stands by blast
  qed
qed

end

text \<open>An EMITS function may emit, a function of either shape may return, what row_fits the columns.\<close>

sublocale batch_feed \<subseteq> group: group_context "bridge_call H" "standing icols ocols oiter"
    "\<lambda>vals. oiter \<noteq> ExactlyOnce \<and> row_fits (he_ext H) ocols vals" "\<lambda>vals out. out @ [vals]"
    "\<lambda>v. row_fits (he_ext H) ocols [unwrap_or VNull v]" "\<lambda>v out. out @ [[unwrap_or VNull v]]"
  for icols ocols oiter
proof (unfold_locales, goal_cases)
  case (1 cur r rest out b)
  then show ?case using next_feeds [of icols ocols oiter cur "r # rest" out b] by (auto simp: bridge_call_def)
next
  case (2 cur out b)
  then show ?case using next_feeds [of icols ocols oiter cur "[]" out b] by (auto simp: bridge_call_def)
next
  case (3 r rest out b i)
  then have at_row: "nth_opt (irs_rows (br_input b)) (cur_row (br_input b)) = Some r" "irs_ok (br_input b)"
    by (auto simp: standing_def feeding_def split: if_splits)
  then have "cur_row (br_input b) < n_rows (br_input b)" "irs_rows (br_input b) ! cur_row (br_input b) = r"
    by (auto simp: nth_opt_def split: if_splits)
  then show ?case
    using 3 at_row current_row_ok [of "br_input b"] by (simp add: bridge_call_def bridge_get_def nth_opt_def)
next
  case (4 cur rest out b vals)
  then have "cx_output_iter b = oiter" by (auto simp: standing_def feeding_def)
  then show ?case
    using 4 row_taken [of icols ocols oiter cur rest out b vals] by (simp add: bridge_call_def bridge_emit_def)
next
  case (5 cur rest out b v)
  then show ?case
    using row_taken [of icols ocols oiter cur rest out b "[unwrap_or VNull v]"]
    by (simp add: bridge_call_def bridge_set_return_def)
qed

end
