(* ===== verification/Peer_Codec.thy ===== *)
theory Peer_Codec
  imports Frame
begin

text \<open>
  The other half of \<open>prost\<close>: what the peer of the runtime encodes and decodes. \<open>prost_peer\<close> is the
  parameter, \<open>peer_wire\<close> what the code relies on (a message is read back as it was written, its type
  first), and the rest of the theory a concrete protobuf codec that keeps it.
\<close>

section \<open>The peer's side of the codec\<close>

record prost_peer =
  encode_response :: "exascript_response \<Rightarrow> bytes"
  decode_request :: "bytes \<Rightarrow> (string, exascript_request) result"

text \<open>\<open>prost\<close> writes fields in the order of their numbers, so a request starts with its type; a
  negative enum value would take the varint's ten bytes. The responses the laws cover are the ones a
  streaming session needs.\<close>

locale peer_wire = prost_wire P for P :: prost +
  fixes Q :: prost_peer
  assumes request_read: "decode_request Q (request_to_vec P rq) = Ok rq"
    and response_read: "rs_import rs = None \<Longrightarrow> rs_call rs = None \<Longrightarrow>
      decode_response P (encode_response Q rs) = Ok rs"
    and type_first: "0 \<le> sint (rq_type rq) \<Longrightarrow> \<exists>rest. request_to_vec P rq =
      CHR 0x08 # encode_varint P (unat (rq_type rq)) @ rest"

section \<open>Fields\<close>

text \<open>A message as the list of its fields in the order they are written.\<close>

datatype pb_field = Varint nat | Delimited bytes

type_synonym pb_message = "(nat \<times> pb_field) list"

definition pb_write_field :: "nat \<times> pb_field \<Rightarrow> bytes" where
  "pb_write_field x = (case x of
      (tag, Varint n) \<Rightarrow> pb_uint64 tag n
    | (tag, Delimited s) \<Rightarrow> pb_bytes tag s)"

definition pb_write :: "pb_message \<Rightarrow> bytes" where
  "pb_write m = concat (map pb_write_field m)"

lemma pb_read_varint_shorter: "pb_read_varint b = Some (n, rest) \<Longrightarrow> length rest < length b"
  by (induction b arbitrary: n rule: pb_read_varint.induct) (fastforce split: if_splits)+

function pb_read :: "bytes \<Rightarrow> pb_message option" where
  "pb_read b = (if b = [] then Some []
     else case pb_read_varint b of
       None \<Rightarrow> None
     | Some (key, b) \<Rightarrow> (case pb_read_varint b of
         None \<Rightarrow> None
       | Some (n, b) \<Rightarrow>
           if key mod 8 = 0 then map_option ((#) (key div 8, Varint n)) (pb_read b)
           else if key mod 8 = LengthDelimited \<and> n \<le> length b
           then map_option ((#) (key div 8, Delimited (take n b))) (pb_read (drop n b))
           else None))"
  by auto
termination
  by (relation "measure length") (auto dest!: pb_read_varint_shorter)

declare pb_read.simps [simp del]

lemma pb_varint_ne [simp]: "pb_varint n \<noteq> []"
  by (subst pb_varint.simps) simp

lemma pb_read_field: "pb_read (pb_write_field f @ rest) = map_option ((#) f) (pb_read rest)"
proof -
  have "pb_read (pb_varint (tag * 8) @ pb_varint n @ rest) = map_option ((#) (tag, Varint n)) (pb_read rest)" for tag n
    by (subst pb_read.simps) (simp add: pb_read_varint)
  moreover have "pb_read (pb_varint (tag * 8 + 2) @ pb_varint (length s) @ s @ rest) =
      map_option ((#) (tag, Delimited s)) (pb_read rest)" for tag s
  proof -
    have "(tag * 8 + 2) mod 8 = 2" "(tag * 8 + 2) div 8 = tag" by presburger+
    then show ?thesis
      by (subst pb_read.simps) (simp add: pb_read_varint LengthDelimited_def del: add_2_eq_Suc')
  qed
  ultimately show ?thesis
    by (cases f; cases "snd f")
      (simp_all add: pb_write_field_def pb_uint64_def pb_bytes_def pb_key_def LengthDelimited_def)
qed

lemma pb_read_write: "pb_read (pb_write m) = Some m"
proof (induction m)
  case Nil
  show ?case by (simp add: pb_write_def pb_read.simps)
next
  case (Cons f m)
  then show ?case using pb_read_field [of f "pb_write m"] by (simp add: pb_write_def)
qed

section \<open>Reading fields\<close>

definition nats_of :: "nat \<Rightarrow> pb_message \<Rightarrow> nat list" where
  "nats_of tag m = List.map_filter (\<lambda>(t, x). case x of Varint n \<Rightarrow> if t = tag then Some n else None | _ \<Rightarrow> None) m"

definition blobs_of :: "nat \<Rightarrow> pb_message \<Rightarrow> bytes list" where
  "blobs_of tag m = List.map_filter (\<lambda>(t, x). case x of Delimited s \<Rightarrow> if t = tag then Some s else None | _ \<Rightarrow> None) m"

definition opt_last :: "'a list \<Rightarrow> 'a option" where
  "opt_last xs = (if xs = [] then None else Some (last xs))"

definition nat_field :: "nat \<Rightarrow> pb_message \<Rightarrow> nat" where
  "nat_field tag m = unwrap_or 0 (opt_last (nats_of tag m))"

definition blob_field :: "nat \<Rightarrow> pb_message \<Rightarrow> bytes option" where
  "blob_field tag m = opt_last (blobs_of tag m)"

lemma map_filter_append: "List.map_filter f (xs @ ys) = List.map_filter f xs @ List.map_filter f ys"
  by (simp add: List.map_filter_def)

lemma field_simps [simp]:
  "nats_of tag [] = []" "nats_of tag ((t, Varint n) # m) = (if t = tag then [n] else []) @ nats_of tag m"
  "nats_of tag ((t, Delimited s) # m) = nats_of tag m" "nats_of tag (m @ m') = nats_of tag m @ nats_of tag m'"
  "blobs_of tag [] = []" "blobs_of tag ((t, Delimited s) # m) = (if t = tag then [s] else []) @ blobs_of tag m"
  "blobs_of tag ((t, Varint n) # m) = blobs_of tag m" "blobs_of tag (m @ m') = blobs_of tag m @ blobs_of tag m'"
  by (simp_all add: nats_of_def blobs_of_def map_filter_simps map_filter_append)

lemma opt_last_simps [simp]: "opt_last [] = None" "opt_last [a] = Some a"
  by (simp_all add: opt_last_def)

text \<open>An optional field, a repeated one and a packed one.\<close>

definition opt_blob :: "nat \<Rightarrow> bytes option \<Rightarrow> pb_message" where
  "opt_blob tag x = (case x of None \<Rightarrow> [] | Some s \<Rightarrow> [(tag, Delimited s)])"

definition opt_nat :: "nat \<Rightarrow> nat option \<Rightarrow> pb_message" where
  "opt_nat tag x = (case x of None \<Rightarrow> [] | Some n \<Rightarrow> [(tag, Varint n)])"

definition packed_blob :: "('a \<Rightarrow> bytes) \<Rightarrow> nat \<Rightarrow> 'a list \<Rightarrow> pb_message" where
  "packed_blob enc tag xs = (if xs = [] then [] else [(tag, Delimited (concat (map enc xs)))])"

definition opt_list :: "'a option \<Rightarrow> 'a list" where
  "opt_list x = (case x of None \<Rightarrow> [] | Some a \<Rightarrow> [a])"

lemma opt_last_list [simp]: "opt_last (opt_list x) = x"
  by (cases x) (simp_all add: opt_list_def)

lemma opt_fields [simp]:
  "nats_of tag (opt_blob t x) = []" "blobs_of tag (opt_nat t n) = []"
  "blobs_of tag (opt_blob t x) = (if t = tag then opt_list x else [])"
  "nats_of tag (opt_nat t n) = (if t = tag then opt_list n else [])"
  "nats_of tag (packed_blob enc t xs) = []"
  "blobs_of tag (packed_blob enc t xs) = (if t = tag \<and> xs \<noteq> [] then [concat (map enc xs)] else [])"
  "nats_of tag (map (\<lambda>s. (t, Delimited (f s))) ss) = []"
  "blobs_of tag (map (\<lambda>s. (t, Delimited (f s))) ss) = (if t = tag then map f ss else [])"
  by (cases x; cases n; simp add: opt_blob_def opt_nat_def packed_blob_def opt_list_def)+
    (induction ss; simp)+

lemma pb_opt_map [simp]: "pb_opt f (map_option g x) = pb_opt (\<lambda>a. f (g a)) x"
  by (cases x) (simp_all add: pb_opt_def)

lemma pb_write_simps [simp]:
  "pb_write [] = []" "pb_write (m @ m') = pb_write m @ pb_write m'"
  "pb_write ((tag, Varint n) # m) = pb_uint64 tag n @ pb_write m"
  "pb_write ((tag, Delimited s) # m) = pb_bytes tag s @ pb_write m"
  by (simp_all add: pb_write_def pb_write_field_def)

lemma pb_write_opt:
  "pb_write (opt_blob tag (map_option f x)) = pb_opt (\<lambda>a. pb_bytes tag (f a)) x"
  "pb_write (opt_blob tag y) = pb_opt (pb_bytes tag) y"
  "pb_write (opt_nat tag z) = pb_opt (pb_uint64 tag) z"
  "pb_write (packed_blob enc tag xs) = pb_packed enc tag xs"
  "pb_write (map (\<lambda>s. (tag, Delimited (g s))) ss) = concat (map (\<lambda>s. pb_bytes tag (g s)) ss)"
  by (cases x; cases y; cases z; simp add: opt_blob_def opt_nat_def pb_opt_def packed_blob_def pb_packed_def)+
    (induction ss; simp)

text \<open>The elements of a packed block.\<close>

function read_varints :: "bytes \<Rightarrow> nat list option" where
  "read_varints b = (if b = [] then Some [] else case pb_read_varint b of
       None \<Rightarrow> None | Some (n, b) \<Rightarrow> map_option ((#) n) (read_varints b))"
  by auto
termination
  by (relation "measure length") (auto dest: pb_read_varint_shorter)

declare read_varints.simps [simp del]

lemma read_varints_Nil [simp]: "read_varints [] = Some []"
  by (simp add: read_varints.simps)

lemma read_varints_write: "read_varints (concat (map pb_varint ns)) = Some ns"
proof (induction ns)
  case (Cons n ns)
  then show ?case by (subst read_varints.simps) (simp add: pb_read_varint)
qed (simp add: read_varints.simps)

definition packed_field :: "(nat \<Rightarrow> 'a) \<Rightarrow> nat \<Rightarrow> pb_message \<Rightarrow> 'a list option" where
  "packed_field dec tag m = map_option (map dec) (read_varints (concat (blobs_of tag m)))"

fun read_double :: "bytes \<Rightarrow> nat" where
  "read_double [] = 0"
| "read_double (c # cs) = byte c + 256 * read_double cs"

function read_doubles :: "bytes \<Rightarrow> f64 list" where
  "read_doubles b = (if b = [] then [] else of_nat (read_double (take 8 b)) # read_doubles (drop 8 b))"
  by auto
termination by (relation "measure length") auto

declare read_doubles.simps [simp del]

lemma read_doubles_Nil [simp]: "read_doubles [] = []"
  by (simp add: read_doubles.simps)

lemma read_double_digits:
  "read_double (map (\<lambda>k. char_of (n div 256 ^ k mod 256)) [0 ..< m]) = n mod 256 ^ m"
proof (induction m arbitrary: n)
  case (Suc m)
  have "n mod 256 ^ Suc m = n mod 256 + 256 * (n div 256 mod 256 ^ m)"
    by (simp add: mod_mult2_eq)
  then show ?case
    using Suc [of "n div 256"] by (simp add: map_upt_Suc div_mult2_eq byte_def del: upt_Suc)
qed simp

lemma read_double_write: "(of_nat (read_double (pb_double f)) :: f64) = f"
proof -
  have "unat f < 256 ^ 8" using unsigned_less [of f] by simp
  then show ?thesis
    unfolding pb_double_def read_double_digits by simp
qed

lemma read_doubles_write: "read_doubles (concat (map pb_double fs)) = fs"
proof (induction fs)
  case (Cons f fs)
  have "length (pb_double f) = 8" by (simp add: pb_double_def)
  then show ?case
    using Cons read_double_write [of f] by (subst read_doubles.simps) auto
qed (simp add: read_doubles.simps)

section \<open>The messages\<close>

definition table_message :: "table_data \<Rightarrow> pb_message" where
  "table_message d = [(1, Varint (td_rows d))] @ map (\<lambda>s. (2, Delimited s)) (td_string d)
     @ packed_blob (\<lambda>b. [char_of (if b then 1 else 0 :: nat)]) 3 (td_nulls d)
     @ packed_blob (\<lambda>b. [char_of (if b then 1 else 0 :: nat)]) 4 (td_bool d)
     @ packed_blob (\<lambda>i. pb_varint (unat (scast i :: i64))) 5 (td_int32 d)
     @ packed_blob (\<lambda>i. pb_varint (unat i)) 6 (td_int64 d)
     @ packed_blob pb_double 7 (td_double d) @ [(8, Varint (td_rows_in_group d))]
     @ packed_blob pb_varint 9 (td_row_number d)"

definition read_table :: "bytes \<Rightarrow> table_data option" where
  "read_table b = Option.bind (pb_read b) (\<lambda>m.
     Option.bind (packed_field (\<lambda>n. n \<noteq> 0) 3 m) (\<lambda>ns. Option.bind (packed_field (\<lambda>n. n \<noteq> 0) 4 m) (\<lambda>bs.
     Option.bind (packed_field (\<lambda>n. ucast (of_nat n :: i64)) 5 m) (\<lambda>is.
     Option.bind (packed_field of_nat 6 m) (\<lambda>ls. Option.bind (packed_field id 9 m) (\<lambda>nums.
       Some \<lparr>td_rows = nat_field 1 m, td_rows_in_group = nat_field 8 m, td_string = blobs_of 2 m,
         td_nulls = ns, td_bool = bs, td_int32 = is, td_int64 = ls,
         td_double = read_doubles (concat (blobs_of 7 m)), td_row_number = nums\<rparr>))))))"

lemma table_message_bytes: "pb_write (table_message d) = pb_table d"
  by (simp add: table_message_def pb_table_def pb_write_opt pb_bools_def pb_int32s_def pb_int64s_def)

lemma read_bools: "map_option (map (\<lambda>n. n \<noteq> 0)) (read_varints (concat (map (\<lambda>b. [char_of (if b then 1 else 0 :: nat)]) bs))) =
    Some bs"
proof -
  have "[char_of (if b then 1 else 0 :: nat)] = pb_varint (if b then 1 else 0)" for b
    by (simp add: pb_varint.simps)
  then have "concat (map (\<lambda>b. [char_of (if b then 1 else 0 :: nat)]) bs) = concat (map pb_varint (map (\<lambda>b. if b then 1 else 0) bs))"
    by (simp add: comp_def)
  then show ?thesis by (simp only: read_varints_write) (simp add: comp_def)
qed

lemma narrow_wide [simp]: "ucast (scast i :: i64) = (i :: i32)"
proof (rule bit_word_eqI)
  fix n :: nat
  assume "n < LENGTH(32)"
  then have "min 31 n = n" by simp
  then show "bit (ucast (scast i :: i64) :: i32) n = bit i n"
    using \<open>n < LENGTH(32)\<close> by (simp add: bit_unsigned_iff bit_signed_iff)
qed

lemma read_words:
  "map_option (map (\<lambda>n. ucast (of_nat n :: i64))) (read_varints (concat (map (\<lambda>i. pb_varint (unat (scast i :: i64))) is))) =
     Some (is :: i32 list)"
  "map_option (map of_nat) (read_varints (concat (map (\<lambda>i. pb_varint (unat i)) ls))) = Some (ls :: i64 list)"
proof -
  show "map_option (map (\<lambda>n. ucast (of_nat n :: i64))) (read_varints (concat (map (\<lambda>i. pb_varint (unat (scast i :: i64))) is))) =
     Some (is :: i32 list)"
    using read_varints_write [of "map (\<lambda>i. unat (scast i :: i64)) is"] by (simp add: comp_def)
  show "map_option (map of_nat) (read_varints (concat (map (\<lambda>i. pb_varint (unat i)) ls))) = Some (ls :: i64 list)"
    using read_varints_write [of "map unat ls"] by (simp add: comp_def)
qed

lemma read_table_write: "read_table (pb_table d) = Some d"
proof -
  have pb: "pb_read (pb_table d) = Some (table_message d)"
    by (metis pb_read_write table_message_bytes)
  have "packed_field (\<lambda>n. n \<noteq> 0) 3 (table_message d) = Some (td_nulls d)"
    "packed_field (\<lambda>n. n \<noteq> 0) 4 (table_message d) = Some (td_bool d)"
    using read_bools [of "td_nulls d"] read_bools [of "td_bool d"]
    by (auto simp: packed_field_def table_message_def)
  moreover have "packed_field (\<lambda>n. ucast (of_nat n :: i64)) 5 (table_message d) = Some (td_int32 d)"
    "packed_field of_nat 6 (table_message d) = Some (td_int64 d)"
    using read_words(1) [of "td_int32 d"] read_words(2) [of "td_int64 d"]
    by (auto simp: packed_field_def table_message_def)
  moreover have "packed_field id 9 (table_message d) = Some (td_row_number d)"
    using read_varints_write [of "td_row_number d"]
    by (auto simp: packed_field_def table_message_def)
  moreover have "read_doubles (concat (blobs_of 7 (table_message d))) = td_double d"
    using read_doubles_write [of "td_double d"]
    by (auto simp: table_message_def)
  moreover have "nat_field 1 (table_message d) = td_rows d" "nat_field 8 (table_message d) = td_rows_in_group d"
    "blobs_of 2 (table_message d) = td_string d"
    by (simp_all add: table_message_def nat_field_def del: id_apply)
  ultimately show ?thesis unfolding read_table_def pb by simp
qed

text \<open>An optional submessage, read by its own reader.\<close>

definition sub_field :: "(bytes \<Rightarrow> 'a option) \<Rightarrow> nat \<Rightarrow> pb_message \<Rightarrow> 'a option option" where
  "sub_field dec tag m = (case blob_field tag m of None \<Rightarrow> Some None | Some b \<Rightarrow> map_option Some (dec b))"

definition text_field :: "nat \<Rightarrow> pb_message \<Rightarrow> string" where
  "text_field tag m = unwrap_or [] (blob_field tag m)"

definition i32_field :: "nat \<Rightarrow> pb_message \<Rightarrow> i32" where
  "i32_field tag m = ucast (of_nat (nat_field tag m) :: i64)"

definition wire_i32 :: "i32 \<Rightarrow> nat" where
  "wire_i32 i = unat (scast i :: i64)"

lemma wire_i32 [simp]: "ucast (of_nat (wire_i32 i) :: i64) = i"
proof -
  have "(of_nat (wire_i32 i) :: i64) = scast i" by (simp add: wire_i32_def)
  then show ?thesis by simp
qed

lemma wire_i32_bytes: "pb_uint64 tag (wire_i32 i) = pb_int32 tag i"
  by (simp add: pb_uint64_def pb_int32_def wire_i32_def)

lemma sub_field_write:
  assumes "blob_field tag m = map_option f x" "\<And>a. x = Some a \<Longrightarrow> dec (f a) = Some a"
  shows "sub_field dec tag m = Some x"
  using assms by (cases x) (simp_all add: sub_field_def)

definition client_message :: "exascript_client \<Rightarrow> pb_message" where
  "client_message c = (1, Delimited (ec_client_name c)) # opt_blob 2 (ec_meta_info c)"

definition info_message :: "exascript_info \<Rightarrow> pb_message" where
  "info_message i = [(1, Delimited (ei_database_name i)), (2, Delimited (ei_database_version i)),
     (3, Delimited (ei_script_name i)), (4, Delimited (ei_source_code i)), (5, Varint (ei_session_id i)),
     (6, Varint (ei_statement_id i)), (7, Varint (ei_node_count i)), (8, Varint (ei_node_id i)),
     (9, Varint (ei_vm_id i)), (11, Varint (ei_maximal_memory_limit i))] @ opt_blob 12 (ei_meta_info i) @
     [(13, Delimited (ei_script_schema i))] @ opt_blob 14 (ei_current_user i) @
     opt_blob 15 (ei_current_schema i) @ opt_blob 16 (ei_scope_user i)"

definition import_message :: "import_req \<Rightarrow> pb_message" where
  "import_message r = (1, Delimited (ir_script_name r)) # opt_nat 2 (map_option wire_i32 (ir_kind r))"

definition request_message :: "exascript_request \<Rightarrow> pb_message" where
  "request_message r = [(1, Varint (wire_i32 (rq_type r))), (2, Varint (rq_connection_id r))] @
     opt_blob 3 (map_option (pb_write \<circ> client_message) (rq_client r)) @
     opt_blob 4 (map_option (pb_write \<circ> info_message) (rq_info r)) @
     opt_blob 5 (map_option (pb_write \<circ> opt_blob 1) (rq_close r)) @
     opt_blob 6 (map_option (pb_write \<circ> import_message) (rq_import r)) @
     opt_blob 7 (map_option (\<lambda>d. pb_write [(2, Delimited (pb_write (table_message d)))]) (rq_emit r)) @
     opt_blob 8 (map_option (\<lambda>m. pb_write [(1, Delimited m)]) (rq_ping r)) @
     opt_blob 9 (map_option (\<lambda>m. pb_write [(1, Delimited m)]) (rq_call_result r)) @
     opt_blob 10 (map_option (\<lambda>m. pb_write [(1, Delimited m)]) (rq_undefined_call r))"

lemma request_message_bytes: "pb_write (request_message r) = pb_request r"
proof -
  have "pb_write (client_message c) = pb_client c" "pb_write (info_message i) = pb_info i" for c i
    by (simp_all add: client_message_def info_message_def pb_client_def pb_info_def pb_write_opt(2))
  moreover have "pb_write (import_message r) = pb_import r" for r
    by (cases "ir_kind r") (simp_all add: import_message_def pb_import_def pb_write_opt(3) pb_opt_def wire_i32_bytes)
  ultimately show ?thesis
    by (simp add: request_message_def pb_request_def pb_write_opt(1) pb_write_opt(2) wire_i32_bytes table_message_bytes)
qed

definition read_client :: "bytes \<Rightarrow> exascript_client option" where
  "read_client b = map_option (\<lambda>m. \<lparr>ec_client_name = text_field 1 m, ec_meta_info = blob_field 2 m\<rparr>) (pb_read b)"

definition read_info :: "bytes \<Rightarrow> exascript_info option" where
  "read_info b = map_option (\<lambda>m. \<lparr>ei_database_name = text_field 1 m, ei_database_version = text_field 2 m,
     ei_script_name = text_field 3 m, ei_source_code = text_field 4 m, ei_session_id = nat_field 5 m,
     ei_statement_id = nat_field 6 m, ei_node_count = nat_field 7 m, ei_node_id = nat_field 8 m,
     ei_vm_id = nat_field 9 m, ei_maximal_memory_limit = nat_field 11 m, ei_meta_info = blob_field 12 m,
     ei_script_schema = text_field 13 m, ei_current_user = blob_field 14 m,
     ei_current_schema = blob_field 15 m, ei_scope_user = blob_field 16 m\<rparr>) (pb_read b)"

definition read_import :: "bytes \<Rightarrow> import_req option" where
  "read_import b = map_option (\<lambda>m. \<lparr>ir_script_name = text_field 1 m,
     ir_kind = map_option (\<lambda>n. ucast (of_nat n :: i64)) (opt_last (nats_of 2 m))\<rparr>) (pb_read b)"

definition read_text :: "bytes \<Rightarrow> string option" where
  "read_text b = map_option (text_field 1) (pb_read b)"

definition read_next :: "bytes \<Rightarrow> table_data option" where
  "read_next b = Option.bind (pb_read b) (\<lambda>m. read_table (text_field 2 m))"

definition read_request :: "bytes \<Rightarrow> exascript_request option" where
  "read_request b = Option.bind (pb_read b) (\<lambda>m.
     Option.bind (sub_field read_client 3 m) (\<lambda>client. Option.bind (sub_field read_info 4 m) (\<lambda>info.
     Option.bind (sub_field (\<lambda>b. map_option (blob_field 1) (pb_read b)) 5 m) (\<lambda>close.
     Option.bind (sub_field read_import 6 m) (\<lambda>imp. Option.bind (sub_field read_next 7 m) (\<lambda>emit.
     Option.bind (sub_field read_text 8 m) (\<lambda>ping. Option.bind (sub_field read_text 9 m) (\<lambda>res.
     Option.bind (sub_field read_text 10 m) (\<lambda>und.
       Some \<lparr>rq_type = i32_field 1 m, rq_connection_id = nat_field 2 m, rq_client = client, rq_info = info,
         rq_close = close, rq_import = imp, rq_emit = emit, rq_ping = ping, rq_call_result = res,
         rq_undefined_call = und\<rparr>)))))))))"

lemmas read_defs = text_field_def nat_field_def blob_field_def i32_field_def

lemma read_parts:
  "read_client (pb_write (client_message c)) = Some c" "read_info (pb_write (info_message i)) = Some i"
  "read_text (pb_write [(1, Delimited t)]) = Some t"
  "read_next (pb_write [(2, Delimited (pb_write (table_message d)))]) = Some d"
  unfolding read_client_def read_info_def read_text_def read_next_def pb_read_write
  by (simp_all add: client_message_def info_message_def read_defs table_message_bytes read_table_write)

lemma read_import_write: "read_import (pb_write (import_message r)) = Some r"
  unfolding read_import_def pb_read_write
  by (cases "ir_kind r") (simp_all add: import_message_def read_defs)

lemma read_close_write: "map_option (blob_field 1) (pb_read (pb_write (opt_blob 1 m))) = Some m"
  unfolding pb_read_write by (simp add: blob_field_def)

lemma read_request_write: "read_request (pb_request r) = Some r"
proof -
  let ?m = "request_message r"
  have "pb_read (pb_request r) = Some ?m" by (metis pb_read_write request_message_bytes)
  moreover have "sub_field read_client 3 ?m = Some (rq_client r)"
    by (rule sub_field_write [where f = "pb_write \<circ> client_message"])
      (simp_all add: request_message_def blob_field_def read_parts)
  moreover have "sub_field read_info 4 ?m = Some (rq_info r)"
    by (rule sub_field_write [where f = "pb_write \<circ> info_message"])
      (simp_all add: request_message_def blob_field_def read_parts)
  moreover have "sub_field (\<lambda>b. map_option (blob_field 1) (pb_read b)) 5 ?m = Some (rq_close r)"
    by (rule sub_field_write [where f = "pb_write \<circ> opt_blob 1"])
      (simp add: request_message_def blob_field_def, simp only: comp_def read_close_write)
  moreover have "sub_field read_import 6 ?m = Some (rq_import r)"
    by (rule sub_field_write [where f = "pb_write \<circ> import_message"])
      (simp_all add: request_message_def blob_field_def read_import_write)
  moreover have "sub_field read_next 7 ?m = Some (rq_emit r)"
    by (rule sub_field_write [where f = "\<lambda>d. pb_write [(2, Delimited (pb_write (table_message d)))]"])
      (simp add: request_message_def blob_field_def, rule read_parts)
  moreover have "sub_field read_text 8 ?m = Some (rq_ping r)" "sub_field read_text 9 ?m = Some (rq_call_result r)"
    "sub_field read_text 10 ?m = Some (rq_undefined_call r)"
    by (rule sub_field_write [where f = "\<lambda>m. pb_write [(1, Delimited m)]"],
        simp add: request_message_def blob_field_def, rule read_parts)+
  ultimately show ?thesis
    by (simp add: read_request_def) (simp add: request_message_def read_defs)
qed

section \<open>Responses\<close>

definition column_message :: "column_definition \<Rightarrow> pb_message" where
  "column_message c = [(1, Delimited (cd_name c))] @ opt_nat 2 (map_option wire_i32 (cd_type c)) @
     [(3, Delimited (cd_type_name c))] @ opt_nat 4 (cd_size c) @ opt_nat 5 (cd_precision c) @ opt_nat 6 (cd_scale c)"

definition meta_message :: "exascript_metadata \<Rightarrow> pb_message" where
  "meta_message d = [(1, Varint (wire_i32 (em_input_iter_type d))), (2, Varint (wire_i32 (em_output_iter_type d)))] @
     map (\<lambda>c. (3, Delimited (pb_write (column_message c)))) (em_input_columns d) @
     map (\<lambda>c. (4, Delimited (pb_write (column_message c)))) (em_output_columns d) @
     [(5, Varint (if em_single_call_mode d then 1 else 0))]"

text \<open>The response of a streaming session; an import or a call response is not needed here.\<close>

definition response_message :: "exascript_response \<Rightarrow> pb_message" where
  "response_message r = [(1, Varint (wire_i32 (rs_type r))), (2, Varint (rs_connection_id r))] @
     opt_blob 3 (map_option (pb_write \<circ> client_message) (rs_client r)) @
     opt_blob 4 (map_option (pb_write \<circ> info_message) (rs_info r)) @
     opt_blob 5 (map_option (pb_write \<circ> meta_message) (rs_meta r)) @
     opt_blob 6 (map_option (pb_write \<circ> opt_blob 1) (rs_close r)) @
     opt_blob 8 (map_option (\<lambda>d. pb_write [(2, Delimited (pb_write (table_message d)))]) (rs_next r)) @
     opt_blob 9 (map_option (\<lambda>m. pb_write [(1, Delimited m)]) (rs_ping r))"

definition opt_nat_field :: "nat \<Rightarrow> pb_message \<Rightarrow> nat option" where
  "opt_nat_field tag m = opt_last (nats_of tag m)"

definition read_column :: "bytes \<Rightarrow> column_definition option" where
  "read_column b = map_option (\<lambda>m. \<lparr>cd_name = text_field 1 m,
     cd_type = map_option (\<lambda>n. ucast (of_nat n :: i64)) (opt_nat_field 2 m), cd_type_name = text_field 3 m,
     cd_size = opt_nat_field 4 m, cd_precision = opt_nat_field 5 m, cd_scale = opt_nat_field 6 m\<rparr>) (pb_read b)"

definition read_meta :: "bytes \<Rightarrow> exascript_metadata option" where
  "read_meta b = Option.bind (pb_read b) (\<lambda>m.
     Option.bind (all_some (map read_column (blobs_of 3 m))) (\<lambda>inputs.
     Option.bind (all_some (map read_column (blobs_of 4 m))) (\<lambda>outputs.
       Some \<lparr>em_input_iter_type = i32_field 1 m, em_output_iter_type = i32_field 2 m, em_input_columns = inputs,
         em_output_columns = outputs, em_single_call_mode = nat_field 5 m \<noteq> 0\<rparr>)))"

definition read_response :: "bytes \<Rightarrow> exascript_response option" where
  "read_response b = Option.bind (pb_read b) (\<lambda>m.
     Option.bind (sub_field read_client 3 m) (\<lambda>client. Option.bind (sub_field read_info 4 m) (\<lambda>info.
     Option.bind (sub_field read_meta 5 m) (\<lambda>metadata.
     Option.bind (sub_field (\<lambda>b. map_option (blob_field 1) (pb_read b)) 6 m) (\<lambda>close.
     Option.bind (sub_field read_next 8 m) (\<lambda>nxt. Option.bind (sub_field read_text 9 m) (\<lambda>ping.
       Some (response_default\<lparr>rs_type := i32_field 1 m, rs_connection_id := nat_field 2 m,
         rs_client := client, rs_info := info, rs_meta := metadata, rs_close := close, rs_next := nxt,
         rs_ping := ping\<rparr>))))))))"

lemma read_column_write: "read_column (pb_write (column_message c)) = Some c"
  unfolding read_column_def pb_read_write
  by (simp add: column_message_def read_defs opt_nat_field_def option.map_comp comp_def option.map_ident)

lemma read_columns_write: "all_some (map (read_column \<circ> (\<lambda>c. pb_write (column_message c))) cs) = Some cs"
  by (induction cs) (simp_all add: read_column_write)

lemma read_meta_write: "read_meta (pb_write (meta_message d)) = Some d"
  unfolding read_meta_def pb_read_write
  using read_columns_write [of "em_input_columns d"] read_columns_write [of "em_output_columns d"]
  by (simp add: meta_message_def read_defs)

lemma read_response_write:
  assumes "rs_import r = None" "rs_call r = None"
  shows "read_response (pb_write (response_message r)) = Some r"
proof -
  let ?m = "response_message r"
  have "sub_field read_client 3 ?m = Some (rs_client r)"
    by (rule sub_field_write [where f = "pb_write \<circ> client_message"])
      (simp_all add: response_message_def blob_field_def read_parts)
  moreover have "sub_field read_info 4 ?m = Some (rs_info r)"
    by (rule sub_field_write [where f = "pb_write \<circ> info_message"])
      (simp_all add: response_message_def blob_field_def read_parts)
  moreover have "sub_field read_meta 5 ?m = Some (rs_meta r)"
    by (rule sub_field_write [where f = "pb_write \<circ> meta_message"])
      (simp_all add: response_message_def blob_field_def read_meta_write)
  moreover have "sub_field (\<lambda>b. map_option (blob_field 1) (pb_read b)) 6 ?m = Some (rs_close r)"
    by (rule sub_field_write [where f = "pb_write \<circ> opt_blob 1"])
      (simp add: response_message_def blob_field_def, simp only: comp_def read_close_write)
  moreover have "sub_field read_next 8 ?m = Some (rs_next r)"
    by (rule sub_field_write [where f = "\<lambda>d. pb_write [(2, Delimited (pb_write (table_message d)))]"])
      (simp add: response_message_def blob_field_def, rule read_parts)
  moreover have "sub_field read_text 9 ?m = Some (rs_ping r)"
    by (rule sub_field_write [where f = "\<lambda>m. pb_write [(1, Delimited m)]"])
      (simp add: response_message_def blob_field_def, rule read_parts)
  ultimately show ?thesis
    using assms
    by (simp add: read_response_def pb_read_write) (simp add: response_message_def response_default_def read_defs)
qed

section \<open>The concrete codec\<close>

definition ok_or_malformed :: "'a option \<Rightarrow> (string, 'a) result" where
  "ok_or_malformed x = ok_or ''malformed message'' x"

definition full_protobuf :: prost where
  "full_protobuf = protobuf (\<lambda>b. ok_or_malformed (read_response b))"

definition protobuf_peer :: prost_peer where
  "protobuf_peer = \<lparr>encode_response = (\<lambda>r. pb_write (response_message r)),
     decode_request = (\<lambda>b. ok_or_malformed (read_request b))\<rparr>"

lemma unat_scast_nonneg:
  assumes "0 \<le> sint (i :: i32)"
  shows "unat (scast i :: i64) = unat i"
proof -
  have "sint i < 2 ^ 31" using sint_lt [of i] by simp
  then have small: "sint i mod 2 ^ 64 = sint i" "sint i mod 2 ^ 32 = sint i" using assms by simp_all
  have "uint (scast i :: i64) = sint i mod 2 ^ 64"
    unfolding scast_eq uint_word_of_int by simp
  moreover have "uint i = sint i mod 2 ^ 32" by (simp add: uint_sint take_bit_eq_mod)
  ultimately have "uint (scast i :: i64) = uint i" using small by simp
  then show ?thesis by (metis nat_uint_eq)
qed

interpretation full_protobuf: peer_wire full_protobuf protobuf_peer
proof (intro peer_wire.intro peer_wire_axioms.intro)
  show "prost_wire full_protobuf" by (simp add: full_protobuf_def protobuf_wire)
next
  fix rq :: exascript_request
  show "decode_request protobuf_peer (request_to_vec full_protobuf rq) = Ok rq"
    by (simp add: protobuf_peer_def full_protobuf_def protobuf_def ok_or_malformed_def read_request_write ok_or_def)
  assume "0 \<le> sint (rq_type rq)"
  then have "unat (scast (rq_type rq) :: i64) = unat (rq_type rq)" by (rule unat_scast_nonneg)
  moreover have "char_of (8 :: nat) = CHR 0x08" by code_simp
  ultimately show "\<exists>rest. request_to_vec full_protobuf rq = CHR 0x08 # encode_varint full_protobuf (unat (rq_type rq)) @ rest"
    by (simp add: full_protobuf_def protobuf_def pb_request_def pb_int32_def pb_key_def pb_varint.simps [of 8])
next
  fix rs :: exascript_response
  assume "rs_import rs = None" "rs_call rs = None"
  then show "decode_response full_protobuf (encode_response protobuf_peer rs) = Ok rs"
    by (simp add: protobuf_peer_def full_protobuf_def protobuf_def ok_or_malformed_def read_response_write ok_or_def)
qed

end
