(* ===== verification/Mock_Db.thy ===== *)
theory Mock_Db
  imports Peer_Codec Transport
begin

text \<open>
  The mock database of the repository (\<open>exa-mock-db\<close>): a \<open>REP\<close> peer that drives a client through
  a handshake, run cycles and the end of the session. A server is the sequence of its socket
  operations, each depending on the outcome of the ones before; it may serve for ever. A client
  meets it through the socket \<open>served\<close>, which keeps the contract of a \<open>REQ\<close> socket.
\<close>

section \<open>Servers\<close>

datatype mock_error =
    MockZmq zmq_error
  | MockDecode string
  | MockUnexpected string i32
  | MockClosed "string option"

definition show_mock_error :: "mock_error \<Rightarrow> string" where
  "show_mock_error err = (case err of
      MockZmq e \<Rightarrow> ''zmq: '' @ show_zmq_error e
    | MockDecode e \<Rightarrow> ''protobuf decode: '' @ e
    | MockUnexpected expected_mt got \<Rightarrow> ''expected '' @ expected_mt @ '', client sent message type '' @ show_int (sint got)
    | MockClosed msg \<Rightarrow> ''client closed the session: '' @ unwrap_or ''(no message)'' msg)"

codatatype 'a server =
    Ended "(mock_error, 'a) result"
  | Receive "(zmq_error, bytes) result \<Rightarrow> 'a server"
  | Transmit bytes "(zmq_error, unit) result \<Rightarrow> 'a server"

definition MOCK_CONN_ID :: nat where
  "MOCK_CONN_ID = 7"

definition reply :: "prost_peer \<Rightarrow> message_type \<Rightarrow> bytes" where
  "reply Q mt = encode_response Q (response_default\<lparr>rs_type := mt_i32 mt, rs_connection_id := MOCK_CONN_ID\<rparr>)"

text \<open>The type of an encoded request, read off its first field.\<close>

fun peek_varint :: "bytes \<Rightarrow> 64 word \<Rightarrow> nat \<Rightarrow> i32 option" where
  "peek_varint [] v shift = None"
| "peek_varint (b # bs) v shift =
     (let v = or v (push_bit shift (and (of_nat (byte b)) 0x7F)) in
      if byte b < 0x80 then (if uint v < 2 ^ 31 then Some (ucast v) else None)
      else let shift = shift + 7 in if 63 < shift then None else peek_varint bs v shift)"

definition peek_type :: "bytes \<Rightarrow> i32 option" where
  "peek_type bs = (case bs of
      [] \<Rightarrow> None
    | b # rest \<Rightarrow> if b \<noteq> CHR 0x08 then None else peek_varint rest 0 0)"

definition mock_decode :: "prost_peer \<Rightarrow> bytes \<Rightarrow> (mock_error, exascript_request) result" where
  "mock_decode Q bs = rbind (map_err MockDecode (decode_request Q bs)) (\<lambda>req.
     if rq_type req = mt_i32 MtClose then Err (MockClosed (Option.bind (rq_close req) id)) else Ok req)"

definition expect :: "exascript_request \<Rightarrow> message_type \<Rightarrow> string \<Rightarrow> (mock_error, unit) result" where
  "expect req mt name = (if rq_type req = mt_i32 mt then Ok () else Err (MockUnexpected name (rq_type req)))"

definition mock_recv :: "prost_peer \<Rightarrow> message_type \<Rightarrow> string \<Rightarrow> (exascript_request \<Rightarrow> 'a server) \<Rightarrow> 'a server" where
  "mock_recv Q mt name k = Receive (\<lambda>r.
     case rbind (map_err MockZmq r) (\<lambda>bs. rbind (mock_decode Q bs) (\<lambda>req. rbind (expect req mt name) (\<lambda>_. Ok req))) of
       Inl e \<Rightarrow> Ended (Err e)
     | Inr req \<Rightarrow> k req)"

definition mock_send :: "bytes \<Rightarrow> 'a server \<Rightarrow> 'a server" where
  "mock_send bs k = Transmit bs (\<lambda>r. case r of Inl e \<Rightarrow> Ended (Err (MockZmq e)) | Inr _ \<Rightarrow> k)"

definition mock_info :: "string \<Rightarrow> string \<Rightarrow> exascript_info" where
  "mock_info udf_object script_name = \<lparr>ei_database_name = ''mock'', ei_database_version = ''0'',
     ei_script_name = script_name, ei_source_code = ''%udf_object '' @ udf_object, ei_session_id = 0,
     ei_statement_id = 0, ei_node_count = 1, ei_node_id = 0, ei_vm_id = 0, ei_maximal_memory_limit = 0,
     ei_meta_info = None, ei_script_schema = ''BENCH'', ei_current_user = None, ei_current_schema = None,
     ei_scope_user = None\<rparr>"

definition mock_handshake :: "prost_peer \<Rightarrow> string \<Rightarrow> string \<Rightarrow> exascript_metadata \<Rightarrow> 'a server \<Rightarrow> 'a server" where
  "mock_handshake Q udf_object script_name metadata k =
     mock_recv Q MtClient ''MT_CLIENT'' (\<lambda>_.
     mock_send (encode_response Q (response_default\<lparr>rs_type := mt_i32 MtInfo, rs_connection_id := MOCK_CONN_ID,
       rs_info := Some (mock_info udf_object script_name)\<rparr>))
     (mock_recv Q MtMeta ''MT_META'' (\<lambda>_.
     mock_send (encode_response Q (response_default\<lparr>rs_type := mt_i32 MtMeta, rs_connection_id := MOCK_CONN_ID,
       rs_meta := Some metadata\<rparr>)) k)))"

section \<open>Run cycles\<close>

text \<open>The batches of a cycle and what becomes of its emits are the caller's.\<close>

type_synonym 'i input_source = "'i \<Rightarrow> bytes option \<times> 'i"

type_synonym 'k emit_sink = "nat \<Rightarrow> table_data \<Rightarrow> 'k \<Rightarrow> 'k"

text \<open>One message of the window: the answer and the state it leaves, or the end of the window.\<close>

definition cycle_turn :: "prost_peer \<Rightarrow> 'i input_source \<Rightarrow> 'i \<Rightarrow> bytes list \<Rightarrow> bytes \<Rightarrow>
    (mock_error, (bytes \<times> 'i \<times> bytes list) option) result" where
  "cycle_turn Q next_frame input emits bs =
     (case Option.bind (peek_type bs) message_type_try_from of
        Some MtNext \<Rightarrow> (case next_frame input of
            (Some frame, input) \<Rightarrow> Ok (Some (frame, input, emits))
          | (None, input) \<Rightarrow> Ok (Some (reply Q MtDone, input, emits)))
      | Some MtEmit \<Rightarrow> Ok (Some (reply Q MtEmit, input, emits @ [bs]))
      | Some MtDone \<Rightarrow> Ok None
      | _ \<Rightarrow> rbind (mock_decode Q bs) (\<lambda>req. Err (MockUnexpected ''MT_NEXT, MT_EMIT or MT_DONE'' (rq_type req))))"

definition goes_on :: "('e, 'a option) result \<Rightarrow> 'a option" where
  "goes_on m = (case m of Inr (Some a) \<Rightarrow> Some a | _ \<Rightarrow> None)"

definition window_end :: "('e, 'a option) result \<Rightarrow> ('e, unit) result" where
  "window_end m = (case m of Inl e \<Rightarrow> Err e | Inr _ \<Rightarrow> Ok ())"

primcorec cycle_loop :: "prost_peer \<Rightarrow> 'i input_source \<Rightarrow> ('i \<Rightarrow> bytes list \<Rightarrow> (mock_error, unit) result \<Rightarrow> 'a server) \<Rightarrow>
    'i \<Rightarrow> bytes list \<Rightarrow> bytes option \<Rightarrow> 'a server" where
  "cycle_loop Q next_frame k input emits out = (case out of
      Some bs \<Rightarrow> Transmit bs (\<lambda>r. if is_ok r then cycle_loop Q next_frame k input emits None
        else k input emits (map_err MockZmq r))
    | None \<Rightarrow> Receive (\<lambda>r.
        let m = rbind (map_err MockZmq r) (cycle_turn Q next_frame input emits)
        in if goes_on m = None then k input emits (window_end m)
           else cycle_loop Q next_frame k (fst (snd (the (goes_on m)))) (snd (snd (the (goes_on m))))
             (Some (fst (the (goes_on m))))))"

fun observe_emits :: "prost_peer \<Rightarrow> 'k emit_sink \<Rightarrow> bytes list \<Rightarrow> 'k \<Rightarrow> (mock_error, 'k) result" where
  "observe_emits Q observe [] sink = Ok sink"
| "observe_emits Q observe (frame # frames) sink =
     rbind (map_err MockDecode (decode_request Q frame)) (\<lambda>req.
       observe_emits Q observe frames (case rq_emit req of
           Some table \<Rightarrow> observe (length frame) table sink
         | None \<Rightarrow> sink))"

text \<open>The emits are looked at when the window has closed; its elapsed time is not modelled.\<close>

definition cycle_end :: "prost_peer \<Rightarrow> 'k emit_sink \<Rightarrow> 'k \<Rightarrow> ('k \<Rightarrow> 'a server) \<Rightarrow> 'i \<Rightarrow> bytes list \<Rightarrow>
    (mock_error, unit) result \<Rightarrow> 'a server" where
  "cycle_end Q observe sink k input emits left =
     (case rbind left (\<lambda>_. observe_emits Q observe emits sink) of
        Inl e \<Rightarrow> Ended (Err e)
      | Inr sink \<Rightarrow> mock_send (reply Q MtDone) (k sink))"

definition run_cycle :: "prost_peer \<Rightarrow> 'i input_source \<Rightarrow> 'k emit_sink \<Rightarrow> 'i \<Rightarrow> 'k \<Rightarrow> ('k \<Rightarrow> 'a server) \<Rightarrow> 'a server" where
  "run_cycle Q next_frame observe input sink k =
     mock_recv Q MtRun ''MT_RUN'' (\<lambda>_. mock_send (reply Q MtRun)
       (cycle_loop Q next_frame (cycle_end Q observe sink k) input [] None))"

definition mock_finish :: "prost_peer \<Rightarrow> 'a \<Rightarrow> 'a server" where
  "mock_finish Q a =
     mock_recv Q MtRun ''MT_RUN'' (\<lambda>_. mock_send (reply Q MtCleanup)
       (mock_recv Q MtFinished ''MT_FINISHED'' (\<lambda>_. mock_send (reply Q MtFinished) (Ended (Ok a)))))"

section \<open>Frames and sinks\<close>

record frame_cursor =
  fc_frames :: "bytes list"
  fc_pos :: nat

definition frame_cursor_new :: "bytes list \<Rightarrow> frame_cursor" where
  "frame_cursor_new frames = \<lparr>fc_frames = frames, fc_pos = 0\<rparr>"

definition next_frame :: "frame_cursor input_source" where
  "next_frame c = (case nth_opt (fc_frames c) (fc_pos c) of
      None \<Rightarrow> (None, c)
    | Some f \<Rightarrow> (Some f, c\<lparr>fc_pos := fc_pos c + 1\<rparr>))"

definition EMIT_LIMIT_BYTES :: nat where
  "EMIT_LIMIT_BYTES = 4000000"

record emit_counters =
  ct_messages :: nat
  ct_rows :: nat
  ct_bytes :: nat
  ct_max_bytes :: nat
  ct_over_limit :: nat
  ct_with_row_number :: nat

definition counters_default :: emit_counters where
  "counters_default = \<lparr>ct_messages = 0, ct_rows = 0, ct_bytes = 0, ct_max_bytes = 0, ct_over_limit = 0,
     ct_with_row_number = 0\<rparr>"

definition mean_bytes :: "('d, 't) ext \<Rightarrow> emit_counters \<Rightarrow> f64" where
  "mean_bytes E c = (if ct_messages c = 0 then 0
     else f64_div E (f64_of_int E (int (ct_bytes c))) (f64_of_int E (int (ct_messages c))))"

definition observe_counters :: "emit_counters emit_sink" where
  "observe_counters frame_len table c = c\<lparr>ct_messages := ct_messages c + 1, ct_rows := ct_rows c + td_rows table,
     ct_bytes := ct_bytes c + frame_len, ct_max_bytes := max (ct_max_bytes c) frame_len,
     ct_over_limit := ct_over_limit c + (if EMIT_LIMIT_BYTES < frame_len then 1 else 0),
     ct_with_row_number := ct_with_row_number c +
       (if length (td_row_number table) = td_rows table \<and> 0 < td_rows table then 1 else 0)\<rparr>"

definition observe_collector :: "table_data list emit_sink" where
  "observe_collector frame_len table tables = tables @ [table]"

definition int64_cells :: "table_data list \<Rightarrow> i64 list" where
  "int64_cells tables = concat (map td_int64 tables)"

definition collector_rows :: "table_data list \<Rightarrow> nat" where
  "collector_rows tables = sum_list (map td_rows tables)"

end
