(* ===== verification/Mock_Payload.thy ===== *)
theory Mock_Payload
  imports Mock_Db Meta
begin

text \<open>
  The input of the mock database (\<open>exa-mock-db/src/payload.rs\<close>, \<open>benches/bench-schema\<close>): column
  classes, the cells of their rows, and the cutting of rows into run cycles and of a cycle into
  \<open>MT_NEXT\<close> frames. Chrono's sums and the float operations are parameters. The asserts
  of a wrong arity or an empty cycle count are left out, and the integer sums are unbounded.
\<close>

section \<open>Columns\<close>

definition mock_column :: "string \<Rightarrow> nat \<Rightarrow> string \<Rightarrow> column_definition" where
  "mock_column name ty type_name = \<lparr>cd_name = name, cd_type = Some (of_nat ty), cd_type_name = type_name,
     cd_size = None, cd_precision = None, cd_scale = None\<rparr>"

definition int64_col :: "string \<Rightarrow> column_definition" where
  "int64_col name = (mock_column name 3 ''DECIMAL(18,0)'')\<lparr>cd_precision := Some 18, cd_scale := Some 0\<rparr>"

definition double_col :: "string \<Rightarrow> column_definition" where
  "double_col name = mock_column name 1 ''DOUBLE''"

definition numeric_col :: "string \<Rightarrow> nat \<Rightarrow> nat \<Rightarrow> column_definition" where
  "numeric_col name precision scale =
     (mock_column name 4 (''DECIMAL('' @ show_nat precision @ '','' @ show_nat scale @ '')''))
       \<lparr>cd_precision := Some precision, cd_scale := Some scale\<rparr>"

definition varchar_col :: "string \<Rightarrow> nat \<Rightarrow> column_definition" where
  "varchar_col name width = (mock_column name 7 (''VARCHAR('' @ show_nat width @ '') UTF8''))\<lparr>cd_size := Some width\<rparr>"

text \<open>The wide class: name, SQL type and whether the column is nullable.\<close>

definition WIDE_COLUMNS :: "(string \<times> string \<times> bool) list" where
  "WIDE_COLUMNS = [
     (''k'', ''DECIMAL(18,0)'', False), (''i1'', ''DECIMAL(18,0)'', True), (''i2'', ''DECIMAL(18,0)'', False),
     (''d1'', ''DOUBLE'', True), (''d2'', ''DOUBLE'', False), (''d3'', ''DOUBLE'', True),
     (''b1'', ''BOOLEAN'', False), (''b2'', ''BOOLEAN'', True),
     (''amt1'', ''DECIMAL(18,2)'', False), (''amt2'', ''DECIMAL(18,2)'', True),
     (''big1'', ''DECIMAL(36,10)'', False), (''big2'', ''DECIMAL(36,10)'', True),
     (''dt1'', ''DATE'', False), (''dt2'', ''DATE'', True),
     (''ts1'', ''TIMESTAMP'', False), (''ts2'', ''TIMESTAMP'', True),
     (''s8'', ''VARCHAR(8)'', False), (''s16'', ''VARCHAR(16)'', True),
     (''s32a'', ''VARCHAR(32)'', False), (''s32b'', ''VARCHAR(32)'', True),
     (''s64a'', ''VARCHAR(64)'', False), (''s64b'', ''VARCHAR(64)'', True),
     (''s128'', ''VARCHAR(128)'', False), (''s200'', ''VARCHAR(200)'', True)]"

definition wide_ddl :: string where
  "wide_ddl = concat (map (\<lambda>i. (if i = 0 then [] else '', '') @ fst (WIDE_COLUMNS ! i) @ '' '' @
     fst (snd (WIDE_COLUMNS ! i))) [0 ..< length WIDE_COLUMNS])"

definition varchar_size :: "string \<Rightarrow> nat option" where
  "varchar_size ty = Option.bind (strip_prefix ty ''VARCHAR('') (\<lambda>s.
     if s \<noteq> [] \<and> last s = CHR '')'' then parse_u32 (butlast s) else None)"

definition wide_column :: "string \<times> string \<times> bool \<Rightarrow> column_definition" where
  "wide_column x = (case x of (name, ty, _) \<Rightarrow>
     if ty = ''DECIMAL(18,0)'' then int64_col name
     else if ty = ''DOUBLE'' then double_col name
     else if ty = ''BOOLEAN'' then mock_column name 8 ''BOOLEAN''
     else if ty = ''DECIMAL(18,2)'' then numeric_col name 18 2
     else if ty = ''DECIMAL(36,10)'' then numeric_col name 36 10
     else if ty = ''DATE'' then mock_column name 6 ''DATE''
     else if ty = ''TIMESTAMP'' then mock_column name 5 ''TIMESTAMP''
     else varchar_col name (unwrap_or 0 (varchar_size ty)))"

definition wide_columns :: "column_definition list" where
  "wide_columns = map wide_column WIDE_COLUMNS"

definition pb_iter_i32 :: "pb_iter_type \<Rightarrow> i32" where
  "pb_iter_i32 it = (case it of PbExactlyOnce \<Rightarrow> 1 | PbMultiple \<Rightarrow> 2)"

definition mock_metadata :: "pb_iter_type \<Rightarrow> pb_iter_type \<Rightarrow> column_definition list \<Rightarrow> column_definition list \<Rightarrow>
    exascript_metadata" where
  "mock_metadata input_iter output_iter input_columns output_columns =
     \<lparr>em_input_iter_type = pb_iter_i32 input_iter, em_output_iter_type = pb_iter_i32 output_iter,
      em_input_columns = input_columns, em_output_columns = output_columns, em_single_call_mode = False\<rparr>"

section \<open>Cells\<close>

text \<open>The sums of chrono and the float products the generators use.\<close>

record ('d, 't) payload_env =
  pe_ext :: "('d, 't) ext"
  pe_add_days :: "'d \<Rightarrow> int \<Rightarrow> 'd"
  pe_add_micros :: "'t \<Rightarrow> int \<Rightarrow> 't"
  pe_mul :: "f64 \<Rightarrow> f64 \<Rightarrow> f64"
  pe_neg :: "f64 \<Rightarrow> f64"

definition FIXED_CELL_BYTES :: nat where
  "FIXED_CELL_BYTES = 8"

definition push_int64 :: "i64 \<Rightarrow> table_data \<Rightarrow> nat \<times> table_data" where
  "push_int64 v t = (FIXED_CELL_BYTES, t\<lparr>td_int64 := td_int64 t @ [v], td_nulls := td_nulls t @ [False]\<rparr>)"

definition push_double :: "f64 \<Rightarrow> table_data \<Rightarrow> nat \<times> table_data" where
  "push_double v t = (FIXED_CELL_BYTES, t\<lparr>td_double := td_double t @ [v], td_nulls := td_nulls t @ [False]\<rparr>)"

definition mock_push_string :: "string \<Rightarrow> table_data \<Rightarrow> nat \<times> table_data" where
  "mock_push_string s t = (length s, t\<lparr>td_string := td_string t @ [s], td_nulls := td_nulls t @ [False]\<rparr>)"

definition push_bool :: "bool \<Rightarrow> table_data \<Rightarrow> nat \<times> table_data" where
  "push_bool v t = (1, t\<lparr>td_bool := td_bool t @ [v], td_nulls := td_nulls t @ [False]\<rparr>)"

definition push_null :: "table_data \<Rightarrow> nat \<times> table_data" where
  "push_null t = (0, t\<lparr>td_nulls := td_nulls t @ [True]\<rparr>)"

text \<open>Cells pushed in turn; their costs add up.\<close>

fun push_all :: "(table_data \<Rightarrow> nat \<times> table_data) list \<Rightarrow> table_data \<Rightarrow> nat \<times> table_data" where
  "push_all [] t = (0, t)"
| "push_all (f # fs) t = (let (a, t) = f t; (b, t) = push_all fs t in (a + b, t))"

definition amount_text :: "nat \<Rightarrow> string" where
  "amount_text i = (let unscaled = i * 137 + 4200 in
     show_nat (unscaled div 100) @ ''.'' @ pad_left (CHR ''0'') 2 (show_nat (unscaled mod 100)))"

definition big_text :: "nat \<Rightarrow> string" where
  "big_text i = (let unscaled = i * 12345678901 + 987654321 in
     show_nat (unscaled div 10000000000) @ ''.'' @ pad_left (CHR ''0'') 10 (show_nat (unscaled mod 10000000000)))"

definition base_date :: "('d, 't) payload_env \<Rightarrow> 'd" where
  "base_date X = unwrap_or (d_default (pe_ext X)) (from_ymd_opt (pe_ext X) 2020 1 1)"

definition date_text :: "('d, 't) payload_env \<Rightarrow> nat \<Rightarrow> string" where
  "date_text X i = date_format (pe_ext X) (pe_add_days X (base_date X) (int (i mod 3650))) ''%Y-%m-%d''"

definition timestamp_text :: "('d, 't) payload_env \<Rightarrow> nat \<Rightarrow> string" where
  "timestamp_text X i =
     (let midnight = unwrap_or (t_default (pe_ext X)) (and_hms_nano_opt (pe_ext X) (base_date X) 0 0 0 0)
      in datetime_format (pe_ext X) (pe_add_micros X (pe_add_micros X midnight (int i * 1000000))
           (int (i * 137 mod 1000000))) ''%Y-%m-%d %H:%M:%S.%6f'')"

definition WIDE_TEXT :: string where
  "WIDE_TEXT = ''the quick brown fox jumps over the lazy dog while forty-two '' @
     ''benchmark rows stream through a script language container, each carrying a '' @
     ''reference to a file whose contents are emitted as wide rows with dozens of '' @
     ''columns of mixed types and a sprinkling of nulls''"

definition wide_text :: "nat \<Rightarrow> nat \<Rightarrow> string" where
  "wide_text i col = (let width = unwrap_or 0 (varchar_size (fst (snd (WIDE_COLUMNS ! col))));
     len = 1 + (i * 31 + col * 7) mod width;
     start = (i * 13 + col) mod (length WIDE_TEXT - len)
     in slice start (start + len) WIDE_TEXT)"

definition wide_is_null :: "nat \<Rightarrow> nat \<Rightarrow> bool" where
  "wide_is_null i col \<longleftrightarrow> snd (snd (WIDE_COLUMNS ! col)) \<and> (i + col) mod 10 = 0"

definition f64_of :: "('d, 't) payload_env \<Rightarrow> i64 \<Rightarrow> f64" where
  "f64_of X k = f64_of_int (pe_ext X) (sint k)"

text \<open>The float literals are their bit patterns: 1.5, 3.0 and 0.25.\<close>

definition wide_cell :: "('d, 't) payload_env \<Rightarrow> nat \<Rightarrow> nat \<Rightarrow> table_data \<Rightarrow> nat \<times> table_data" where
  "wide_cell X i col = (let k = (of_nat i :: i64); f = f64_of X k in
     if wide_is_null i col then push_null
     else if col = 0 then push_int64 k
     else if col = 1 then push_int64 (k * 7)
     else if col = 2 then push_int64 (word_of_int (if 0 \<le> sint k then sint k mod 1000 else - (- sint k mod 1000)))
     else if col = 3 then push_double (pe_mul X f 0x3FF8000000000000)
     else if col = 4 then push_double (f64_div (pe_ext X) f 0x4008000000000000)
     else if col = 5 then push_double (pe_mul X (pe_neg X f) 0x3FD0000000000000)
     else if col = 6 then push_bool (i mod 2 = 0)
     else if col = 7 then push_bool (i mod 3 = 0)
     else if col = 8 then mock_push_string (amount_text i)
     else if col = 9 then mock_push_string (amount_text (i + 1))
     else if col = 10 then mock_push_string (big_text i)
     else if col = 11 then mock_push_string (big_text (i + 1))
     else if col = 12 then mock_push_string (date_text X i)
     else if col = 13 then mock_push_string (date_text X (i + 1))
     else if col = 14 then mock_push_string (timestamp_text X i)
     else if col = 15 then mock_push_string (timestamp_text X (i + 1))
     else mock_push_string (wide_text i col))"

section \<open>Row sources\<close>

record row_source =
  src_columns :: "column_definition list"
  src_write_row :: "nat \<Rightarrow> table_data \<Rightarrow> nat \<times> table_data"

datatype column_class = Native | Strblock | Varchar | Wide

definition class_name :: "column_class \<Rightarrow> string" where
  "class_name c = (case c of Native \<Rightarrow> ''native'' | Strblock \<Rightarrow> ''strblock'' | Varchar \<Rightarrow> ''varchar'' | Wide \<Rightarrow> ''wide'')"

definition class_columns :: "column_class \<Rightarrow> column_definition list" where
  "class_columns c = (case c of
      Native \<Rightarrow> [int64_col ''k'', double_col ''v'']
    | Strblock \<Rightarrow> [int64_col ''k'', numeric_col ''amount'' 18 2, mock_column ''d'' 6 ''DATE'',
        mock_column ''ts'' 5 ''TIMESTAMP'']
    | Varchar \<Rightarrow> [int64_col ''k'', varchar_col ''label'' 100]
    | Wide \<Rightarrow> wide_columns)"

definition class_write_row :: "('d, 't) payload_env \<Rightarrow> column_class \<Rightarrow> nat \<Rightarrow> table_data \<Rightarrow> nat \<times> table_data" where
  "class_write_row X c i = (let k = (of_nat i :: i64) in case c of
      Native \<Rightarrow> push_all [push_int64 k, push_double (pe_mul X (f64_of X k) 0x3FF8000000000000)]
    | Strblock \<Rightarrow> push_all [push_int64 k, mock_push_string (amount_text i), mock_push_string (date_text X i),
        mock_push_string (timestamp_text X i)]
    | Varchar \<Rightarrow> push_all [push_int64 k, mock_push_string (pad_left (CHR ''0'') 50 (show_nat i))]
    | Wide \<Rightarrow> push_all (map (wide_cell X i) [0 ..< length WIDE_COLUMNS]))"

definition class_source :: "('d, 't) payload_env \<Rightarrow> column_class \<Rightarrow> row_source" where
  "class_source X c = \<lparr>src_columns = class_columns c, src_write_row = class_write_row X c\<rparr>"

text \<open>A fill of another arity than the names would panic; the sources of the repository's tests and
  benches fill every column.\<close>

definition int64_columns :: "string list \<Rightarrow> (nat \<Rightarrow> i64 list) \<Rightarrow> row_source" where
  "int64_columns names fill = \<lparr>src_columns = map int64_col names,
     src_write_row = (\<lambda>i. push_all (map push_int64 (fill i)))\<rparr>"

section \<open>Cycles and frames\<close>

definition table_default :: table_data where
  "table_default = \<lparr>td_rows = 0, td_rows_in_group = 0, td_string = [], td_nulls = [], td_bool = [],
     td_int32 = [], td_int64 = [], td_double = [], td_row_number = []\<rparr>"

definition mock_frame :: "prost_peer \<Rightarrow> table_data \<Rightarrow> bytes" where
  "mock_frame Q table = encode_response Q (response_default\<lparr>rs_type := mt_i32 MtNext,
     rs_connection_id := MOCK_CONN_ID, rs_next := Some table\<rparr>)"

text \<open>The rows of a cycle: the frames so far, the table being filled, its bytes, the row number.\<close>

record filling =
  fl_frames :: "table_data list"
  fl_table :: table_data
  fl_bytes :: nat
  fl_row_number :: nat

definition fill_row :: "row_source \<Rightarrow> nat \<Rightarrow> filling \<Rightarrow> filling" where
  "fill_row src i s = (case src_write_row src i (fl_table s) of (cost, table) \<Rightarrow>
     let bytes = fl_bytes s + cost;
         table = table\<lparr>td_rows := td_rows table + 1, td_row_number := td_row_number table @ [fl_row_number s]\<rparr>;
         s = s\<lparr>fl_row_number := fl_row_number s + 1\<rparr>
     in if EMIT_LIMIT_BYTES < bytes
        then s\<lparr>fl_frames := fl_frames s @ [table], fl_table := table_default, fl_bytes := 0\<rparr>
        else s\<lparr>fl_table := table, fl_bytes := bytes\<rparr>)"

definition cycle_tables :: "row_source \<Rightarrow> nat list \<Rightarrow> nat \<Rightarrow> table_data list \<times> nat" where
  "cycle_tables src rows_of_cycle row_number =
     (let s = fold (fill_row src) rows_of_cycle \<lparr>fl_frames = [], fl_table = table_default, fl_bytes = 0,
            fl_row_number = row_number\<rparr>
      in (if 0 < td_rows (fl_table s) then fl_frames s @ [fl_table s] else fl_frames s, fl_row_number s))"

fun encode_cycles :: "row_source \<Rightarrow> nat list list \<Rightarrow> nat \<Rightarrow> table_data list list" where
  "encode_cycles src [] row_number = []"
| "encode_cycles src (c # cs) row_number = (case cycle_tables src c row_number of
      (tables, row_number) \<Rightarrow> tables # encode_cycles src cs row_number)"

definition cycle_rows :: "nat \<Rightarrow> nat \<Rightarrow> nat \<Rightarrow> nat list" where
  "cycle_rows n cycles c = [n * c div cycles ..< n * (c + 1) div cycles]"

definition encode :: "prost_peer \<Rightarrow> row_source \<Rightarrow> nat \<Rightarrow> nat \<Rightarrow> bytes list list" where
  "encode Q src n cycles = map (map (mock_frame Q)) (encode_cycles src (map (cycle_rows n cycles) [0 ..< cycles]) 0)"

section \<open>Every row once\<close>

lemma push_int64s:
  "push_all (map push_int64 vs) t = (8 * length vs, t\<lparr>td_int64 := td_int64 t @ vs,
     td_nulls := td_nulls t @ replicate (length vs) False\<rparr>)"
  by (induction vs arbitrary: t) (simp_all add: push_int64_def FIXED_CELL_BYTES_def)

text \<open>What a filling holds: tables of one row number each row, which carry the rows so far.\<close>

definition table_sound :: "table_data \<Rightarrow> bool" where
  "table_sound t \<longleftrightarrow> length (td_row_number t) = td_rows t"

definition filled :: "nat list \<Rightarrow> (nat \<Rightarrow> i64 list) \<Rightarrow> nat list \<Rightarrow> filling \<Rightarrow> bool" where
  "filled numbers fill rs s \<longleftrightarrow> (let ts = fl_frames s @ [fl_table s] in
     concat (map td_int64 ts) = concat (map fill rs) \<and> concat (map td_row_number ts) = numbers \<and>
     list_all table_sound ts \<and> list_all (\<lambda>t. 0 < td_rows t) (fl_frames s) \<and>
     (td_rows (fl_table s) = 0 \<longrightarrow> td_int64 (fl_table s) = []))"

lemma fill_row_filled:
  assumes "filled numbers fill rs s"
  shows "filled (numbers @ [fl_row_number s]) fill (rs @ [i]) (fill_row (int64_columns names fill) i s) \<and>
    fl_row_number (fill_row (int64_columns names fill) i s) = fl_row_number s + 1"
  using assms
  by (auto simp: filled_def fill_row_def int64_columns_def push_int64s Let_def table_sound_def table_default_def)

lemma fold_filled:
  assumes "filled numbers fill rs s"
  shows "filled (numbers @ [fl_row_number s ..< fl_row_number s + length new]) fill (rs @ new)
      (fold (fill_row (int64_columns names fill)) new s) \<and>
    fl_row_number (fold (fill_row (int64_columns names fill)) new s) = fl_row_number s + length new"
  using assms
proof (induction new arbitrary: numbers rs s)
  case (Cons i new)
  note step = fill_row_filled [OF Cons.prems, of i names]
  have "[fl_row_number s ..< fl_row_number s + length (i # new)] =
      fl_row_number s # [Suc (fl_row_number s) ..< Suc (fl_row_number s) + length new]"
    by (subst upt_conv_Cons) simp_all
  then show ?case using Cons.IH [OF conjunct1 [OF step]] step by simp
qed simp

lemma cycle_tables_cover:
  assumes "cycle_tables (int64_columns names fill) rs n = (ts, n')"
  shows "n' = n + length rs \<and> concat (map td_int64 ts) = concat (map fill rs) \<and>
    concat (map td_row_number ts) = [n ..< n'] \<and> list_all (\<lambda>t. table_sound t \<and> 0 < td_rows t) ts"
proof -
  let ?s = "\<lparr>fl_frames = [], fl_table = table_default, fl_bytes = 0, fl_row_number = n\<rparr>"
  let ?e = "fold (fill_row (int64_columns names fill)) rs ?s"
  have "filled [] fill [] ?s" by (simp add: filled_def table_default_def table_sound_def)
  from fold_filled [OF this, of rs names]
  have held: "filled [n ..< n + length rs] fill rs ?e" "fl_row_number ?e = n + length rs" by simp_all
  have empty: "td_int64 (fl_table ?e) = []" "td_row_number (fl_table ?e) = []" if "td_rows (fl_table ?e) = 0"
    using held(1) that by (auto simp: filled_def table_sound_def Let_def)
  show ?thesis
    using assms held empty
    by (cases "td_rows (fl_table ?e) = 0") (auto simp: cycle_tables_def filled_def Let_def list_all_iff)
qed

lemma cycles_partition: "concat (map (cycle_rows n cycles) [0 ..< m]) = [0 ..< n * m div cycles]"
proof (induction m)
  case (Suc m)
  have "n * m div cycles \<le> n * Suc m div cycles" by (intro div_le_mono) simp
  then have "[0 ..< n * m div cycles] @ [n * m div cycles ..< n * Suc m div cycles] = [0 ..< n * Suc m div cycles]"
    by (metis le_add_diff_inverse upt_add_eq_append zero_le)
  then show ?case using Suc by (simp add: cycle_rows_def)
qed simp

lemma encode_cycles_cover:
  "int64_cells (concat (encode_cycles (int64_columns names fill) css n)) = concat (map fill (concat css)) \<and>
   concat (map td_row_number (concat (encode_cycles (int64_columns names fill) css n))) =
     [n ..< n + length (concat css)] \<and>
   list_all (list_all (\<lambda>t. table_sound t \<and> 0 < td_rows t)) (encode_cycles (int64_columns names fill) css n)"
proof (induction css arbitrary: n)
  case (Cons c css)
  obtain ts n' where ts: "cycle_tables (int64_columns names fill) c n = (ts, n')"
    by (cases "cycle_tables (int64_columns names fill) c n")
  note cover = cycle_tables_cover [OF ts]
  have "[n ..< n + length (concat (c # css))] = [n ..< n'] @ [n' ..< n' + length (concat css)]"
    using cover upt_add_eq_append [of n n' "length (concat css)"] by (simp add: add.assoc)
  then show ?case using cover Cons [of n'] ts by (simp add: int64_cells_def)
qed (simp add: int64_cells_def)

end
