(* ===== verification/Mock_Session.thy ===== *)
theory Mock_Session
  imports Feed Mock_Payload Runtime Test_Support
begin

text \<open>
  The runtime against the mock database. The socket \<open>served\<close> joins a client with a server program;
  on it an exchange is one turn of the server, a run cycle feeds the group's batches and takes its
  tables, and a whole session of a SET script ends on both sides with what the script put out.
\<close>

section \<open>The socket between client and server\<close>

record 'a served =
  sv_clock :: nat
  sv_sent :: "bytes list"
  sv_received :: "bytes list"
  sv_server :: "'a server"

definition served_send :: "bytes \<Rightarrow> 'a served \<Rightarrow> (zmq_error, unit) result \<times> 'a served" where
  "served_send b w = (if length (sv_sent w) = length (sv_received w)
     then (Ok (), w\<lparr>sv_sent := sv_sent w @ [b],
       sv_server := (case sv_server w of Receive k \<Rightarrow> k (Ok b) | other \<Rightarrow> other)\<rparr>)
     else (Err EFSM, w))"

definition served_recv :: "'a served \<Rightarrow> (zmq_error, bytes) result \<times> 'a served" where
  "served_recv w = (if length (sv_sent w) \<noteq> Suc (length (sv_received w)) then (Err EFSM, w)
     else case sv_server w of
       Transmit b k \<Rightarrow> (Ok b, w\<lparr>sv_received := sv_received w @ [b], sv_server := k (Ok ())\<rparr>)
     | _ \<Rightarrow> (Err EAGAIN, w\<lparr>sv_clock := sv_clock w + 1000000000\<rparr>))"

definition served :: "'a served zmq" where
  "served = \<lparr>zmq_socket = Pair (Ok ()), zmq_set_linger = (\<lambda>_. Pair (Ok ())),
     zmq_set_rcvtimeo = (\<lambda>_. Pair (Ok ())), zmq_set_sndtimeo = (\<lambda>_. Pair (Ok ())),
     zmq_connect = (\<lambda>_. Pair (Ok ())), zmq_send = served_send, zmq_recv = served_recv,
     instant_now = (\<lambda>w. (sv_clock w, w)), show_duration = show_nat\<rparr>"

interpretation served: timed_socket served sv_clock
  by unfold_locales
    (auto simp: served_def served_send_def served_recv_def EFSM_def split: if_splits server.splits)

interpretation served: req_socket served sv_sent sv_received
  by unfold_locales
    (auto simp: served_def served_send_def served_recv_def EFSM_def split: if_splits server.splits)

text \<open>A server at this point, with a client whose requests were all answered.\<close>

definition settled :: "'a server \<Rightarrow> 'a served \<Rightarrow> bool" where
  "settled p w \<longleftrightarrow> length (sv_sent w) = length (sv_received w) \<and> sv_server w = p"

text \<open>The server has answered; the client has not read it yet.\<close>

definition answered :: "bytes \<Rightarrow> ((zmq_error, unit) result \<Rightarrow> 'a server) \<Rightarrow> 'a served \<Rightarrow> bool" where
  "answered b p w \<longleftrightarrow> length (sv_sent w) = Suc (length (sv_received w)) \<and> sv_server w = Transmit b p"

lemma served_sends:
  assumes "settled (Receive k) (wi_world s)" "k (Ok (encode_frame P fr)) = Transmit b p"
  shows "\<exists>w. wire_send P served fr s = Some (Ok (), s\<lparr>wi_world := w\<rparr>) \<and> answered b p w"
  using assms
  by (intro exI [of _ "(wi_world s)\<lparr>sv_sent := sv_sent (wi_world s) @ [encode_frame P fr], sv_server := Transmit b p\<rparr>"])
    (simp add: wire_send_def on_world_def transport_send_def retry_transient_def served_def
      retry_loop.simps served_send_def settled_def answered_def)

lemma served_recvs:
  assumes "answered b p (wi_world s)" "decode_response P b = Ok resp"
  shows "\<exists>w. wire_recv P served s = Some (Ok resp, s\<lparr>wi_world := w\<rparr>) \<and> settled (p (Ok ())) w"
  using assms
  by (intro exI [of _ "(wi_world s)\<lparr>sv_received := sv_received (wi_world s) @ [b], sv_server := p (Ok ())\<rparr>"])
    (simp add: wire_recv_def on_world_def transport_recv_def retry_transient_def served_def
      retry_loop.simps served_recv_def settled_def answered_def io_bind_cases)

lemma served_exchange:
  assumes "settled (Receive k) (wi_world s)" "k (Ok (encode_frame P fr)) = Transmit b p"
    and "decode_response P b = Ok resp" "step resp (wi_proto s) = (Ok (ev, a), q)" "\<forall>m. a \<noteq> Some (PingReply m)"
  shows "\<exists>w. request P served fr s = Some (Ok ev, s\<lparr>wi_world := w, wi_proto := q\<rparr>) \<and> settled (p (Ok ())) w"
proof -
  obtain w where send: "wire_send P served fr s = Some (Ok (), s\<lparr>wi_world := w\<rparr>)" "answered b p w"
    using served_sends [OF assms(1,2)] by blast
  obtain v where recv: "wire_recv P served (s\<lparr>wi_world := w\<rparr>) = Some (Ok resp, s\<lparr>wi_world := v\<rparr>)"
    "settled (p (Ok ())) v"
    using served_recvs [of b p "s\<lparr>wi_world := w\<rparr>" P resp] send(2) assms(3) by auto
  have st: "wire_step resp (s\<lparr>wi_world := v\<rparr>) = Some (Ok (ev, a), s\<lparr>wi_world := v, wi_proto := q\<rparr>)"
    using assms(4) by (simp add: wire_step_def)
  have "request_loop P served (s\<lparr>wi_world := w\<rparr>) = Some (Ok ev, s\<lparr>wi_world := v, wi_proto := q\<rparr>)"
    using assms(5) by (subst request_loop.simps) (auto simp: io_bind_cases recv(1) st split: option.split host_action.split)
  then have "request P served fr s = Some (Ok ev, s\<lparr>wi_world := v, wi_proto := q\<rparr>)"
    by (simp add: request_def io_bind_cases send(1))
  then show ?thesis using recv(2) by blast
qed

section \<open>A session of the mock\<close>

text \<open>The cycles one after the other into one collector, and the whole session, as the fixture tests
  of the mock run them.\<close>

fun mock_cycles :: "prost_peer \<Rightarrow> bytes list list \<Rightarrow> table_data list \<Rightarrow> (table_data list \<Rightarrow> 'a server) \<Rightarrow> 'a server" where
  "mock_cycles Q [] tables k = k tables"
| "mock_cycles Q (frames # cycles) tables k =
     run_cycle Q next_frame observe_collector (frame_cursor_new frames) tables (\<lambda>tables. mock_cycles Q cycles tables k)"

definition fixture_session :: "prost_peer \<Rightarrow> string \<Rightarrow> string \<Rightarrow> exascript_metadata \<Rightarrow> bytes list list \<Rightarrow>
    table_data list server" where
  "fixture_session Q udf_object script_name metadata cycles =
     mock_handshake Q udf_object script_name metadata (mock_cycles Q cycles [] (mock_finish Q))"

section \<open>What the mock reads\<close>

lemma mt_i32_inj: "mt_i32 a = mt_i32 b \<Longrightarrow> a = b"
  by (metis message_type_roundtrip option.inject)

context peer_wire
begin

lemma peek_request:
  assumes "rq_type rq = mt_i32 mt"
  shows "peek_type (request_to_vec P rq) = Some (mt_i32 mt)"
proof -
  have small: "mt_number mt < 18" by (cases mt) simp_all
  then have "0 \<le> sint (rq_type rq)" "unat (rq_type rq) = mt_number mt"
    using assms by (cases mt; simp add: mt_i32_def)+
  then obtain rest where "request_to_vec P rq = CHR 0x08 # char_of (mt_number mt) # rest"
    using type_first [of rq] varint_small [of "mt_number mt"] small by auto
  then show ?thesis
    using small by (cases mt) (simp_all add: peek_type_def byte_def mt_i32_def Let_def)
qed

lemma recv_request:
  assumes "rq_type rq = mt_i32 mt" "mt \<noteq> MtClose"
  shows "\<exists>f. mock_recv Q mt name k = Receive f \<and> f (Ok (encode_frame P (Request rq))) = k rq"
proof -
  have "mt_i32 mt \<noteq> mt_i32 MtClose" using assms(2) mt_i32_inj by blast
  then show ?thesis
    using assms(1)
    by (simp add: mock_recv_def mock_decode_def expect_def encode_frame_def request_read map_err_def)
qed

lemma reply_read:
  "decode_response P (reply Q mt) =
     Ok (response_default\<lparr>rs_type := mt_i32 mt, rs_connection_id := MOCK_CONN_ID\<rparr>)"
  unfolding reply_def by (rule response_read) (simp_all add: response_default_def)

lemma frame_read:
  "decode_response P (mock_frame Q t) = Ok (response_default\<lparr>rs_type := mt_i32 MtNext,
     rs_connection_id := MOCK_CONN_ID, rs_next := Some t\<rparr>)"
  unfolding mock_frame_def by (rule response_read) (simp_all add: response_default_def)

text \<open>An answered request of a session in its run phase.\<close>

definition run_phase :: "('w, 'z) wire_scheme \<Rightarrow> bool" where
  "run_phase s \<longleftrightarrow> pr_phase (wi_proto s) = PRun"

lemma step_reply:
  assumes "pr_phase p = PRun"
  shows
    "step (response_default\<lparr>rs_type := mt_i32 MtRun, rs_connection_id := c\<rparr>) p = (Ok (EvRun, None), p\<lparr>pr_connection_id := c\<rparr>)"
    "step (response_default\<lparr>rs_type := mt_i32 MtDone, rs_connection_id := c\<rparr>) p = (Ok (EvDone, None), p\<lparr>pr_connection_id := c\<rparr>)"
    "step (response_default\<lparr>rs_type := mt_i32 MtEmit, rs_connection_id := c\<rparr>) p = (Ok (EvEmitAck, None), p\<lparr>pr_connection_id := c\<rparr>)"
    "step (response_default\<lparr>rs_type := mt_i32 MtCleanup, rs_connection_id := c\<rparr>) p =
       (Ok (EvCleanup, None), p\<lparr>pr_connection_id := c, pr_phase := PCleanup\<rparr>)"
    "step (response_default\<lparr>rs_type := mt_i32 MtNext, rs_connection_id := c, rs_next := Some t\<rparr>) p =
       (Ok (EvNextData t, None), p\<lparr>pr_connection_id := c\<rparr>)"
  using assms by (simp_all add: step_def step_next_def response_default_def Let_def)

lemma step_finished:
  "step (response_default\<lparr>rs_type := mt_i32 MtFinished, rs_connection_id := c\<rparr>) p =
     (Ok (EvFinished, None), p\<lparr>pr_connection_id := c, pr_phase := PDone\<rparr>)"
  by (simp add: step_def response_default_def Let_def)

section \<open>A run cycle\<close>

definition cycle_server :: "(table_data list \<Rightarrow> 'a server) \<Rightarrow> table_data list \<Rightarrow> frame_cursor \<Rightarrow> bytes list \<Rightarrow> 'a server" where
  "cycle_server k tables cur emits =
     cycle_loop Q next_frame (cycle_end Q observe_collector tables k) cur emits None"

text \<open>In the window, with these batches to come and these tables taken.\<close>

definition emit_of :: "bytes \<Rightarrow> emit_table \<Rightarrow> bool" where
  "emit_of b t \<longleftrightarrow> (\<exists>cid css. holds_cells P css t \<and>
     b = encode_frame P (Emit \<lparr>er_connection_id = cid, er_table = t\<rparr>))"

definition cycle_feeds :: "(table_data list \<Rightarrow> 'a server) \<Rightarrow> table_data list \<Rightarrow> table_data list \<Rightarrow> emit_table list \<Rightarrow>
    ('a served, 'z) wire_scheme \<Rightarrow> bool" where
  "cycle_feeds k tables pend out s \<longleftrightarrow> run_phase s \<and> (\<exists>cur emits.
     settled (cycle_server k tables cur emits) (wi_world s) \<and> drop (fc_pos cur) (fc_frames cur) = map (mock_frame Q) pend \<and>
     fc_pos cur \<le> length (fc_frames cur) \<and> list_all2 emit_of emits out)"

text \<open>One message of the window.\<close>

lemma cycle_answer:
  assumes "cycle_turn Q next_frame cur emits b = Ok (Some (bs, cur', emits'))"
  shows "\<exists>f g. cycle_server k tables cur emits = Receive f \<and> f (Ok b) = Transmit bs g \<and>
    g (Ok ()) = cycle_server k tables cur' emits'"
  unfolding cycle_server_def
  by (subst cycle_loop.code, simp add: assms map_err_def goes_on_def Let_def, subst cycle_loop.code, simp)

lemma cycle_exchange:
  assumes "settled (cycle_server k tables cur emits) (wi_world s)" "run_phase s"
    and "cycle_turn Q next_frame cur emits (encode_frame P fr) = Ok (Some (bs, cur', emits'))"
    and "decode_response P bs = Ok resp"
    and "\<And>p. pr_phase p = PRun \<Longrightarrow> step resp p = (Ok (ev, None), p\<lparr>pr_connection_id := MOCK_CONN_ID\<rparr>)"
  shows "\<exists>w q. request P served fr s = Some (Ok ev, s\<lparr>wi_world := w, wi_proto := q\<rparr>) \<and>
    settled (cycle_server k tables cur' emits') w \<and> pr_phase q = PRun"
proof -
  obtain f g where f: "cycle_server k tables cur emits = Receive f" "f (Ok (encode_frame P fr)) = Transmit bs g"
    "g (Ok ()) = cycle_server k tables cur' emits'"
    using cycle_answer [OF assms(3)] by blast
  have st: "step resp (wi_proto s) = (Ok (ev, None), (wi_proto s)\<lparr>pr_connection_id := MOCK_CONN_ID\<rparr>)"
    using assms(2,5) by (simp add: run_phase_def)
  show ?thesis
    using served_exchange [where s = s and k = f and fr = fr and p = g, OF _ f(2) assms(4) st] assms(1,2) f(1,3)
    by (auto simp: run_phase_def intro!: exI [of _ "(wi_proto s)\<lparr>pr_connection_id := MOCK_CONN_ID\<rparr>"])
qed

lemma feeds_next:
  assumes "cycle_feeds k tables (t # ts) out s"
  shows "\<exists>w q. request P served (Request (next_request (wi_proto s))) s =
      Some (Ok (EvNextData t), s\<lparr>wi_world := w, wi_proto := q\<rparr>) \<and>
    cycle_feeds k tables ts out (s\<lparr>wi_world := w, wi_proto := q\<rparr>)"
proof -
  obtain cur emits where cur: "settled (cycle_server k tables cur emits) (wi_world s)" "run_phase s"
    "drop (fc_pos cur) (fc_frames cur) = mock_frame Q t # map (mock_frame Q) ts" "list_all2 emit_of emits out"
    using assms by (auto simp: cycle_feeds_def)
  note at_frame = drop_eq_Cons [OF cur(3)]
  have "peek_type (encode_frame P (Request (next_request (wi_proto s)))) = Some (mt_i32 MtNext)"
    unfolding encode_frame_def by (simp, rule peek_request) (simp add: next_request_def base_request_def)
  then have turn: "cycle_turn Q next_frame cur emits (encode_frame P (Request (next_request (wi_proto s)))) =
      Ok (Some (mock_frame Q t, cur\<lparr>fc_pos := fc_pos cur + 1\<rparr>, emits))"
    using at_frame by (simp add: cycle_turn_def next_frame_def nth_opt_def)
  show ?thesis
    using cycle_exchange [OF cur(1,2) turn frame_read step_reply(5)] cur(4) at_frame
    by (fastforce simp: cycle_feeds_def run_phase_def)
qed

lemma feeds_end:
  assumes "cycle_feeds k tables [] out s"
  shows "\<exists>w q. request P served (Request (next_request (wi_proto s))) s =
      Some (Ok EvDone, s\<lparr>wi_world := w, wi_proto := q\<rparr>) \<and>
    cycle_feeds k tables [] out (s\<lparr>wi_world := w, wi_proto := q\<rparr>)"
proof -
  obtain cur emits where cur: "settled (cycle_server k tables cur emits) (wi_world s)" "run_phase s"
    "fc_pos cur = length (fc_frames cur)" "list_all2 emit_of emits out"
    using assms by (auto simp: cycle_feeds_def)
  have "peek_type (encode_frame P (Request (next_request (wi_proto s)))) = Some (mt_i32 MtNext)"
    unfolding encode_frame_def by (simp, rule peek_request) (simp add: next_request_def base_request_def)
  then have turn: "cycle_turn Q next_frame cur emits (encode_frame P (Request (next_request (wi_proto s)))) =
      Ok (Some (reply Q MtDone, cur, emits))"
    using cur(3) by (simp add: cycle_turn_def next_frame_def nth_opt_def)
  show ?thesis
    using cycle_exchange [OF cur(1,2) turn reply_read step_reply(2)] cur(3,4)
    by (fastforce simp: cycle_feeds_def run_phase_def)
qed

lemma emit_as_request:
  assumes "holds_cells P css t"
  shows "\<exists>d. to_proto P t = Some d \<and> encode_frame P (Emit \<lparr>er_connection_id = cid, er_table = t\<rparr>) =
    request_to_vec P (request_default\<lparr>rq_type := mt_i32 MtEmit, rq_connection_id := cid, rq_emit := Some d\<rparr>)"
  using emit_frame_identical [OF assms to_proto_cells [OF assms], of cid] to_proto_cells [OF assms]
  by (simp add: encode_frame_def)

lemma feeds_emit:
  assumes "cycle_feeds k tables pend out s" "holds_cells P css t"
  shows "\<exists>w q. request P served (Emit (emit_request_of t (wi_proto s))) s =
      Some (Ok EvEmitAck, s\<lparr>wi_world := w, wi_proto := q\<rparr>) \<and>
    cycle_feeds k tables pend (out @ [t]) (s\<lparr>wi_world := w, wi_proto := q\<rparr>)"
proof -
  obtain cur emits where cur: "settled (cycle_server k tables cur emits) (wi_world s)" "run_phase s"
    "drop (fc_pos cur) (fc_frames cur) = map (mock_frame Q) pend" "fc_pos cur \<le> length (fc_frames cur)"
    "list_all2 emit_of emits out"
    using assms by (auto simp: cycle_feeds_def)
  let ?fr = "Emit (emit_request_of t (wi_proto s))"
  obtain d where "encode_frame P ?fr = request_to_vec P (request_default\<lparr>rq_type := mt_i32 MtEmit,
      rq_connection_id := pr_connection_id (wi_proto s), rq_emit := Some d\<rparr>)"
    using emit_as_request [OF assms(2), of "pr_connection_id (wi_proto s)"] by (auto simp: emit_request_of_def)
  then have "peek_type (encode_frame P ?fr) = Some (mt_i32 MtEmit)" by (simp add: peek_request)
  then have turn: "cycle_turn Q next_frame cur emits (encode_frame P ?fr) =
      Ok (Some (reply Q MtEmit, cur, emits @ [encode_frame P ?fr]))"
    by (simp add: cycle_turn_def)
  from cycle_exchange [OF cur(1,2) turn reply_read step_reply(3)] obtain w q where
    wq: "request P served ?fr s = Some (Ok EvEmitAck, s\<lparr>wi_world := w, wi_proto := q\<rparr>)"
    "settled (cycle_server k tables cur (emits @ [encode_frame P ?fr])) w" "pr_phase q = PRun" by blast
  have "emit_of (encode_frame P ?fr) t" using assms(2) by (auto simp: emit_of_def emit_request_of_def)
  then have "list_all2 emit_of (emits @ [encode_frame P ?fr]) (out @ [t])"
    using cur(5) by (intro list_all2_appendI) simp_all
  then have "cycle_feeds k tables pend (out @ [t]) (s\<lparr>wi_world := w, wi_proto := q\<rparr>)"
    unfolding cycle_feeds_def using wq(2,3) cur(3,4)
    by (intro conjI exI [of _ cur] exI [of _ "emits @ [encode_frame P ?fr]"]) (simp_all add: run_phase_def)
  then show ?thesis using wq(1) by blast
qed

lemma observe_collected:
  assumes "list_all2 emit_of emits out"
  shows "observe_emits Q observe_collector emits tables = Ok (tables @ map (\<lambda>t. the (to_proto P t)) out)"
  using assms
proof (induction emits out arbitrary: tables rule: list_all2_induct)
  case (Cons b emits t out)
  obtain cid css where "holds_cells P css t" and b: "b = encode_frame P (Emit \<lparr>er_connection_id = cid, er_table = t\<rparr>)"
    using Cons.hyps(1) by (auto simp: emit_of_def)
  then obtain d where "to_proto P t = Some d" "b = request_to_vec P (request_default\<lparr>rq_type := mt_i32 MtEmit,
      rq_connection_id := cid, rq_emit := Some d\<rparr>)"
    using emit_as_request by blast
  then show ?case using Cons.IH by (simp add: request_read map_err_def observe_collector_def)
qed simp

lemma feeds_done:
  assumes "cycle_feeds k tables pend out s"
  shows "\<exists>w q. request P served (Request (done_request (wi_proto s))) s =
      Some (Ok EvDone, s\<lparr>wi_world := w, wi_proto := q\<rparr>) \<and> pr_phase q = PRun \<and>
    settled (k (tables @ map (\<lambda>t. the (to_proto P t)) out)) w"
proof -
  obtain cur emits where cur: "settled (cycle_server k tables cur emits) (wi_world s)" "run_phase s"
    "list_all2 emit_of emits out"
    using assms by (auto simp: cycle_feeds_def)
  let ?fr = "Request (done_request (wi_proto s))"
  have "peek_type (encode_frame P ?fr) = Some (mt_i32 MtDone)"
    unfolding encode_frame_def by (simp, rule peek_request) (simp add: done_request_def base_request_def)
  then have turn: "cycle_turn Q next_frame cur emits (encode_frame P ?fr) = Ok None" by (simp add: cycle_turn_def)
  have "\<exists>f. cycle_server k tables cur emits = Receive f \<and>
      f (Ok (encode_frame P ?fr)) = cycle_end Q observe_collector tables k cur emits (Ok ())"
    unfolding cycle_server_def by (subst cycle_loop.code) (simp add: map_err_def goes_on_def window_end_def turn)
  then obtain f where f: "cycle_server k tables cur emits = Receive f"
    "f (Ok (encode_frame P ?fr)) = cycle_end Q observe_collector tables k cur emits (Ok ())" by blast
  have tr: "f (Ok (encode_frame P ?fr)) = Transmit (reply Q MtDone) (\<lambda>r. case r of Inl e \<Rightarrow> Ended (Err (MockZmq e))
      | Inr _ \<Rightarrow> k (tables @ map (\<lambda>t. the (to_proto P t)) out))"
    unfolding f(2) by (simp add: cycle_end_def observe_collected [OF cur(3)] mock_send_def)
  have st: "step (response_default\<lparr>rs_type := mt_i32 MtDone, rs_connection_id := MOCK_CONN_ID\<rparr>) (wi_proto s) =
      (Ok (EvDone, None), (wi_proto s)\<lparr>pr_connection_id := MOCK_CONN_ID\<rparr>)"
    using cur(2) by (intro step_reply) (simp add: run_phase_def)
  show ?thesis
    using served_exchange [where s = s and k = f and fr = ?fr, OF _ tr reply_read st] cur(1,2) f(1)
    by (auto simp: run_phase_def intro!: exI [of _ "(wi_proto s)\<lparr>pr_connection_id := MOCK_CONN_ID\<rparr>"])
qed

end

section \<open>The group of a cycle\<close>

text \<open>A host whose messages the mock can read.\<close>

locale mock_session = peer_wire P Q for P :: prost and Q :: prost_peer +
  fixes H :: "(table_data list served, 'd, 't) host_env"
  assumes host: "he_prost H = P"

sublocale mock_session \<subseteq> feed: batch_feed "wire_env H" "batch_fetcher P served" "emit_flusher P served"
    "\<lambda>pend out s. cycle_feeds k tables pend out s \<and> gw_exit s = None" for k tables
proof (intro batch_feed.intro, goal_cases)
  case 1
  show ?case using prost_wire_axioms by (simp add: wire_env_def host)
next
  case (2 t ts out s)
  then obtain w q where "request P served (Request (next_request (wi_proto s))) s =
      Some (Ok (EvNextData t), s\<lparr>wi_world := w, wi_proto := q\<rparr>)"
    "cycle_feeds k tables ts out (s\<lparr>wi_world := w, wi_proto := q\<rparr>)" using feeds_next by blast
  then show ?case
    using 2 by (subst batch_fetcher.simps) (auto simp: io_bind_cases io_map_err_def map_err_def)
next
  case (3 out s)
  then obtain w q where "request P served (Request (next_request (wi_proto s))) s =
      Some (Ok EvDone, s\<lparr>wi_world := w, wi_proto := q\<rparr>)"
    "cycle_feeds k tables [] out (s\<lparr>wi_world := w, wi_proto := q\<rparr>)" using feeds_end by blast
  then show ?case
    using 3 by (subst batch_fetcher.simps) (auto simp: io_bind_cases io_map_err_def map_err_def)
next
  case (4 ts out s table css)
  have "holds_cells P css table" using 4(3) by (simp add: wire_env_def host)
  then obtain w q where "request P served (Emit (emit_request_of table (wi_proto s))) s =
      Some (Ok EvEmitAck, s\<lparr>wi_world := w, wi_proto := q\<rparr>)"
    "cycle_feeds k tables ts (out @ [table]) (s\<lparr>wi_world := w, wi_proto := q\<rparr>)"
    using feeds_emit 4(1) by blast
  then show ?case
    using 4(1,2) by (auto simp: emit_flusher_def io_bind_cases io_map_err_def map_err_def)
qed

text \<open>What UDF code does with a group: the rows it puts out for the rows it is given.\<close>

context mock_session
begin

definition group_law :: "('d, 't, 'u) vtable \<Rightarrow> column_info list \<Rightarrow> column_info list \<Rightarrow> iter_type \<Rightarrow>
    (('d, 't) sql_value list list \<Rightarrow> ('d, 't) sql_value list list) \<Rightarrow> ('d, 't) sql_value list list \<Rightarrow> 'u \<Rightarrow> bool" where
  "group_law vt icols ocols oiter f rs u \<longleftrightarrow> (\<forall>k tables b. feed.standing k tables icols ocols oiter None rs [] b \<longrightarrow>
     (\<exists>cur b'. run_udf_code (bridge_call (wire_env H)) vt (b, u) = Some (Ok (), b', u) \<and>
       feed.standing k tables icols ocols oiter cur [] (f rs) b'))"

text \<open>The first batch with rows, and the rows after it.\<close>

definition good_batches :: "column_info list \<Rightarrow> table_data list \<Rightarrow> bool" where
  "good_batches icols pend \<longleftrightarrow> list_all (\<lambda>t. is_ok (from_proto (he_ext H) t icols)) pend"

lemma first_batch:
  fixes k :: "table_data list \<Rightarrow> table_data list server"
  assumes "cycle_feeds k tables pend [] s" "gw_exit s = None" "good_batches icols pend"
  shows "if concat (map (batch_rows (he_ext H) icols) pend) = []
    then \<exists>s'. first_nonempty_input (he_ext H) (batch_fetcher P served) icols s = Some (Ok None, s') \<and>
      cycle_feeds k tables [] [] s' \<and> gw_exit s' = None
    else \<exists>s' rs pend'. first_nonempty_input (he_ext H) (batch_fetcher P served) icols s = Some (Ok (Some rs), s') \<and>
      cycle_feeds k tables pend' [] s' \<and> gw_exit s' = None \<and> good_batches icols pend' \<and>
      irs_ok rs \<and> cur_row rs = 0 \<and>
      concat (map (batch_rows (he_ext H) icols) pend) = irs_rows rs @ concat (map (batch_rows (he_ext H) icols) pend')"
  using assms
proof (induction pend arbitrary: s)
  case Nil
  then obtain s' where "batch_fetcher P served s = Some (Ok None, s')" "cycle_feeds k tables [] [] s'" "gw_exit s' = None"
    using feed.fetch_end [of k tables "[]" s] by auto
  then show ?case by (subst first_nonempty_input.simps) (simp add: io_bind_cases io_map_err_def map_err_def)
next
  case (Cons t pend)
  then obtain s' where s': "batch_fetcher P served s = Some (Ok (Some t), s')" "cycle_feeds k tables pend [] s'"
    "gw_exit s' = None"
    using feed.fetch_next [of k tables t pend "[]" s] by auto
  obtain rs where rs: "from_proto (he_ext H) t icols = Ok rs" "good_batches icols pend"
    using Cons.prems(3) by (cases "from_proto (he_ext H) t icols") (auto simp: good_batches_def is_ok_def)
  have batch: "batch_rows (he_ext H) icols t = irs_rows rs" using rs by (simp add: batch_rows_def)
  show ?case
  proof (cases "n_rows rs = 0")
    case True
    then have "concat (map (batch_rows (he_ext H) icols) (t # pend)) = concat (map (batch_rows (he_ext H) icols) pend)"
      by (simp add: batch irs_rows_def)
    moreover have "first_nonempty_input (he_ext H) (batch_fetcher P served) icols s =
        first_nonempty_input (he_ext H) (batch_fetcher P served) icols s'"
      using s'(1) rs True
      by (subst first_nonempty_input.simps) (simp add: io_bind_cases io_map_err_def map_err_def irs_is_empty_def)
    ultimately show ?thesis using Cons.IH [OF s'(2,3) rs(2)] by (simp only:)
  next
    case False
    then have "irs_rows rs \<noteq> []" by (metis length_0_conv length_irs_rows)
    moreover have "first_nonempty_input (he_ext H) (batch_fetcher P served) icols s = Some (Ok (Some rs), s')"
      using s'(1) rs False
      by (subst first_nonempty_input.simps) (simp add: io_bind_cases io_map_err_def map_err_def irs_is_empty_def)
    ultimately show ?thesis
      using s'(2,3) rs decode_ok [OF rs(1) [unfolded from_proto_def]] batch by auto
  qed
qed

text \<open>The group as the dispatcher runs it.\<close>

definition cycle_meta :: "column_info list \<Rightarrow> column_info list \<Rightarrow> iter_type \<Rightarrow> udf_meta \<Rightarrow> bool" where
  "cycle_meta icols ocols oiter meta \<longleftrightarrow> um_input_iter meta = Multiple \<and> um_output_iter meta = oiter \<and>
     um_input_columns meta = icols \<and> um_output_columns meta = ocols"

lemma group_input_runs:
  fixes k :: "table_data list \<Rightarrow> table_data list server"
  assumes "cycle_feeds k tables pend [] s" "gw_exit s = None" "good_batches icols pend"
    and "cycle_meta icols ocols oiter meta" "rs = concat (map (batch_rows (he_ext H) icols) pend)"
    and "rs \<noteq> [] \<Longrightarrow> group_law vt icols ocols oiter f rs u"
  shows "\<exists>buf s' pend' groups held. run_group_input (wire_env H) served vt meta (s, u) = Some (Ok buf, s', u) \<and>
    gw_exit s' = None \<and> cycle_feeds k tables pend' (map (table_of P (he_ext H) ocols) groups) s' \<and>
    carries P (he_ext H) ocols held buf \<and> list_all (\<lambda>g. g \<noteq> []) groups \<and>
    map fst (concat groups @ held) = (if rs = [] then [] else f rs) \<and>
    list_all (row_fits (he_ext H) ocols) (if rs = [] then [] else f rs)"
proof (cases "rs = []")
  case True
  then obtain s' where "first_nonempty_input (he_ext H) (batch_fetcher P served) icols s = Some (Ok None, s')"
    "cycle_feeds k tables [] [] s'" "gw_exit s' = None"
    using first_batch [OF assms(1-3)] assms(5) by auto
  then show ?thesis
    using assms(4) True
    by (intro exI [of _ emit_buffer_new] exI [of _ s'] exI [of _ "[]"])
      (simp add: run_group_input_def cycle_meta_def host)
next
  case False
  then obtain s1 irs pend1 where first: "first_nonempty_input (he_ext H) (batch_fetcher P served) icols s = Some (Ok (Some irs), s1)"
    "cycle_feeds k tables pend1 [] s1" "gw_exit s1 = None" "good_batches icols pend1" "irs_ok irs" "cur_row irs = 0"
    and rs: "rs = irs_rows irs @ concat (map (batch_rows (he_ext H) icols) pend1)"
    using first_batch [OF assms(1-3)] False unfolding assms(5) by (simp only: if_False) blast
  let ?b = "group_bridge (wire_env H) served meta irs s1"
  let ?fresh = "snd (take_last_error ?b)"
  have "feed.feeding icols ocols oiter pend1 ?fresh" "\<not> br_started ?fresh" "br_input ?fresh = irs" "cx_chan ?fresh = s1"
    "br_emit_buf ?fresh = emit_buffer_new"
    using assms(4) first
    by (simp_all add: feed.feeding_def group_bridge_def bridge_new_def configure_group_input_def Let_def host
        take_last_error_def cycle_meta_def good_batches_def)
  moreover have "feed.output_of k tables ocols pend1 [] ?fresh"
    unfolding feed.output_of_def using first(2,3) calculation(4,5)
    by (intro conjI exI [of _ "[]"]) (simp_all add: host)
  ultimately have "feed.standing k tables icols ocols oiter None rs [] ?fresh"
    unfolding feed.standing_def using first(6) rs by (intro exI [of _ pend1]) simp
  then obtain cur b' where run: "run_udf_code (bridge_call (wire_env H)) vt (?fresh, u) = Some (Ok (), b', u)"
    and at_end: "feed.standing k tables icols ocols oiter cur [] (f rs) b'"
    using assms(6) [OF False] unfolding group_law_def by blast
  have once: "run_once (wire_env H) vt (?b, u) = Some (Ok (), b', u)"
    using run by (simp add: run_once_def split_beta)
  obtain pend' where "feed.output_of k tables ocols pend' (f rs) b'"
    using at_end by (auto simp: feed.standing_def)
  then obtain groups held where out: "cycle_feeds k tables pend' (map (table_of P (he_ext H) ocols) groups) (cx_chan b')"
    "gw_exit (cx_chan b') = None" "carries P (he_ext H) ocols held (br_emit_buf b')" "list_all (\<lambda>g. g \<noteq> []) groups"
    "map fst (concat groups @ held) = f rs" "list_all (row_fits (he_ext H) ocols) (f rs)"
    by (auto simp: feed.output_of_def host)
  have "run_group_input (wire_env H) served vt meta (s, u) = Some (Ok (br_emit_buf b'), cx_chan b', u)"
    using first(1) once assms(4)
    by (simp add: run_group_input_def cycle_meta_def host drive_group_rows_def)
  then show ?thesis using out False by auto
qed

lemma cycle_feeds_wire:
  "cycle_feeds k tables pend out (wire.truncate g) = cycle_feeds k tables pend out g"
  "cycle_feeds k tables pend out (wire.extend s x) = cycle_feeds k tables pend out s"
  by (simp_all add: cycle_feeds_def run_phase_def wire.defs)

lemma tail_flushes:
  assumes "cycle_feeds k tables pend (map (table_of P E ocols) groups) (s :: table_data list served wire)"
    and "carries P E ocols held buf" "list_all (row_fits E ocols) (map fst held)"
  shows "\<exists>s'. tail_flush P served buf s = Some (Ok (), s') \<and>
    cycle_feeds k tables pend (map (table_of P E ocols) (groups @ (if held = [] then [] else [held]))) s'"
proof (cases "held = []")
  case True
  then have "eb_is_empty buf" using assms(2) by (simp add: eb_is_empty_def carries_def)
  then show ?thesis using assms(1) True by (simp add: tail_flush_def)
next
  case False
  have table: "eb_table buf = table_of P E ocols held" using assms(2) by (simp add: carries_def)
  obtain w q where "request P served (Emit (emit_request_of (eb_table buf) (wi_proto s))) s =
      Some (Ok EvEmitAck, s\<lparr>wi_world := w, wi_proto := q\<rparr>)"
    "cycle_feeds k tables pend (map (table_of P E ocols) groups @ [eb_table buf]) (s\<lparr>wi_world := w, wi_proto := q\<rparr>)"
    using feeds_emit [OF assms(1) table_holds [OF assms(3), of P, folded table]] by blast
  then show ?thesis
    using False table by (auto simp: tail_flush_def eb_is_empty_def flush_def io_bind_cases)
qed

text \<open>The tables a cycle leaves: they carry, in order, the rows the script puts out.\<close>

definition carried :: "column_info list \<Rightarrow> ('d, 't) sql_value list list \<Rightarrow> table_data list \<Rightarrow> bool" where
  "carried ocols out ts \<longleftrightarrow> list_all (row_fits (he_ext H) ocols) out \<and>
     (\<exists>groups. ts = map (table_data_of (he_ext H) ocols) groups \<and> list_all (\<lambda>g. g \<noteq> []) groups \<and>
       map fst (concat groups) = out)"

lemma group_runs:
  fixes k :: "table_data list \<Rightarrow> table_data list server"
  assumes "cycle_feeds k tables pend [] (s :: table_data list served wire)" "good_batches icols pend"
    and "cycle_meta icols ocols oiter meta" "rs = concat (map (batch_rows (he_ext H) icols) pend)"
    and "rs \<noteq> [] \<Longrightarrow> group_law vt icols ocols oiter f rs u"
  shows "\<exists>s' pend' out. run_group H served vt meta (s, u) = Some (Ok None, s', u) \<and>
    cycle_feeds k tables pend' out s' \<and>
    carried ocols (if rs = [] then [] else f rs) (map (\<lambda>t. the (to_proto P t)) out)"
proof -
  let ?s = "wire.extend s (group_wire.fields None)"
  have "cycle_feeds k tables pend [] ?s" "gw_exit ?s = None"
    using assms(1) cycle_feeds_wire(2) [of k tables pend "[]" s] by (simp_all add: wire.defs group_wire.defs)
  from group_input_runs [OF this assms(2-5)] obtain buf g pend' groups held where
    run: "run_group_input (wire_env H) served vt meta (?s, u) = Some (Ok buf, g, u)" "gw_exit g = None"
    and out: "cycle_feeds k tables pend' (map (table_of P (he_ext H) ocols) groups) g"
    "carries P (he_ext H) ocols held buf" "list_all (\<lambda>g. g \<noteq> []) groups"
    "map fst (concat groups @ held) = (if rs = [] then [] else f rs)"
    "list_all (row_fits (he_ext H) ocols) (if rs = [] then [] else f rs)" by blast
  have fits: "list_all (row_fits (he_ext H) ocols) (map fst held)" "list_all (row_fits (he_ext H) ocols) (map fst (concat groups))"
    using out(5) unfolding out(4) [symmetric] by (simp_all add: list_all_append)
  obtain s' where s': "tail_flush P served buf (wire.truncate g) = Some (Ok (), s')"
    "cycle_feeds k tables pend' (map (table_of P (he_ext H) ocols) (groups @ (if held = [] then [] else [held]))) s'"
    using tail_flushes [OF _ out(2) fits(1)] out(1) cycle_feeds_wire(1) by blast
  let ?groups = "groups @ (if held = [] then [] else [held])"
  have "list_all (\<lambda>g. list_all (row_fits (he_ext H) ocols) (map fst g)) ?groups"
    using fits by (auto simp: list_all_iff)
  then have "map (\<lambda>t. the (to_proto P t)) (map (table_of P (he_ext H) ocols) ?groups) =
      map (table_data_of (he_ext H) ocols) ?groups"
    unfolding map_map by (intro map_cong) (auto simp: list_all_iff intro!: table_to_proto [THEN arg_cong, of _ _ _ the, simplified])
  then have "carried ocols (if rs = [] then [] else f rs)
      (map (\<lambda>t. the (to_proto P t)) (map (table_of P (he_ext H) ocols) ?groups))"
    unfolding carried_def using out(3-5) by (intro conjI exI [of _ ?groups]) auto
  moreover have "run_group H served vt meta (s, u) = Some (Ok None, s', u)"
    using run s'(1) by (simp add: run_group_def host)
  ultimately show ?thesis using s'(2) by blast
qed

section \<open>The cycles of a session\<close>

definition out_of :: "('r list \<Rightarrow> 'r list) \<Rightarrow> 'r list \<Rightarrow> 'r list" where
  "out_of f rs = (if rs = [] then [] else f rs)"

definition rows_of_batches :: "column_info list \<Rightarrow> table_data list \<Rightarrow> ('d, 't) sql_value list list" where
  "rows_of_batches icols pend = concat (map (batch_rows (he_ext H) icols) pend)"

lemma run_answered:
  assumes "settled (mock_recv Q MtRun name (\<lambda>_. mock_send (reply Q mt) p)) (wi_world s)" "run_phase s"
    and "step (response_default\<lparr>rs_type := mt_i32 mt, rs_connection_id := MOCK_CONN_ID\<rparr>) (wi_proto s) = (Ok (ev, None), q)"
  shows "\<exists>w. request P served (Request (run_request (wi_proto s))) s = Some (Ok ev, s\<lparr>wi_world := w, wi_proto := q\<rparr>) \<and>
    settled p w"
proof -
  obtain f where f: "mock_recv Q MtRun name (\<lambda>_. mock_send (reply Q mt) p) = Receive f"
    "f (Ok (encode_frame P (Request (run_request (wi_proto s))))) = mock_send (reply Q mt) p"
    using recv_request [of "run_request (wi_proto s)" MtRun name "\<lambda>_. mock_send (reply Q mt) p"]
    by (auto simp: run_request_def base_request_def)
  show ?thesis
    using served_exchange [where s = s and k = f, OF _ f(2) [unfolded mock_send_def] reply_read assms(3)] assms(1) f(1)
    by simp
qed

lemma turn_runs:
  fixes k :: "table_data list \<Rightarrow> table_data list server"
  assumes "settled (run_cycle Q next_frame observe_collector (frame_cursor_new (map (mock_frame Q) pend)) tables k) (wi_world s)"
    and "run_phase s" "good_batches icols pend" "cycle_meta icols ocols oiter meta"
    and "rows_of_batches icols pend \<noteq> [] \<Longrightarrow> group_law vt icols ocols oiter f (rows_of_batches icols pend) u"
  shows "\<exists>s' ts. run_turn H served vt meta (s :: table_data list served wire, u) = Some (Ok None, s', u) \<and> run_phase s' \<and>
    settled (k (tables @ ts)) (wi_world s') \<and> carried ocols (out_of f (rows_of_batches icols pend)) ts"
proof -
  let ?p = "cycle_loop Q next_frame (cycle_end Q observe_collector tables k) (frame_cursor_new (map (mock_frame Q) pend)) [] None"
  let ?q = "(wi_proto s)\<lparr>pr_connection_id := MOCK_CONN_ID\<rparr>"
  have st: "step (response_default\<lparr>rs_type := mt_i32 MtRun, rs_connection_id := MOCK_CONN_ID\<rparr>) (wi_proto s) = (Ok (EvRun, None), ?q)"
    using assms(2) by (intro step_reply) (simp add: run_phase_def)
  obtain w where w: "request P served (Request (run_request (wi_proto s))) s = Some (Ok EvRun, s\<lparr>wi_world := w, wi_proto := ?q\<rparr>)"
    "settled ?p w"
    using run_answered [OF assms(1) [unfolded run_cycle_def] assms(2) st] by blast
  have feeds: "cycle_feeds k tables pend [] (s\<lparr>wi_world := w, wi_proto := ?q\<rparr>)"
    using w(2) assms(2) unfolding cycle_feeds_def
    by (intro conjI exI [of _ "frame_cursor_new (map (mock_frame Q) pend)"] exI [of _ "[]"])
      (simp_all add: run_phase_def cycle_server_def frame_cursor_new_def)
  from group_runs [OF feeds assms(3,4) refl assms(5) [unfolded rows_of_batches_def]] obtain s1 pend' out where
    group: "run_group H served vt meta (s\<lparr>wi_world := w, wi_proto := ?q\<rparr>, u) = Some (Ok None, s1, u)"
    "cycle_feeds k tables pend' out s1"
    "carried ocols (out_of f (rows_of_batches icols pend)) (map (\<lambda>t. the (to_proto P t)) out)"
    unfolding out_of_def rows_of_batches_def by blast
  obtain w' q' where "request P served (Request (done_request (wi_proto s1))) s1 =
      Some (Ok EvDone, s1\<lparr>wi_world := w', wi_proto := q'\<rparr>)" "pr_phase q' = PRun"
    "settled (k (tables @ map (\<lambda>t. the (to_proto P t)) out)) w'" using feeds_done [OF group(2)] by blast
  then show ?thesis
    using w(1) group(1,3)
    by (auto simp: run_turn_def wire_request_def on_wire_def io_bind_cases host run_phase_def)
qed

lemma cycles_run:
  assumes "settled (mock_cycles Q (map (map (mock_frame Q)) pends) tables (mock_finish Q)) (wi_world s)"
    and "run_phase s" "list_all (good_batches icols) pends" "cycle_meta icols ocols oiter meta"
    and "\<And>pend. pend \<in> set pends \<Longrightarrow> rows_of_batches icols pend \<noteq> [] \<Longrightarrow>
      group_law vt icols ocols oiter f (rows_of_batches icols pend) u"
  shows "\<exists>s' tss. run_udf H served vt meta (s, u) = Some (Ok (), s', u) \<and>
    settled (mock_recv Q MtFinished ''MT_FINISHED'' (\<lambda>_. mock_send (reply Q MtFinished)
      (Ended (Ok (tables @ concat tss))))) (wi_world s') \<and>
    list_all2 (\<lambda>pend ts. carried ocols (out_of f (rows_of_batches icols pend)) ts) pends tss"
  using assms(1-3,5)
proof (induction pends arbitrary: tables s)
  case Nil
  let ?q = "(wi_proto s)\<lparr>pr_connection_id := MOCK_CONN_ID, pr_phase := PCleanup\<rparr>"
  have st: "step (response_default\<lparr>rs_type := mt_i32 MtCleanup, rs_connection_id := MOCK_CONN_ID\<rparr>) (wi_proto s) =
      (Ok (EvCleanup, None), ?q)"
    using Nil(2) by (intro step_reply) (simp add: run_phase_def)
  obtain w where "request P served (Request (run_request (wi_proto s))) s = Some (Ok EvCleanup, s\<lparr>wi_world := w, wi_proto := ?q\<rparr>)"
    "settled (mock_recv Q MtFinished ''MT_FINISHED'' (\<lambda>_. mock_send (reply Q MtFinished) (Ended (Ok tables)))) w"
    using run_answered [OF _ Nil(2) st] Nil(1) by (auto simp: mock_finish_def)
  then show ?case
    by (subst run_udf.simps)
      (auto simp: run_turn_def wire_request_def on_wire_def io_bind_cases host intro!: exI [of _ "[]"])
next
  case (Cons pend pends)
  from turn_runs [OF _ Cons.prems(2) _ assms(4) Cons.prems(4)] Cons.prems(1,3) obtain s1 ts where
    turn: "run_turn H served vt meta (s, u) = Some (Ok None, s1, u)" "run_phase s1"
    "settled (mock_cycles Q (map (map (mock_frame Q)) pends) (tables @ ts) (mock_finish Q)) (wi_world s1)"
    "carried ocols (out_of f (rows_of_batches icols pend)) ts" by fastforce
  from Cons.IH [OF turn(3,2)] Cons.prems(3,4) obtain s' tss where
    "run_udf H served vt meta (s1, u) = Some (Ok (), s', u)"
    "settled (mock_recv Q MtFinished ''MT_FINISHED'' (\<lambda>_. mock_send (reply Q MtFinished)
      (Ended (Ok ((tables @ ts) @ concat tss))))) (wi_world s')"
    "list_all2 (\<lambda>pend ts. carried ocols (out_of f (rows_of_batches icols pend)) ts) pends tss" by fastforce
  moreover from this(1) have "run_udf H served vt meta (s, u) = Some (Ok (), s', u)"
    using turn(1) by (subst run_udf.simps) (simp add: io_bind_cases)
  ultimately show ?case
    using turn(4) by (intro exI [of _ s'] exI [of _ "ts # tss"]) simp
qed

section \<open>The session\<close>

lemma handshake_runs:
  assumes "settled (mock_handshake Q so_path script metadata p) (wi_world s)" "wi_proto s = protocol_new"
    and "\<not> em_single_call_mode metadata"
  shows "\<exists>s1 s2. wire_send P served (Request (client_request client protocol_new)) s = Some (Ok (), s1) \<and>
    handshake P served s1 = Some (Ok (udf_meta_from_pb metadata (mock_info so_path script)), s2) \<and>
    run_phase s2 \<and> settled p (wi_world s2)"
proof -
  let ?info = "response_default\<lparr>rs_type := mt_i32 MtInfo, rs_connection_id := MOCK_CONN_ID,
    rs_info := Some (mock_info so_path script)\<rparr>"
  let ?meta = "response_default\<lparr>rs_type := mt_i32 MtMeta, rs_connection_id := MOCK_CONN_ID, rs_meta := Some metadata\<rparr>"
  define p1 where "p1 = mock_recv Q MtMeta ''MT_META'' (\<lambda>_. mock_send (encode_response Q ?meta) p)"
  have read: "decode_response P (encode_response Q ?info) = Ok ?info" "decode_response P (encode_response Q ?meta) = Ok ?meta"
    by (rule response_read; simp add: response_default_def)+
  let ?q = "protocol_new\<lparr>pr_connection_id := MOCK_CONN_ID, pr_pending_info := Some (mock_info so_path script)\<rparr>"
  let ?r = "protocol_new\<lparr>pr_connection_id := MOCK_CONN_ID, pr_phase := PRun\<rparr>"
  have steps: "step ?info protocol_new = (Ok (EvPending, Some MetaRequest), ?q)"
    "step ?meta ?q = (Ok (EvMeta (udf_meta_from_pb metadata (mock_info so_path script)), None), ?r)"
    using assms(3)
    by (simp_all add: step_def step_info_def step_meta_def protocol_new_def response_default_def Let_def)
  obtain f where f: "mock_recv Q MtClient ''MT_CLIENT'' (\<lambda>_. mock_send (encode_response Q ?info) p1) = Receive f"
    "f (Ok (encode_frame P (Request (client_request client protocol_new)))) = mock_send (encode_response Q ?info) p1"
    using recv_request [of "client_request client protocol_new" MtClient "''MT_CLIENT''" "\<lambda>_. mock_send (encode_response Q ?info) p1"]
    by (auto simp: client_request_def base_request_def)
  obtain w1 where w1: "wire_send P served (Request (client_request client protocol_new)) s = Some (Ok (), s\<lparr>wi_world := w1\<rparr>)"
    "answered (encode_response Q ?info) (\<lambda>r. case r of Inl e \<Rightarrow> Ended (Err (MockZmq e)) | Inr _ \<Rightarrow> p1) w1"
    using served_sends [where s = s and k = f and P = P, OF assms(1) [unfolded mock_handshake_def, folded p1_def, unfolded f(1)]
      f(2) [unfolded mock_send_def]] by blast
  obtain w2 where w2: "wire_recv P served (s\<lparr>wi_world := w1\<rparr>) = Some (Ok ?info, s\<lparr>wi_world := w2\<rparr>)" "settled p1 w2"
    using served_recvs [OF _ read(1), of _ "s\<lparr>wi_world := w1\<rparr>"] w1(2) by fastforce
  let ?s2 = "s\<lparr>wi_world := w2, wi_proto := ?q\<rparr>"
  obtain g where g: "p1 = Receive g" "g (Ok (encode_frame P (Request (meta_request ?q)))) = mock_send (encode_response Q ?meta) p"
    using recv_request [of "meta_request ?q" MtMeta "''MT_META''" "\<lambda>_. mock_send (encode_response Q ?meta) p"]
    by (auto simp: meta_request_def base_request_def p1_def)
  obtain w3 where w3: "wire_send P served (Request (meta_request ?q)) ?s2 = Some (Ok (), ?s2\<lparr>wi_world := w3\<rparr>)"
    "answered (encode_response Q ?meta) (\<lambda>r. case r of Inl e \<Rightarrow> Ended (Err (MockZmq e)) | Inr _ \<Rightarrow> p) w3"
    using served_sends [where s = ?s2 and k = g and P = P, OF _ g(2) [unfolded mock_send_def]] w2(2) [unfolded g(1)] by auto
  obtain w4 where w4: "wire_recv P served (?s2\<lparr>wi_world := w3\<rparr>) = Some (Ok ?meta, ?s2\<lparr>wi_world := w4\<rparr>)" "settled p w4"
    using served_recvs [OF _ read(2), of _ "?s2\<lparr>wi_world := w3\<rparr>"] w3(2) by fastforce
  have "handshake P served (?s2\<lparr>wi_world := w3\<rparr>) =
      Some (Ok (udf_meta_from_pb metadata (mock_info so_path script)), s\<lparr>wi_world := w4, wi_proto := ?r\<rparr>)"
    using w4(1) steps(2) by (subst handshake.simps) (simp add: io_bind_cases wire_step_def action_reply_def)
  then have "handshake P served (s\<lparr>wi_world := w1\<rparr>) =
      Some (Ok (udf_meta_from_pb metadata (mock_info so_path script)), s\<lparr>wi_world := w4, wi_proto := ?r\<rparr>)"
    using w2(1) w3(1) steps(1) assms(2)
    by (subst handshake.simps) (simp add: io_bind_cases wire_step_def action_reply_def)
  then show ?thesis using w1(1) w4(2) by (fastforce simp: run_phase_def)
qed

lemma finished_runs:
  assumes "settled (mock_recv Q MtFinished name (\<lambda>_. mock_send (reply Q MtFinished) p)) (wi_world s)"
  shows "\<exists>s'. send_finished P served s = Some (Ok (), s') \<and> settled p (wi_world s')"
proof -
  obtain f where f: "mock_recv Q MtFinished name (\<lambda>_. mock_send (reply Q MtFinished) p) = Receive f"
    "f (Ok (encode_frame P (Request (finished_reply (wi_proto s))))) = mock_send (reply Q MtFinished) p"
    using recv_request [of "finished_reply (wi_proto s)" MtFinished name "\<lambda>_. mock_send (reply Q MtFinished) p"]
    by (auto simp: finished_reply_def base_request_def)
  obtain w q where "request P served (Request (finished_reply (wi_proto s))) s =
      Some (Ok EvFinished, s\<lparr>wi_world := w, wi_proto := q\<rparr>)" "settled p w"
    using served_exchange [where s = s and k = f, OF assms [unfolded f(1)] f(2) [unfolded mock_send_def] reply_read step_finished]
    by auto
  then show ?thesis by (auto simp: send_finished_def io_bind_cases)
qed

text \<open>A whole session: the client returns without an error, and the mock ends with the tables of its
  cycles, which carry what the script puts out for each of them.\<close>

lemma session_runs:
  fixes R :: "(table_data list served, 'd, 't, 'u, 'j) runtime_env"
  assumes env: "re_host R = H" "re_zmq R = served" "\<And>l x. re_on_level_resolved R l x = x"
    and meta: "meta = udf_meta_from_pb metadata (mock_info so_path script)" "\<not> em_single_call_mode metadata"
    "cycle_meta icols ocols oiter meta" "parse_udf_object_path (um_source_code meta) = Some so_path"
    and udf: "open_udf (re_dlopen R) (re_fingerprint R) so_path script = Ok udf" "vt_cleanup (lu_vtable udf) = None"
    "validate_output_shape (lu_vtable udf) oiter = Ok ()" "validate_schema (re_serde R) (lu_vtable udf) meta = Ok ()"
    and batches: "list_all (good_batches icols) pends"
    "\<And>pend. pend \<in> set pends \<Longrightarrow> rows_of_batches icols pend \<noteq> [] \<Longrightarrow>
      group_law (lu_vtable udf) icols ocols oiter f (rows_of_batches icols pend) (so_statics (lu_lib udf))"
    and server: "settled (fixture_session Q so_path script metadata (map (map (mock_frame Q)) pends)) w"
  shows "\<exists>w' tss. runtime_run R endpoint client w = Some (Ok (), w') \<and> settled (Ended (Ok (concat tss))) w' \<and>
    list_all2 (\<lambda>pend ts. carried ocols (out_of f (rows_of_batches icols pend)) ts) pends tss"
proof -
  let ?s0 = "\<lparr>wi_world = w, wi_proto = protocol_new\<rparr>"
  have names: "um_script_name meta = script" "\<not> um_single_call_mode meta" "um_output_iter meta = oiter"
    using meta by (simp_all add: udf_meta_from_pb_def mock_info_def cycle_meta_def Let_def)
  obtain s1 s2 where hs: "wire_send P served (Request (client_request client protocol_new)) ?s0 = Some (Ok (), s1)"
    "handshake P served s1 = Some (Ok meta, s2)" "run_phase s2"
    "settled (mock_cycles Q (map (map (mock_frame Q)) pends) [] (mock_finish Q)) (wi_world s2)"
    using handshake_runs [of so_path script metadata "mock_cycles Q (map (map (mock_frame Q)) pends) [] (mock_finish Q)"
      ?s0 client, OF _ _ meta(2)] server
    unfolding fixture_session_def meta(1) by auto
  from cycles_run [OF hs(4,3) batches(1) meta(3) batches(2)] obtain s3 tss where
    cycles: "run_udf H served (lu_vtable udf) meta (s2, so_statics (lu_lib udf)) = Some (Ok (), s3, so_statics (lu_lib udf))"
    "settled (mock_recv Q MtFinished ''MT_FINISHED'' (\<lambda>_. mock_send (reply Q MtFinished) (Ended (Ok (concat tss))))) (wi_world s3)"
    "list_all2 (\<lambda>pend ts. carried ocols (out_of f (rows_of_batches icols pend)) ts) pends tss" by auto
  obtain s4 where s4: "send_finished P served s3 = Some (Ok (), s4)" "settled (Ended (Ok (concat tss))) (wi_world s4)"
    using finished_runs [OF cycles(2)] by blast
  have loaded: "run_loaded R udf meta s2 = Some (Ok (), s4)"
    using cycles(1) s4(1) names(2) udf(2) env(1,2)
    by (simp add: run_loaded_def dispatch_def run_hook_def cleanup_udf_def host Let_def io_bind_cases)
  have "resolve_level R meta s2 = Some (Ok (), s2)" by (simp add: resolve_level_def env(3))
  moreover have "run_with_meta R meta s2 = Some (Ok (), s4)"
    using loaded meta(4) udf(1,3,4) names by (simp add: run_with_meta_def Let_def)
  ultimately have "run_session R client ?s0 = Some (Ok (), s4)"
    using hs(1,2) env(1,2) by (simp add: run_session_def host io_bind_cases Let_def)
  moreover have "transport_connect served endpoint w = Some (Ok (), w)"
    by (simp add: transport_connect_def served_def zmq_call_def io_bind_cases)
  ultimately show ?thesis
    using s4(2) cycles(3)
    by (intro exI [of _ "wi_world s4"] exI [of _ tss]) (simp add: runtime_run_def env(2) io_bind_cases io_map_err_def map_err_def)
qed

end

end
