(* ===== verification/Mock_Facts.thy ===== *)
theory Mock_Facts
  imports Mock_Session Runtime_Facts
begin

text \<open>
  The fixture tests of the mock database (\<open>exa-mock-db/tests/fixtures.rs\<close>) for every input: a runtime
  that loads a fixture, against a mock that feeds it encoded integer columns, ends without an error
  and leaves the mock with what the fixture computes.
\<close>

section \<open>The batches of one integer column\<close>

definition int_table :: "table_data \<Rightarrow> bool" where
  "int_table t \<longleftrightarrow> td_rows t = length (td_int64 t) \<and> td_nulls t = replicate (td_rows t) False"

lemma decode_int_rows:
  assumes "int_table t" "ci_typ col = TInt64" "int64_idx cur = n" "n + left = td_rows t"
  shows "decode_rows E t [col] left n out cur = Ok (out @ map VInt64 (drop n (td_int64 t)))"
  using assms(3,4)
proof (induction left arbitrary: n out cur)
  case 0
  then show ?case using assms(1) by (simp add: int_table_def)
next
  case (Suc left)
  have "n < length (td_int64 t)" using Suc.prems(2) assms(1) by (simp add: int_table_def)
  then have "drop n (td_int64 t) = td_int64 t ! n # drop (Suc n) (td_int64 t)" by (simp add: Cons_nth_drop_Suc)
  then show ?case
    using Suc assms(1,2) \<open>n < _\<close>
    by (simp add: null_index_def decode_cell_def nth_or_def int_table_def)
qed

lemma slices_of_one: "map (\<lambda>i. slice (i * 1) (i * 1 + 1) xs) [0 ..< length xs] = map (\<lambda>x. [x]) xs"
  by (rule nth_equalityI) (simp_all add: slice_def take_Suc_conv_app_nth min_def flip: Cons_nth_drop_Suc)

lemma int_batch:
  assumes "int_table t" "ci_typ col = TInt64"
  shows "is_ok (from_proto E t [col])" "batch_rows E [col] t = map (\<lambda>v. [VInt64 v]) (td_int64 t)"
proof -
  have "decode_rows E t [col] (td_rows t) 0 [] (cursors_start t) = Ok (map VInt64 (td_int64 t))"
    by (subst decode_int_rows [OF assms]) (simp_all add: cursors_start_def)
  then obtain rs where rs: "from_proto E t [col] = Ok rs" "cells rs = map VInt64 (td_int64 t)" "n_cols rs = 1"
    "n_rows rs = td_rows t"
    by (simp add: from_proto_def decode_def Let_def)
  then show "is_ok (from_proto E t [col])" by (simp add: is_ok_def)
  show "batch_rows E [col] t = map (\<lambda>v. [VInt64 v]) (td_int64 t)"
    using rs assms(1) slices_of_one [of "map VInt64 (td_int64 t)"]
    by (simp add: batch_rows_def irs_rows_def int_table_def comp_def)
qed

lemma int_cycle:
  assumes "cycle_tables (int64_columns names (\<lambda>i. [f i])) rs n = (ts, n')"
  shows "list_all int_table ts \<and> concat (map td_int64 ts) = map f rs"
proof -
  let ?src = "int64_columns names (\<lambda>i. [f i])"
  let ?ok = "\<lambda>s. list_all int_table (fl_frames s) \<and> int_table (fl_table s)"
  have step: "?ok (fill_row ?src i s)" if "?ok s" for i s
    using that
    by (simp add: fill_row_def int64_columns_def push_int64s push_int64_def int_table_def table_default_def
        FIXED_CELL_BYTES_def Let_def replicate_append_same)
  have "?ok (fold (fill_row ?src) rs s)" if "?ok s" for s
    using that by (induction rs arbitrary: s) (simp_all add: step )
  from this [of "\<lparr>fl_frames = [], fl_table = table_default, fl_bytes = 0, fl_row_number = n\<rparr>"]
  have "list_all int_table ts"
    using assms by (auto simp: cycle_tables_def int_table_def table_default_def Let_def split: if_splits)
  then show ?thesis using cycle_tables_cover [OF assms] by simp
qed

lemma int_cycles:
  "list_all2 (\<lambda>rs ts. list_all int_table ts \<and> concat (map td_int64 ts) = map f rs) css
     (encode_cycles (int64_columns names (\<lambda>i. [f i])) css n)"
proof (induction css arbitrary: n)
  case (Cons c css)
  obtain ts n' where "cycle_tables (int64_columns names (\<lambda>i. [f i])) c n = (ts, n')"
    by (cases "cycle_tables (int64_columns names (\<lambda>i. [f i])) c n")
  then show ?case using int_cycle Cons by fastforce
qed simp

section \<open>The fixtures\<close>

text \<open>The vtable the macro generates for a RETURNS function without other hooks.\<close>

definition returns_vtable :: "('a \<Rightarrow> ('d, 't) host_value) \<Rightarrow> ('d, 't, 'a option) code \<Rightarrow> ('d, 't, unit) vtable" where
  "returns_vtable host body = \<lparr>vt_abi_version = EXA_UDF_ABI_VERSION, vt_fingerprint = FINGERPRINT,
     vt_run = lifecycle_shim (returns_body host (\<lambda>u. map_prog (\<lambda>e. (e, u)) body)), vt_cleanup = None,
     vt_default_output_columns = None, vt_virtual_schema_adapter_call = None,
     vt_generate_sql_for_import_spec = None, vt_generate_sql_for_export_spec = None,
     vt_annotated_input_schema = None, vt_annotated_output_schema = None, vt_output_shape = ShapeReturns\<rparr>"

lemma fixture_vtables [simp]:
  "vt_abi_version (returns_vtable hv p) = EXA_UDF_ABI_VERSION" "vt_abi_version (emits_vtable q) = EXA_UDF_ABI_VERSION"
  "vt_fingerprint (returns_vtable hv p) = FINGERPRINT" "vt_fingerprint (emits_vtable q) = FINGERPRINT"
  "vt_cleanup (returns_vtable hv p) = None" "vt_cleanup (emits_vtable q) = None"
  "vt_annotated_input_schema (returns_vtable hv p) = None" "vt_annotated_input_schema (emits_vtable q) = None"
  "vt_annotated_output_schema (returns_vtable hv p) = None" "vt_annotated_output_schema (emits_vtable q) = None"
  "vt_output_shape (returns_vtable hv p) = registered_shape (iter_from_pb PbExactlyOnce)"
  "vt_output_shape (emits_vtable q) = registered_shape (iter_from_pb PbMultiple)"
  by (simp_all add: returns_vtable_def emits_vtable_def registered_shape_def iter_from_pb_def)

definition fixture_runtime :: "('w, 'd, 't) host_env \<Rightarrow> 'w zmq \<Rightarrow> string \<Rightarrow> ('d, 't, unit) vtable \<Rightarrow>
    ('w, 'd, 't, unit, json_value) runtime_env" where
  "fixture_runtime H Z script vt = \<lparr>re_host = H, re_zmq = Z, re_serde = json_values,
     re_dlopen = (\<lambda>path. Ok \<lparr>so_entry = [entry_symbol script \<mapsto> Some vt], so_statics = ()\<rparr>),
     re_fingerprint = FINGERPRINT, re_on_level_resolved = (\<lambda>_ w. w)\<rparr>"

text \<open>The mock's side of a SET fixture over one column of integers: the handshake, the encoded cycles
  in turn, the end of the session.\<close>

definition set_fixture :: "prost_peer \<Rightarrow> string \<Rightarrow> string \<Rightarrow> pb_iter_type \<Rightarrow> (nat \<Rightarrow> i64) \<Rightarrow> nat \<Rightarrow> nat \<Rightarrow>
    table_data list server" where
  "set_fixture Q so_path script output_iter f n cycles =
     fixture_session Q so_path script (mock_metadata PbMultiple output_iter [int64_col ''x''] [int64_col ''y''])
       (encode Q (int64_columns [''x''] (\<lambda>i. [f i])) n cycles)"

definition served_start :: "'a server \<Rightarrow> 'a served" where
  "served_start p = \<lparr>sv_clock = 0, sv_sent = [], sv_received = [], sv_server = p\<rparr>"

lemma fingerprint_kept: "valid_utf8 FINGERPRINT" "trim_end_matches (CHR 0x00) (FINGERPRINT @ [CHR 0x00]) = FINGERPRINT"
  by code_simp+

lemma int64_column [simp]: "ci_typ (column_from_pb (int64_col name)) = TInt64"
  by (simp add: column_from_pb_def int64_col_def mock_column_def cd_type_get_def column_type_try_from_def Let_def)

lemma int_rows_fit: "row_fits E [column_from_pb (int64_col name)] [VInt64 n]"
  by (simp add: row_fits_def accepts_row_def column_accepts_def cell_block_defs row_block_def is_string_family_exatype_def)

context mock_session
begin

lemma carried_ints:
  assumes "carried [column_from_pb (int64_col name)] (map (\<lambda>v. [VInt64 v]) vs) ts"
  shows "int64_cells ts = vs \<and> collector_rows ts = length vs"
proof -
  obtain groups where g: "ts = map (table_data_of (he_ext H) [column_from_pb (int64_col name)]) groups"
    "map fst (concat groups) = map (\<lambda>v. [VInt64 v]) vs"
    using assms by (auto simp: carried_def)
  have "rows_block (cell_int64s (he_ext H)) [column_from_pb (int64_col name)] (map (\<lambda>v. [VInt64 v]) vs) = vs" for vs :: "i64 list"
    by (induction vs) (simp_all add: cell_block_defs value_to_i64_def)
  moreover have "int64_cells ts = rows_block (cell_int64s (he_ext H)) [column_from_pb (int64_col name)] (map fst (concat groups))"
    unfolding g(1) by (induction groups) (simp_all add: int64_cells_def table_data_of_def Let_def rows_block_def)
  moreover have "collector_rows ts = length (map fst (concat groups))"
    unfolding g(1) by (induction groups) (simp_all add: collector_rows_def table_data_of_def Let_def)
  ultimately show ?thesis unfolding g(2) by simp
qed

lemma emits_law:
  assumes "\<And>k tables b. feed.standing k tables icols ocols oiter None rs [] b \<Longrightarrow>
      \<exists>cur b'. run_prog (bridge_call (wire_env H)) body b = Some (Returned (Ok ()), b') \<and>
        feed.standing k tables icols ocols oiter cur [] (F rs) b'"
  shows "group_law (emits_vtable body) icols ocols oiter F rs ()"
  unfolding group_law_def
proof (intro allI impI)
  fix k tables and b assume "feed.standing k tables icols ocols oiter None rs [] b"
  from assms [OF this] obtain cur b' where run: "run_prog (bridge_call (wire_env H)) body b = Some (Returned (Ok ()), b')"
    and at_end: "feed.standing k tables icols ocols oiter cur [] (F rs) b'" by blast
  have "run_udf_code (bridge_call (wire_env H)) (emits_vtable body) (b, ()) = Some (Ok (), b', ())"
    using run_prog_map_Some [where f = lifecycle_end, OF run_prog_map_Some [where f = "\<lambda>e. (e, ())", OF run]]
    by (simp add: run_udf_code_def call_lifecycle_slot_def emits_vtable_def lifecycle_shim_def lifecycle_end_def)
  then show "\<exists>cur b'. run_udf_code (bridge_call (wire_env H)) (emits_vtable body) (b, ()) = Some (Ok (), b', ()) \<and>
      feed.standing k tables icols ocols oiter cur [] (F rs) b'" using at_end by blast
qed

lemma returns_law:
  assumes "\<And>k tables b. feed.standing k tables icols ocols oiter None rs [] b \<Longrightarrow>
      \<exists>cur b'. run_prog (bridge_call (wire_env H)) body b = Some (Returned (Ok ret), b') \<and>
        feed.standing k tables icols ocols oiter cur [] [] b'"
    and "row_fits (he_ext H) ocols [unwrap_or VNull (map_option (into_value \<circ> hv) ret)]"
  shows "group_law (returns_vtable hv body) icols ocols oiter
    (\<lambda>_. [[unwrap_or VNull (map_option (into_value \<circ> hv) ret)]]) rs ()"
  unfolding group_law_def
proof (intro allI impI)
  fix k tables and b assume "feed.standing k tables icols ocols oiter None rs [] b"
  from assms(1) [OF this] obtain cur b' where run: "run_prog (bridge_call (wire_env H)) body b = Some (Returned (Ok ret), b')"
    and at_end: "feed.standing k tables icols ocols oiter cur [] [] b'" by blast
  from feed.group.run_returns_body [where f = "\<lambda>u. map_prog (\<lambda>e. (e, u)) body" and host = hv,
      OF run_prog_map_Some [where f = "\<lambda>e. (e, ())", OF run] at_end] obtain b'' where
    returned: "run_prog (bridge_call (wire_env H)) (returns_body hv (\<lambda>u. map_prog (\<lambda>e. (e, u)) body) ()) b =
        Some ((Returned (Ok ()), ()), b'')"
      "feed.standing k tables icols ocols oiter cur [] [[unwrap_or VNull (map_option (into_value \<circ> hv) ret)]] b''"
    using assms(2) by auto
  have "run_udf_code (bridge_call (wire_env H)) (returns_vtable hv body) (b, ()) = Some (Ok (), b'', ())"
    using run_prog_map_Some [where f = lifecycle_end, OF returned(1)]
    by (simp add: run_udf_code_def call_lifecycle_slot_def returns_vtable_def lifecycle_shim_def lifecycle_end_def)
  then show "\<exists>cur b'. run_udf_code (bridge_call (wire_env H)) (returns_vtable hv body) (b, ()) = Some (Ok (), b', ()) \<and>
      feed.standing k tables icols ocols oiter cur [] [[unwrap_or VNull (map_option (into_value \<circ> hv) ret)]] b'"
    using returned(2) by blast
qed

text \<open>A SET fixture over integers, whatever it computes of a group.\<close>

lemma set_fixture_runs:
  fixes vt :: "('d, 't, unit) vtable"
  assumes path: "object_path so_path"
    and vt: "vt_abi_version vt = EXA_UDF_ABI_VERSION" "vt_fingerprint vt = FINGERPRINT" "vt_cleanup vt = None"
      "vt_annotated_input_schema vt = None" "vt_annotated_output_schema vt = None"
      "vt_output_shape vt = registered_shape (iter_from_pb oit)"
    and law: "\<And>c. c \<noteq> [] \<Longrightarrow> group_law vt [column_from_pb (int64_col ''x'')] [column_from_pb (int64_col ''y'')]
      (iter_from_pb oit) F (map (\<lambda>i. [VInt64 (f i)]) c) ()"
  shows "\<exists>w' tss. runtime_run (fixture_runtime H served script vt) endpoint client
      (served_start (set_fixture Q so_path script oit f n cycles)) = Some (Ok (), w') \<and>
    sv_server w' = Ended (Ok (concat tss)) \<and>
    list_all2 (\<lambda>c ts. carried [column_from_pb (int64_col ''y'')] (out_of F (map (\<lambda>i. [VInt64 (f i)]) c)) ts)
      (map (cycle_rows n cycles) [0 ..< cycles]) tss"
proof -
  let ?icols = "[column_from_pb (int64_col ''x'')]" and ?ocols = "[column_from_pb (int64_col ''y'')]"
  let ?css = "map (cycle_rows n cycles) [0 ..< cycles]"
  define pends where "pends = encode_cycles (int64_columns [''x''] (\<lambda>i. [f i])) ?css 0"
  define meta where "meta = udf_meta_from_pb (mock_metadata PbMultiple oit [int64_col ''x''] [int64_col ''y''])
    (mock_info so_path script)"
  let ?R = "fixture_runtime H served script vt"
  have cover: "list_all2 (\<lambda>rs ts. list_all int_table ts \<and> concat (map td_int64 ts) = map f rs) ?css pends"
    unfolding pends_def by (rule int_cycles)
  have batch: "good_batches ?icols ts \<and> rows_of_batches ?icols ts = map (\<lambda>v. [VInt64 v]) (concat (map td_int64 ts))"
    if "list_all int_table ts" for ts
    using that by (induction ts) (simp_all add: good_batches_def rows_of_batches_def int_batch)
  have rows: "list_all2 (\<lambda>c pend. good_batches ?icols pend \<and> rows_of_batches ?icols pend = map (\<lambda>i. [VInt64 (f i)]) c) ?css pends"
    using cover by (rule list_all2_mono) (auto simp: batch comp_def)
  have iter: "pb_iter_get (pb_iter_i32 it) = it" for it
    by (cases it) (simp_all add: pb_iter_get_def pb_iter_i32_def pb_iter_type_try_from_def)
  have meta: "cycle_meta ?icols ?ocols (iter_from_pb oit) meta" "um_source_code meta = ''%udf_object '' @ so_path"
    by (simp_all add: meta_def cycle_meta_def udf_meta_from_pb_def mock_metadata_def mock_info_def iter iter_from_pb_def [of PbMultiple])
  have udf: "open_udf (re_dlopen ?R) (re_fingerprint ?R) so_path script =
      Ok \<lparr>lu_lib = \<lparr>so_entry = [entry_symbol script \<mapsto> Some vt], so_statics = ()\<rparr>, lu_vtable = vt\<rparr>"
    using vt(1,2) by (simp add: open_udf_def fixture_runtime_def fingerprint_kept Let_def)
  have "\<exists>w' tss. runtime_run ?R endpoint client (served_start (set_fixture Q so_path script oit f n cycles)) = Some (Ok (), w') \<and>
      settled (Ended (Ok (concat tss))) w' \<and>
      list_all2 (\<lambda>pend ts. carried ?ocols (out_of F (rows_of_batches ?icols pend)) ts) pends tss"
  proof (rule session_runs [OF _ _ _ meta_def _ meta(1) _ udf])
    show "validate_schema (re_serde ?R) (lu_vtable \<lparr>lu_lib = \<lparr>so_entry = [entry_symbol script \<mapsto> Some vt], so_statics = ()\<rparr>,
        lu_vtable = vt\<rparr>) meta = Ok ()"
      using vt by (simp add: validate_schema_def annotated_input_schema_def annotated_output_schema_def c_str_opt_def)
    show "list_all (good_batches ?icols) pends"
      using rows by (auto simp: list_all_length list_all2_conv_all_nth)
    show "settled (fixture_session Q so_path script (mock_metadata PbMultiple oit [int64_col ''x''] [int64_col ''y''])
        (map (map (mock_frame Q)) pends)) (served_start (set_fixture Q so_path script oit f n cycles))"
      by (simp add: settled_def served_start_def set_fixture_def encode_def pends_def)
    show "group_law (lu_vtable \<lparr>lu_lib = \<lparr>so_entry = [entry_symbol script \<mapsto> Some vt], so_statics = ()\<rparr>, lu_vtable = vt\<rparr>)
        ?icols ?ocols (iter_from_pb oit) F (rows_of_batches ?icols pend) (so_statics (lu_lib
        \<lparr>lu_lib = \<lparr>so_entry = [entry_symbol script \<mapsto> Some vt], so_statics = ()\<rparr>, lu_vtable = vt\<rparr>))"
      if mem: "pend \<in> set pends" and ne: "rows_of_batches ?icols pend \<noteq> []" for pend
    proof -
      obtain i where i: "i < length pends" "pend = pends ! i" using mem by (auto simp: in_set_conv_nth)
      define c where "c = ?css ! i"
      have "rows_of_batches ?icols pend = map (\<lambda>i. [VInt64 (f i)]) c"
        using list_all2_nthD2 [OF rows i(1)] i(2) by (simp only: c_def)
      then show ?thesis using law [of c] ne by simp
    qed
  qed (use object_path_read [OF path] vt in \<open>simp_all add: fixture_runtime_def mock_metadata_def meta(2) validate_output_shape_def\<close>)
  then obtain w' tss where "runtime_run ?R endpoint client (served_start (set_fixture Q so_path script oit f n cycles)) = Some (Ok (), w')"
    "settled (Ended (Ok (concat tss))) w'"
    "list_all2 (\<lambda>pend ts. carried ?ocols (out_of F (rows_of_batches ?icols pend)) ts) pends tss" by blast
  moreover from list_all2_trans [OF _ rows this(3)]
  have "list_all2 (\<lambda>c ts. carried ?ocols (out_of F (map (\<lambda>i. [VInt64 (f i)]) c)) ts) ?css tss" by auto
  ultimately show ?thesis by (auto simp: settled_def)
qed

lemma list_all2_filtered:
  assumes "list_all2 (\<lambda>c ts. g ts = (if p c then h c else [])) cs tss"
  shows "concat (map g tss) = concat (map h (filter p cs))"
  using assms by (induction rule: list_all2_induct) simp_all

lemma int64_cells_concat: "int64_cells (concat tss) = concat (map int64_cells tss)"
  by (induction tss) (simp_all add: int64_cells_def)

lemma set_sum_served:
  assumes "object_path so_path"
  shows "\<exists>w' tables. runtime_run (fixture_runtime H served script (returns_vtable OfI64 (set_sum (he_ext H)))) endpoint client
      (served_start (set_fixture Q so_path script PbExactlyOnce f n cycles)) = Some (Ok (), w') \<and>
    sv_server w' = Ended (Ok tables) \<and>
    int64_cells tables = map (\<lambda>c. sum_list (map f c)) (filter (\<lambda>c. c \<noteq> []) (map (cycle_rows n cycles) [0 ..< cycles]))"
proof -
  let ?vt = "returns_vtable OfI64 (set_sum (he_ext H))" and ?css = "map (cycle_rows n cycles) [0 ..< cycles]"
  let ?icols = "[column_from_pb (int64_col ''x'')]" and ?ocols = "[column_from_pb (int64_col ''y'')]"
  let ?total = "\<lambda>rs :: ('d, 't) sql_value list list. word_of_int (sum_list (map first_int rs)) :: i64"
  have ints: "first_int [VInt64 v] = sint v" "int_row [VInt64 v]" for v
    using sint_range_size [of v] by (auto simp: first_int_def int_row_def int_of_value_def word_size)
  have total: "?total (map (\<lambda>i. [VInt64 (f i)]) c) = sum_list (map f c)" for c
    by (induction c) (simp_all add: ints wi_hom_add [symmetric] of_int_sint)
  have law: "group_law ?vt ?icols ?ocols (iter_from_pb PbExactlyOnce) (\<lambda>rs. [[VInt64 (?total rs)]])
      (map (\<lambda>i. [VInt64 (f i)]) c) ()" for c
  proof -
    let ?rs = "map (\<lambda>i. [VInt64 (f i)]) c"
    have "group_law ?vt ?icols ?ocols (iter_from_pb PbExactlyOnce)
        (\<lambda>_. [[unwrap_or VNull (map_option (into_value \<circ> OfI64) (Some (?total ?rs)))]]) ?rs ()"
      by (rule returns_law, rule feed.group.run_set_sum) (auto simp: list_all_iff ints int_rows_fit)
    then show ?thesis by (simp add: group_law_def)
  qed
  from set_fixture_runs [OF assms fixture_vtables(1,3,5,7,9,11) law] obtain w' tss where
    session: "runtime_run (fixture_runtime H served script ?vt) endpoint client
      (served_start (set_fixture Q so_path script PbExactlyOnce f n cycles)) = Some (Ok (), w')"
    "sv_server w' = Ended (Ok (concat tss))"
    and cells: "list_all2 (\<lambda>c ts. carried ?ocols (out_of (\<lambda>rs. [[VInt64 (?total rs)]]) (map (\<lambda>i. [VInt64 (f i)]) c)) ts) ?css tss"
    by blast
  have "list_all2 (\<lambda>c ts. int64_cells ts = (if c \<noteq> [] then [sum_list (map f c)] else [])) ?css tss"
    using cells
  proof (rule list_all2_mono)
    fix c ts assume "carried ?ocols (out_of (\<lambda>rs. [[VInt64 (?total rs)]]) (map (\<lambda>i. [VInt64 (f i)]) c)) ts"
    then have "carried ?ocols (map (\<lambda>v. [VInt64 v]) (if c \<noteq> [] then [sum_list (map f c)] else [])) ts"
      by (cases "c = []") (simp_all add: out_of_def flip: total)
    from carried_ints [OF this] show "int64_cells ts = (if c \<noteq> [] then [sum_list (map f c)] else [])" ..
  qed
  from list_all2_filtered [OF this]
  have "int64_cells (concat tss) = map (\<lambda>c. sum_list (map f c)) (filter (\<lambda>c. c \<noteq> []) ?css)"
    by (simp add: int64_cells_concat)
  then show ?thesis using session by blast
qed

lemma set_filter_served:
  assumes "object_path so_path" "0 < cycles"
  shows "\<exists>w' tables. runtime_run (fixture_runtime H served script (emits_vtable set_filter)) endpoint client
      (served_start (set_fixture Q so_path script PbMultiple f n cycles)) = Some (Ok (), w') \<and>
    sv_server w' = Ended (Ok tables) \<and> int64_cells tables = filter (\<lambda>v. 0 < sint v) (map f [0 ..< n])"
proof -
  let ?css = "map (cycle_rows n cycles) [0 ..< cycles]"
  let ?icols = "[column_from_pb (int64_col ''x'')]" and ?ocols = "[column_from_pb (int64_col ''y'')]"
  let ?rows = "\<lambda>vs. map (\<lambda>v. [VInt64 v]) vs :: ('d, 't) sql_value list list"
  let ?pass = "\<lambda>rs :: ('d, 't) sql_value list list. map (\<lambda>r. [r ! 0]) (filter passed rs)"
  have ints: "passed [VInt64 v] \<longleftrightarrow> 0 < sint v" "int_row [VInt64 v]" for v
    using sint_range_size [of v] by (auto simp: passed_def int_row_def int_of_value_def word_size)
  have passes: "?pass (?rows vs) = ?rows (filter (\<lambda>v. 0 < sint v) vs)" for vs
    by (induction vs) (simp_all add: ints)
  have appended: "fold (\<lambda>vals out. out @ [vals]) rs out = out @ rs" for rs out :: "('d, 't) sql_value list list"
    by (induction rs arbitrary: out) simp_all
  have law: "group_law (emits_vtable set_filter) ?icols ?ocols (iter_from_pb PbMultiple) ?pass (map (\<lambda>i. [VInt64 (f i)]) c) ()" for c
  proof (rule emits_law)
    fix k tables and b
    assume "feed.standing k tables ?icols ?ocols (iter_from_pb PbMultiple) None (map (\<lambda>i. [VInt64 (f i)]) c) [] b"
    from feed.group.run_set_filter [OF this]
    show "\<exists>cur b'. run_prog (bridge_call (wire_env H)) set_filter b = Some (Returned (Ok ()), b') \<and>
        feed.standing k tables ?icols ?ocols (iter_from_pb PbMultiple) cur [] (?pass (map (\<lambda>i. [VInt64 (f i)]) c)) b'"
      by (simp add: appended list_all_iff ints int_rows_fit iter_from_pb_def)
  qed
  from set_fixture_runs [OF assms(1) fixture_vtables(2,4,6,8,10,12) law] obtain w' tss where
    session: "runtime_run (fixture_runtime H served script (emits_vtable set_filter)) endpoint client
      (served_start (set_fixture Q so_path script PbMultiple f n cycles)) = Some (Ok (), w')"
    "sv_server w' = Ended (Ok (concat tss))"
    and cells: "list_all2 (\<lambda>c ts. carried ?ocols (out_of ?pass (map (\<lambda>i. [VInt64 (f i)]) c)) ts) ?css tss"
    by blast
  have "list_all2 (\<lambda>c ts. int64_cells ts = (if True then filter (\<lambda>v. 0 < sint v) (map f c) else [])) ?css tss"
    using cells
  proof (rule list_all2_mono)
    fix c ts assume "carried ?ocols (out_of ?pass (map (\<lambda>i. [VInt64 (f i)]) c)) ts"
    then have "carried ?ocols (?rows (filter (\<lambda>v. 0 < sint v) (map f c))) ts"
      using passes [of "map f c"] by (cases "c = []") (simp_all add: out_of_def comp_def)
    from carried_ints [OF this] show "int64_cells ts = (if True then filter (\<lambda>v. 0 < sint v) (map f c) else [])" by simp
  qed
  from list_all2_filtered [OF this]
  have "int64_cells (concat tss) = filter (\<lambda>v. 0 < sint v) (map f (concat ?css))"
    by (simp add: int64_cells_concat map_concat filter_concat comp_def)
  moreover have "concat ?css = [0 ..< n]" using assms(2) by (simp add: cycles_partition)
  ultimately show ?thesis using session by auto
qed

end

section \<open>Sessions of the fixtures\<close>

text \<open>C10: Whatever integers the mock encodes and however it cuts them into cycles and frames, a session of
  the \<open>set_sum\<close> fixture ends without an error on both sides, and the tables the mock collected hold
  one cell for each cycle that has rows: the sum of the cycle's integers.\<close>

theorem set_sum_against_mock:
  assumes "mock_session P Q H" "object_path so_path"
  shows "\<exists>w' tables. runtime_run (fixture_runtime H served script (returns_vtable OfI64 (set_sum (he_ext H)))) endpoint client
      (served_start (set_fixture Q so_path script PbExactlyOnce f n cycles)) = Some (Ok (), w') \<and>
    sv_server w' = Ended (Ok tables) \<and>
    int64_cells tables = map (\<lambda>c. sum_list (map f c)) (filter (\<lambda>c. c \<noteq> []) (map (cycle_rows n cycles) [0 ..< cycles]))"
  by (rule mock_session.set_sum_served [OF assms])

definition fixture_host :: "(table_data list served, int, int) host_env" where
  "fixture_host = \<lparr>he_prost = full_protobuf, he_ext = sample_ext, he_dbg_data = (\<lambda>_. ''..''),
     he_dbg_type = (\<lambda>_. ''..''), he_dbg_event = (\<lambda>_. ''..''), he_getifaddrs = Pair (Ok []),
     he_open_connection = (\<lambda>_. io_fail (ConnectBack ''no driver'')),
     he_level_filter = (\<lambda>_. Some LevelInfo)\<rparr>"

interpretation fixtures: mock_session full_protobuf protobuf_peer fixture_host
  by (intro mock_session.intro full_protobuf.peer_wire_axioms mock_session_axioms.intro) (simp add: fixture_host_def)

theorem set_sum_against_mock_witness:
  "\<exists>w' tables. runtime_run (fixture_runtime fixture_host served ''SET_SUM'' (returns_vtable OfI64 (set_sum sample_ext)))
      ''ipc'' ''mock-test'' (served_start (set_fixture protobuf_peer ''/set_sum.so'' ''SET_SUM'' PbExactlyOnce
        (\<lambda>i. of_nat i + 1) 10 2)) = Some (Ok (), w') \<and>
    sv_server w' = Ended (Ok tables) \<and> int64_cells tables = [15, 40]"
proof -
  have path: "object_path ''/set_sum.so''" by code_simp
  have "filter (\<lambda>c. c \<noteq> []) (map (cycle_rows 10 2) [0 ..< 2]) = [[0, 1, 2, 3, 4], [5, 6, 7, 8, 9]]"
    by (simp add: cycle_rows_def upt_rec)
  moreover have "he_ext fixture_host = sample_ext" by (simp add: fixture_host_def)
  ultimately show ?thesis
    using set_sum_against_mock [OF fixtures.mock_session_axioms path, where f = "\<lambda>i. of_nat i + 1" and n = 10 and cycles = 2
      and script = "''SET_SUM''" and endpoint = "''ipc''" and client = "''mock-test''"]
    by simp
qed

text \<open>C11: A session of the \<open>set_filter\<close> fixture ends without an error on both sides and leaves the mock
  with the positive integers, in order, however they were cut into cycles and frames.\<close>

theorem set_filter_against_mock:
  assumes "mock_session P Q H" "object_path so_path" "0 < cycles"
  shows "\<exists>w' tables. runtime_run (fixture_runtime H served script (emits_vtable set_filter)) endpoint client
      (served_start (set_fixture Q so_path script PbMultiple f n cycles)) = Some (Ok (), w') \<and>
    sv_server w' = Ended (Ok tables) \<and> int64_cells tables = filter (\<lambda>v. 0 < sint v) (map f [0 ..< n])"
  by (rule mock_session.set_filter_served [OF assms])

theorem set_filter_against_mock_witness:
  "\<exists>w' tables. runtime_run (fixture_runtime fixture_host served ''SET_FILTER'' (emits_vtable set_filter))
      ''ipc'' ''mock-test'' (served_start (set_fixture protobuf_peer ''/set_filter.so'' ''SET_FILTER'' PbMultiple
        (\<lambda>i. of_nat i - 2) 5 3)) = Some (Ok (), w') \<and>
    sv_server w' = Ended (Ok tables) \<and> int64_cells tables = [1, 2]"
proof -
  have path: "object_path ''/set_filter.so''" by code_simp
  have "filter (\<lambda>v. 0 < sint v) (map (\<lambda>i. of_nat i - 2 :: i64) [0 ..< 5]) = [1, 2]" by (simp add: upt_rec)
  then show ?thesis
    using set_filter_against_mock [OF fixtures.mock_session_axioms path, where f = "\<lambda>i. of_nat i - 2" and n = 5 and cycles = 3
      and script = "''SET_FILTER''" and endpoint = "''ipc''" and client = "''mock-test''"]
    by simp
qed



end
