(* ===== verification/Udf_Facts.thy ===== *)
theory Udf_Facts
  imports Mock_Facts Test_Support
begin

text \<open>
  The properties of UDF code and of what surrounds it: the types of the cells it reads, the contexts it
  runs on, the checks before it runs, the errors it ends with, and the specifications it is handed.
\<close>

section \<open>The types of the cells\<close>

definition has_type :: "exa_type \<Rightarrow> ('d, 't) sql_value \<Rightarrow> bool" where
  "has_type ty v \<longleftrightarrow> v = VNull \<or> (case ty of
      TInt32 \<Rightarrow> (\<exists>i. v = VInt32 i)
    | TInt64 \<Rightarrow> (\<exists>i. v = VInt64 i)
    | TNumeric _ _ \<Rightarrow> (\<exists>d. v = VNumeric d)
    | TDouble \<Rightarrow> (\<exists>x. v = VDouble x)
    | TBoolean \<Rightarrow> (\<exists>b. v = VBool b)
    | TDate \<Rightarrow> (\<exists>d. v = VDate d)
    | TTimestamp _ \<Rightarrow> (\<exists>t. v = VTimestamp t)
    | TString _ \<Rightarrow> (\<exists>s. v = VString s)
    | TChar _ \<Rightarrow> (\<exists>s. v = VString s)
    | TUnsupported \<Rightarrow> False)"

lemma has_type_Null [simp]: "has_type ty VNull"
  by (simp add: has_type_def)

abbreviation typed_row :: "column_info list \<Rightarrow> ('d, 't) sql_value list \<Rightarrow> bool" where
  "typed_row cols vs \<equiv> list_all2 (\<lambda>col. has_type (ci_typ col)) cols vs"

lemma decode_string_block_typed:
  "is_string_family_exatype ty \<Longrightarrow> has_type ty (decode_string_block E ty s)"
  by (cases ty) (auto simp: has_type_def decode_string_block_def is_string_family_exatype_def
      split: sum.split option.split)

lemma decode_cell_typed:
  assumes "decode_cell E table r c ty cur = Ok (v, cur')"
  shows "has_type ty v"
  using assms decode_string_block_typed [of ty E]
  by (cases ty) (auto simp: decode_cell_def Let_def has_type_def is_string_family_exatype_def split: if_splits)

lemma decode_row_typed:
  assumes "decode_row E table width r c cols out cur = Ok (out', cur')"
  shows "\<exists>vs. out' = out @ vs \<and> typed_row cols vs"
  using assms
proof (induction cols arbitrary: c out cur)
  case (Cons col cols)
  show ?case
  proof (cases "nth_or False (td_nulls table) (null_index r c width)")
    case True
    then obtain vs where "out' = (out @ [VNull]) @ vs" "typed_row cols vs"
      using Cons.prems Cons.IH by fastforce
    then show ?thesis by (intro exI [of _ "VNull # vs"]) simp
  next
    case False
    then obtain v cur1 where v: "decode_cell E table r c (ci_typ col) cur = Ok (v, cur1)"
      "decode_row E table width r (c + 1) cols (out @ [v]) cur1 = Ok (out', cur')"
      using Cons.prems by (auto simp: rbind_eq_Inr)
    then obtain vs where "out' = (out @ [v]) @ vs" "typed_row cols vs" using Cons.IH by blast
    then show ?thesis using decode_cell_typed [OF v(1)] by (intro exI [of _ "v # vs"]) simp
  qed
qed simp

lemma decode_rows_typed:
  assumes "decode_rows E table meta left r out cur = Ok out'"
  shows "\<exists>rs. out' = out @ concat rs \<and> length rs = left \<and> list_all (typed_row meta) rs"
  using assms
proof (induction left arbitrary: r out cur)
  case (Suc left)
  then obtain out1 cur1 where one: "decode_row E table (length meta) r 0 meta out cur = Ok (out1, cur1)"
    "decode_rows E table meta left (r + 1) out1 cur1 = Ok out'"
    by (auto simp: rbind_eq_Inr)
  obtain vs where "out1 = out @ vs" "typed_row meta vs" using decode_row_typed [OF one(1)] by blast
  moreover obtain rs where "out' = out1 @ concat rs" "length rs = left" "list_all (typed_row meta) rs"
    using Suc.IH [OF one(2)] by blast
  ultimately show ?case by (intro exI [of _ "vs # rs"]) simp
qed simp

lemma slice_concat:
  assumes "list_all (\<lambda>r. length r = w) rs" "i < length rs"
  shows "slice (i * w) (i * w + w) (concat rs) = rs ! i"
  using assms
proof (induction rs arbitrary: i)
  case (Cons r rs)
  then show ?case by (cases i) (simp_all add: slice_def add.commute)
qed simp

text \<open>C28: Whatever the database sends, a batch that decodes has the announced number of rows, each as wide
  as the columns, and every cell is NULL or of its column's type.\<close>

theorem decoded_cells_typed:
  assumes "from_proto E table cols = Ok rs"
  shows "length (irs_rows rs) = td_rows table \<and> list_all (typed_row cols) (irs_rows rs)"
proof -
  obtain out where out: "decode_rows E table cols (td_rows table) 0 [] (cursors_start table) = Ok out"
    "cells rs = out" "n_rows rs = td_rows table" "n_cols rs = length cols"
    using assms by (auto simp: from_proto_def decode_def Let_def rbind_eq_Inr)
  obtain vss where vss: "out = concat vss" "length vss = td_rows table" "list_all (typed_row cols) vss"
    using decode_rows_typed [OF out(1)] by auto
  then have "list_all (\<lambda>r. length r = length cols) vss" by (auto simp: list_all_iff) (metis list_all2_lengthD)
  then have "irs_rows rs = vss"
    unfolding irs_rows_def using out vss(1,2) by (intro nth_equalityI) (simp_all add: slice_concat)
  then show ?thesis using vss by simp
qed

theorem decoded_cells_typed_witness:
  "\<exists>rs. from_proto sample_ext (table_default\<lparr>td_rows := 2, td_int64 := [7], td_nulls := [False, True]\<rparr>)
      [sample_column ''B'' TInt64] = Ok rs \<and> length (irs_rows rs) = 2 \<and>
    list_all (typed_row [sample_column ''B'' TInt64]) (irs_rows rs)"
proof -
  have "\<exists>rs. from_proto sample_ext (table_default\<lparr>td_rows := 2, td_int64 := [7], td_nulls := [False, True]\<rparr>)
      [sample_column ''B'' TInt64] = Ok rs"
    by (simp add: from_proto_def decode_def Let_def decode_cell_def null_index_def nth_or_def sample_column_def
        table_default_def cursors_start_def numeral_2_eq_2)
  then show ?thesis using decoded_cells_typed by fastforce
qed

section \<open>The contexts\<close>

text \<open>C27: UDF code cannot change the configuration of its bridge, whatever it calls in whatever order, and
  the output that stays buffered never reaches the flush threshold; in a scalar call it stays on its
  row.\<close>

theorem code_keeps_bridge:
  assumes "run_prog (bridge_call H) code b = Some (x, b')"
  shows "same_setup b b' \<and> (cx_input_iter b = ExactlyOnce \<longrightarrow> br_input b' = br_input b) \<and>
    (buffered b < EMIT_BUFFER_LIMIT_BYTES \<longrightarrow> buffered b' < EMIT_BUFFER_LIMIT_BYTES)"
  using bridge.run_keeps [OF assms] by (simp add: bridge_inv_def)

theorem code_keeps_bridge_witness:
  "\<exists>b'. run_prog (bridge_call (wire_env sample_host)) (ctx_emit [VInt64 7]) sample_group = Some (Returned (Ok ()), b') \<and>
     same_setup sample_group b' \<and> buffered b' < EMIT_BUFFER_LIMIT_BYTES"
proof -
  obtain buf where "bridge_call (wire_env sample_host) (EmitRow [VInt64 7]) sample_group =
      Some (RUnit (Ok ()), sample_group\<lparr>br_emit_buf := buf\<rparr>)"
    using sample_pushed by blast
  then have run: "run_prog (bridge_call (wire_env sample_host)) (ctx_emit [VInt64 7]) sample_group =
      Some (Returned (Ok ()), sample_group\<lparr>br_emit_buf := buf\<rparr>)"
    by (simp add: ctx_emit_def unit_end_def)
  have "buffered sample_group < EMIT_BUFFER_LIMIT_BYTES"
    by (simp add: buffered_def sample_group_def group_bridge_def bridge_new_def configure_group_input_def Let_def
        emit_buffer_new_def)
  then show ?thesis using code_keeps_bridge [OF run] run by blast
qed

text \<open>C36: \<open>get_i64\<close> yields an integer exactly when the cell holds that integer and it fits 64 bits, whatever
  the wire type it came in.\<close>

theorem get_i64_exact:
  "get_i64 E (Ok v) = Ok (Some i) \<longleftrightarrow> int_of_value v = Some (sint i)"
  by (rule get_i64_value)

text \<open>C26: What a unit test sees on the SDK's double is what the database receives: the rows \<open>set_filter\<close>
  emits on \<open>TestContext::set\<close> are those a whole session delivers, however the input is cut.\<close>

theorem double_predicts_database:
  fixes H :: "(table_data list served, 'd, 't) host_env"
  assumes "mock_session P Q H" "object_path so_path" "0 < cycles"
  shows "\<exists>c w' tables. run_prog (test_call :: (('d, 't) test_context, 'd, 't) handler) set_filter
      (set_group (map (\<lambda>i. [VInt64 (f i)]) [0 ..< n])) = Some (Returned (Ok ()), c) \<and>
    runtime_run (fixture_runtime H served script (emits_vtable set_filter)) endpoint client
      (served_start (set_fixture Q so_path script PbMultiple f n cycles)) = Some (Ok (), w') \<and>
    sv_server w' = Ended (Ok tables) \<and> tc_emitted c = map (\<lambda>v. [VInt64 v]) (int64_cells tables)"
proof -
  let ?rs = "map (\<lambda>i. [VInt64 (f i)]) [0 ..< n] :: ('d, 't) sql_value list list"
  have ints: "passed [VInt64 v] \<longleftrightarrow> 0 < sint v" "int_row [VInt64 v]" for v
    using sint_range_size [of v] by (auto simp: passed_def int_row_def int_of_value_def word_size)
  have "list_all (\<lambda>r. int_row r \<and> True) ?rs" by (simp add: list_all_iff ints)
  from double.run_set_filter [OF test_stands_set this] obtain cur c where
    run: "run_prog test_call set_filter (set_group ?rs) = Some (Returned (Ok ()), c)"
    and stands: "test_stands cur [] (fold (\<lambda>vals (rs, v). (rs @ [vals], v)) (map (\<lambda>r. [r ! 0]) (filter passed ?rs)) ([], None)) c"
    by blast
  have appended: "fold (\<lambda>vals (rs, v). (rs @ [vals], v)) new (rs, v) = (rs @ new, v)"
    for new rs :: "('d, 't) sql_value list list" and v :: "('d, 't) sql_value option option"
    by (induction new arbitrary: rs) simp_all
  have echoed: "map (\<lambda>r. [r ! 0]) (filter passed ?rs) = map (\<lambda>v. [VInt64 v]) (filter (\<lambda>v. 0 < sint v) (map f [0 ..< n]))"
    by (induction n) (simp_all add: ints)
  have "tc_emitted c = map (\<lambda>v. [VInt64 v]) (filter (\<lambda>v. 0 < sint v) (map f [0 ..< n]))"
    using stands unfolding echoed appended by (simp add: test_stands_def)
  then show ?thesis
    using run mock_session.set_filter_served [OF assms, of script endpoint client f n] by metis
qed

theorem double_predicts_database_witness:
  "\<exists>c w' tables. run_prog test_call set_filter (set_group [[VInt64 (-1)], [VInt64 0], [VInt64 1]] :: (int, int) test_context) =
      Some (Returned (Ok ()), c) \<and>
    runtime_run (fixture_runtime fixture_host served ''SET_FILTER'' (emits_vtable set_filter)) ''ipc'' ''mock-test''
      (served_start (set_fixture protobuf_peer ''/set_filter.so'' ''SET_FILTER'' PbMultiple (\<lambda>i. of_nat i - 1) 3 2)) =
      Some (Ok (), w') \<and>
    sv_server w' = Ended (Ok tables) \<and> tc_emitted c = map (\<lambda>v. [VInt64 v]) (int64_cells tables)"
proof -
  have path: "object_path ''/set_filter.so''" by code_simp
  have "map (\<lambda>i. [VInt64 (of_nat i - 1)]) [0 ..< 3] = ([[VInt64 (-1)], [VInt64 0], [VInt64 1]] :: (int, int) sql_value list list)"
    by (simp add: upt_rec)
  then show ?thesis
    using double_predicts_database [OF fixtures.mock_session_axioms path, where f = "\<lambda>i. of_nat i - 1" and n = 3 and cycles = 2
      and script = "''SET_FILTER''" and endpoint = "''ipc''" and client = "''mock-test''"]
    by simp
qed

text \<open>C38: A reload that fails does not leave an empty batch behind: the cells are gone but the row count and
  the cursor are those of the batch before, so code that goes on after the error of \<open>next\<close> panics in
  \<open>get\<close>.\<close>

theorem failed_reload_then_get_panics:
  assumes "from_proto E table cols = Err e" "cur_row (br_input b) < n_rows (br_input b)" "0 < n_cols (br_input b)"
  shows "fst (reload E table cols (br_input b)) = Err e \<and>
    bridge_get col (b\<lparr>br_input := snd (reload E table cols (br_input b))\<rparr>) = RPanic"
  using assms by (simp add: reload_def from_proto_def bridge_get_def current_row_def row_def)

theorem failed_reload_then_get_panics_witness:
  "bridge_get 0 (sample_group\<lparr>br_input := snd (reload sample_ext
      (table_default\<lparr>td_rows := 1, td_string := [[CHR 0xFF]], td_nulls := [False]\<rparr>)
      [sample_column ''S'' (TString 10)] (br_input sample_group))\<rparr>) = RPanic"
proof -
  have "\<exists>e. from_proto sample_ext (table_default\<lparr>td_rows := 1, td_string := [[CHR 0xFF]], td_nulls := [False]\<rparr>)
      [sample_column ''S'' (TString 10)] = Err e"
    by (simp add: from_proto_def decode_def Let_def decode_cell_def null_index_def nth_or_def sample_column_def
        table_default_def cursors_start_def byte_def)
  then obtain e where "from_proto sample_ext (table_default\<lparr>td_rows := 1, td_string := [[CHR 0xFF]], td_nulls := [False]\<rparr>)
      [sample_column ''S'' (TString 10)] = Err e" ..
  from failed_reload_then_get_panics [OF this, of sample_group 0] show ?thesis
    by (simp add: sample_group_def group_bridge_def bridge_new_def configure_group_input_def Let_def)
qed

section \<open>Errors\<close>

lemma write_plain_c_string: "CHR 0x00 \<notin> set t \<Longrightarrow> write_c_string t = t"
  by (induction t) (auto simp: write_c_string_def)



definition schema_refused :: "('w, 'd, 't, 'u, 'j) runtime_env \<Rightarrow> udf_meta \<Rightarrow> bool" where
  "schema_refused R meta \<longleftrightarrow> (case parse_udf_object_path (um_source_code meta) of
      None \<Rightarrow> False
    | Some so_path \<Rightarrow> (case open_udf (re_dlopen R) (re_fingerprint R) so_path (um_script_name meta) of
        Inl _ \<Rightarrow> False
      | Inr udf \<Rightarrow> (um_single_call_mode meta \<or> is_ok (validate_output_shape (lu_vtable udf) (um_output_iter meta))) \<and>
          \<not> is_ok (validate_schema (re_serde R) (lu_vtable udf) meta)))"

lemma close_with_sends:
  assumes "close_with P Z code err s = Some (Inl e, s')"
  shows "e = err \<and> (\<exists>r. wire_send P Z (Request (error_close_request code (show_runtime_error err) (wi_proto s))) s = Some (r, s'))"
  using assms by (auto simp: close_with_def io_bind_Err io_try_def)

lemma run_loaded_closes:
  assumes "run_loaded R udf meta s = Some (Err e, s')"
  shows "\<exists>s1. close_with (he_prost (re_host R)) (re_zmq R) UDF_ERROR_CLOSE_CODE e s1 =
    Some (Err e :: (runtime_error, unit) result, s')"
proof -
  obtain d s1 u1 where d: "dispatch R (lu_vtable udf) meta (s, so_statics (lu_lib udf)) = Some (d, s1, u1)"
    using assms by (auto simp: run_loaded_def Let_def bind_eq_Some_conv)
  obtain c s2 u2 where c: "run_hook (wire_env (re_host R)) (lu_vtable udf) meta d (s1, u1) = Some (c, s2, u2)"
    using assms d by (auto simp: run_loaded_def Let_def bind_eq_Some_conv)
  obtain outcome s3 where "io_bind (io_lift c) (\<lambda>_. send_finished (he_prost (re_host R)) (re_zmq R)) s2 = Some (outcome, s3)"
    using assms d c by (auto simp: run_loaded_def Let_def bind_eq_Some_conv)
  then have "(case outcome of
      Inl e \<Rightarrow> close_with (he_prost (re_host R)) (re_zmq R) UDF_ERROR_CLOSE_CODE e s3
    | Inr _ \<Rightarrow> Some (Ok (), s3)) = Some (Err e, s')"
    using assms d c by (simp add: run_loaded_def Let_def)
  then show ?thesis using close_with_sends by (cases outcome) fastforce+
qed

lemma run_with_meta_closes:
  assumes "run_with_meta R meta s = Some (Err e, s')"
  shows "\<exists>s1. close_with (he_prost (re_host R)) (re_zmq R) (if schema_refused R meta then 1001 else 9001) e s1 =
    Some (Err e :: (runtime_error, unit) result, s')"
proof (cases "parse_udf_object_path (um_source_code meta)")
  case None
  then have closed: "close_with (he_prost (re_host R)) (re_zmq R) 9001 no_udf_object s = Some (Err e :: (runtime_error, unit) result, s')"
    using assms by (simp add: run_with_meta_def Let_def UDF_ERROR_CLOSE_CODE_def)
  then show ?thesis using None close_with_sends [OF closed] by (auto simp: schema_refused_def)
next
  case (Some so_path)
  show ?thesis
  proof (cases "open_udf (re_dlopen R) (re_fingerprint R) so_path (um_script_name meta)")
    case (Inl err)
    then have closed: "close_with (he_prost (re_host R)) (re_zmq R) 9001 err s = Some (Err e :: (runtime_error, unit) result, s')"
      using assms Some by (simp add: run_with_meta_def Let_def UDF_ERROR_CLOSE_CODE_def)
    then show ?thesis using Some Inl close_with_sends [OF closed] by (auto simp: schema_refused_def)
  next
    case (Inr udf)
    let ?shape = "if um_single_call_mode meta then Ok () else validate_output_shape (lu_vtable udf) (um_output_iter meta)"
    show ?thesis
    proof (cases ?shape)
      case (Inl err)
      then have closed: "close_with (he_prost (re_host R)) (re_zmq R) 9001 err s = Some (Err e :: (runtime_error, unit) result, s')"
        using assms Some Inr by (simp add: run_with_meta_def Let_def UDF_ERROR_CLOSE_CODE_def)
      then show ?thesis
        using Some Inr Inl close_with_sends [OF closed] by (auto simp: schema_refused_def is_ok_def split: if_splits)
    next
      case shape: (Inr _)
      show ?thesis
      proof (cases "validate_schema (re_serde R) (lu_vtable udf) meta")
        case (Inl err)
        then have closed: "close_with (he_prost (re_host R)) (re_zmq R) 1001 err s = Some (Err e :: (runtime_error, unit) result, s')"
          using assms Some Inr shape by (simp add: run_with_meta_def Let_def SCHEMA_MISMATCH_CLOSE_CODE_def)
        then show ?thesis
          using Some Inr shape Inl close_with_sends [OF closed] by (auto simp: schema_refused_def is_ok_def split: if_splits)
      next
        case schema: (Inr _)
        then have "run_loaded R udf meta s = Some (Err e, s')"
          using assms Some Inr shape by (simp add: run_with_meta_def Let_def)
        from run_loaded_closes [OF this] show ?thesis
          using Some Inr schema by (simp add: schema_refused_def UDF_ERROR_CLOSE_CODE_def is_ok_def)
      qed
    qed
  qed
qed

text \<open>C29: A session refused or failed after the handshake always ends with an attempt to send one
  \<open>MT_CLOSE\<close> that carries the text of its error, under code 1001 when the annotated schema is at fault
  and 9001 otherwise; nothing is sent after it.\<close>

theorem failed_session_closes:
  assumes "run_with_meta R meta s = Some (Err e, s')"
  shows "\<exists>s1 r. wire_send (he_prost (re_host R)) (re_zmq R) (Request (error_close_request
      (if schema_refused R meta then 1001 else 9001) (show_runtime_error e) (wi_proto s1))) s1 = Some (r, s')"
  using run_with_meta_closes [OF assms] close_with_sends by blast

theorem failed_session_closes_witness:
  "\<exists>s' s1 r. run_with_meta sample_runtime (sample_udf_meta\<lparr>um_source_code := []\<rparr>) (sample_wire_state ''F'' running_protocol) =
      Some (Err no_udf_object, s') \<and>
    wire_send session_prost scripted (Request (error_close_request 9001 (show_runtime_error no_udf_object) (wi_proto s1))) s1 =
      Some (r, s')"
proof -
  let ?meta = "sample_udf_meta\<lparr>um_source_code := []\<rparr>" and ?s = "sample_wire_state ''F'' running_protocol"
  have "scripted.idle (wi_world ?s)" by (simp add: scripted.idle_def sample_wire_state_def)
  note sent = scripted_send [OF this]
  have none: "parse_udf_object_path [] = None" by (simp add: parse_udf_object_path_def lines_def)
  have "\<exists>s'. run_with_meta sample_runtime ?meta ?s = Some (Err no_udf_object, s')"
    by (simp add: run_with_meta_def none close_with_def Let_def io_bind_cases io_try_def sent)
  then obtain s' where run: "run_with_meta sample_runtime ?meta ?s = Some (Err no_udf_object, s')" ..
  have "\<not> schema_refused sample_runtime ?meta" "he_prost (re_host sample_runtime) = session_prost" "re_zmq sample_runtime = scripted"
    by (simp_all add: schema_refused_def none sample_host_def)
  then show ?thesis using failed_session_closes [OF run] run by auto
qed

text \<open>C39: A frame the handshake has no use for - connection information, a retry hint - does not get ignored:
  the loop receives again without having sent, which a \<open>REQ\<close> socket refuses, so the session fails.\<close>

theorem stray_handshake_frame_fails:
  assumes "req_socket Z sent received" "wire_recv P Z s = Some (Ok resp, s1)"
    and "wire_step resp s1 = Some (Ok (ev, None), s2)" "\<forall>m. ev \<noteq> EvMeta m" "\<forall>msg. ev \<noteq> EvClose msg"
    and "handshake P Z s = Some (r, s')"
  shows "\<exists>e. r = Err e"
proof -
  have idle: "length (sent (wi_world s1)) = length (received (wi_world s1))"
    using assms(2) req_socket.transport_recv_once [OF assms(1), of P "wi_world s"]
    by (fastforce simp: wire_recv_def on_world_cases req_socket.idle_def [OF assms(1)])
  have same: "wi_world s2 = wi_world s1" using assms(3) by (auto simp: wire_step_cases)
  have "handshake P Z s2 = Some (r, s')"
    using assms(3-6) by (subst (asm) handshake.simps) (simp add: io_bind_cases assms(2) action_reply_def split: host_event.splits)
  moreover have "\<nexists>resp' s3. wire_recv P Z s2 = Some (Ok resp', s3)"
    using req_socket.transport_recv_once [OF assms(1), of P "wi_world s2"] idle same
    by (fastforce simp: wire_recv_def on_world_cases req_socket.idle_def [OF assms(1)])
  ultimately show ?thesis
    by (cases r) (auto simp: handshake.simps [of P Z s2] io_bind_Ok)
qed

theorem stray_handshake_frame_fails_witness:
  "\<exists>e s'. handshake session_prost scripted (db_queue ''c'' (sample_wire_state ''KIM'' protocol_new)) = Some (Err e, s')"
proof -
  let ?s = "db_queue ''c'' (sample_wire_state ''KIM'' protocol_new)" and ?K = "sample_reply (CHR ''K'')"
  have recv: "wire_recv session_prost scripted ?s = Some (Ok ?K, db_answer ''K'' [''I'', ''M''] ?s)"
    by (rule scripted_recv) (simp_all add: db_queue_def sample_wire_state_def)
  obtain ev p where st: "step ?K protocol_new = (Ok (ev, None), p)" "\<forall>m. ev \<noteq> EvMeta m" "\<forall>msg. ev \<noteq> EvClose msg"
    unfolding step_def Let_def sample_replies by (simp add: step_import_def sample_reply_def Let_def)
  have step_s: "wire_step ?K (db_answer ''K'' [''I'', ''M''] ?s) =
      Some (Ok (ev, None), (db_answer ''K'' [''I'', ''M''] ?s)\<lparr>wi_proto := p\<rparr>)"
    using st(1) by (simp add: wire_step_def db_answer_def db_queue_def sample_wire_state_def)
  have "\<exists>e s'. wire_recv session_prost scripted ((db_answer ''K'' [''I'', ''M''] ?s)\<lparr>wi_proto := p\<rparr>) = Some (Err e, s')"
    by (simp add: wire_recv_def on_world_def transport_recv_def retry_transient_def scripted_def retry_loop.simps
        db_recv_def io_bind_cases db_answer_def db_queue_def sample_wire_state_def EFSM_def is_transient_timeout_def)
  then obtain e s' where again: "wire_recv session_prost scripted ((db_answer ''K'' [''I'', ''M''] ?s)\<lparr>wi_proto := p\<rparr>) = Some (Err e, s')"
    by blast
  have "handshake session_prost scripted ((db_answer ''K'' [''I'', ''M''] ?s)\<lparr>wi_proto := p\<rparr>) = Some (Err e, s')"
    by (subst handshake.simps) (simp add: io_bind_cases again)
  then have run: "handshake session_prost scripted ?s = Some (Err e, s')"
    using st(2,3) by (subst handshake.simps) (simp add: io_bind_cases recv step_s action_reply_def split: host_event.split)
  show ?thesis
    using stray_handshake_frame_fails [OF scripted.req_socket_axioms recv step_s st(2,3) run] run by blast
qed

section \<open>Specifications and schemas\<close>

text \<open>C33: The specification hooks see what the database sent: the JSON the runtime prints for an import or an
  export specification is read back by the SDK with every field, present or absent.\<close>

theorem specifications_roundtrip:
  assumes "json J"
  shows "import_from_json J err (serialize_import J i) = Ok (import_view i) \<and>
    export_from_json J err (serialize_export J e) = Ok (export_view e)"
  using json.import_roundtrip [OF assms] json.export_roundtrip [OF assms] by blast

theorem specifications_roundtrip_witness:
  "import_from_json json_values (\<lambda>_. ''e'') (serialize_import json_values \<lparr>is_is_subselect = True,
      is_connection_information = None, is_connection_name = Some ''C'', is_subselect_column_specification = [],
      is_parameters = [\<lparr>kv_key = ''k'', kv_value = ''v''\<rparr>]\<rparr>) =
    Ok \<lparr>im_is_subselect = True, im_connection_information = None, im_connection_name = Some ''C'',
      im_subselect_column_specification = [], im_parameters = [\<lparr>sp_key = ''k'', sp_value = ''v''\<rparr>]\<rparr>"
  using specifications_roundtrip [OF json_values.json_axioms]
  by (simp add: import_view_def parameter_of_pair_def)



text \<open>C35: An object the macro built loads under the name it was built for and no other, and passes the shape
  check exactly for the output its function has.\<close>

theorem macro_object_loads:
  assumes "exasol_udf fp upper ident sections f = Ok (symbol, vt)" "parse_annotations sections annotations_default = Ok a"
    and "valid_utf8 fp" "trim_end_matches (CHR 0x00) (fp @ [CHR 0x00]) = fp"
    and "dlopen path = Ok lib" "so_entry lib = [symbol \<mapsto> Some vt]"
  shows "(is_ok (open_udf dlopen fp path script) \<longleftrightarrow> script = udf_name upper (an_name a) ident) \<and>
    (validate_output_shape vt oiter = Ok () \<longleftrightarrow> (oiter = ExactlyOnce \<longleftrightarrow> fn_shape f = ShapeReturns))"
proof -
  have vt: "symbol = entry_symbol (udf_name upper (an_name a) ident)" "vt_abi_version vt = EXA_UDF_ABI_VERSION"
    "vt_fingerprint vt = fp" "vt_output_shape vt = fn_shape f"
    using assms(1,2) by (auto simp: exasol_udf_def rbind_eq_Inr)
  have "entry_symbol script = symbol \<longleftrightarrow> script = udf_name upper (an_name a) ident"
    by (auto simp: vt(1) entry_symbol_def)
  then have "is_ok (open_udf dlopen fp path script) \<longleftrightarrow> script = udf_name upper (an_name a) ident"
    using assms(3-6) vt(2,3) by (simp add: open_udf_def Let_def is_ok_def)
  moreover have "validate_output_shape vt oiter = Ok () \<longleftrightarrow> (oiter = ExactlyOnce \<longleftrightarrow> fn_shape f = ShapeReturns)"
    by (cases oiter; cases "fn_shape f") (simp_all add: validate_output_shape_def vt(4) registered_shape_def Let_def)
  ultimately show ?thesis by blast
qed

theorem macro_object_loads_witness:
  "\<exists>vt. exasol_udf FINGERPRINT id ''RUN'' [] (EmitsFn (\<lambda>u. Finish (Returned (Ok ()), u)) :: (int, int, unit) udf_fn) = Ok (entry_symbol ''RUN'', vt) \<and>
    is_ok (open_udf (\<lambda>_. Ok \<lparr>so_entry = [entry_symbol ''RUN'' \<mapsto> Some vt], so_statics = ()\<rparr>) FINGERPRINT ''/u.so'' ''RUN'') \<and>
    validate_output_shape vt Multiple = Ok ()"
proof -
  let ?f = "EmitsFn (\<lambda>u. Finish (Returned (Ok ()), u)) :: (int, int, unit) udf_fn"
  obtain vt where vt: "exasol_udf FINGERPRINT id ''RUN'' [] ?f = Ok (entry_symbol ''RUN'', vt)"
    by (simp add: exasol_udf_def annotations_default_def schema_ptr_def udf_name_def)
  show ?thesis
    using macro_object_loads [OF vt _ fingerprint_kept, of annotations_default "\<lambda>_. Ok \<lparr>so_entry = [entry_symbol ''RUN'' \<mapsto> Some vt], so_statics = ()\<rparr>"
      "''/u.so''" "\<lparr>so_entry = [entry_symbol ''RUN'' \<mapsto> Some vt], so_statics = ()\<rparr>" "''RUN''" Multiple] vt
    by (intro exI [of _ vt]) (simp add: udf_name_def annotations_default_def fn_shape_def)
qed

end
