(* ===== verification/Plugin.thy ===== *)
theory Plugin
  imports Runtime_Facts "HOL-Library.List_Lexorder"
begin

text \<open>
  The \<open>cargo exasol-udf\<close> plugin (\<open>cargo-exasol-udf/src\<close>): what it reads from a shared object
  (\<open>elf.rs\<close>), the surface of the container it holds that against (\<open>slc_surface.rs\<close>), the \<open>validate\<close>
  command, the \<open>build\<close> command's arguments, manifest scan and schema sidecar, and the crate \<open>new\<close>
  lays out. Reading a file, the ELF parser, \<open>dlopen\<close> and the texts of their errors are
  parameters; a command returns the lines it printed with its result.
\<close>

section \<open>Text\<close>

text \<open>\<open>s.split_once(c)\<close> and \<open>s.trim_matches(c)\<close>.\<close>

definition split_once :: "char \<Rightarrow> string \<Rightarrow> (string \<times> string) option" where
  "split_once c s = map_option (\<lambda>i. (take i s, drop (i + 1) s)) (find_char c s)"

definition trim_matches :: "char \<Rightarrow> string \<Rightarrow> string" where
  "trim_matches c s = trim_end_matches c (dropWhile (\<lambda>x. x = c) s)"

definition NEWLINE :: char where
  "NEWLINE = CHR 0x0A"

text \<open>A text of whole lines splits into them.\<close>

definition text_of_lines :: "string list \<Rightarrow> string" where
  "text_of_lines ls = concat (map (\<lambda>l. l @ [NEWLINE]) ls)"

definition line_ok :: "string \<Rightarrow> bool" where
  "line_ok l \<longleftrightarrow> NEWLINE \<notin> set l \<and> (l \<noteq> [] \<longrightarrow> last l \<noteq> char_of (13 :: nat))"

lemma newline_char: "char_of (10 :: nat) = NEWLINE"
  by (simp add: NEWLINE_def char_of_byte byte_def)

lemma lines_aux_line: "NEWLINE \<notin> set l \<Longrightarrow> lines_aux acc (l @ NEWLINE # t) = strip_cr (acc @ l) # lines_aux [] t"
  by (induction l arbitrary: acc) (auto simp: newline_char)

lemma lines_of_text: "list_all line_ok ls \<Longrightarrow> lines (text_of_lines ls) = ls"
  unfolding lines_def text_of_lines_def
  by (induction ls) (auto simp: lines_aux_line line_ok_def strip_cr_def)

lemma lines_cons:
  assumes "line_ok l"
  shows "lines (l @ NEWLINE # t) = l # lines t"
  using assms by (auto simp: lines_def lines_aux_line line_ok_def strip_cr_def)

lemma trim_visible_ends:
  assumes "visible (hd s)" "visible (last s)" "s \<noteq> []"
  shows "trim s = s"
proof -
  obtain a r where s: "s = a # r" using assms(3) by (cases s) auto
  have "trim_start s = s" using assms(1) s by (simp add: trim_start_visible)
  moreover have "trim_end s = s"
    using trim_end_visible [OF assms(2), of "butlast s"] assms(3) by simp
  ultimately show ?thesis by (simp add: trim_def)
qed

lemma trim_Nil [simp]: "trim [] = []"
  by (simp add: trim_def trim_start.simps trim_end.simps)

lemma trim_end_newline:
  assumes "visible c"
  shows "trim_end (s @ [c, NEWLINE]) = s @ [c]"
proof -
  obtain r where ws: "white_space = [CHR 0x09] # [NEWLINE] # r"
    unfolding white_space_def by (simp add: NEWLINE_def char_of_byte byte_def)
  have "ws_len_end (s @ [c, NEWLINE]) = 1"
    by (simp add: ws ws_len_end_def NEWLINE_def)
  then show ?thesis
    using trim_end_visible [OF assms, of s] by (subst trim_end.simps) simp
qed

section \<open>glibc versions (\<open>elf.rs\<close>)\<close>

datatype glibc_version = GlibcVersion (version_components: "nat list")

text \<open>The derived order is that of the component vectors.\<close>

instantiation glibc_version :: linorder
begin

definition less_eq_glibc_version :: "glibc_version \<Rightarrow> glibc_version \<Rightarrow> bool" where
  "less_eq_glibc_version a b \<longleftrightarrow> version_components a \<le> version_components b"

definition less_glibc_version :: "glibc_version \<Rightarrow> glibc_version \<Rightarrow> bool" where
  "less_glibc_version a b \<longleftrightarrow> version_components a < version_components b"

instance
  by standard (auto simp: less_eq_glibc_version_def less_glibc_version_def glibc_version.expand)

end

definition glibc_parse :: "string \<Rightarrow> glibc_version option" where
  "glibc_parse text = map_option GlibcVersion (those (map parse_u32 (split_char (CHR ''.'') text)))"

definition show_glibc :: "glibc_version \<Rightarrow> string" where
  "show_glibc v = join_with ''.'' (map show_nat (version_components v))"

section \<open>The shared object (\<open>elf.rs\<close>)\<close>

text \<open>The facts \<open>goblin\<close> parses, as far as they are read.\<close>

record elf_symbol =
  st_shndx :: nat
  st_name :: nat

record elf =
  e_type :: nat
  e_libraries :: "string list"
  e_dynsyms :: "elf_symbol list"
  e_dynstr :: "nat \<Rightarrow> string option"
  e_verneed :: "nat list list option"

definition ET_DYN :: nat where
  "ET_DYN = 3"

definition SHN_UNDEF :: nat where
  "SHN_UNDEF = 0"

record udf_artifact =
  ar_udf_names :: "string list"
  ar_needed_sonames :: "string list"
  ar_max_glibc_version :: "glibc_version option"

datatype elf_error = Unreadable string string | NotASharedObject string string

definition show_elf_error :: "elf_error \<Rightarrow> string" where
  "show_elf_error e = (case e of
      Unreadable path reason \<Rightarrow> ''reading '' @ quoted path @ '': '' @ reason
    | NotASharedObject path reason \<Rightarrow>
        quoted path @ '' is not a parseable ELF shared object: '' @ reason)"

definition udf_entry_names :: "elf \<Rightarrow> string list" where
  "udf_entry_names e = List.map_filter (\<lambda>symbol_name. strip_prefix symbol_name ''__exa_udf_entry_'')
     (List.map_filter (\<lambda>symbol. e_dynstr e (st_name symbol))
       (filter (\<lambda>symbol. st_shndx symbol \<noteq> SHN_UNDEF) (e_dynsyms e)))"

definition referenced_version_names :: "elf \<Rightarrow> string list" where
  "referenced_version_names e = (case e_verneed e of
      None \<Rightarrow> []
    | Some verneed \<Rightarrow> concat (map (List.map_filter (e_dynstr e)) verneed))"

definition max_glibc_version :: "string list \<Rightarrow> glibc_version option" where
  "max_glibc_version names = fold (\<lambda>v best. case best of None \<Rightarrow> Some v | Some b \<Rightarrow> Some (max b v))
     (List.map_filter glibc_parse (List.map_filter (\<lambda>name. strip_prefix name ''GLIBC_'') names)) None"

text \<open>The environment of a command: \<open>std::fs::read\<close>, \<open>Elf::parse\<close>, \<open>et_to_str\<close>, \<open>dlopen\<close> with what
  each symbol answers, and the text of a UTF-8 error. Of the six slot pointers the probe lays out and
  never follows, only whether they are null is kept.\<close>

record vtable_probe =
  vp_abi_version :: nat
  vp_fingerprint :: "bytes option"
  vp_run :: bool
  vp_cleanup :: bool
  vp_default_output_columns :: bool
  vp_virtual_schema_adapter_call :: bool
  vp_generate_sql_for_import_spec :: bool
  vp_generate_sql_for_export_spec :: bool
  vp_annotated_input_schema :: "bytes option"
  vp_annotated_output_schema :: "bytes option"

record plugin_env =
  pe_read :: "string \<Rightarrow> (string, bytes) result"
  pe_parse :: "bytes \<Rightarrow> (string, elf) result"
  pe_et_to_str :: "nat \<Rightarrow> string"
  pe_dlopen :: "string \<Rightarrow> (string, string \<Rightarrow> vtable_probe option option) result"
  pe_utf8_error :: "bytes \<Rightarrow> string"
  pe_fingerprint :: string

definition shared_object_from :: "plugin_env \<Rightarrow> bytes \<Rightarrow> (string, udf_artifact) result" where
  "shared_object_from E bs = rbind (pe_parse E bs) (\<lambda>e.
     if e_type e \<noteq> ET_DYN then Err (''its ELF type is ET_'' @ pe_et_to_str E (e_type e) @ '', not ET_DYN'')
     else Ok \<lparr>ar_udf_names = udf_entry_names e, ar_needed_sonames = e_libraries e,
       ar_max_glibc_version = max_glibc_version (referenced_version_names e)\<rparr>)"

definition elf_read :: "plugin_env \<Rightarrow> string \<Rightarrow> (elf_error, udf_artifact) result" where
  "elf_read E path = rbind (map_err (Unreadable path) (pe_read E path)) (\<lambda>bs.
     map_err (NotASharedObject path) (shared_object_from E bs))"

section \<open>The container's surface (\<open>slc_surface.rs\<close>)\<close>

definition GLIBC_FLOOR_TEXT :: string where
  "GLIBC_FLOOR_TEXT = text_of_lines [''2.41'']"

definition LIBRARY_SURFACE_TEXT :: string where
  "LIBRARY_SURFACE_TEXT = text_of_lines [''libc.so.6'', ''libm.so.6'', ''libpthread.so.0'', ''libdl.so.2'',
     ''librt.so.1'', ''libnss_files.so.2'', ''libnss_dns.so.2'', ''libresolv.so.2'', ''libgcc_s.so.1'',
     ''libstdc++.so.6'', ''libssl.so.3'', ''libcrypto.so.3'', ''libz.so.1'', ''libbz2.so.1'', ''libbz2.so.1.0'',
     ''libzstd.so.1'']"

definition ALLOWED_SONAMES :: "string list" where
  "ALLOWED_SONAMES = filter (\<lambda>soname. soname \<noteq> []) (map trim (lines LIBRARY_SURFACE_TEXT))"

definition LOADER_SONAMES :: "string list" where
  "LOADER_SONAMES = [''ld-linux-x86-64.so.2'', ''ld-linux-aarch64.so.1'']"

definition VDSO_SONAME :: string where
  "VDSO_SONAME = ''linux-vdso.so.1''"

datatype floor_compliance = WithinFloor | ExceedsFloor

text \<open>The static's \<open>expect\<close> panics on a floor that does not parse; the committed one does
  (\<open>glibc_floor_value\<close>), so that branch never decides anything.\<close>

definition glibc_floor :: glibc_version where
  "glibc_floor = (case glibc_parse (trim GLIBC_FLOOR_TEXT) of Some v \<Rightarrow> v | None \<Rightarrow> GlibcVersion [])"

definition check_against_floor :: "glibc_version \<Rightarrow> floor_compliance" where
  "check_against_floor referenced = (if referenced \<le> glibc_floor then WithinFloor else ExceedsFloor)"

definition is_known_soname :: "string \<Rightarrow> bool" where
  "is_known_soname soname \<longleftrightarrow> soname = VDSO_SONAME \<or> soname \<in> set LOADER_SONAMES \<or> soname \<in> set ALLOWED_SONAMES"

definition unknown_sonames :: "string list \<Rightarrow> string list" where
  "unknown_sonames needed_sonames = filter (\<lambda>soname. \<not> is_known_soname soname) needed_sonames"

section \<open>The \<open>validate\<close> command (\<open>validate.rs\<close>)\<close>

type_synonym report = "string list \<times> (string, unit) result"

definition say :: "string \<Rightarrow> report" where
  "say line = ([line], Ok ())"

definition fail_with :: "string \<Rightarrow> report" where
  "fail_with e = ([], Err e)"

definition and_then :: "report \<Rightarrow> report \<Rightarrow> report" where
  "and_then a b = (case snd a of Inl e \<Rightarrow> a | Inr _ \<Rightarrow> (fst a @ fst b, snd b))"

lemma and_then_ok [simp]: "snd (and_then a b) = Ok () \<longleftrightarrow> snd a = Ok () \<and> snd b = Ok ()"
  by (auto simp: and_then_def split: sum.split)

lemma say_ok [simp]: "snd (say l) = Ok ()" "snd (fail_with e) \<noteq> Ok ()"
  by (simp_all add: say_def fail_with_def)

definition runtime_fingerprint :: "plugin_env \<Rightarrow> string" where
  "runtime_fingerprint E = trim_end_matches (CHR 0x00) (pe_fingerprint E @ [CHR 0x00])"

definition VALIDATE_USAGE :: string where
  "VALIDATE_USAGE = ''Usage: cargo exasol-udf validate <path-to-so> [--deny-unknown-deps]''"

definition unrecognized_argument :: "string \<Rightarrow> string" where
  "unrecognized_argument other = ''unrecognized argument '' @ quoted other @ ''. '' @ VALIDATE_USAGE"

fun validate_args :: "string list \<Rightarrow> string option \<Rightarrow> bool \<Rightarrow> (string, string option \<times> bool) result" where
  "validate_args [] path deny = Ok (path, deny)"
| "validate_args (arg # args) path deny =
     (if arg = ''--deny-unknown-deps'' then validate_args args path True
      else if starts_with arg ''--'' then Err (unrecognized_argument arg)
      else if path = None then validate_args args (Some arg) deny
      else Err (unrecognized_argument arg))"

definition parse_validate_args :: "string list \<Rightarrow> (string, string \<times> bool) result" where
  "parse_validate_args args = rbind (validate_args args None False) (\<lambda>(path, deny).
     rbind (ok_or VALIDATE_USAGE path) (\<lambda>path. Ok (path, deny)))"

definition report_glibc_floor :: "udf_artifact \<Rightarrow> string \<Rightarrow> report" where
  "report_glibc_floor artifact so_path = (case ar_max_glibc_version artifact of
      Some version \<Rightarrow>
        if check_against_floor version = ExceedsFloor
        then fail_with (quoted so_path @ '' references GLIBC_'' @ show_glibc version @
          '' which exceeds the SLC'' @ [CHR 0x27] @ ''s glibc floor '' @ show_glibc glibc_floor @
          ''; it cannot load in the container'')
        else say (''glibc: highest reference GLIBC_'' @ show_glibc version @ '' (SLC floor '' @
          show_glibc glibc_floor @ '')'')
    | None \<Rightarrow> say (''glibc: no GLIBC_x.y reference (SLC floor '' @ show_glibc glibc_floor @ '')''))"

definition report_dynamic_dependencies :: "udf_artifact \<Rightarrow> string \<Rightarrow> bool \<Rightarrow> report" where
  "report_dynamic_dependencies artifact so_path deny_unknown_deps =
     (let unknown_deps = unknown_sonames (ar_needed_sonames artifact) in
      if unknown_deps = []
      then say (''dependencies: '' @ join_with '', '' (ar_needed_sonames artifact) @
        '' (all within the SLC library surface)'')
      else if deny_unknown_deps
      then fail_with (quoted so_path @ '' links dependencies outside the SLC library surface: '' @
        join_with '', '' unknown_deps)
      else say (''warning: '' @ quoted so_path @ '' links dependencies outside the SLC library surface: '' @
        join_with '', '' unknown_deps))"

definition load_vtable_fields :: "plugin_env \<Rightarrow> string \<Rightarrow> string \<Rightarrow> (string, nat \<times> string) result" where
  "load_vtable_fields E so_path symbol = (case pe_dlopen E so_path of
      Inl e \<Rightarrow> Err (''dlopen '' @ quoted so_path @ '' failed: '' @ e)
    | Inr entry \<Rightarrow> (case entry symbol of
        None \<Rightarrow> Err (''symbol '' @ symbol @ '' not found in '' @ quoted so_path)
      | Some None \<Rightarrow> Err ''entry function returned null vtable pointer''
      | Some (Some vtable) \<Rightarrow> (case vp_fingerprint vtable of
          None \<Rightarrow> Err ''vtable fingerprint pointer is null''
        | Some fp \<Rightarrow>
            if valid_utf8 fp then Ok (vp_abi_version vtable, fp)
            else Err (''fingerprint is not valid UTF-8: '' @ pe_utf8_error E fp))))"

text \<open>What is wrong with one entry point, if anything.\<close>

definition entry_error :: "plugin_env \<Rightarrow> string \<Rightarrow> string \<Rightarrow> string option" where
  "entry_error E so_path name =
     (case load_vtable_fields E so_path (entry_symbol name) of
        Inl e \<Rightarrow> Some (''  '' @ name @ '': '' @ e)
      | Inr (abi_version, fingerprint) \<Rightarrow>
          if abi_version \<noteq> EXA_UDF_ABI_VERSION
          then Some (''  '' @ name @ '': ABI version mismatch '' @ EM_DASH @ '' .so has '' @
            show_nat abi_version @ '', runtime expects '' @ show_nat EXA_UDF_ABI_VERSION)
          else if fingerprint \<noteq> runtime_fingerprint E
          then Some (''  '' @ name @ '': SDK fingerprint mismatch '' @ EM_DASH @ '' .so has '' @
            quoted fingerprint @ '', runtime has '' @ quoted (runtime_fingerprint E))
          else None)"

definition verify_vtables :: "plugin_env \<Rightarrow> udf_artifact \<Rightarrow> string \<Rightarrow> report" where
  "verify_vtables E artifact so_path =
     (let errors = List.map_filter (entry_error E so_path) (ar_udf_names artifact);
          ok_names = filter (\<lambda>name. entry_error E so_path name = None) (ar_udf_names artifact)
      in if errors \<noteq> []
         then fail_with (''validation failed for '' @ quoted so_path @ '':'' @ [NEWLINE] @
           join_with [NEWLINE] errors)
         else (map (\<lambda>name. ''  '' @ name @ '': ABI version '' @ show_nat EXA_UDF_ABI_VERSION @
             '', fingerprint '' @ runtime_fingerprint E @ '' '' @ EM_DASH @ '' OK'') ok_names, Ok ()))"

definition CHECK_MARK :: string where
  "CHECK_MARK = [CHR 0xE2, CHR 0x9C, CHR 0x93]"

definition validate_run :: "plugin_env \<Rightarrow> string list \<Rightarrow> report" where
  "validate_run E args = (case parse_validate_args args of
      Inl e \<Rightarrow> fail_with e
    | Inr (so_path, deny_unknown_deps) \<Rightarrow> (case elf_read E so_path of
        Inl e \<Rightarrow> fail_with (show_elf_error e)
      | Inr artifact \<Rightarrow>
          if ar_udf_names artifact = []
          then fail_with (''no __exa_udf_entry_<NAME> entry point found in '' @ quoted so_path @
            ''; hint: rebuild against sdk >= 0.14.0'')
          else and_then (report_glibc_floor artifact so_path)
              (and_then (report_dynamic_dependencies artifact so_path deny_unknown_deps)
              (and_then (verify_vtables E artifact so_path)
              (say (CHECK_MARK @ '' '' @ show_nat (length (ar_udf_names artifact)) @
                '' UDF(s) validated in '' @ quoted so_path))))))"

section \<open>What \<open>validate\<close> decides\<close>

lemma glibc_floor_value: "glibc_floor = GlibcVersion [2, 41]"
proof -
  have vis: "visible (CHR ''1'')" "visible (CHR ''2'')" by (simp_all add: visible_def byte_def)
  have floor: "GLIBC_FLOOR_TEXT = ''2.4'' @ [CHR ''1'', NEWLINE]"
    by (simp add: GLIBC_FLOOR_TEXT_def text_of_lines_def)
  have "trim GLIBC_FLOOR_TEXT = ''2.41''"
    using trim_end_newline [OF vis(1), of "''2.4''"] by (simp add: floor trim_def trim_start_visible [OF vis(2)])
  moreover have "glibc_parse ''2.41'' = Some (GlibcVersion [2, 41])" by code_simp
  ultimately show ?thesis by (simp add: glibc_floor_def)
qed

lemma allowed_sonames: "ALLOWED_SONAMES = [''libc.so.6'', ''libm.so.6'', ''libpthread.so.0'', ''libdl.so.2'',
     ''librt.so.1'', ''libnss_files.so.2'', ''libnss_dns.so.2'', ''libresolv.so.2'', ''libgcc_s.so.1'',
     ''libstdc++.so.6'', ''libssl.so.3'', ''libcrypto.so.3'', ''libz.so.1'', ''libbz2.so.1'', ''libbz2.so.1.0'',
     ''libzstd.so.1'']" (is "_ = ?ls")
proof -
  have "list_all (\<lambda>l. line_ok l \<and> l \<noteq> [] \<and> visible (hd l) \<and> visible (last l)) ?ls" by code_simp
  then have ok: "list_all line_ok ?ls" "\<forall>l \<in> set ?ls. trim l = l" "\<forall>l \<in> set ?ls. l \<noteq> []"
    using trim_visible_ends unfolding list_all_iff by blast+
  then have "map trim (lines LIBRARY_SURFACE_TEXT) = ?ls"
    using map_idI [of ?ls trim] unfolding LIBRARY_SURFACE_TEXT_def lines_of_text [OF ok(1)] by blast
  then show ?thesis unfolding ALLOWED_SONAMES_def using ok(3) by (simp only: filter_True)
qed

lemma check_against_floor_exceeds: "check_against_floor v = ExceedsFloor \<longleftrightarrow> \<not> v \<le> GlibcVersion [2, 41]"
  by (simp add: check_against_floor_def glibc_floor_value)

lemma map_filter_Nil_iff: "List.map_filter f xs = [] \<longleftrightarrow> list_all (\<lambda>x. f x = None) xs"
  by (induction xs) (auto simp: map_filter_simps split: option.split)

lemma max_fold:
  "fold (\<lambda>v best. case best of None \<Rightarrow> Some v | Some b \<Rightarrow> Some (max b v)) vs (Some (b :: 'a :: linorder)) =
    Some (Max (insert b (set vs)))"
proof (induction vs arbitrary: b)
  case (Cons v vs)
  have "Max (insert (max b v) (set vs)) = Max (insert b (insert v (set vs)))"
    by (cases "set vs = {}") (simp_all add: max.assoc)
  then show ?case by (simp add: Cons.IH)
qed simp

lemma max_glibc_version_le:
  "(case max_glibc_version names of None \<Rightarrow> True | Some v \<Rightarrow> v \<le> bound) \<longleftrightarrow>
    (\<forall>name \<in> set names. \<forall>text v. strip_prefix name ''GLIBC_'' = Some text \<longrightarrow> glibc_parse text = Some v \<longrightarrow> v \<le> bound)"
proof -
  let ?vs = "List.map_filter glibc_parse (List.map_filter (\<lambda>name. strip_prefix name ''GLIBC_'') names)"
  have "(case max_glibc_version names of None \<Rightarrow> True | Some v \<Rightarrow> v \<le> bound) \<longleftrightarrow> (\<forall>v \<in> set ?vs. v \<le> bound)"
    unfolding max_glibc_version_def by (cases ?vs) (simp_all add: max_fold)
  also have "\<dots> \<longleftrightarrow> (\<forall>name \<in> set names. \<forall>text v. strip_prefix name ''GLIBC_'' = Some text \<longrightarrow>
      glibc_parse text = Some v \<longrightarrow> v \<le> bound)"
    by (force simp: List.map_filter_def)
  finally show ?thesis .
qed

lemma glibc_parse_show:
  assumes "list_all (\<lambda>n. n < 2 ^ 32) (version_components v)" "version_components v \<noteq> []"
  shows "glibc_parse (show_glibc v) = Some v"
proof -
  have dots: "split_char (CHR ''.'') (show_glibc v) = map show_nat (version_components v)"
    unfolding show_glibc_def
  proof (rule split_join)
    have "CHR ''.'' \<notin> set (show_nat n)" for n
      using show_nat_digits [of n] not_digit_sign(3) unfolding list_all_iff by blast
    then show "list_all (\<lambda>w. CHR ''.'' \<notin> set w) (map show_nat (version_components v))"
      by (simp add: list_all_iff)
  qed (use assms(2) in simp)
  have "those (map parse_u32 (map show_nat ns)) = Some ns" if "list_all (\<lambda>n. n < 2 ^ 32) ns" for ns
    using that by (induction ns) (simp_all add: parse_u32_show_nat)
  from this [OF assms(1)] show ?thesis by (simp add: glibc_parse_def dots)
qed

definition probe_vtable :: "('d, 't, 'u) vtable \<Rightarrow> vtable_probe" where
  "probe_vtable vt = \<lparr>vp_abi_version = vt_abi_version vt, vp_fingerprint = Some (vt_fingerprint vt),
     vp_run = True, vp_cleanup = (vt_cleanup vt \<noteq> None),
     vp_default_output_columns = (vt_default_output_columns vt \<noteq> None),
     vp_virtual_schema_adapter_call = (vt_virtual_schema_adapter_call vt \<noteq> None),
     vp_generate_sql_for_import_spec = (vt_generate_sql_for_import_spec vt \<noteq> None),
     vp_generate_sql_for_export_spec = (vt_generate_sql_for_export_spec vt \<noteq> None),
     vp_annotated_input_schema = vt_annotated_input_schema vt,
     vp_annotated_output_schema = vt_annotated_output_schema vt\<rparr>"

text \<open>The probe and the loader open the same object.\<close>

definition probes :: "plugin_env \<Rightarrow> (string \<Rightarrow> (string, ('d, 't, 'u) shared_object) result) \<Rightarrow> bool" where
  "probes E dlopen \<longleftrightarrow> (\<forall>path. pe_dlopen E path =
     map_sum id (\<lambda>lib symbol. map_option (map_option probe_vtable) (so_entry lib symbol)) (dlopen path))"

lemma entry_error_open:
  assumes "probes E dlopen" "runtime_fingerprint E \<noteq> []"
  shows "entry_error E path name = None \<longleftrightarrow> is_ok (open_udf dlopen (pe_fingerprint E) path name)"
proof (cases "dlopen path")
  case (Inl e)
  then show ?thesis using assms by (simp add: probes_def entry_error_def load_vtable_fields_def open_udf_def)
next
  case (Inr lib)
  then have E: "pe_dlopen E path = Ok (\<lambda>symbol. map_option (map_option probe_vtable) (so_entry lib symbol))"
    using assms(1) by (simp add: probes_def)
  show ?thesis
    using assms(2) by (auto simp: E Inr entry_error_def load_vtable_fields_def open_udf_def probe_vtable_def
      runtime_fingerprint_def is_ok_def Let_def split: option.split)
qed

lemma glibc_report_ok:
  "snd (report_glibc_floor artifact path) = Ok () \<longleftrightarrow>
    (case ar_max_glibc_version artifact of None \<Rightarrow> True | Some v \<Rightarrow> v \<le> GlibcVersion [2, 41])"
  by (simp add: report_glibc_floor_def check_against_floor_exceeds split: option.split)

lemma dependencies_report_ok:
  "snd (report_dynamic_dependencies artifact path deny) = Ok () \<longleftrightarrow>
    (deny \<longrightarrow> list_all is_known_soname (ar_needed_sonames artifact))"
  by (auto simp: report_dynamic_dependencies_def unknown_sonames_def Let_def filter_empty_conv list_all_iff)

lemma verify_report_ok:
  "snd (verify_vtables E artifact path) = Ok () \<longleftrightarrow>
    list_all (\<lambda>name. entry_error E path name = None) (ar_udf_names artifact)"
  by (auto simp: verify_vtables_def Let_def fail_with_def map_filter_Nil_iff)

text \<open>C30: \<open>validate\<close> accepts an artifact exactly when the container can take it: it exports entry points, the
  runtime's loader opens every one of them, no glibc symbol version it references is above the floor,
  and, on request, all its dependencies are staged.\<close>

theorem validate_accepts_loadable:
  assumes "probes E dlopen" "runtime_fingerprint E \<noteq> []"
    and "parse_validate_args args = Ok (path, deny)" "elf_read E path = Ok artifact"
  shows "snd (validate_run E args) = Ok () \<longleftrightarrow> ar_udf_names artifact \<noteq> [] \<and>
    list_all (\<lambda>name. is_ok (open_udf dlopen (pe_fingerprint E) path name)) (ar_udf_names artifact) \<and>
    (case ar_max_glibc_version artifact of None \<Rightarrow> True | Some v \<Rightarrow> v \<le> GlibcVersion [2, 41]) \<and>
    (deny \<longrightarrow> list_all is_known_soname (ar_needed_sonames artifact))"
  using assms(3,4)
  by (auto simp: validate_run_def glibc_report_ok dependencies_report_ok verify_report_ok entry_error_open [OF assms(1,2)])

theorem validate_accepts_loadable_witness:
  "snd (validate_run \<lparr>pe_read = Ok, pe_parse = (\<lambda>_. Ok \<lparr>e_type = 3, e_libraries = [''libc.so.6'', ''libm.so.6''],
        e_dynsyms = [\<lparr>st_shndx = 1, st_name = 0\<rparr>, \<lparr>st_shndx = 0, st_name = 1\<rparr>],
        e_dynstr = (\<lambda>i. nth_opt [''__exa_udf_entry_RUN'', ''memcpy'', ''GLIBC_2.34'', ''GLIBC_2.9'', ''GLIBC_PRIVATE''] i),
        e_verneed = Some [[2, 3], [4]]\<rparr>), pe_et_to_str = (\<lambda>_. ''DYN''),
      pe_dlopen = (\<lambda>_. Ok (\<lambda>symbol. map_option (map_option probe_vtable)
        (([entry_symbol ''RUN'' \<mapsto> Some (emits_vtable (code_return ()) :: (int, int, unit) vtable)]) symbol))),
      pe_utf8_error = (\<lambda>_. ''e''), pe_fingerprint = FINGERPRINT\<rparr> [''--deny-unknown-deps'', ''/u.so'']) = Ok ()"
  (is "snd (validate_run ?E ?args) = _")
proof -
  have probes: "probes ?E (\<lambda>_. Ok \<lparr>so_entry = [entry_symbol ''RUN'' \<mapsto> Some (emits_vtable (code_return ()) :: (int, int, unit) vtable)],
      so_statics = ()\<rparr>)"
    by (simp add: probes_def)
  have fingerprint: "valid_utf8 FINGERPRINT" "trim_end_matches (CHR 0x00) (FINGERPRINT @ [CHR 0x00]) = FINGERPRINT"
    "FINGERPRINT \<noteq> []"
    by code_simp+
  have args: "parse_validate_args ?args = Ok (''/u.so'', True)" by code_simp
  have facts: "List.map_filter (\<lambda>name. strip_prefix name ''__exa_udf_entry_'') [''__exa_udf_entry_RUN''] = [''RUN'']"
    "max_glibc_version [''GLIBC_2.34'', ''GLIBC_2.9'', ''GLIBC_PRIVATE''] = Some (GlibcVersion [2, 34])"
    by code_simp+
  have read: "elf_read ?E ''/u.so'' = Ok \<lparr>ar_udf_names = [''RUN''], ar_needed_sonames = [''libc.so.6'', ''libm.so.6''],
      ar_max_glibc_version = Some (GlibcVersion [2, 34])\<rparr>"
    using facts by (simp add: elf_read_def shared_object_from_def udf_entry_names_def referenced_version_names_def
        ET_DYN_def SHN_UNDEF_def map_filter_simps nth_opt_def)
  show ?thesis
    using validate_accepts_loadable [OF probes _ args read]
    by (simp add: runtime_fingerprint_def fingerprint open_udf_def emits_vtable_def Let_def is_known_soname_def
        allowed_sonames less_eq_glibc_version_def)
qed

section \<open>The \<open>build\<close> command (\<open>build.rs\<close>)\<close>

fun build_args :: "string list \<Rightarrow> string option \<Rightarrow> string option \<Rightarrow> (string, string option \<times> string option) result" where
  "build_args [] path target = Ok (path, target)"
| "build_args (arg # args) path target =
     (if arg = ''--target'' then
        (case args of [] \<Rightarrow> Err ''--target requires a target triple''
         | triple # args \<Rightarrow> build_args args path (Some triple))
      else if path = None then build_args args (Some arg) target
      else build_args args path target)"

definition parse_build_args :: "string list \<Rightarrow> (string, string \<times> string option) result" where
  "parse_build_args args = rbind (build_args args None None) (\<lambda>(path, target).
     Ok (unwrap_or ''.'' path, target))"

text \<open>The line loop of \<open>parse_crate_name\<close> and of \<open>parse_lib_name\<close>.\<close>

fun scan_name :: "string \<Rightarrow> bool \<Rightarrow> string list \<Rightarrow> string option" where
  "scan_name header in_section [] = None"
| "scan_name header in_section (line # ls) = (let trimmed = trim line in
     if trimmed = header then scan_name header True ls
     else if in_section \<and> starts_with trimmed ''['' then None
     else (case (if in_section \<and> starts_with trimmed ''name'' then split_once (CHR ''='') trimmed else None) of
         Some (_, v) \<Rightarrow> Some (trim_matches (CHR 0x22) (trim v))
       | None \<Rightarrow> scan_name header in_section ls))"

definition parse_crate_name :: "(string \<Rightarrow> (string, string) result) \<Rightarrow> string \<Rightarrow> (string, string) result" where
  "parse_crate_name read_to_string cargo_toml =
     rbind (map_err (\<lambda>e. ''cannot read '' @ quoted cargo_toml @ '': '' @ e) (read_to_string cargo_toml)) (\<lambda>contents.
       ok_or (''could not find `name` in [package] section of '' @ quoted cargo_toml)
         (scan_name ''[package]'' False (lines contents)))"

definition parse_lib_name :: "(string \<Rightarrow> (string, string) result) \<Rightarrow> string \<Rightarrow> (string, string option) result" where
  "parse_lib_name read_to_string cargo_toml =
     rbind (map_err (\<lambda>e. ''cannot read '' @ quoted cargo_toml @ '': '' @ e) (read_to_string cargo_toml)) (\<lambda>contents.
       Ok (scan_name ''[lib]'' False (lines contents)))"

text \<open>\<open>Path::join\<close>, and \<open>Path::parent\<close> of a path that ends in a file name.\<close>

definition path_join :: "string \<Rightarrow> string \<Rightarrow> string" where
  "path_join p q = (if starts_with q ''/'' then q else if p = [] \<or> last p = CHR ''/'' then p @ q else p @ ''/'' @ q)"

definition path_parent :: "string \<Rightarrow> string" where
  "path_parent p = (case find_char (CHR ''/'') (rev p) of None \<Rightarrow> [] | Some i \<Rightarrow> take (length p - i - 1) p)"

text \<open>What the command does outside: look for a file, read one, run \<open>cargo\<close> in a directory (with the text
  of a status that is no success), write a file. Printed lines are left out.\<close>

record 'w build_env =
  be_exists :: "string \<Rightarrow> 'w \<Rightarrow> bool"
  be_read_to_string :: "'w \<Rightarrow> string \<Rightarrow> (string, string) result"
  be_cargo :: "string list \<Rightarrow> string \<Rightarrow> 'w \<Rightarrow> (string, string option) result \<times> 'w"
  be_write :: "string \<Rightarrow> string \<Rightarrow> 'w \<Rightarrow> (string, unit) result \<times> 'w"
  be_plugin :: "'w \<Rightarrow> plugin_env"

definition schema_text :: "plugin_env \<Rightarrow> string \<Rightarrow> bytes \<Rightarrow> (string, string) result" where
  "schema_text E side s = (if valid_utf8 s then Ok s
     else Err (side @ '' schema is not valid UTF-8: '' @ pe_utf8_error E s))"

definition sidecar_text :: "string \<Rightarrow> string \<Rightarrow> string" where
  "sidecar_text input_str output_str = text_of_lines [''{'', ''  '' @ CHR 0x22 # ''input_schema'' @ CHR 0x22 # '': '' @ input_str @ '','',
     ''  '' @ CHR 0x22 # ''output_schema'' @ CHR 0x22 # '': '' @ output_str, ''}'']"

definition maybe_emit_sidecar :: "'w build_env \<Rightarrow> string \<Rightarrow> string \<Rightarrow> string list \<Rightarrow> 'w \<Rightarrow>
    (string, unit) result \<times> 'w" where
  "maybe_emit_sidecar B so_path crate_name entry_names w = (let E = be_plugin B w in case entry_names of
      [] \<Rightarrow> (Err ''no __exa_udf_entry_<NAME> symbol found'', w)
    | first_udf # _ \<Rightarrow> (case pe_dlopen E so_path of
        Inl e \<Rightarrow> (Err (''dlopen failed: '' @ e), w)
      | Inr entry \<Rightarrow> (case entry (entry_symbol first_udf) of
          None \<Rightarrow> (Err (''symbol '' @ entry_symbol first_udf @ '' not found''), w)
        | Some None \<Rightarrow> (Err (entry_symbol first_udf @ '' returned null''), w)
        | Some (Some vtable) \<Rightarrow> (case (vp_annotated_input_schema vtable, vp_annotated_output_schema vtable) of
            (Some input_schema, Some output_schema) \<Rightarrow>
              (case rbind (schema_text E ''input'' input_schema) (\<lambda>i.
                    rbind (schema_text E ''output'' output_schema) (\<lambda>out. Ok (i, out))) of
                 Inl e \<Rightarrow> (Err e, w)
               | Inr (input_str, output_str) \<Rightarrow>
                   let sidecar_path = path_join (path_parent so_path) (crate_name @ ''.udf-meta.json'') in
                   (case be_write B sidecar_path (sidecar_text input_str output_str) w of
                      (res, w) \<Rightarrow> (map_err (\<lambda>e. ''cannot write sidecar '' @ quoted sidecar_path @ '': '' @ e) res, w)))
          | _ \<Rightarrow> (Ok (), w)))))"

definition enumerate_entry_symbols :: "plugin_env \<Rightarrow> string \<Rightarrow> (string, string list) result" where
  "enumerate_entry_symbols E so_path = map_err show_elf_error (map_sum id ar_udf_names (elf_read E so_path))"

text \<open>A sidecar that cannot be written is a warning.\<close>

definition build_check :: "'w build_env \<Rightarrow> string \<Rightarrow> string \<Rightarrow> 'w \<Rightarrow> (string, unit) result \<times> 'w" where
  "build_check B so_path crate_name w =
     (if \<not> be_exists B so_path w
      then (Err (''cargo build succeeded but no artifact was produced at '' @ quoted so_path), w)
      else case enumerate_entry_symbols (be_plugin B w) so_path of
        Inl e \<Rightarrow> (Err (''could not inspect '' @ quoted so_path @ '': '' @ e), w)
      | Inr entry_names \<Rightarrow>
          if entry_names = []
          then (Err (''build produced '' @ quoted so_path @ '' but it exports no __exa_udf_entry_<NAME> symbols; '' @
                  ''annotate at least one function with #[exasol_udf]''), w)
          else (Ok (), snd (maybe_emit_sidecar B so_path crate_name entry_names w)))"

definition artifact_path :: "string \<Rightarrow> string option \<Rightarrow> string \<Rightarrow> string" where
  "artifact_path crate_dir target lib_name =
     (let so_name = ''lib'' @ map (\<lambda>c. if c = CHR ''-'' then CHR ''_'' else c) lib_name @ ''.so'';
          release_dir = path_join crate_dir ''target'';
          release_dir = (case target of Some triple \<Rightarrow> path_join release_dir triple | None \<Rightarrow> release_dir)
      in path_join (path_join release_dir ''release'') so_name)"

definition build_run :: "'w build_env \<Rightarrow> string list \<Rightarrow> 'w \<Rightarrow> (string, unit) result \<times> 'w" where
  "build_run B args w = (case parse_build_args args of
      Inl e \<Rightarrow> (Err e, w)
    | Inr (path, target) \<Rightarrow> let cargo_toml = path_join path ''Cargo.toml'' in
        if \<not> be_exists B cargo_toml w
        then (Err (''Cargo.toml not found in '' @ quoted path @ '' '' @ EM_DASH @ '' is this a Rust crate?''), w)
        else (case rbind (parse_crate_name (be_read_to_string B w) cargo_toml) (\<lambda>crate_name.
                   rbind (parse_lib_name (be_read_to_string B w) cargo_toml) (\<lambda>lib_name.
                   Ok (crate_name, unwrap_or crate_name lib_name))) of
            Inl e \<Rightarrow> (Err e, w)
          | Inr (crate_name, lib_name) \<Rightarrow>
              (case be_cargo B ([''build'', ''--release''] @ (case target of Some triple \<Rightarrow> [''--target'', triple] | None \<Rightarrow> [])) path w of
                 (Inl e, w) \<Rightarrow> (Err (''failed to run cargo: '' @ e), w)
               | (Inr (Some status), w) \<Rightarrow> (Err (''cargo build failed with status: '' @ status), w)
               | (Inr None, w) \<Rightarrow> build_check B (artifact_path path target lib_name) crate_name w)))"

section \<open>The \<open>new\<close> command (\<open>new.rs\<close>)\<close>

text \<open>The manifest and the library it writes; the version is the plugin's own.\<close>

definition in_quotes :: "string \<Rightarrow> string" where
  "in_quotes s = CHR 0x22 # s @ [CHR 0x22]"

definition scaffold_manifest :: "string \<Rightarrow> string \<Rightarrow> string" where
  "scaffold_manifest sdk_version name = text_of_lines [''[package]'', ''name = '' @ in_quotes name,
     ''version = '' @ in_quotes ''0.1.0'', ''edition = '' @ in_quotes ''2024'', [], ''[lib]'',
     ''crate-type = ['' @ in_quotes ''cdylib'' @ '']'', [], ''[dependencies]'',
     ''exasol-udf-sdk = { version = '' @ in_quotes sdk_version @ '', features = [] }'',
     ''exasol-udf-macros = { version = '' @ in_quotes sdk_version @ '' }'', [], ''[profile.release]'', ''strip = true'']"

definition scaffold_lib :: string where
  "scaffold_lib = text_of_lines [''use exasol_udf_macros::exasol_udf;'', ''use exasol_udf_sdk::context::UdfContext;'',
     ''use exasol_udf_sdk::error::UdfError;'', [],
     ''// The SQL script name maps to this function'' @ [CHR 0x27] @ ''s name: `run` exports the entry'',
     ''// symbol `__exa_udf_entry_RUN`, so register it with `CREATE ... SCRIPT run ...`.'',
     ''// Rename this fn '' @ EM_DASH @ '' or add `#[exasol_udf(name = '' @ in_quotes ''MY_NAME'' @ '')]` '' @ EM_DASH @ '' to change it.'',
     ''#[exasol_udf]'', ''fn run(ctx: &mut dyn UdfContext) -> Result<Option<i64>, UdfError> {'',
     ''    // TODO: implement your UDF'', ''    Ok(None)'', ''}'']"

text \<open>\<open>Path::file_name\<close>: the last component, unless it is \<open>..\<close> or the root.\<close>

definition file_name :: "string \<Rightarrow> string option" where
  "file_name path = (case rev (filter (\<lambda>c. c \<noteq> [] \<and> c \<noteq> ''.'') (split_char (CHR ''/'') path)) of
      [] \<Rightarrow> None | c # _ \<Rightarrow> if c = ''..'' then None else Some c)"

record 'w scaffold_env =
  se_exists :: "string \<Rightarrow> 'w \<Rightarrow> bool"
  se_has_entries :: "string \<Rightarrow> 'w \<Rightarrow> (string, bool) result"
  se_create_dir_all :: "string \<Rightarrow> 'w \<Rightarrow> (string, unit) result \<times> 'w"
  se_write :: "string \<Rightarrow> string \<Rightarrow> 'w \<Rightarrow> (string, unit) result \<times> 'w"
  se_version :: string

definition new_run :: "'w scaffold_env \<Rightarrow> string list \<Rightarrow> 'w \<Rightarrow> (string, unit) result \<times> 'w" where
  "new_run S args w = (case args of
      [] \<Rightarrow> (Err ''Usage: cargo exasol-udf new <path>'', w)
    | path # _ \<Rightarrow>
        (case (if se_exists S path w then map_err (\<lambda>e. ''cannot read directory '' @ quoted path @ '': '' @ e) (se_has_entries S path w)
               else Ok False) of
           Inl e \<Rightarrow> (Err e, w)
         | Inr True \<Rightarrow> (Err (''target directory '' @ quoted path @ '' is not empty''), w)
         | Inr False \<Rightarrow> (case file_name path of
             None \<Rightarrow> (Err (''invalid path: '' @ path), w)
           | Some name \<Rightarrow> let src_dir = path_join path ''src''; cargo_path = path_join path ''Cargo.toml'';
                 lib_path = path_join src_dir ''lib.rs'' in
               (case se_create_dir_all S src_dir w of
                  (Inl e, w) \<Rightarrow> (Err (''cannot create directory '' @ quoted src_dir @ '': '' @ e), w)
                | (Inr _, w) \<Rightarrow> (case se_write S cargo_path (scaffold_manifest (se_version S) name) w of
                    (Inl e, w) \<Rightarrow> (Err (''cannot write '' @ quoted cargo_path @ '': '' @ e), w)
                  | (Inr _, w) \<Rightarrow> (case se_write S lib_path scaffold_lib w of
                      (Inl e, w) \<Rightarrow> (Err (''cannot write '' @ quoted lib_path @ '': '' @ e), w)
                    | (Inr _, w) \<Rightarrow> (Ok (), w)))))))"

section \<open>The command line (\<open>main.rs\<close>)\<close>

definition USAGE :: string where
  "USAGE = text_of_lines [''Usage: cargo exasol-udf <subcommand> [args]'', ''Subcommands:'',
     ''  new <path>                Scaffold a new UDF crate at <path>'', ''  build [<path>] [--target <triple>]'',
     ''                            Build the UDF crate as a host glibc-dynamic'',
     ''                            cdylib (defaults to .); --target overrides the'',
     ''                            build target (native builds only)'', ''  validate <path> [--deny-unknown-deps]'',
     ''                            Validate a compiled UDF .so: entry points, ABI'',
     ''                            version and SDK fingerprint, the artifact'' @ [CHR 0x27] @ ''s glibc'',
     ''                            symbol floor, and its dynamic dependencies against'',
     ''                            the SLC library surface; --deny-unknown-deps fails'',
     ''                            on any dependency outside that surface'']"

text \<open>What goes to the standard error stream, and the exit status.\<close>

definition plugin_main :: "'w scaffold_env \<Rightarrow> 'w build_env \<Rightarrow> string list \<Rightarrow> 'w \<Rightarrow> (string \<times> nat) \<times> 'w" where
  "plugin_main S B argv w = (let rest = drop 3 argv;
        exit = (\<lambda>res. case res of Inl e \<Rightarrow> (''error: '' @ e @ [NEWLINE], 1) | Inr () \<Rightarrow> ([], 0))
     in if nth_opt argv 2 = Some ''new'' then map_prod exit id (new_run S rest w)
        else if nth_opt argv 2 = Some ''build'' then map_prod exit id (build_run B rest w)
        else if nth_opt argv 2 = Some ''validate'' then (exit (snd (validate_run (be_plugin B w) rest)), w)
        else ((USAGE, 1), w))"

section \<open>What the commands do together\<close>

lemma split_once_append: "c \<notin> set k \<Longrightarrow> split_once c (k @ c # v) = Some (k, v)"
  by (simp add: split_once_def find_char_append)

lemma trim_quoted: "trim (CHR '' '' # in_quotes s) = in_quotes s"
proof -
  have quote: "visible (CHR 0x22)" by (simp add: visible_def byte_def)
  then have "trim_start (CHR '' '' # in_quotes s) = in_quotes s"
    by (simp add: in_quotes_def trim_start_space)
  moreover have "trim_end (in_quotes s) = in_quotes s"
    using trim_end_visible [OF quote, of "CHR 0x22 # s"] by (simp add: in_quotes_def)
  ultimately show ?thesis by (simp add: trim_def)
qed

lemma trim_matches_quotes:
  assumes "CHR 0x22 \<notin> set s"
  shows "trim_matches (CHR 0x22) (in_quotes s) = s"
proof -
  have keep: "dropWhile (\<lambda>x. x = CHR 0x22) (xs @ ys) = xs @ ys" if "xs \<noteq> []" "CHR 0x22 \<notin> set xs" for xs ys
    using that by (cases xs) auto
  show ?thesis
  proof (cases "s = []")
    case False
    then show ?thesis
      using assms keep [of "rev s" "[]"] keep [of s "[CHR 0x22]"]
      by (simp add: trim_matches_def in_quotes_def trim_end_matches_def)
  qed (simp add: trim_matches_def in_quotes_def trim_end_matches_def)
qed

text \<open>A line that starts and ends in print is its own trimming.\<close>

lemma visible_chars [simp]:
  "visible (CHR ''['')" "visible (CHR '']'')" "visible (CHR ''n'')" "visible (CHR ''v'')" "visible (CHR ''e'')"
  "visible (CHR ''c'')" "visible (CHR 0x22)"
  by (simp_all add: visible_def byte_def)

lemma in_quotes_ends [simp]: "hd (in_quotes s) = CHR 0x22" "last (in_quotes s) = CHR 0x22" "in_quotes s \<noteq> []"
  by (simp_all add: in_quotes_def)

text \<open>The manifest \<open>new\<close> writes is the one \<open>build\<close> reads: the package has the directory's name and the
  library no other.\<close>

lemma scaffold_scanned:
  assumes "NEWLINE \<notin> set name" "CHR 0x22 \<notin> set name"
  shows "parse_crate_name (\<lambda>_. Ok (scaffold_manifest sdk_version name)) cargo_toml = Ok name \<and>
    parse_lib_name (\<lambda>_. Ok (scaffold_manifest sdk_version name)) cargo_toml = Ok None"
proof -
  let ?ls = "[''[package]'', ''name = '' @ in_quotes name, ''version = '' @ in_quotes ''0.1.0'', ''edition = '' @ in_quotes ''2024'',
    [], ''[lib]'', ''crate-type = ['' @ in_quotes ''cdylib'' @ '']'', [], ''[dependencies]'']"
  have cr: "char_of (13 :: nat) = CHR 0x0D" by (simp add: char_of_byte byte_def)
  have ok: "list_all line_ok ?ls" using assms(1) by (simp add: line_ok_def in_quotes_def NEWLINE_def cr)
  obtain r where manifest: "scaffold_manifest sdk_version name = text_of_lines (?ls @ r)"
    unfolding scaffold_manifest_def by (metis append_Cons append_Nil)
  have cut: "lines (text_of_lines (ls @ r)) = ls @ lines (text_of_lines r)" if "list_all line_ok ls" for ls
    using that by (induction ls) (simp_all add: text_of_lines_def lines_cons)
  have trims: "trim ''[package]'' = ''[package]''" "trim (''name = '' @ in_quotes name) = ''name = '' @ in_quotes name"
    "trim (''version = '' @ in_quotes ''0.1.0'') = ''version = '' @ in_quotes ''0.1.0''"
    "trim (''edition = '' @ in_quotes ''2024'') = ''edition = '' @ in_quotes ''2024''" "trim ''[lib]'' = ''[lib]''"
    "trim (''crate-type = ['' @ in_quotes ''cdylib'' @ '']'') = ''crate-type = ['' @ in_quotes ''cdylib'' @ '']''"
    "trim ''[dependencies]'' = ''[dependencies]''"
    by (rule trim_visible_ends; simp)+
  have once: "split_once (CHR ''='') (''name = '' @ in_quotes name) = Some (''name '', CHR '' '' # in_quotes name)"
    using split_once_append [of "CHR ''=''" "''name ''"] by simp
  have "scan_name ''[package]'' False (?ls @ rest) = Some name" for rest
    using once by (simp add: trims [simplified] Let_def starts_with_def trim_quoted trim_matches_quotes [OF assms(2)])
  moreover have "scan_name ''[lib]'' False (?ls @ rest) = None" for rest
    by (simp add: trims [simplified] Let_def starts_with_def)
  ultimately show ?thesis
    unfolding parse_crate_name_def parse_lib_name_def manifest by (simp only: map_err_simps rbind_simps cut [OF ok] ok_or_simps)
qed

end
