(* ===== verification/Batch_Udfs.thy ===== *)
theory Batch_Udfs
  imports Udfs Mock_Payload Row_Facts
begin

text \<open>
  UDFs that build Arrow batches: the fixture \<open>test-udfs/emit-arrow-batch\<close> and the generators, readers and
  re-emitters of \<open>benches/bench-udfs\<close>, which come in a row form and a batch form. The arrays are the data
  \<open>Packer\<close> reads. Building a \<open>RecordBatch\<close> from checked fields and exporting it are the arrow crate's, as
  are chrono's differences; they are the fields of \<open>batch_env\<close>. Integer arithmetic wraps, as it does in
  the release profile.
\<close>

section \<open>Arrays and batches\<close>

record ('d, 't) batch_env =
  be_payload :: "('d, 't) payload_env"
  be_try_new :: "(string \<times> bool) list \<Rightarrow> arrow_array list \<Rightarrow> (string, record_batch) result"
  be_to_ffi :: "record_batch \<Rightarrow> (string, ffi_batch) result"
  be_epoch_days :: "'d \<Rightarrow> int"
  be_epoch_nanos :: "'t \<Rightarrow> int option"
  be_epoch_seconds :: "'t \<Rightarrow> int"
  be_subsec_nanos :: "'t \<Rightarrow> nat"
  be_add :: "f64 \<Rightarrow> f64 \<Rightarrow> f64"

abbreviation be_ext :: "('d, 't) batch_env \<Rightarrow> ('d, 't) ext" where
  "be_ext X \<equiv> pe_ext (be_payload X)"

text \<open>An array of optional values keeps a placeholder and a cleared bit for an absent one; without any
  absent value it has no bits.\<close>

definition option_array :: "('a list \<Rightarrow> arrow_data) \<Rightarrow> 'a \<Rightarrow> 'a option list \<Rightarrow> arrow_array" where
  "option_array mk placeholder xs = \<lparr>aa_data = mk (map (unwrap_or placeholder) xs),
     aa_nulls = (if None \<in> set xs then Some (map (\<lambda>x. x \<noteq> None) xs) else None)\<rparr>"

definition plain_array :: "arrow_data \<Rightarrow> arrow_array" where
  "plain_array d = \<lparr>aa_data = d, aa_nulls = None\<rparr>"

definition text_offsets :: "string list \<Rightarrow> nat list" where
  "text_offsets ws = map (\<lambda>i. length (concat (take i ws))) [0 ..< length ws + 1]"

definition utf8_data :: "string list \<Rightarrow> arrow_data" where
  "utf8_data ws = AUtf8 (text_offsets ws) (concat ws)"

definition large_utf8_data :: "string list \<Rightarrow> arrow_data" where
  "large_utf8_data ws = ALargeUtf8 (text_offsets ws) (concat ws)"

text \<open>\<open>EmitBatch::emit_batch\<close> of the SDK.\<close>

definition ctx_emit_batch :: "('d, 't) batch_env \<Rightarrow> record_batch \<Rightarrow> ('d, 't, unit) code" where
  "ctx_emit_batch X b = (case be_to_ffi X b of
      Inl e \<Rightarrow> code_fail (TypeErr (''emit_batch: FFI export: '' @ e))
    | Inr f \<Rightarrow> ask (EmitRecordBatchFfi f) unit_end)"

definition code_end :: "'a ending \<Rightarrow> ('d, 't, 'a) code" where
  "code_end e = Finish e"

definition try_batch :: "('d, 't) batch_env \<Rightarrow> (string \<times> bool) list \<Rightarrow> arrow_array list \<Rightarrow> record_batch ending" where
  "try_batch X schema arrays = Returned (map_err User (be_try_new X schema arrays))"

section \<open>The fixture \<open>emit-arrow-batch\<close>\<close>

definition emit_arrow_batch :: "('d, 't) batch_env \<Rightarrow> ('d, 't, unit) code" where
  "emit_arrow_batch X = code_bind drain (\<lambda>_.
     code_bind (code_end (try_batch X [(''id'', False), (''label'', False)]
       [plain_array (AInt64 [1, 2, 3]), plain_array (utf8_data [''a'', ''b'', ''c''])])) (ctx_emit_batch X))"

text \<open>\<open>emit-arrow-ffi\<close> exports the same rows itself.\<close>

definition emit_arrow_ffi :: "('d, 't) batch_env \<Rightarrow> ('d, 't, unit) code" where
  "emit_arrow_ffi X = code_bind drain (\<lambda>_.
     code_bind (code_end (try_batch X [(''id'', False), (''label'', False)]
       [plain_array (AInt64 [1, 2, 3]), plain_array (utf8_data [''a'', ''b'', ''c''])])) (\<lambda>b.
     case be_to_ffi X b of
       Inl e \<Rightarrow> code_fail (TypeErr e)
     | Inr f \<Rightarrow> ask (EmitRecordBatchFfi f) unit_end))"

datatype kind = KI32 | KI64 | KF64 | KBool | KUtf8 | KLargeUtf8 | KDate32 | KTs time_unit | KDec int

definition COLUMNS :: "(string \<times> kind) list" where
  "COLUMNS = [(''k'', KI32), (''c_i32'', KI32), (''c_i32w'', KI32), (''c_i64'', KI64), (''c_i64w'', KI64),
     (''c_dbl'', KF64), (''c_bool'', KBool), (''c_big'', KI64), (''c_num_i32'', KI32), (''c_num_f64'', KF64),
     (''c_num_str'', KUtf8), (''c_dec0'', KDec 0), (''c_dec10'', KDec 10), (''c_dt'', KDate32), (''c_dt_str'', KUtf8),
     (''c_ts_s'', KTs Second), (''c_ts_ms'', KTs Millisecond), (''c_ts_us'', KTs Microsecond),
     (''c_ts_ns'', KTs Nanosecond), (''c_ts_str'', KUtf8), (''c_vc'', KUtf8), (''c_vc_large'', KLargeUtf8),
     (''c_vc_huge'', KUtf8), (''c_ch'', KUtf8)]"

definition NINES_36 :: i128 where
  "NINES_36 = 999999999999999999999999999999999999"

definition dec_value :: "i128 \<Rightarrow> nat \<Rightarrow> ('d, 't) sql_value option" where
  "dec_value u s = Some (VNumeric \<lparr>unscaled = u, dscale = of_nat s\<rparr>)"

text \<open>A date or a time the calendar refuses panics.\<close>

definition date_value :: "('d, 't) ext \<Rightarrow> int \<times> nat \<times> nat \<Rightarrow> ('d, 't) sql_value option" where
  "date_value E x = (case x of (y, m, d) \<Rightarrow> map_option VDate (from_ymd_opt E y m d))"

definition ts_value :: "('d, 't) ext \<Rightarrow> bool \<Rightarrow> int \<times> nat \<times> nat \<Rightarrow> nat \<times> nat \<times> nat \<Rightarrow> nat \<Rightarrow> ('d, 't) sql_value option" where
  "ts_value E ns day hms nanos = (case (day, hms) of ((y, m, d), (h, mi, s)) \<Rightarrow>
     let nanos = if ns then nanos else nanos - nanos mod 1000000
     in Option.bind (from_ymd_opt E y m d) (\<lambda>d. map_option VTimestamp (and_hms_nano_opt E d h mi s nanos)))"

text \<open>The texts are UTF-8: an n with a tilde, the three characters of the word for Japanese, a crab, and an
  e with an acute accent.\<close>

definition N_TILDE :: string where "N_TILDE = [CHR 0xC3, CHR 0xB1]"
definition SUN :: string where "SUN = [CHR 0xE6, CHR 0x97, CHR 0xA5]"
definition NIHONGO :: string where "NIHONGO = SUN @ [CHR 0xE6, CHR 0x9C, CHR 0xAC, CHR 0xE8, CHR 0xAA, CHR 0x9E]"
definition CRAB :: string where "CRAB = [CHR 0xF0, CHR 0x9F, CHR 0xA6, CHR 0x80]"
definition E_ACUTE :: string where "E_ACUTE = [CHR 0xC3, CHR 0xA9]"

definition repeat :: "string \<Rightarrow> nat \<Rightarrow> string" where
  "repeat s n = concat (replicate n s)"

definition type_rows :: "('d, 't) ext \<Rightarrow> bool \<Rightarrow> ('d, 't) sql_value list list option" where
  "type_rows E ns =
     (let i32 = (\<lambda>i :: int. Some (VInt32 (word_of_int i))); i64 = (\<lambda>i :: int. Some (VInt64 (word_of_int i)));
          dbl = (\<lambda>b. Some (VDouble b)); bool = (\<lambda>b. Some (VBool b)); s = (\<lambda>t. Some (VString t));
          null = Some VNull; date = date_value E; ts = ts_value E ns;
          leap = (2024, 2, 29); noon = (12, 34, 56); start = (1, 1, 1); midnight = (0, 0, 0);
          end_day = (9999, 12, 31); eve = (1969, 12, 31); end_time = (23, 59, 59)
      in all_some (map all_some
       [[i32 1, i32 42, i64 7, i64 1234567890123, i32 2147483647, dbl 0x3FF8000000000000, bool True,
         i64 9223372036854775807, i32 2147483647, dec_value 123456789012345 1, dec_value 1234500 4, dec_value 42 0,
         dec_value 31415926535 10, date leap, date leap, ts leap noon 0, ts leap noon 123000000,
         ts leap noon 123456000, ts leap noon 123456789, ts leap noon 123456789, s ''a'',
         s (N_TILDE @ NIHONGO @ CRAB), null, s ''abc''],
        [i32 2, i32 (- 999999999), i64 (- 999999999), i64 (- 999999999999999999), i32 (- 2147483648),
         dbl 0xC002000000000000, bool False, i64 (- 9223372036854775808), i32 (- 2147483648), dec_value (- 625) 4,
         dec_value (- 1) 4, dec_value (- NINES_36) 0, dec_value (- NINES_36) 10, date start, date start,
         ts start midnight 0, ts start midnight 1000000, ts start midnight 1000, ts (1677, 9, 22) midnight 1,
         ts start midnight 1, s (repeat SUN 42 @ ''x''), s (repeat ''x'' 128), null, s ''0123456789''],
        [i32 3, i32 999999999, i64 0, i64 999999999999999999, i32 0, dbl 0x3FB999999999999A, bool True, i64 0,
         i32 0, dec_value 0 1, dec_value 0 4, dec_value NINES_36 0, dec_value (- 1) 10, date end_day, date end_day,
         ts end_day end_time 0, ts end_day end_time 999000000, ts end_day end_time 999999000,
         ts (2262, 4, 11) (23, 47, 16) 854775807, ts end_day end_time 999999999, s [], s [], null, s []],
        [i32 4, null, i64 1, null, i32 (- 1), null, bool False, null, i32 (- 1), null, dec_value (- 1234500) 4, null,
         dec_value 5000000000 10, null, date eve, null, ts eve end_time 999000000, null,
         ts eve end_time 999999999, null, s (repeat ''x'' 16383), s (repeat E_ACUTE 8192),
         s (repeat E_ACUTE 2000000), null],
        i32 5 # replicate (length COLUMNS - 1) null]))"

definition decimal_text :: "decimal \<Rightarrow> string" where
  "decimal_text d = (let digits = show_nat (unsigned_abs (unscaled d)); scale = unat (dscale d);
       sign = (if sint (unscaled d) < 0 then ''-'' else []);
       padded = pad_left (CHR ''0'') (scale + 1) digits
     in if scale = 0 then sign @ digits
        else sign @ take (length padded - scale) padded @ ''.'' @ drop (length padded - scale) padded)"

text \<open>The text form of a cell; a cell that has none panics.\<close>

definition value_text :: "('d, 't) ext \<Rightarrow> ('d, 't) sql_value \<Rightarrow> string option option" where
  "value_text E v = (case v of
      VNull \<Rightarrow> Some None
    | VString s \<Rightarrow> Some (Some s)
    | VNumeric d \<Rightarrow> Some (Some (decimal_text d))
    | VDate d \<Rightarrow> Some (Some (date_format E d ''%Y-%m-%d''))
    | VTimestamp t \<Rightarrow> Some (Some (datetime_format E t ''%Y-%m-%d %H:%M:%S%.9f''))
    | _ \<Rightarrow> None)"

definition int_cell :: "('d, 't) sql_value \<Rightarrow> i64 option" where
  "int_cell v = (case v of VInt32 i \<Rightarrow> Some (scast i) | VInt64 i \<Rightarrow> Some i | _ \<Rightarrow> None)"

definition double_cell :: "('d, 't) ext \<Rightarrow> ('d, 't) sql_value \<Rightarrow> f64 option" where
  "double_cell E v = (case v of
      VDouble f \<Rightarrow> Some f
    | VNumeric d \<Rightarrow> Some (f64_div E (f64_of_int E (sint (unscaled d))) (f64_powi E 0x4024000000000000 (unat (dscale d))))
    | _ \<Rightarrow> None)"

definition bool_cell :: "('d, 't) sql_value \<Rightarrow> bool option" where
  "bool_cell v = (case v of VBool b \<Rightarrow> Some b | _ \<Rightarrow> None)"

definition date_cell :: "('d \<Rightarrow> int) \<Rightarrow> ('d, 't) sql_value \<Rightarrow> i32 option" where
  "date_cell days v = (case v of VDate d \<Rightarrow> Some (word_of_int (days d)) | _ \<Rightarrow> None)"

definition ts_cell :: "('d, 't) batch_env \<Rightarrow> time_unit \<Rightarrow> ('d, 't) sql_value \<Rightarrow> i64 option" where
  "ts_cell X unit v = (case v of
      VTimestamp t \<Rightarrow> (let secs = word_of_int (be_epoch_seconds X t); nanos = be_subsec_nanos X t in
        Some (case unit of
            Second \<Rightarrow> secs
          | Millisecond \<Rightarrow> secs * 1000 + of_nat (nanos div 1000000)
          | Microsecond \<Rightarrow> secs * 1000000 + of_nat (nanos div 1000)
          | Nanosecond \<Rightarrow> secs * 1000000000 + of_nat nanos))
    | _ \<Rightarrow> None)"

definition dec_cell :: "int \<Rightarrow> ('d, 't) sql_value \<Rightarrow> i128 option" where
  "dec_cell scale v = (case v of
      VNumeric d \<Rightarrow> Some (unscaled d * 10 ^ unat (word_of_int scale - ucast (dscale d) :: 32 word))
    | _ \<Rightarrow> None)"

definition text_column :: "(string list \<Rightarrow> arrow_data) \<Rightarrow> ('d, 't) ext \<Rightarrow> ('d, 't) sql_value list \<Rightarrow> arrow_array option" where
  "text_column mk E vs = map_option (option_array mk []) (all_some (map (value_text E) vs))"

definition kind_column :: "('d, 't) batch_env \<Rightarrow> kind \<Rightarrow> ('d, 't) sql_value list \<Rightarrow> arrow_array option" where
  "kind_column X k vs = (case k of
      KI32 \<Rightarrow> Some (option_array AInt32 0 (map (map_option ucast \<circ> int_cell) vs))
    | KI64 \<Rightarrow> Some (option_array AInt64 0 (map int_cell vs))
    | KF64 \<Rightarrow> Some (option_array AFloat64 0 (map (double_cell (be_ext X)) vs))
    | KBool \<Rightarrow> Some (option_array ABoolean False (map bool_cell vs))
    | KUtf8 \<Rightarrow> text_column utf8_data (be_ext X) vs
    | KLargeUtf8 \<Rightarrow> text_column large_utf8_data (be_ext X) vs
    | KDate32 \<Rightarrow> Some (option_array ADate32 0 (map (date_cell (be_epoch_days X)) vs))
    | KTs unit \<Rightarrow> Some (option_array (ATimestamp unit) 0 (map (ts_cell X unit) vs))
    | KDec scale \<Rightarrow> Some (option_array (\<lambda>us. ADecimal128 us scale) 0 (map (dec_cell scale) vs)))"

definition type_batch :: "('d, 't) batch_env \<Rightarrow> ('d, 't) sql_value list list \<Rightarrow> record_batch ending" where
  "type_batch X rs = (case all_some (map (\<lambda>c. kind_column X (snd (COLUMNS ! c)) (map (\<lambda>r. r ! c) rs)) [0 ..< length COLUMNS]) of
      None \<Rightarrow> Panicked
    | Some arrays \<Rightarrow> try_batch X (map (\<lambda>(name, _). (name, True)) COLUMNS) arrays)"

definition get_ns :: "('d, 't) ext \<Rightarrow> ('d, 't, bool) code" where
  "get_ns E = code_bind (ctx_typed (get_bool E) 0) (\<lambda>ns. code_return (unwrap_or False ns))"

definition emit_types_row :: "('d, 't) ext \<Rightarrow> ('d, 't, unit) code" where
  "emit_types_row E = code_bind (get_ns E) (\<lambda>ns. case type_rows E ns of
      None \<Rightarrow> code_panic | Some rs \<Rightarrow> emit_all rs)"

definition emit_types_batch :: "('d, 't) batch_env \<Rightarrow> ('d, 't, unit) code" where
  "emit_types_batch X = code_bind (get_ns (be_ext X)) (\<lambda>ns. case type_rows (be_ext X) ns of
      None \<Rightarrow> code_panic
    | Some rs \<Rightarrow>
        code_bind (code_end (type_batch X (take 2 rs))) (\<lambda>b.
        code_bind (ctx_emit_batch X b) (\<lambda>_.
        code_bind (code_end (type_batch X (drop 2 rs))) (ctx_emit_batch X))))"

section \<open>Cells of the benches\<close>

text \<open>The remainder of a machine integer has the sign of the dividend.\<close>

definition rust_rem :: "int \<Rightarrow> int \<Rightarrow> int" where
  "rust_rem a b = (if 0 \<le> a then a mod b else - (- a mod b))"

definition LABEL_LEN :: nat where "LABEL_LEN = 50"
definition CHUNK :: nat where "CHUNK = 100000"
definition NULL_EVERY :: int where "NULL_EVERY = 10"

definition WIDE_TEXT_MAX :: "nat list" where
  "WIDE_TEXT_MAX = [8, 16, 32, 32, 64, 64, 128, 200]"

definition native_v :: "('d, 't) batch_env \<Rightarrow> i64 \<Rightarrow> f64" where
  "native_v X i = pe_mul (be_payload X) (f64_of (be_payload X) i) 0x3FF8000000000000"

definition amount :: "i64 \<Rightarrow> decimal" where
  "amount i = \<lparr>unscaled = scast i * 137 + 4200, dscale = 2\<rparr>"

definition big :: "i64 \<Rightarrow> decimal" where
  "big i = \<lparr>unscaled = scast i * 12345678901 + 987654321, dscale = 10\<rparr>"

definition base_time :: "('d, 't) batch_env \<Rightarrow> 't" where
  "base_time X = unwrap_or (t_default (be_ext X)) (and_hms_nano_opt (be_ext X) (base_date (be_payload X)) 0 0 0 0)"

definition bench_date :: "('d, 't) batch_env \<Rightarrow> i64 \<Rightarrow> 'd" where
  "bench_date X i = pe_add_days (be_payload X) (base_date (be_payload X)) (rust_rem (sint i) 3650)"

definition bench_timestamp :: "('d, 't) batch_env \<Rightarrow> i64 \<Rightarrow> 't" where
  "bench_timestamp X i = pe_add_micros (be_payload X)
     (pe_add_micros (be_payload X) (base_time X) (sint i * 1000000)) (sint (i * 137) mod 1000000)"

definition bench_label :: "i64 \<Rightarrow> string" where
  "bench_label i = pad_left (CHR ''0'') LABEL_LEN (show_int (sint i))"

definition native_row :: "('d, 't) batch_env \<Rightarrow> i64 \<Rightarrow> ('d, 't) sql_value list" where
  "native_row X i = [VInt64 i, VDouble (native_v X i)]"

definition strblock_row :: "('d, 't) batch_env \<Rightarrow> i64 \<Rightarrow> ('d, 't) sql_value list" where
  "strblock_row X i = [VInt64 i, VNumeric (amount i), VDate (bench_date X i), VTimestamp (bench_timestamp X i)]"

definition varchar_row :: "i64 \<Rightarrow> ('d, 't) sql_value list" where
  "varchar_row i = [VInt64 i, VString (bench_label i)]"

definition bench_is_null :: "i64 \<Rightarrow> nat \<Rightarrow> bool" where
  "bench_is_null i col \<longleftrightarrow> snd (snd (WIDE_COLUMNS ! col)) \<and> rust_rem (sint (i + of_nat col)) NULL_EVERY = 0"

definition bench_text :: "i64 \<Rightarrow> nat \<Rightarrow> string" where
  "bench_text i col = (let width = WIDE_TEXT_MAX ! (col - 16);
     len = 1 + unat (i * 31 + of_nat (col * 7)) mod width;
     start = unat (i * 13 + of_nat col) mod (length WIDE_TEXT - len)
     in slice start (start + len) WIDE_TEXT)"

definition hex_char :: "nat \<Rightarrow> char" where
  "hex_char d = char_of (if d < 10 then 48 + d else 87 + d)"

fun hex_digits :: "nat \<Rightarrow> string" where
  "hex_digits n = (if n < 16 then [hex_char n] else hex_digits (n div 16) @ [hex_char (n mod 16)])"

declare hex_digits.simps [simp del]

definition bench_cell :: "('d, 't) batch_env \<Rightarrow> i64 \<Rightarrow> nat \<Rightarrow> ('d, 't) sql_value" where
  "bench_cell X i col = (let f = f64_of (be_payload X) i in
     if bench_is_null i col then VNull
     else if col = 0 then VInt64 i
     else if col = 1 then VInt64 (i * 7)
     else if col = 2 then VInt64 (word_of_int (rust_rem (sint i) 1000))
     else if col = 3 then VDouble (native_v X i)
     else if col = 4 then VDouble (f64_div (be_ext X) f 0x4008000000000000)
     else if col = 5 then VDouble (pe_mul (be_payload X) (pe_neg (be_payload X) f) 0x3FD0000000000000)
     else if col = 6 then VBool (rust_rem (sint i) 2 = 0)
     else if col = 7 then VBool (rust_rem (sint i) 3 = 0)
     else if col = 8 then VNumeric (amount i)
     else if col = 9 then VNumeric (amount (i + 1))
     else if col = 10 then VNumeric (big i)
     else if col = 11 then VNumeric (big (i + 1))
     else if col = 12 then VDate (bench_date X i)
     else if col = 13 then VDate (bench_date X (i + 1))
     else if col = 14 then VTimestamp (bench_timestamp X i)
     else if col = 15 then VTimestamp (bench_timestamp X (i + 1))
     else if col = 16 then VString (pad_left (CHR ''0'') 8 (hex_digits (unat i)))
     else VString (bench_text i col))"

definition wide_row :: "('d, 't) batch_env \<Rightarrow> i64 \<Rightarrow> ('d, 't) sql_value list" where
  "wide_row X i = map (bench_cell X i) [0 ..< length WIDE_COLUMNS]"

section \<open>Their batches\<close>

text \<open>Row numbers of a batch; the timestamps of a batch, which panic past the range of nanoseconds.\<close>

definition batch_keys :: "i64 \<Rightarrow> nat \<Rightarrow> i64 list" where
  "batch_keys start len = map (\<lambda>j. start + of_nat j) [0 ..< len]"

definition epoch_nanos :: "('d, 't) batch_env \<Rightarrow> 't \<Rightarrow> i64 option" where
  "epoch_nanos X t = map_option word_of_int (be_epoch_nanos X t)"

definition epoch_days :: "('d, 't) batch_env \<Rightarrow> 'd \<Rightarrow> i32" where
  "epoch_days X d = word_of_int (be_epoch_days X d)"

definition native_arrays :: "('d, 't) batch_env \<Rightarrow> i64 list \<Rightarrow> f64 list \<Rightarrow> record_batch ending" where
  "native_arrays X ks vs = try_batch X [(''k'', False), (''v'', False)] [plain_array (AInt64 ks), plain_array (AFloat64 vs)]"

definition strblock_arrays :: "('d, 't) batch_env \<Rightarrow> i64 list \<Rightarrow> i128 list \<Rightarrow> i32 list \<Rightarrow> i64 list \<Rightarrow> record_batch ending" where
  "strblock_arrays X ks amounts dates tss =
     try_batch X [(''k'', False), (''amount'', False), (''d'', False), (''ts'', False)]
       [plain_array (AInt64 ks), plain_array (ADecimal128 amounts 2), plain_array (ADate32 dates),
        plain_array (ATimestamp Nanosecond tss)]"

definition varchar_arrays :: "('d, 't) batch_env \<Rightarrow> i64 list \<Rightarrow> string list \<Rightarrow> record_batch ending" where
  "varchar_arrays X ks labels = try_batch X [(''k'', False), (''label'', False)]
     [plain_array (AInt64 ks), plain_array (utf8_data labels)]"

definition native_batch :: "('d, 't) batch_env \<Rightarrow> i64 \<Rightarrow> nat \<Rightarrow> record_batch ending" where
  "native_batch X start len = (let ks = batch_keys start len in native_arrays X ks (map (native_v X) ks))"

definition strblock_batch :: "('d, 't) batch_env \<Rightarrow> i64 \<Rightarrow> nat \<Rightarrow> record_batch ending" where
  "strblock_batch X start len = (let ks = batch_keys start len in
     case all_some (map (epoch_nanos X \<circ> bench_timestamp X) ks) of
       None \<Rightarrow> Panicked
     | Some tss \<Rightarrow> strblock_arrays X ks (map (unscaled \<circ> amount) ks) (map (epoch_days X \<circ> bench_date X) ks) tss)"

definition varchar_batch :: "('d, 't) batch_env \<Rightarrow> i64 \<Rightarrow> nat \<Rightarrow> record_batch ending" where
  "varchar_batch X start len = (let ks = batch_keys start len in varchar_arrays X ks (map bench_label ks))"

text \<open>The array of a column of the wide table: a value of another type counts as absent.\<close>

definition wide_array :: "('d, 't) batch_env \<Rightarrow> string \<Rightarrow> ('d, 't) sql_value list \<Rightarrow> arrow_array option" where
  "wide_array X sql vs =
     (if sql = ''DECIMAL(18,0)'' then Some (option_array AInt64 0 (map (\<lambda>v. case v of VInt64 x \<Rightarrow> Some x | _ \<Rightarrow> None) vs))
      else if sql = ''DOUBLE'' then Some (option_array AFloat64 0 (map (\<lambda>v. case v of VDouble x \<Rightarrow> Some x | _ \<Rightarrow> None) vs))
      else if sql = ''BOOLEAN'' then Some (option_array ABoolean False (map bool_cell vs))
      else if sql = ''DECIMAL(18,2)'' \<or> sql = ''DECIMAL(36,10)'' then
        Some (option_array (\<lambda>us. ADecimal128 us (if sql = ''DECIMAL(18,2)'' then 2 else 10)) 0
          (map (\<lambda>v. case v of VNumeric d \<Rightarrow> Some (unscaled d) | _ \<Rightarrow> None) vs))
      else if sql = ''DATE'' then Some (option_array ADate32 0 (map (date_cell (be_epoch_days X)) vs))
      else if sql = ''TIMESTAMP'' then
        map_option (option_array (ATimestamp Nanosecond) 0)
          (all_some (map (\<lambda>v. case v of VTimestamp t \<Rightarrow> map_option Some (epoch_nanos X t) | _ \<Rightarrow> Some None) vs))
      else Some (option_array utf8_data [] (map (\<lambda>v. case v of VString s \<Rightarrow> Some s | _ \<Rightarrow> None) vs)))"

definition wide_arrays :: "('d, 't) batch_env \<Rightarrow> ('d, 't) sql_value list list \<Rightarrow> record_batch ending" where
  "wide_arrays X cols =
     (case all_some (map (\<lambda>(col, _, ty, _). wide_array X ty col) (zip cols WIDE_COLUMNS)) of
        None \<Rightarrow> Panicked
      | Some arrays \<Rightarrow> try_batch X (map (\<lambda>(name, _, nullable). (name, nullable)) WIDE_COLUMNS) arrays)"

definition wide_batch :: "('d, 't) batch_env \<Rightarrow> i64 \<Rightarrow> nat \<Rightarrow> record_batch ending" where
  "wide_batch X start len =
     wide_arrays X (map (\<lambda>col. map (\<lambda>i. bench_cell X i col) (batch_keys start len)) [0 ..< length WIDE_COLUMNS])"

section \<open>The drivers of the benches\<close>

definition scalar_params :: "('d, 't) ext \<Rightarrow> ('d, 't, i64 \<times> bool \<times> nat) code" where
  "scalar_params E =
     code_bind (ctx_typed (get_i64 E) 0) (\<lambda>n. case n of
         None \<Rightarrow> code_fail (User ''bench-udfs: n is NULL'')
       | Some n \<Rightarrow>
     code_bind (ctx_typed (get_i64 E) 1) (\<lambda>do_emit.
     code_bind (ask InputColumnCount nat_end) (\<lambda>count.
     code_bind (if 2 < count
         then code_bind (ctx_typed (get_i64 E) 2) (\<lambda>b. code_return (case b of
             Some b \<Rightarrow> if 0 < sint b then unat b else CHUNK | None \<Rightarrow> CHUNK))
         else code_return CHUNK) (\<lambda>chunk.
       code_return (n, unwrap_or 0 do_emit \<noteq> 0, chunk)))))"

definition set_params :: "('d, 't) ext \<Rightarrow> ('d, 't, i64 \<times> bool \<times> nat) code" where
  "set_params E = code_bind ctx_next (\<lambda>got.
     if \<not> got then code_fail (User ''bench-udfs: empty input group'')
     else code_bind (scalar_params E) (\<lambda>params. code_bind drain (\<lambda>_. code_return params)))"

definition generate_rows :: "(i64 \<Rightarrow> ('d, 't) sql_value list) \<Rightarrow> i64 \<times> bool \<times> nat \<Rightarrow> ('d, 't, unit) code" where
  "generate_rows row_of params = (case params of (n, do_emit, _) \<Rightarrow>
     if do_emit then emit_all (map (row_of \<circ> of_nat) [0 ..< nat (sint n)]) else ctx_emit (row_of 0))"

function batches_from :: "('d, 't) batch_env \<Rightarrow> (i64 \<Rightarrow> nat \<Rightarrow> record_batch ending) \<Rightarrow> bool \<Rightarrow> nat \<Rightarrow> i64 \<Rightarrow> nat \<Rightarrow>
    ('d, 't, unit) code" where
  "batches_from X batch do_emit chunk start left =
     (if left = 0 then code_return ()
      else let len = min left (max chunk 1) in
        code_bind (code_end (batch start len)) (\<lambda>b.
        code_bind (if do_emit then ctx_emit_batch X b else code_return ()) (\<lambda>_.
          batches_from X batch do_emit chunk (start + of_nat len) (left - len))))"
  by pat_completeness auto
termination
  by (relation "measure (\<lambda>(_, _, _, _, _, left). left)") auto

declare batches_from.simps [simp del]

definition generate_batches :: "('d, 't) batch_env \<Rightarrow> (i64 \<Rightarrow> nat \<Rightarrow> record_batch ending) \<Rightarrow> i64 \<times> bool \<times> nat \<Rightarrow>
    ('d, 't, unit) code" where
  "generate_batches X batch params = (case params of (n, do_emit, chunk) \<Rightarrow>
     code_bind (batches_from X batch do_emit chunk 0 (nat (sint n))) (\<lambda>_.
       if do_emit then code_return ()
       else code_bind (code_end (batch 0 1)) (ctx_emit_batch X)))"

fun get_cells :: "nat list \<Rightarrow> ('d, 't) sql_value list \<Rightarrow> ('d, 't, ('d, 't) sql_value list) code" where
  "get_cells [] out = code_return out"
| "get_cells (c # cs) out = code_bind (ctx_get c) (\<lambda>v. get_cells cs (out @ [v]))"

definition reemit_rows :: "('d, 't, unit) code" where
  "reemit_rows = while_next (\<lambda>_. code_bind (ask InputColumnCount nat_end) (\<lambda>count.
     code_bind (get_cells [0 ..< count] []) ctx_emit)) ()"

text \<open>A collector of columns: what it starts with, how it takes a row, its length, and its batch, after which
  it starts over.\<close>

record ('c, 'd, 't) collector =
  cl_default :: 'c
  cl_push :: "'c \<Rightarrow> ('d, 't, 'c) code"
  cl_len :: "'c \<Rightarrow> nat"
  cl_take :: "'c \<Rightarrow> record_batch ending"

definition native_collector :: "('d, 't) batch_env \<Rightarrow> (i64 list \<times> f64 list, 'd, 't) collector" where
  "native_collector X = \<lparr>cl_default = ([], []),
     cl_push = (\<lambda>(ks, vs). code_bind (ctx_typed (get_i64 (be_ext X)) 0) (\<lambda>k.
       code_bind (ctx_typed (get_f64 (be_ext X)) 1) (\<lambda>v. code_return (ks @ [unwrap_or 0 k], vs @ [unwrap_or 0 v])))),
     cl_len = length \<circ> fst, cl_take = (\<lambda>(ks, vs). native_arrays X ks vs)\<rparr>"

definition strblock_collector :: "('d, 't) batch_env \<Rightarrow> (i64 list \<times> i128 list \<times> i32 list \<times> i64 list, 'd, 't) collector" where
  "strblock_collector X = \<lparr>cl_default = ([], [], [], []),
     cl_push = (\<lambda>(ks, amounts, ds, tss).
       code_bind (ctx_typed (get_i64 (be_ext X)) 0) (\<lambda>k.
       code_bind (ctx_typed (get_decimal (be_ext X)) 1) (\<lambda>a.
       code_bind (ctx_typed (get_date (be_ext X)) 2) (\<lambda>d.
       code_bind (ctx_typed (get_timestamp (be_ext X)) 3) (\<lambda>t.
         case (case t of None \<Rightarrow> Some 0 | Some t \<Rightarrow> epoch_nanos X t) of
           None \<Rightarrow> code_panic
         | Some nanos \<Rightarrow> code_return (ks @ [unwrap_or 0 k], amounts @ [unwrap_or 0 (map_option unscaled a)],
             ds @ [unwrap_or 0 (map_option (epoch_days X) d)], tss @ [nanos])))))),
     cl_len = length \<circ> fst, cl_take = (\<lambda>(ks, amounts, ds, tss). strblock_arrays X ks amounts ds tss)\<rparr>"

definition varchar_collector :: "('d, 't) batch_env \<Rightarrow> (i64 list \<times> string list, 'd, 't) collector" where
  "varchar_collector X = \<lparr>cl_default = ([], []),
     cl_push = (\<lambda>(ks, labels). code_bind (ctx_typed (get_i64 (be_ext X)) 0) (\<lambda>k.
       code_bind (ctx_typed (get_string (be_ext X)) 1) (\<lambda>l. code_return (ks @ [unwrap_or 0 k], labels @ [unwrap_or [] l])))),
     cl_len = length \<circ> fst, cl_take = (\<lambda>(ks, labels). varchar_arrays X ks labels)\<rparr>"

definition wide_collector :: "('d, 't) batch_env \<Rightarrow> (('d, 't) sql_value list list, 'd, 't) collector" where
  "wide_collector X = \<lparr>cl_default = replicate (length WIDE_COLUMNS) [],
     cl_push = (\<lambda>cols. code_bind (get_cells [0 ..< length cols] []) (\<lambda>vs.
       code_return (map2 (\<lambda>col v. col @ [v]) cols vs))),
     cl_len = (\<lambda>cols. length (cols ! 0)), cl_take = wide_arrays X\<rparr>"

definition reemit_batches :: "('d, 't) batch_env \<Rightarrow> ('c, 'd, 't) collector \<Rightarrow> ('d, 't, unit) code" where
  "reemit_batches X C =
     code_bind (while_next (\<lambda>col. code_bind (cl_push C col) (\<lambda>col.
         if cl_len C col = CHUNK
         then code_bind (code_end (cl_take C col)) (\<lambda>b.
              code_bind (ctx_emit_batch X b) (\<lambda>_. code_return (cl_default C)))
         else code_return col)) (cl_default C)) (\<lambda>col.
     if 0 < cl_len C col then code_bind (code_end (cl_take C col)) (ctx_emit_batch X) else code_return ())"

section \<open>The entry points of the benches\<close>

definition sr_native :: "('d, 't) ext \<Rightarrow> ('d, 't, i64 option) code" where
  "sr_native E = code_bind (ctx_typed (get_i64 E) 0) (\<lambda>k.
     code_bind (ctx_typed (get_f64 E) 1) (\<lambda>_. code_return (map_option (\<lambda>k. k + 1) k)))"

definition sr_strblock :: "('d, 't) ext \<Rightarrow> ('d, 't, decimal option) code" where
  "sr_strblock E = code_bind (ctx_typed (get_i64 E) 0) (\<lambda>_.
     code_bind (ctx_typed (get_decimal E) 1) (\<lambda>a.
     code_bind (ctx_typed (get_date E) 2) (\<lambda>_.
     code_bind (ctx_typed (get_timestamp E) 3) (\<lambda>_.
       code_return (map_option (\<lambda>a. \<lparr>unscaled = unscaled a * 2, dscale = dscale a\<rparr>) a)))))"

definition sr_varchar :: "('d, 't) ext \<Rightarrow> ('d, 't, i64 option) code" where
  "sr_varchar E = code_bind (ctx_typed (get_i64 E) 0) (\<lambda>_.
     code_bind (ctx_typed (get_string E) 1) (\<lambda>s. code_return (map_option (of_nat \<circ> length) s)))"

text \<open>The entry points the macro \<open>generators\<close> expands to: scalar and set, by rows and by batches.\<close>

definition gen_row :: "('d, 't) ext \<Rightarrow> (i64 \<Rightarrow> ('d, 't) sql_value list) \<Rightarrow> ('d, 't, unit) code" where
  "gen_row E row_of = code_bind (scalar_params E) (generate_rows row_of)"

definition setgen_row :: "('d, 't) ext \<Rightarrow> (i64 \<Rightarrow> ('d, 't) sql_value list) \<Rightarrow> ('d, 't, unit) code" where
  "setgen_row E row_of = code_bind (set_params E) (generate_rows row_of)"

definition gen_batch :: "('d, 't) batch_env \<Rightarrow> (i64 \<Rightarrow> nat \<Rightarrow> record_batch ending) \<Rightarrow> ('d, 't, unit) code" where
  "gen_batch X batch = code_bind (scalar_params (be_ext X)) (generate_batches X batch)"

definition setgen_batch :: "('d, 't) batch_env \<Rightarrow> (i64 \<Rightarrow> nat \<Rightarrow> record_batch ending) \<Rightarrow> ('d, 't, unit) code" where
  "setgen_batch X batch = code_bind (set_params (be_ext X)) (generate_batches X batch)"

definition pt_native :: "('d, 't) ext \<Rightarrow> ('d, 't, unit) code" where
  "pt_native E = code_bind (ctx_typed (get_i64 E) 0) (\<lambda>k.
     code_bind (ctx_typed (get_i64 E) 1) (\<lambda>n.
       emit_all (replicate (nat (sint (unwrap_or 0 n))) [VInt64 (unwrap_or 0 k)])))"

definition set_sum_native :: "('d, 't) batch_env \<Rightarrow> ('d, 't, f64 option) code" where
  "set_sum_native X = code_bind (while_next (\<lambda>sum.
       code_bind (ctx_typed (get_i64 (be_ext X)) 0) (\<lambda>_.
       code_bind (ctx_typed (get_f64 (be_ext X)) 1) (\<lambda>v. code_return (be_add X sum (unwrap_or 0 v))))) 0)
     (\<lambda>sum. code_return (Some sum))"

definition set_sum_strblock :: "('d, 't) ext \<Rightarrow> ('d, 't, decimal option) code" where
  "set_sum_strblock E = code_bind (while_next (\<lambda>sum.
       code_bind (ctx_typed (get_i64 E) 0) (\<lambda>_.
       code_bind (ctx_typed (get_decimal E) 1) (\<lambda>d.
       code_bind (ctx_typed (get_date E) 2) (\<lambda>_.
       code_bind (ctx_typed (get_timestamp E) 3) (\<lambda>_.
         code_return (sum + unwrap_or 0 (map_option unscaled d))))))) 0)
     (\<lambda>sum. code_return (Some \<lparr>unscaled = sum, dscale = 2\<rparr>))"

definition set_sum_wide :: "('d, 't, i64 option) code" where
  "set_sum_wide = code_bind (while_next (\<lambda>non_null.
       code_bind (get_cells [0 ..< length WIDE_COLUMNS] []) (\<lambda>vs.
         code_return (non_null + of_nat (length (filter (\<lambda>v. v \<noteq> VNull) vs))))) 0)
     (\<lambda>non_null. code_return (Some non_null))"

text \<open>The exported scripts: eight generators by rows, eight by batches, and the re-emitters.\<close>

definition generator_entries :: "('d, 't) batch_env \<Rightarrow> (string \<times> ('d, 't, unit) code) list" where
  "generator_entries X = (let E = be_ext X in
     [(''gen_native_row'', gen_row E (native_row X)), (''setgen_native_row'', setgen_row E (native_row X)),
      (''gen_strblock_row'', gen_row E (strblock_row X)), (''setgen_strblock_row'', setgen_row E (strblock_row X)),
      (''gen_varchar_row'', gen_row E varchar_row), (''setgen_varchar_row'', setgen_row E varchar_row),
      (''gen_wide_row'', gen_row E (wide_row X)), (''setgen_wide_row'', setgen_row E (wide_row X)),
      (''gen_native_batch'', gen_batch X (native_batch X)), (''setgen_native_batch'', setgen_batch X (native_batch X)),
      (''gen_strblock_batch'', gen_batch X (strblock_batch X)), (''setgen_strblock_batch'', setgen_batch X (strblock_batch X)),
      (''gen_varchar_batch'', gen_batch X (varchar_batch X)), (''setgen_varchar_batch'', setgen_batch X (varchar_batch X)),
      (''gen_wide_batch'', gen_batch X (wide_batch X)), (''setgen_wide_batch'', setgen_batch X (wide_batch X))])"

definition reemit_entries :: "('d, 't) batch_env \<Rightarrow> (string \<times> ('d, 't, unit) code) list" where
  "reemit_entries X =
     [(''set_emit_native_row'', reemit_rows), (''set_emit_native_batch'', reemit_batches X (native_collector X)),
      (''set_emit_strblock_row'', reemit_rows), (''set_emit_strblock_batch'', reemit_batches X (strblock_collector X)),
      (''set_emit_varchar_row'', reemit_rows), (''set_emit_varchar_batch'', reemit_batches X (varchar_collector X)),
      (''set_emit_wide_row'', reemit_rows), (''set_emit_wide_batch'', reemit_batches X (wide_collector X))]"

section \<open>The two forms agree\<close>

lemma text_at_offsets:
  assumes "r < length ws"
  shows "text_at (text_offsets ws) (concat ws) r = ws ! r"
proof -
  have split: "concat ws = concat (take r ws) @ ws ! r @ concat (drop (Suc r) ws)"
    using id_take_nth_drop [OF assms] by (metis concat.simps(2) concat_append)
  have "text_offsets ws ! i = length (concat (take i ws))" if "i \<le> length ws" for i
    using that unfolding text_offsets_def by (simp del: upt_Suc)
  then show ?thesis
    using assms by (simp add: text_at_def slice_def take_Suc_conv_app_nth, subst split) simp
qed

lemma text_offsets_ok:
  "length (text_offsets ws) = length ws + 1" "sorted (text_offsets ws)" "text_offsets ws ! length ws \<le> length (concat ws)"
proof -
  have "length (concat (take i ws)) \<le> length (concat (take j ws))" if "i \<le> j" for i j
    by (metis append_take_drop_id concat_append le_add1 length_append min.absorb1 take_take that)
  then show "sorted (text_offsets ws)" unfolding text_offsets_def sorted_iff_nth_mono by (simp del: upt_Suc)
  show "text_offsets ws ! length ws \<le> length (concat ws)" by (simp add: text_offsets_def del: upt_Suc)
qed (simp add: text_offsets_def)

text \<open>The rows of an array, and what the arrow crate documents of \<open>RecordBatch::try_new\<close>: arrays of one
  length without absent values make a batch of that length.\<close>

definition array_rows :: "arrow_data \<Rightarrow> nat option" where
  "array_rows d = (case d of
      AInt32 xs \<Rightarrow> Some (length xs) | AInt64 xs \<Rightarrow> Some (length xs) | AFloat64 xs \<Rightarrow> Some (length xs)
    | ABoolean xs \<Rightarrow> Some (length xs) | ADate32 xs \<Rightarrow> Some (length xs) | ATimestamp _ xs \<Rightarrow> Some (length xs)
    | ADecimal128 xs _ \<Rightarrow> Some (length xs)
    | AUtf8 offsets _ \<Rightarrow> Some (length offsets - 1) | ALargeUtf8 offsets _ \<Rightarrow> Some (length offsets - 1)
    | AOther _ \<Rightarrow> None)"

definition assembles :: "('d, 't) batch_env \<Rightarrow> bool" where
  "assembles X \<longleftrightarrow> (\<forall>schema arrays n. length schema = length arrays \<longrightarrow> arrays \<noteq> [] \<longrightarrow>
     list_all (\<lambda>a. array_rows (aa_data a) = Some n \<and> aa_nulls a = None) arrays \<longrightarrow>
     be_try_new X schema arrays = Ok \<lparr>rb_num_rows = n, rb_columns = arrays\<rparr>)"

lemma native_batch_built:
  assumes "assembles X"
  shows "native_batch X start len = Returned (Ok \<lparr>rb_num_rows = len, rb_columns =
    [plain_array (AInt64 (batch_keys start len)), plain_array (AFloat64 (map (native_v X) (batch_keys start len)))]\<rparr>)"
  using assms by (simp add: native_batch_def native_arrays_def try_batch_def assembles_def plain_array_def
      array_rows_def batch_keys_def)

lemma varchar_batch_built:
  assumes "assembles X"
  shows "varchar_batch X start len = Returned (Ok \<lparr>rb_num_rows = len, rb_columns =
    [plain_array (AInt64 (batch_keys start len)), plain_array (utf8_data (map bench_label (batch_keys start len)))]\<rparr>)"
  using assms by (simp add: varchar_batch_def varchar_arrays_def try_batch_def assembles_def plain_array_def
      array_rows_def batch_keys_def utf8_data_def text_offsets_ok)

lemma build_two:
  assumes "build_accessors dd dt \<lparr>rb_num_rows = n, rb_columns = [plain_array d1, plain_array d2]\<rparr> meta = Ok accs"
    and "list_all (\<lambda>m. ci_typ m \<noteq> TUnsupported) meta"
  obtains m1 m2 a1 a2 where "meta = [m1, m2]" "accs = [a1, a2]" "ci_typ m1 \<noteq> TUnsupported" "ci_typ m2 \<noteq> TUnsupported"
    "build_accessor d1 (ci_typ m1) = Some a1" "build_accessor d2 (ci_typ m2) = Some a2"
proof -
  have "length meta = Suc (Suc 0)" using assms(1) by (simp add: build_accessors_def split: if_splits)
  then obtain m1 m2 where meta: "meta = [m1, m2]" by (auto simp: length_Suc_conv)
  then show ?thesis
    using that assms by (auto simp: build_accessors_def plain_array_def rbind_eq_Inr split: option.splits)
qed

lemma batch_row_two:
  assumes "build_accessors dd dt \<lparr>rb_num_rows = n, rb_columns = [plain_array d1, plain_array d2]\<rparr> meta = Ok [a1, a2]"
  shows "batch_row E (batch_cols dd dt \<lparr>rb_num_rows = n, rb_columns = [plain_array d1, plain_array d2]\<rparr> meta) r =
    [accessor_value E a1 r, accessor_value E a2 r]"
  unfolding batch_row_def batch_cols_def assms
  by (simp add: plain_array_def column_nulls_def batch_cell_def is_valid_def)

lemma accessor_ints: "build_accessor (AInt64 xs) ty = Some a \<Longrightarrow> ty \<noteq> TUnsupported \<Longrightarrow> accessor_value E a r = VInt64 (xs ! r)"
  by (cases ty) (auto simp: build_accessor_def accessor_value_def)

lemma accessor_doubles: "build_accessor (AFloat64 xs) ty = Some a \<Longrightarrow> ty \<noteq> TUnsupported \<Longrightarrow> accessor_value E a r = VDouble (xs ! r)"
  by (cases ty) (auto simp: build_accessor_def accessor_value_def)

lemma accessor_texts:
  assumes "build_accessor (utf8_data ws) ty = Some a" "ty \<noteq> TUnsupported" "r < length ws"
  shows "accessor_value E a r = VString (ws ! r)"
  using assms text_at_offsets [OF assms(3)]
  by (auto simp: build_accessor_def utf8_data_def accessor_value_def split: if_splits)

text \<open>The row form and the batch form of a generator.\<close>

definition generator_forms :: "('d, 't) batch_env \<Rightarrow> (i64 \<Rightarrow> ('d, 't) sql_value list) \<Rightarrow>
    (i64 \<Rightarrow> nat \<Rightarrow> record_batch ending) \<Rightarrow> bool" where
  "generator_forms X row_of batch \<longleftrightarrow>
     row_of = native_row X \<and> batch = native_batch X \<or> row_of = varchar_row \<and> batch = varchar_batch X"

lemma generated_batch:
  assumes "assembles X" "generator_forms X row_of batch"
  obtains b where "batch start len = Returned (Ok b)" "rb_num_rows b = len" "batch_ok b"
    "\<And>accs meta. build_accessors dd dt b meta = Ok accs \<Longrightarrow> list_all (\<lambda>m. ci_typ m \<noteq> TUnsupported) meta \<Longrightarrow>
      map (batch_row (be_ext X) (batch_cols dd dt b meta)) [0 ..< len] = map row_of (batch_keys start len)"
proof -
  have len: "length (batch_keys start len) = len" by (simp add: batch_keys_def)
  from assms(2) consider (native) "row_of = native_row X" "batch = native_batch X"
    | (varchar) "row_of = varchar_row" "batch = varchar_batch X"
    unfolding generator_forms_def by blast
  then show thesis
  proof cases
    case native
    let ?b = "\<lparr>rb_num_rows = len, rb_columns = [plain_array (AInt64 (batch_keys start len)),
      plain_array (AFloat64 (map (native_v X) (batch_keys start len)))]\<rparr>"
    have built: "batch start len = Returned (Ok ?b)" using native_batch_built [OF assms(1)] native(2) by simp
    have ok: "batch_ok ?b" by (simp add: batch_ok_def array_ok_def plain_array_def len)
    have "map (batch_row (be_ext X) (batch_cols dd dt ?b meta)) [0 ..< len] = map row_of (batch_keys start len)"
      if accs: "build_accessors dd dt ?b meta = Ok accs" and meta: "list_all (\<lambda>m. ci_typ m \<noteq> TUnsupported) meta" for accs meta
    proof -
      obtain m1 m2 a1 a2 where two: "meta = [m1, m2]" "accs = [a1, a2]" "ci_typ m1 \<noteq> TUnsupported" "ci_typ m2 \<noteq> TUnsupported"
        "build_accessor (AInt64 (batch_keys start len)) (ci_typ m1) = Some a1"
        "build_accessor (AFloat64 (map (native_v X) (batch_keys start len))) (ci_typ m2) = Some a2"
        using build_two [OF accs meta] by metis
      note rows = batch_row_two [OF accs [unfolded two(2)]]
      show ?thesis
        by (rule nth_equalityI) (simp_all add: len rows accessor_ints [OF two(5,3)] accessor_doubles [OF two(6,4)]
            native(1) native_row_def)
    qed
    then show thesis using that [OF built _ ok] by simp
  next
    case varchar
    let ?b = "\<lparr>rb_num_rows = len, rb_columns = [plain_array (AInt64 (batch_keys start len)),
      plain_array (utf8_data (map bench_label (batch_keys start len)))]\<rparr>"
    have built: "batch start len = Returned (Ok ?b)" using varchar_batch_built [OF assms(1)] varchar(2) by simp
    have ok: "batch_ok ?b"
      using text_offsets_ok [of "map bench_label (batch_keys start len)"]
      by (simp add: batch_ok_def array_ok_def plain_array_def len utf8_data_def)
    have "map (batch_row (be_ext X) (batch_cols dd dt ?b meta)) [0 ..< len] = map row_of (batch_keys start len)"
      if accs: "build_accessors dd dt ?b meta = Ok accs" and meta: "list_all (\<lambda>m. ci_typ m \<noteq> TUnsupported) meta" for accs meta
    proof -
      obtain m1 m2 a1 a2 where two: "meta = [m1, m2]" "accs = [a1, a2]" "ci_typ m1 \<noteq> TUnsupported" "ci_typ m2 \<noteq> TUnsupported"
        "build_accessor (AInt64 (batch_keys start len)) (ci_typ m1) = Some a1"
        "build_accessor (utf8_data (map bench_label (batch_keys start len))) (ci_typ m2) = Some a2"
        using build_two [OF accs meta] by metis
      note rows = batch_row_two [OF accs [unfolded two(2)]]
      show ?thesis
        by (rule nth_equalityI) (simp_all add: len rows accessor_ints [OF two(5,3)] accessor_texts [OF two(6,4)]
            varchar(1) varchar_row_def)
    qed
    then show thesis using that [OF built _ ok] by simp
  qed
qed

lemma batch_keys_append: "batch_keys start (a + b) = batch_keys start a @ batch_keys (start + of_nat a) b"
proof -
  have "[0 ..< a + b] = [0 ..< a] @ map (\<lambda>j. j + a) [0 ..< b]"
    unfolding map_add_upt by (metis add.commute le0 upt_add_eq_append)
  then show ?thesis unfolding batch_keys_def by (simp add: algebra_simps)
qed

lemma generated_rows: "generate_rows row_of (n, True, chunk) = emit_all (map row_of (batch_keys 0 (nat (sint n))))"
  by (simp add: generate_rows_def batch_keys_def o_def)

definition new_batch :: "(string \<times> bool) list \<Rightarrow> arrow_array list \<Rightarrow> (string, record_batch) result" where
  "new_batch schema arrays = (case arrays of [] \<Rightarrow> Err [] | a # _ \<Rightarrow> (case array_rows (aa_data a) of
      None \<Rightarrow> Err [] | Some n \<Rightarrow> Ok \<lparr>rb_num_rows = n, rb_columns = arrays\<rparr>))"

definition sample_batch_env :: "(int, int) batch_env" where
  "sample_batch_env = \<lparr>be_payload = \<lparr>pe_ext = sample_ext, pe_add_days = (\<lambda>d _. d), pe_add_micros = (\<lambda>t _. t),
      pe_mul = (\<lambda>a _. a), pe_neg = (\<lambda>a. a)\<rparr>, be_try_new = new_batch,
    be_to_ffi = (\<lambda>b. Ok \<lparr>ffi_array_null = False, ffi_schema_null = False, ffi_import = Ok b\<rparr>),
    be_epoch_days = (\<lambda>_. 0), be_epoch_nanos = (\<lambda>_. None), be_epoch_seconds = (\<lambda>_. 0), be_subsec_nanos = (\<lambda>_. 0),
    be_add = (\<lambda>a _. a)\<rparr>"

lemma sample_batch_env_ok: "assembles sample_batch_env" "be_ext sample_batch_env = sample_ext"
  by (auto simp: assembles_def sample_batch_env_def new_batch_def split: list.split)



end
