(* ===== verification/Connect_Back.thy ===== *)
theory Connect_Back
  imports Row_Facts Context
begin

text \<open>
  Connect-back (\<open>exa-udf-runtime/src/connect_back.rs\<close>, \<open>exasol-udf-sdk/src/connect_back.rs\<close>): the session a UDF
  opens back to the database, and the conversion of its results. The driver is the exarrow-rs crate's: an
  operation on the state \<open>'w\<close> of the connection and what is behind it, which completes or unwinds. Driving
  it on the dedicated runtime adds waiting and nothing else; the debug log is left out.
\<close>

section \<open>Cells of a result\<close>

text \<open>The conversions of arrow and chrono the cells go through.\<close>

record ('d, 't) result_env =
  re_value_as_date :: "i32 \<Rightarrow> 'd option"
  re_timestamp_nanos :: "int \<Rightarrow> 't"
  re_format_other :: "string \<Rightarrow> nat \<Rightarrow> (string, string) result"
  re_debug_unit :: "time_unit \<Rightarrow> string"

definition timestamp_cell :: "('d, 't) ext \<Rightarrow> ('d, 't) result_env \<Rightarrow> time_unit \<Rightarrow> i64 \<Rightarrow> (udf_error, 't) result" where
  "timestamp_cell E D unit raw = ok_or
     (ConnectBack (''timestamp out of range: '' @ show_int (sint raw) @ '' '' @ re_debug_unit D unit))
     (case unit of
        Second \<Rightarrow> from_timestamp E (sint raw) 0
      | Millisecond \<Rightarrow> from_timestamp_millis E (sint raw)
      | Microsecond \<Rightarrow> from_timestamp_micros E (sint raw)
      | Nanosecond \<Rightarrow> Some (re_timestamp_nanos D (sint raw)))"

text \<open>The array of a type always has that type, so the failed downcasts of the code do not occur.\<close>

definition cell_to_value :: "('d, 't) ext \<Rightarrow> ('d, 't) result_env \<Rightarrow> arrow_array \<Rightarrow> nat \<Rightarrow>
    (udf_error, ('d, 't) sql_value) result" where
  "cell_to_value E D col r = (if \<not> is_valid (aa_nulls col) r then Ok VNull
     else (case aa_data col of
         ABoolean xs \<Rightarrow> Ok (VBool (xs ! r))
       | AInt32 xs \<Rightarrow> Ok (VInt32 (xs ! r))
       | AInt64 xs \<Rightarrow> Ok (VInt64 (xs ! r))
       | AFloat64 xs \<Rightarrow> Ok (VDouble (xs ! r))
       | ADecimal128 xs scale \<Rightarrow> Ok (VNumeric \<lparr>unscaled = xs ! r, dscale = word_of_int scale\<rparr>)
       | AUtf8 offsets data \<Rightarrow> Ok (VString (text_at offsets data r))
       | ALargeUtf8 offsets data \<Rightarrow> Ok (VString (text_at offsets data r))
       | ADate32 xs \<Rightarrow> map_sum id VDate (ok_or (ConnectBack ''invalid date value'') (re_value_as_date D (xs ! r)))
       | ATimestamp unit xs \<Rightarrow> map_sum id VTimestamp (timestamp_cell E D unit (xs ! r))
       | AOther dt \<Rightarrow> map_sum (\<lambda>e. ConnectBack (''formatting '' @ dt @ '': '' @ e)) VString (re_format_other D dt r)))"

fun collect_results :: "('e, 'a) result list \<Rightarrow> ('e, 'a list) result" where
  "collect_results [] = Ok []"
| "collect_results (r # rs) = rbind r (\<lambda>a. rbind (collect_results rs) (\<lambda>rest. Ok (a # rest)))"

definition record_batch_to_rows :: "('d, 't) ext \<Rightarrow> ('d, 't) result_env \<Rightarrow> record_batch \<Rightarrow>
    (udf_error, ('d, 't) sql_value list list) result" where
  "record_batch_to_rows E D batch = collect_results (map (\<lambda>r.
     collect_results (map (\<lambda>col. cell_to_value E D col r) (rb_columns batch))) [0 ..< rb_num_rows batch])"

fun record_batches_to_rows :: "('d, 't) ext \<Rightarrow> ('d, 't) result_env \<Rightarrow> record_batch list \<Rightarrow>
    (udf_error, ('d, 't) sql_value list list) result" where
  "record_batches_to_rows E D [] = Ok []"
| "record_batches_to_rows E D (b # bs) = rbind (record_batch_to_rows E D b) (\<lambda>rs.
     rbind (record_batches_to_rows E D bs) (\<lambda>rest. Ok (rs @ rest)))"

section \<open>The connection\<close>

text \<open>An operation of the driver completes, or unwinds with a payload that may be a text.\<close>

datatype 'a guarded = Completed 'a | Unwound "string option"

datatype parameter_value = PNull | PBoolean bool | PInteger i64 | PFloat f64 | PString string

type_synonym ('w, 'a) driver_call = "'w \<Rightarrow> (string, 'a) result guarded \<times> 'w"

record ('w, 'p) exarrow =
  dr_open :: "string \<Rightarrow> ('w, unit) driver_call"
  dr_connect :: "('w, unit) driver_call"
  dr_fetch :: "string \<Rightarrow> ('w, record_batch list) driver_call"
  dr_execute_update :: "string \<Rightarrow> ('w, i64) driver_call"
  dr_prepare :: "string \<Rightarrow> ('w, 'p) driver_call"
  dr_execute_batch :: "'p \<Rightarrow> parameter_value list list \<Rightarrow> ('w, i64) driver_call"
  dr_close_prepared :: "'p \<Rightarrow> ('w, unit) driver_call"
  dr_begin :: "('w, unit) driver_call"
  dr_commit :: "('w, unit) driver_call"
  dr_rollback :: "('w, unit) driver_call"
  dr_shutdown :: "('w, unit) driver_call"

text \<open>The steps of one guarded block: an unwinding ends it.\<close>

definition guard_bind :: "('w, 'a) driver_call \<Rightarrow> ('a \<Rightarrow> ('w, 'b) driver_call) \<Rightarrow> ('w, 'b) driver_call" where
  "guard_bind m k w = (case m w of
      (Completed (Inr a), w) \<Rightarrow> k a w
    | (Completed (Inl e), w) \<Rightarrow> (Completed (Err e), w)
    | (Unwound p, w) \<Rightarrow> (Unwound p, w))"

definition panic_text :: "string option \<Rightarrow> string" where
  "panic_text payload = unwrap_or ''unknown panic payload'' payload"

text \<open>\<open>catch_unwind\<close> around a block: the driver's error and the panic both become the UDF's error.\<close>

definition caught :: "string \<Rightarrow> (string, 'a) result guarded \<Rightarrow> (udf_error, 'a) result" where
  "caught what r = (case r of
      Completed res \<Rightarrow> map_err ConnectBack res
    | Unwound payload \<Rightarrow> Err (ConnectBack (what @ '': '' @ panic_text payload)))"

definition build_dsn :: "conn_info \<Rightarrow> string" where
  "build_dsn c = ''exasol://'' @ ci_user c @ '':'' @ ci_password c @ ''@'' @ ci_address c @
     ''?validateservercertificate=0''"

definition open_connection :: "('w, 'p) exarrow \<Rightarrow> conn_info \<Rightarrow> 'w \<Rightarrow> (udf_error, unit) result \<times> 'w" where
  "open_connection A c w = map_prod (caught ''panic'') id (guard_bind (dr_open A (build_dsn c)) (\<lambda>_. dr_connect A) w)"

text \<open>Dropping the connection drives its close; the outcome is ignored.\<close>

definition drop_connection :: "('w, 'p) exarrow \<Rightarrow> 'w \<Rightarrow> 'w" where
  "drop_connection A w = snd (dr_shutdown A w)"

fun each_row :: "('u \<Rightarrow> 'r \<Rightarrow> ('e, unit) result \<times> 'u) \<Rightarrow> 'r list \<Rightarrow> 'u \<Rightarrow> ('e, unit) result \<times> 'u" where
  "each_row f [] u = (Ok (), u)"
| "each_row f (r # rs) u = (case f u r of
      (Inl e, u) \<Rightarrow> (Err e, u)
    | (Inr _, u) \<Rightarrow> each_row f rs u)"

fun each_batch :: "('d, 't) ext \<Rightarrow> ('d, 't) result_env \<Rightarrow>
    ('u \<Rightarrow> ('d, 't) sql_value list \<Rightarrow> (udf_error, unit) result \<times> 'u) \<Rightarrow> record_batch list \<Rightarrow> 'u \<Rightarrow>
    (udf_error, unit) result \<times> 'u" where
  "each_batch E D f [] u = (Ok (), u)"
| "each_batch E D f (b # bs) u = (case record_batch_to_rows E D b of
      Inl e \<Rightarrow> (Err e, u)
    | Inr rs \<Rightarrow> (case each_row f rs u of
        (Inl e, u) \<Rightarrow> (Err e, u)
      | (Inr _, u) \<Rightarrow> each_batch E D f bs u))"

definition query_for_each :: "('w, 'p) exarrow \<Rightarrow> ('d, 't) ext \<Rightarrow> ('d, 't) result_env \<Rightarrow> string \<Rightarrow>
    ('u \<Rightarrow> ('d, 't) sql_value list \<Rightarrow> (udf_error, unit) result \<times> 'u) \<Rightarrow> 'w \<times> 'u \<Rightarrow>
    (udf_error, unit) result \<times> 'w \<times> 'u" where
  "query_for_each A E D sql f wu = (case wu of (w, u) \<Rightarrow> (case dr_fetch A sql w of (r, w) \<Rightarrow>
     (case caught ''panic in query_for_each'' r of
        Inl e \<Rightarrow> (Err e, w, u)
      | Inr batches \<Rightarrow> (case each_batch E D f batches u of (res, u) \<Rightarrow> (res, w, u)))))"

text \<open>\<open>query\<close>, in the trait's default and in the runtime's override alike.\<close>

definition push_row :: "'r list \<Rightarrow> 'r \<Rightarrow> ('e, unit) result \<times> 'r list" where
  "push_row collected r = (Ok (), collected @ [r])"

definition query :: "('w, 'p) exarrow \<Rightarrow> ('d, 't) ext \<Rightarrow> ('d, 't) result_env \<Rightarrow> string \<Rightarrow> 'w \<Rightarrow>
    (udf_error, ('d, 't) sql_value list list) result \<times> 'w" where
  "query A E D sql w = (case query_for_each A E D sql push_row (w, []) of
      (Inl e, w, _) \<Rightarrow> (Err e, w) | (Inr _, w, collected) \<Rightarrow> (Ok collected, w))"

text \<open>A negative count is zero.\<close>

definition row_count :: "i64 \<Rightarrow> nat" where
  "row_count n = nat (sint n)"

definition cb_execute :: "('w, 'p) exarrow \<Rightarrow> string \<Rightarrow> 'w \<Rightarrow> (udf_error, nat) result \<times> 'w" where
  "cb_execute A sql w = map_prod (map_sum id row_count \<circ> caught ''panic in execute'') id (dr_execute_update A sql w)"

definition run_txn_op :: "string \<Rightarrow> ('w, unit) driver_call \<Rightarrow> 'w \<Rightarrow> (udf_error, unit) result \<times> 'w" where
  "run_txn_op name op w = map_prod (caught (''panic in '' @ name)) id (op w)"

definition cb_begin :: "('w, 'p) exarrow \<Rightarrow> 'w \<Rightarrow> (udf_error, unit) result \<times> 'w" where
  "cb_begin A = run_txn_op ''begin'' (dr_begin A)"

definition cb_commit :: "('w, 'p) exarrow \<Rightarrow> 'w \<Rightarrow> (udf_error, unit) result \<times> 'w" where
  "cb_commit A = run_txn_op ''commit'' (dr_commit A)"

definition cb_rollback :: "('w, 'p) exarrow \<Rightarrow> 'w \<Rightarrow> (udf_error, unit) result \<times> 'w" where
  "cb_rollback A = run_txn_op ''rollback'' (dr_rollback A)"

definition value_to_parameter :: "('d, 't) ext \<Rightarrow> ('d, 't) sql_value \<Rightarrow> (udf_error, parameter_value) result" where
  "value_to_parameter E v = (case v of
      VNull \<Rightarrow> Ok PNull
    | VBool b \<Rightarrow> Ok (PBoolean b)
    | VInt32 i \<Rightarrow> Ok (PInteger (scast i))
    | VInt64 i \<Rightarrow> Ok (PInteger i)
    | VDouble f \<Rightarrow> Ok (PFloat f)
    | VString s \<Rightarrow> Ok (PString s)
    | other \<Rightarrow> Err (Unimplemented (''execute_batch: no Parameter mapping for '' @ dbg_value E other)))"

text \<open>The statement is closed whatever its execution gave; an error of the close is only logged.\<close>

definition prepared_batch :: "('w, 'p) exarrow \<Rightarrow> string \<Rightarrow> parameter_value list list \<Rightarrow> ('w, i64) driver_call" where
  "prepared_batch A sql param_rows = guard_bind (dr_prepare A sql) (\<lambda>stmt w.
     (case dr_execute_batch A stmt param_rows w of
        (Unwound p, w) \<Rightarrow> (Unwound p, w)
      | (Completed count, w) \<Rightarrow> (case dr_close_prepared A stmt w of
          (Unwound p, w) \<Rightarrow> (Unwound p, w)
        | (Completed _, w) \<Rightarrow> (Completed count, w))))"

definition cb_execute_batch :: "('w, 'p) exarrow \<Rightarrow> ('d, 't) ext \<Rightarrow> string \<Rightarrow> ('d, 't) sql_value list list \<Rightarrow> 'w \<Rightarrow>
    (udf_error, nat) result \<times> 'w" where
  "cb_execute_batch A E sql rs w =
     (if rs = [] then (Ok 0, w)
      else case collect_results (map (\<lambda>r. collect_results (map (value_to_parameter E) r)) rs) of
        Inl e \<Rightarrow> (Err e, w)
      | Inr param_rows \<Rightarrow>
          map_prod (map_sum id row_count \<circ> caught ''panic in execute_batch'') id (prepared_batch A sql param_rows w))"

text \<open>The defaults of the trait for a connection without batches or transactions.\<close>

definition not_supported :: "string \<Rightarrow> (udf_error, 'a) result" where
  "not_supported what = Err (Unimplemented (what @ '' not supported on this connection''))"

section \<open>What a query gives\<close>

lemma collect_results_Ok: "collect_results (map f xs) = Ok ys \<longleftrightarrow> list_all2 (\<lambda>x y. f x = Ok y) xs ys"
proof (induction xs arbitrary: ys)
  case (Cons x xs)
  then show ?case by (cases ys) (auto simp: rbind_eq_Inr list_all2_Cons1)
qed (auto simp: list_all2_Nil)

lemma each_row_push: "each_row push_row rs collected = (Ok (), collected @ rs)"
  by (induction rs arbitrary: collected) (simp_all add: push_row_def)

lemma each_batch_push:
  "each_batch E D push_row bs collected = (Ok (), collected') \<longleftrightarrow>
    (\<exists>rs. record_batches_to_rows E D bs = Ok rs \<and> collected' = collected @ rs)"
proof (induction bs arbitrary: collected)
  case (Cons b bs)
  show ?case
  proof (cases "record_batch_to_rows E D b")
    case (Inr rs)
    then show ?thesis using Cons [of "collected @ rs"] by (auto simp: each_row_push rbind_eq_Inr)
  qed simp
qed auto

text \<open>A query succeeds exactly when the fetch completes and every cell converts; then it gives the rows of
  all batches, in order.\<close>

lemma query_rows:
  "query A E D sql w = (Ok rs, w') \<longleftrightarrow>
    (\<exists>batches. dr_fetch A sql w = (Completed (Ok batches), w') \<and> record_batches_to_rows E D batches = Ok rs)"
proof -
  obtain r w1 where fetch: "dr_fetch A sql w = (r, w1)" by (cases "dr_fetch A sql w")
  show ?thesis
  proof (cases "caught ''panic in query_for_each'' r")
    case (Inl e)
    then have "\<nexists>batches. r = Completed (Ok batches)" by (auto simp: caught_def)
    then show ?thesis using Inl by (simp add: query_def query_for_each_def fetch)
  next
    case (Inr batches)
    then have r: "r = Completed (Ok batches)"
      by (cases r) (auto simp: caught_def map_err_def split: sum.splits)
    obtain res collected where out: "each_batch E D push_row batches [] = (res, collected)"
      by (cases "each_batch E D push_row batches []")
    have key: "res = Ok () \<and> collected = rs \<longleftrightarrow> record_batches_to_rows E D batches = Ok rs"
      using each_batch_push [of E D batches "[]" rs] out by auto
    show ?thesis
    proof (cases res)
      case (Inl e)
      then have "query A E D sql w = (Err e, w1)" by (simp add: query_def query_for_each_def fetch Inr out)
      then show ?thesis using key Inl by (simp add: fetch r)
    next
      case res: (Inr _)
      then have "query A E D sql w = (Ok collected, w1)" by (simp add: query_def query_for_each_def fetch Inr out)
      then show ?thesis using key res by (auto simp: fetch r)
    qed
  qed
qed

text \<open>What chrono and arrow document of the two conversions: they are those of the emit path.\<close>

definition same_calendar :: "('d, 't) ext \<Rightarrow> ('d, 't) result_env \<Rightarrow> bool" where
  "same_calendar E D \<longleftrightarrow>
     (\<forall>i d. re_value_as_date D i = Some d \<longrightarrow> from_num_days_from_ce_opt E (sint (i + ARROW_EPOCH_CE_DAY)) = Some d) \<and>
     (\<forall>v. re_timestamp_nanos D v = unwrap_or (t_default E) (from_timestamp E (v div 1000000000) (nat (v mod 1000000000))))"

lemma cell_agrees:
  assumes "same_calendar E D" "cell_to_value E D col r = Ok v"
    and "build_accessor (aa_data col) ty = Some acc" "ty \<noteq> TUnsupported" "array_ok n col" "r < n"
  shows "v = batch_cell E r (acc, column_nulls col)"
proof -
  have valid: "is_valid (column_nulls col) r = is_valid (aa_nulls col) r"
  proof (cases "aa_nulls col")
    case (Some nb)
    then have "length nb = n" using assms(5) by (simp add: array_ok_def)
    then show ?thesis
      using Some assms(6) by (auto simp: column_nulls_def is_valid_def filter_empty_conv)
  qed (simp add: column_nulls_def)
  show ?thesis
  proof (cases "is_valid (aa_nulls col) r")
    case True
    then have "v = accessor_value E acc r"
      using assms(1-4)
      by (cases "aa_data col"; cases ty)
        (auto simp: cell_to_value_def build_accessor_def accessor_value_def is_string_family_exatype_def
          same_calendar_def timestamp_cell_def ok_or_def split: if_splits option.splits time_unit.splits)
    then show ?thesis using True by (simp add: batch_cell_def valid)
  next
    case False
    then show ?thesis using assms(2) by (simp add: batch_cell_def valid cell_to_value_def)
  qed
qed

text \<open>C32: The two readers of Arrow data agree: the rows a connect-back query converts from a batch are the rows
  the emit path reads from the same batch.\<close>

theorem queried_rows_agree:
  assumes "same_calendar E D" "record_batch_to_rows E D batch = Ok rs"
    and "build_accessors dd dt batch meta = Ok accs" "list_all (\<lambda>m. ci_typ m \<noteq> TUnsupported) meta" "batch_ok batch"
  shows "rs = map (batch_row E (batch_cols dd dt batch meta)) [0 ..< rb_num_rows batch]"
proof -
  have len: "length (rb_columns batch) = length meta"
    and cols: "build_columns dd dt 0 (rb_columns batch) meta = Ok accs"
    using assms(3) by (auto simp: build_accessors_def split: if_splits)
  note each = build_columns_all [OF cols len]
  have accs: "length accs = length meta" using list_all2_lengthD [OF each] len by simp
  have row: "vs = batch_row E (batch_cols dd dt batch meta) r"
    if "r < rb_num_rows batch" "list_all2 (\<lambda>col v. cell_to_value E D col r = Ok v) (rb_columns batch) vs" for r vs
  proof (rule nth_equalityI)
    show lengths: "length vs = length (batch_row E (batch_cols dd dt batch meta) r)"
      using that(2) accs len by (simp add: batch_row_def batch_cols_def assms(3) list_all2_lengthD)
    fix i assume i: "i < length vs"
    then have c: "i < length (rb_columns batch)" using that(2) by (simp add: list_all2_lengthD)
    have "build_accessor (aa_data (rb_columns batch ! i)) (ci_typ (meta ! i)) = Some (accs ! i)"
      using list_all2_nthD [OF each, of i] len c by simp
    moreover have "ci_typ (meta ! i) \<noteq> TUnsupported" using assms(4) len c by (simp add: list_all_length)
    moreover have "array_ok (rb_num_rows batch) (rb_columns batch ! i)" using assms(5) c by (simp add: batch_ok_def list_all_length)
    moreover have "cell_to_value E D (rb_columns batch ! i) r = Ok (vs ! i)" using list_all2_nthD2 [OF that(2) i] .
    ultimately show "vs ! i = batch_row E (batch_cols dd dt batch meta) r ! i"
      using cell_agrees [OF assms(1)] that(1) c accs len
      by (simp add: batch_row_def batch_cols_def assms(3))
  qed
  have "list_all2 (\<lambda>r vs. collect_results (map (\<lambda>col. cell_to_value E D col r) (rb_columns batch)) = Ok vs)
      [0 ..< rb_num_rows batch] rs"
    using assms(2) by (simp add: record_batch_to_rows_def collect_results_Ok)
  then have "list_all2 (\<lambda>r vs. vs = batch_row E (batch_cols dd dt batch meta) r) [0 ..< rb_num_rows batch] rs"
    unfolding collect_results_Ok list_all2_conv_all_nth using row by (auto simp: list_all2_conv_all_nth)
  then show ?thesis by (auto simp: list_all2_conv_all_nth intro: nth_equalityI)
qed

definition sample_results :: "(int, int) result_env" where
  "sample_results = \<lparr>re_value_as_date = from_num_days_from_ce_opt sample_ext \<circ> (\<lambda>i. sint (i + ARROW_EPOCH_CE_DAY)),
     re_timestamp_nanos = (\<lambda>v. unwrap_or (t_default sample_ext) (from_timestamp sample_ext (v div 1000000000) (nat (v mod 1000000000)))),
     re_format_other = (\<lambda>dt r. Ok dt), re_debug_unit = (\<lambda>_. ''unit'')\<rparr>"

theorem queried_rows_agree_witness:
  "record_batch_to_rows sample_ext sample_results sample_batch =
    Ok (map (batch_row sample_ext (batch_cols (\<lambda>_. []) (\<lambda>_. []) sample_batch batch_columns)) [0 ..< rb_num_rows sample_batch])"
proof -
  have calendar: "same_calendar sample_ext sample_results" by (simp add: same_calendar_def sample_results_def)
  have "\<exists>rs. record_batch_to_rows sample_ext sample_results sample_batch = Ok rs"
    by (simp add: record_batch_to_rows_def sample_batch_def cell_to_value_def upt_rec)
  then obtain rs where "record_batch_to_rows sample_ext sample_results sample_batch = Ok rs" ..
  with queried_rows_agree [OF calendar this sample_batch_accessors sample_batch_ok(2,1)] show ?thesis by simp
qed

text \<open>A password may hold the separators of the address line: two credentials, one line.\<close>

lemma dsn_ambiguous:
  "build_dsn \<lparr>ci_kind = k, ci_address = ''db:8563'', ci_user = ''u'', ci_password = ''p@evil:1''\<rparr> =
   build_dsn \<lparr>ci_kind = k, ci_address = ''evil:1@db:8563'', ci_user = ''u'', ci_password = ''p''\<rparr>"
  by (simp add: build_dsn_def)

end
