(* ===== verification/Connect_Udfs.thy ===== *)
theory Connect_Udfs
  imports Udfs Connect_Back
begin

text \<open>
  UDFs over the connect-back session, the connection lookup and foreign libraries (\<open>test-udfs\<close>:
  \<open>connect-back-*\<close>, \<open>cleanup-hook\<close>, \<open>json-parse\<close>, \<open>resolv-udf\<close>, \<open>timestamp-precision\<close>,
  \<open>annotated-fixture\<close>, \<open>single-call-fixture\<close>). A function that holds a session threads the state \<open>'w\<close> of
  its driver beside the calls it makes on its context.
\<close>

section \<open>Code with a session\<close>

type_synonym ('d, 't, 'a, 'w) conn_code = "'w \<Rightarrow> ('d, 't, 'a ending \<times> 'w) prog"

text \<open>A step on the context, then one that may use the driver; a step on the driver alone; a last step on
  the context.\<close>

definition code_then :: "('d, 't, 'a) code \<Rightarrow> ('a \<Rightarrow> ('d, 't, 'b, 'w) conn_code) \<Rightarrow> ('d, 't, 'b, 'w) conn_code" where
  "code_then p k w = prog_bind p (\<lambda>e. case e of
      Returned (Inr a) \<Rightarrow> k a w
    | Returned (Inl err) \<Rightarrow> Finish (Returned (Err err), w)
    | Panicked \<Rightarrow> Finish (Panicked, w))"

definition driver_then :: "('w \<Rightarrow> (udf_error, 'a) result \<times> 'w) \<Rightarrow> ('a \<Rightarrow> ('d, 't, 'b, 'w) conn_code) \<Rightarrow>
    ('d, 't, 'b, 'w) conn_code" where
  "driver_then op k w = (case op w of
      (Inl err, w) \<Rightarrow> Finish (Returned (Err err), w)
    | (Inr a, w) \<Rightarrow> k a w)"

definition ending_with :: "('d, 't, 'a) code \<Rightarrow> ('d, 't, 'a, 'w) conn_code" where
  "ending_with p w = map_prog (\<lambda>e. (e, w)) p"

text \<open>The connection is dropped when the function that holds it returns or unwinds.\<close>

definition session_end :: "('d, 't) reply \<Rightarrow> unit ending" where
  "session_end r = (case r of RSession q \<Rightarrow> Returned q | _ \<Rightarrow> Panicked)"

definition over_session :: "('w, 'p) exarrow \<Rightarrow> connection_object \<Rightarrow> ('d, 't, 'a, 'w) conn_code \<Rightarrow>
    ('d, 't, 'a, 'w) conn_code" where
  "over_session A c body = code_then (ask (ConnectBackTo c) session_end)
     (\<lambda>_ w. map_prog (map_prod id (drop_connection A)) (body w))"

definition over_named_session :: "('w, 'p) exarrow \<Rightarrow> string \<Rightarrow> ('d, 't, 'a, 'w) conn_code \<Rightarrow>
    ('d, 't, 'a, 'w) conn_code" where
  "over_named_session A name body =
     code_then (ask (ConnectionLookup name) connection_end) (\<lambda>c. over_session A c body)"

section \<open>Integers in and out\<close>

definition overflows_i64 :: "decimal \<Rightarrow> udf_error" where
  "overflows_i64 d = TypeErr (''Numeric value '' @ decimal_fmt d @ '' overflows i64'')"

definition whole_value :: "('d, 't) sql_value \<Rightarrow> (udf_error, i64) result" where
  "whole_value v = (case v of
      VInt64 n \<Rightarrow> Ok n
    | VNumeric d \<Rightarrow> if dscale d = 0 then ok_or (overflows_i64 d) (try_i64 (unscaled d))
        else Err (TypeErr ''expected integer'')
    | _ \<Rightarrow> Err (TypeErr ''expected integer''))"

definition collect_values :: "('d, 't, i64 list) code" where
  "collect_values = while_next (\<lambda>vals. code_bind (ctx_get 0) (\<lambda>v.
     code_bind (code_lift (whole_value v)) (\<lambda>n. code_return (vals @ [n])))) []"

definition emit_ones :: "i64 list \<Rightarrow> ('d, 't, unit) code" where
  "emit_ones vals = emit_all (map (\<lambda>_. [VNumeric (decimal_of_i64 1)]) vals)"

definition queried_value :: "('d, 't) ext \<Rightarrow> ('d, 't) sql_value \<Rightarrow> (udf_error, i64) result" where
  "queried_value E v = (case v of
      VInt64 n \<Rightarrow> Ok n
    | VInt32 n \<Rightarrow> Ok (scast n)
    | VNumeric d \<Rightarrow> if dscale d = 0 then ok_or (overflows_i64 d) (try_i64 (unscaled d))
        else Err (TypeErr (''unexpected value '' @ dbg_value E v))
    | other \<Rightarrow> Err (TypeErr (''unexpected value '' @ dbg_value E other)))"

definition first_cell :: "string \<Rightarrow> ('d, 't) sql_value list list \<Rightarrow> (udf_error, ('d, 't) sql_value) result" where
  "first_cell udf results = (case results of
      (v # _) # _ \<Rightarrow> Ok v
    | _ \<Rightarrow> Err (User (udf @ '': empty result'')))"

section \<open>The connect-back UDFs\<close>

definition CB_SELF :: string where
  "CB_SELF = ''CB_SELF''"

definition SELECT_42 :: string where
  "SELECT_42 = ''SELECT CAST(42 AS BIGINT)''"

text \<open>The statement is skipped for an empty group.\<close>

definition write_back :: "('w, 'p) exarrow \<Rightarrow> string \<Rightarrow> (i64 \<Rightarrow> string) \<Rightarrow> i64 list \<Rightarrow> 'w \<Rightarrow>
    (udf_error, unit) result \<times> 'w" where
  "write_back A into tuple vals w =
     (let placeholders = join_with '', '' (map tuple vals)
      in if placeholders = [] then (Ok (), w)
         else map_prod (map_sum id (\<lambda>_. ())) id (cb_execute A (into @ placeholders) w))"

definition insert_tuple :: "i64 \<Rightarrow> string" where
  "insert_tuple v = ''('' @ show_int (sint v) @ '')''"

definition connect_back_insert :: "('w, 'p) exarrow \<Rightarrow> ('d, 't, unit, 'w) conn_code" where
  "connect_back_insert A = code_then collect_values (\<lambda>vals. over_named_session A CB_SELF
     (driver_then (write_back A ''INSERT INTO cb_sink.cb_result VALUES '' insert_tuple vals)
       (\<lambda>_. ending_with (emit_ones vals))))"

definition crunch_tuple :: "i64 \<Rightarrow> string" where
  "crunch_tuple v = ''('' @ show_int (sint v) @ '', '' @ show_int (sint (v * v)) @ '')''"

definition crunch_writeback :: "('w, 'p) exarrow \<Rightarrow> ('d, 't, unit, 'w) conn_code" where
  "crunch_writeback A = code_then collect_values (\<lambda>vals. over_named_session A CB_SELF
     (driver_then (write_back A ''INSERT INTO it_rust.crunch_log VALUES '' crunch_tuple vals)
       (\<lambda>_. ending_with (emit_ones vals))))"

definition connect_back_query :: "('w, 'p) exarrow \<Rightarrow> ('d, 't) ext \<Rightarrow> ('d, 't) result_env \<Rightarrow>
    ('d, 't, unit, 'w) conn_code" where
  "connect_back_query A E D = code_then drain (\<lambda>_. over_named_session A CB_SELF
     (driver_then (query A E D SELECT_42) (\<lambda>results. ending_with
       (code_bind (code_lift (first_cell ''connect_back_query'' results)) (\<lambda>cell.
        code_bind (code_lift (queried_value E cell)) (\<lambda>val. ctx_emit [VNumeric (decimal_of_i64 val)]))))))"

definition connect_back_scalar :: "('w, 'p) exarrow \<Rightarrow> ('d, 't) ext \<Rightarrow> ('d, 't) result_env \<Rightarrow>
    ('d, 't, decimal option, 'w) conn_code" where
  "connect_back_scalar A E D = over_named_session A CB_SELF
     (driver_then (query A E D SELECT_42) (\<lambda>results. ending_with
       (code_bind (code_lift (first_cell ''connect_back_scalar'' results)) (\<lambda>cell.
        code_bind (code_lift (queried_value E cell)) (\<lambda>val. code_return (Some (decimal_of_i64 val)))))))"

text \<open>The closure counts the rows it is given.\<close>

definition count_row :: "i64 \<Rightarrow> 'r \<Rightarrow> (udf_error, unit) result \<times> i64" where
  "count_row count r = (Ok (), count + 1)"

definition connect_back_stream :: "('w, 'p) exarrow \<Rightarrow> ('d, 't) ext \<Rightarrow> ('d, 't) result_env \<Rightarrow>
    ('d, 't, unit, 'w) conn_code" where
  "connect_back_stream A E D = code_then drain (\<lambda>_. over_named_session A CB_SELF
     (driver_then (\<lambda>w. case query_for_each A E D ''SELECT 1 FROM it_rust.cb_stream_seed'' count_row (w, 0) of
          (Inl e, w, _) \<Rightarrow> (Err e, w)
        | (Inr _, w, count) \<Rightarrow> (Ok count, w))
       (\<lambda>count. ending_with (ctx_emit [VNumeric (decimal_of_i64 count)]))))"

definition address_end :: "('d, 't) reply \<Rightarrow> string ending" where
  "address_end r = (case r of RTextResult q \<Rightarrow> Returned q | _ \<Rightarrow> Panicked)"

definition connect_back_cluster_ip :: "('d, 't, string option) code" where
  "connect_back_cluster_ip = code_bind (ask ClusterIp address_end) (\<lambda>ip. code_return (Some ip))"

section \<open>Connection lookups\<close>

definition text_argument :: "('d, 't) ext \<Rightarrow> ('d, 't) sql_value \<Rightarrow> (udf_error, string) result" where
  "text_argument E v = (case v of
      VString s \<Rightarrow> Ok s
    | VNull \<Rightarrow> Ok []
    | other \<Rightarrow> Err (TypeErr (''expected VARCHAR, got '' @ dbg_value E other)))"

definition lookup_reaction :: "string \<Rightarrow> connection_object ending \<Rightarrow> string ending" where
  "lookup_reaction on_error looked_up = (case looked_up of
      Panicked \<Rightarrow> Panicked
    | Returned (Inr c) \<Rightarrow> Returned (Ok (co_address c))
    | Returned (Inl e) \<Rightarrow>
        if on_error = ''unwrap'' then Panicked
        else if on_error = ''propagate'' then Returned (Err e)
        else if on_error = ''catch'' then Returned (Ok (show_udf_error e))
        else Returned (Err (User on_error)))"

fun lookup_all :: "string \<Rightarrow> string list \<Rightarrow> string list \<Rightarrow> ('d, 't, string list) code" where
  "lookup_all on_error [] results = code_return results"
| "lookup_all on_error (name # names) results =
     code_bind (ask (ConnectionLookup name) (\<lambda>r. lookup_reaction on_error (connection_end r)))
       (\<lambda>text. lookup_all on_error names (results @ [text]))"

definition connection_lookup :: "('d, 't) ext \<Rightarrow> ('d, 't, string option) code" where
  "connection_lookup E =
     code_bind (ctx_get 0) (\<lambda>v0. code_bind (code_lift (text_argument E v0)) (\<lambda>names.
     code_bind (ctx_get 1) (\<lambda>v1. code_bind (code_lift (text_argument E v1)) (\<lambda>on_error.
       if on_error = ''panic'' then code_panic
       else code_bind (lookup_all on_error (split_char (CHR '','') names) [])
         (\<lambda>results. code_return (Some (join_with ''|'' results)))))))"

section \<open>The cleanup hook that connects back\<close>

text \<open>\<open>RESOLVED_CONNECTION\<close> is set once; the hook's lookup only shows that it is refused by then.\<close>

definition cleanup_connect_back :: "('d, 't) ext \<Rightarrow> connection_object option \<Rightarrow>
    ('d, 't, ('d, 't) sql_value option ending \<times> connection_object option) prog" where
  "cleanup_connect_back E resolved = (case resolved of
      None \<Rightarrow> code_then (ask (ConnectionLookup CB_SELF) connection_end)
        (\<lambda>conn _. ending_with (ctx_typed get_value 0) (Some conn)) None
    | Some conn \<Rightarrow> ending_with (ctx_typed get_value 0) (Some conn))"

definition debug_list :: "('a \<Rightarrow> string) \<Rightarrow> 'a list \<Rightarrow> string" where
  "debug_list f xs = ''['' @ join_with '', '' (map f xs) @ '']''"

definition read_over_resolved_connection :: "('w, 'p) exarrow \<Rightarrow> ('d, 't) ext \<Rightarrow> ('d, 't) result_env \<Rightarrow>
    connection_object option \<Rightarrow> ('d, 't, unit, 'w) conn_code" where
  "read_over_resolved_connection A E D resolved = (case resolved of
      None \<Rightarrow> ending_with (code_return ())
    | Some conn \<Rightarrow> code_then (ask (ConnectionLookup CB_SELF) (\<lambda>r. case connection_end r of
          Panicked \<Rightarrow> Panicked | Returned q \<Rightarrow> Returned (Ok (\<not> is_ok q))))
        (\<lambda>connection_refused. over_session A conn
          (driver_then (query A E D SELECT_42) (\<lambda>results. ending_with
            (code_fail (User (''cleanup connect-back read '' @ debug_list (debug_list (dbg_value E)) results @
              '' connection_refused='' @ show_bool connection_refused)))))))"

definition export_cleanup :: "('d, 't, i64 option) code" where
  "export_cleanup = code_return None"

definition select_one :: "string \<Rightarrow> ('d, 't, string) code" where
  "select_one json_spec = code_return ''SELECT 1''"

section \<open>UDFs over foreign libraries\<close>

text \<open>Indexing a JSON value that is no object gives null.\<close>

definition json_parse :: "'j serde \<Rightarrow> ('d, 't, string option) code" where
  "json_parse J = code_bind (ctx_get 0) (\<lambda>v. case v of
      VNull \<Rightarrow> code_return None
    | VString json_str \<Rightarrow> (case js_from_str J json_str of
        Inl e \<Rightarrow> code_fail (User (''JSON parse error: '' @ e))
      | Inr parsed \<Rightarrow> code_return (Some (unwrap_or [] (Option.bind (js_get J ''name'' parsed) (js_as_str J)))))
    | _ \<Rightarrow> code_fail (TypeErr ''expected String''))"

text \<open>The resolver gives the addresses of a host and port, or the text of its error.\<close>

definition resolv_udf :: "(string \<Rightarrow> (string, string list) result) \<Rightarrow> (string \<Rightarrow> string) \<Rightarrow>
    ('d, 't, string option) code" where
  "resolv_udf to_socket_addrs debug_text = code_bind (ctx_get 0) (\<lambda>v. case v of
      VNull \<Rightarrow> code_fail (TypeErr ''host must not be NULL'')
    | VString host \<Rightarrow> (case to_socket_addrs (host @ '':0'') of
        Inl e \<Rightarrow> code_fail (User (''DNS resolution failed for '' @ debug_text host @ '': '' @ e))
      | Inr [] \<Rightarrow> code_fail (User (''no addresses returned for '' @ debug_text host))
      | Inr (addr # _) \<Rightarrow> code_return (Some addr))
    | _ \<Rightarrow> code_fail (TypeErr ''expected VARCHAR host''))"

text \<open>\<open>chrono::Local\<close> read once.\<close>

definition timestamp_now :: "'t \<Rightarrow> ('d, 't, 't option) code" where
  "timestamp_now now = code_return (Some now)"

definition ts_precision_probe :: "('d, 't) ext \<Rightarrow> ('d, 't, unit) code" where
  "ts_precision_probe E = code_bind (ask (OutputColumn 0) column_end) (\<lambda>ts_col. case ci_typ ts_col of
      TTimestamp precision \<Rightarrow>
        (case Option.bind (from_ymd_opt E 2026 7 14) (\<lambda>d. and_hms_nano_opt E d 9 30 15 123456789) of
           None \<Rightarrow> code_panic
         | Some ts \<Rightarrow> ctx_emit [VTimestamp ts, VInt32 (of_nat precision),
             VString (''tn='' @ ci_type_name ts_col @ ''|rp='' @ show_opt_nat (ci_precision ts_col))])
    | _ \<Rightarrow> code_fail (TypeErr ''output column 0 is not a timestamp''))"

definition annotated :: "('d, 't, unit) code" where
  "annotated = code_bind (ctx_get 0) (\<lambda>v. ctx_emit [v])"

definition annotated_double :: "('d, 't, unit) code" where
  "annotated_double = code_bind (ctx_get 0) (\<lambda>v. ctx_emit [case v of VInt64 n \<Rightarrow> VInt64 (n * 2) | other \<Rightarrow> other])"

section \<open>The single-call fixture\<close>

text \<open>Its hooks are hand-written C functions: a return code with the text left for the runtime, or the abort of
  the process that a text with an interior NUL leads to.\<close>

definition write_result :: "i32 \<Rightarrow> string \<Rightarrow> (i32 \<times> bytes) option" where
  "write_result rc value = (if CHR 0x00 \<in> set value then None else Some (rc, value))"

definition default_output_columns :: "(i32 \<times> bytes) option" where
  "default_output_columns = write_result 0 (concat
     [''[{'', quoted ''name'', '':'', quoted ''c0'', '','', quoted ''type'', '':'', quoted ''Int64'', ''}]''])"

definition connection_probe :: "string \<Rightarrow> ('d, 't, (i32 \<times> bytes) option) prog" where
  "connection_probe probe = Invoke (ConnectionLookup ''PROBE_CONN'') (\<lambda>r. case connection_end r of
      Panicked \<Rightarrow> Finish None
    | Returned (Inr c) \<Rightarrow> Finish (write_result 0 (co_address c))
    | Returned (Inl e) \<Rightarrow>
        if probe = ''OWN_ERROR'' then Finish (write_result 1 ''VS_ADAPTER_ERROR'')
        else if probe = ''ECHO'' then Finish (write_result 1 (show_udf_error e))
        else if probe = ''PANIC'' then Finish (write_result 2 ''virtual_schema_adapter_call panicked'')
        else Invoke (ConnectionLookup ''FALLBACK_CONN'') (\<lambda>r. Finish (case connection_end r of
            Panicked \<Rightarrow> None
          | Returned (Inr c) \<Rightarrow> write_result 0 (co_address c)
          | Returned (Inl e) \<Rightarrow> write_result 1 (show_udf_error e))))"

definition handshake_text :: "('d, 't, string) code" where
  "handshake_text = code_bind (ask NodeCount nat_end) (\<lambda>node_count.
     code_bind (ask NodeId nat_end) (\<lambda>node_id.
     code_bind (ask SessionId nat_end) (\<lambda>session_id.
     code_bind (ask ScriptName text_end) (\<lambda>script_name.
       code_return (''HANDSHAKE_META node_count='' @ show_nat node_count @ '' node_id='' @ show_nat node_id @
         '' session_id='' @ show_nat session_id @ '' script_name='' @ script_name)))))"

text \<open>No method of these contexts fails; one that unwinds aborts at the boundary.\<close>

definition text_result :: "i32 \<Rightarrow> string ending \<Rightarrow> (i32 \<times> bytes) option" where
  "text_result rc e = (case e of Returned (Inr s) \<Rightarrow> write_result rc s | _ \<Rightarrow> None)"

definition virtual_schema_adapter_call :: "bytes option \<Rightarrow> ('d, 't, (i32 \<times> bytes) option) prog" where
  "virtual_schema_adapter_call json_arg =
     (let arg = (case json_arg of None \<Rightarrow> [] | Some a \<Rightarrow> if valid_utf8 a then a else [])
      in if arg = ''SUCCEED'' then Finish (write_result 0 ''VS_ADAPTER_OK'')
         else (case strip_prefix arg ''CONNECTION_'' of
             Some probe \<Rightarrow> connection_probe probe
           | None \<Rightarrow> map_prog (text_result 1) handshake_text))"

definition generate_sql_for_import_spec :: "bytes option \<Rightarrow> ('d, 't, (i32 \<times> bytes) option) prog" where
  "generate_sql_for_import_spec json_spec =
     (let spec = (case json_spec of None \<Rightarrow> [] | Some s \<Rightarrow> utf8_lossy s)
      in map_prog (text_result 1) (code_bind (ask ScriptSchema text_end) (\<lambda>schema.
           code_return (''IMPORT_SPEC_HOOK_ERROR schema='' @ schema @ '' arg='' @ spec))))"

section \<open>What they do\<close>

lemma run_code_then [simp]:
  "run_prog h (code_then (Finish e) k w) c = (case e of
      Returned (Inr a) \<Rightarrow> run_prog h (k a w) c
    | Returned (Inl err) \<Rightarrow> Some ((Returned (Err err), w), c)
    | Panicked \<Rightarrow> Some ((Panicked, w), c))"
  by (cases e) (auto simp: code_then_def split: sum.split)

lemma run_code_then_ok:
  assumes "run_prog h p c = Some (Returned (Ok a), c')"
  shows "run_prog h (code_then p k w) c = run_prog h (k a w) c'"
  unfolding code_then_def by (subst run_prog_bind_Some [OF assms]) simp

lemma run_code_then_err:
  assumes "run_prog h p c = Some (Returned (Err e), c')"
  shows "run_prog h (code_then p k w) c = Some ((Returned (Err e), w), c')"
  unfolding code_then_def by (subst run_prog_bind_Some [OF assms]) simp

text \<open>A lookup that fails, or a session that does not open, reaches neither the driver nor the rest.\<close>

lemma no_session_without_connection:
  assumes "h (ConnectionLookup name) c = Some (RConnection (Err e), c')"
  shows "run_prog h (over_named_session A name body w) c = Some ((Returned (Err e), w), c')"
  unfolding over_named_session_def by (rule run_code_then_err) (use assms in \<open>simp add: connection_end_def\<close>)

lemma no_session_unopened:
  assumes "h (ConnectionLookup name) c = Some (RConnection (Ok co), c1)"
    and "h (ConnectBackTo co) c1 = Some (RSession (Err e), c')"
  shows "run_prog h (over_named_session A name body w) c = Some ((Returned (Err e), w), c')"
proof -
  have "run_prog h (ask (ConnectionLookup name) connection_end) c = Some (Returned (Ok co), c1)"
    using assms(1) by (simp add: connection_end_def)
  moreover have "run_prog h (ask (ConnectBackTo co) session_end) c1 = Some (Returned (Err e), c')"
    using assms(2) by (simp add: session_end_def)
  ultimately show ?thesis
    unfolding over_named_session_def over_session_def by (simp add: run_code_then_ok run_code_then_err)
qed

text \<open>What a session did is followed by its shutdown, on every path.\<close>

lemma session_is_dropped:
  assumes "h (ConnectionLookup name) c = Some (RConnection (Ok co), c1)"
    and "h (ConnectBackTo co) c1 = Some (RSession (Ok ()), c2)"
    and "run_prog h (body w) c2 = Some ((e, w'), c')"
  shows "run_prog h (over_named_session A name body w) c = Some ((e, drop_connection A w'), c')"
proof -
  have "run_prog h (ask (ConnectionLookup name) connection_end) c = Some (Returned (Ok co), c1)"
    using assms(1) by (simp add: connection_end_def)
  moreover have "run_prog h (ask (ConnectBackTo co) session_end) c1 = Some (Returned (Ok ()), c2)"
    using assms(2) by (simp add: session_end_def)
  ultimately show ?thesis
    unfolding over_named_session_def over_session_def
    by (simp add: run_code_then_ok run_prog_map_Some [OF assms(3)])
qed

lemma join_empty: "join_with sep (map f xs) = [] \<longleftrightarrow> xs = []" if "\<And>x. f x \<noteq> []"
  using that by (cases xs rule: remdups_adj.cases) simp_all

text \<open>An empty group writes nothing, any other one statement with a tuple per value, in order.\<close>

lemma write_back_cases:
  assumes "\<And>v. tuple v \<noteq> []"
  shows "write_back A into tuple vals w = (if vals = [] then (Ok (), w)
    else map_prod (map_sum id (\<lambda>_. ())) id (cb_execute A (into @ join_with '', '' (map tuple vals)) w))"
  using join_empty [of tuple, OF assms] by (simp add: write_back_def)

text \<open>A session counts what a query of it would give.\<close>

lemma each_row_count: "each_row count_row rs n = (Ok (), n + of_nat (length rs))"
  by (induction rs arbitrary: n) (simp_all add: count_row_def algebra_simps)

lemma each_batch_count:
  "record_batches_to_rows E D bs = Ok rs \<Longrightarrow> each_batch E D count_row bs n = (Ok (), n + of_nat (length rs))"
proof (induction bs arbitrary: n rs)
  case (Cons b bs)
  obtain r1 r2 where r: "record_batch_to_rows E D b = Ok r1" "record_batches_to_rows E D bs = Ok r2" "rs = r1 @ r2"
    using Cons.prems by (auto simp: rbind_eq_Inr)
  then show ?case using Cons.IH [OF r(2)] by (simp add: each_row_count algebra_simps)
qed simp

lemma stream_counts_query:
  assumes "query A E D sql w = (Ok rs, w')"
  shows "query_for_each A E D sql count_row (w, 0) = (Ok (), w', of_nat (length rs))"
proof -
  obtain batches where "dr_fetch A sql w = (Completed (Ok batches), w')" "record_batches_to_rows E D batches = Ok rs"
    using assms unfolding query_rows by blast
  then show ?thesis using each_batch_count [of E D batches rs 0]
    by (simp add: query_for_each_def caught_def map_err_def)
qed

context group_context
begin

lemma run_collect_values:
  assumes "stands cur rs out c" "list_all (\<lambda>r. r \<noteq> [] \<and> is_ok (whole_value (r ! 0))) rs"
  shows "\<exists>cur' c'. run_prog handle collect_values c =
      Some (Returned (Ok (map (\<lambda>r. projr (whole_value (r ! 0))) rs)), c') \<and> stands cur' [] out c'"
proof -
  let ?body = "\<lambda>vals. code_bind (ctx_get 0) (\<lambda>v. code_bind (code_lift (whole_value v)) (\<lambda>n. code_return (vals @ [n])))"
  let ?f = "\<lambda>r vals. vals @ [projr (whole_value (r ! 0))]"
  have "\<exists>c'. run_prog handle (?body s) c = Some (Returned (Ok (?f r s)), c') \<and> stands (Some r) rest out c'"
    if "r \<in> set rs" "stands (Some r) rest out c" for s r rest out c
  proof -
    have r: "r \<noteq> []" "is_ok (whole_value (r ! 0))" using that(1) assms(2) by (auto simp: list_all_iff)
    have "run_prog handle (ctx_get 0) c = Some (Returned (Ok (r ! 0)), c)"
      using run_get(2) [OF that(2), of 0] r(1) by (simp add: ctx_get_def)
    then show ?thesis
      using r(2) that(2) by (subst run_code_bind) (auto simp: code_lift_def is_ok_def split: sum.splits)
  qed
  from run_while_next [where f = ?f and g = "\<lambda>_ out. out", OF this assms(1)]
  obtain cur' c' where loop: "run_prog handle collect_values c = Some (Returned (Ok (fold ?f rs [])), c')"
    "stands cur' [] (fold (\<lambda>_ out. out) rs out) c'" unfolding collect_values_def by blast
  have "fold ?f rs a = a @ map (\<lambda>r. projr (whole_value (r ! 0))) rs" for a
    by (induction rs arbitrary: a) simp_all
  moreover have "fold (\<lambda>_ out. out) rs out = out" by (induction rs) simp_all
  ultimately show ?thesis using loop by auto
qed

end

text \<open>Which reaction a failed lookup gets.\<close>

lemma lookup_reactions:
  "lookup_reaction ''unwrap'' (Returned (Err e)) = Panicked"
  "lookup_reaction ''propagate'' (Returned (Err e)) = Returned (Err e)"
  "lookup_reaction ''catch'' (Returned (Err e)) = Returned (Ok (show_udf_error e))"
  "own \<notin> {''unwrap'', ''propagate'', ''catch''} \<Longrightarrow> lookup_reaction own (Returned (Err e)) = Returned (Err (User own))"
  by (simp_all add: lookup_reaction_def)

end
