(* ===== verification/Client.thy ===== *)
theory Client
  imports Runtime
begin

text \<open>
  The process (\<open>exaudfclient/src/main.rs\<close>): its arguments, the session it runs, and the status and text it
  ends with. Setting up the log and the environment is left out; the log filter the session sets is
  \<open>re_on_level_resolved\<close>.
\<close>

record client_exit =
  xt_code :: int
  xt_message :: string

definition client_usage :: string where
  "client_usage = ''Usage: exaudfclient <endpoint> lang=rust [scriptOptionsParserVersion=N]'' @ [CHR 0x0A] @
     ''Exasol Rust UDF Client v1''"

definition client_run :: "('w, 'd, 't, 'u, 'j) runtime_env \<Rightarrow> string list \<Rightarrow> ('w, client_exit, unit) io" where
  "client_run R args w =
     (if length args < 3
      then Some (Err \<lparr>xt_code = 1, xt_message = ''F-UDF-CL-RUST-0003: wrong argument count'' @ [CHR 0x0A] @ client_usage\<rparr>, w)
      else let endpoint = args ! 1; lang_arg = args ! 2 in
        if lang_arg \<noteq> ''lang=rust''
        then Some (Err \<lparr>xt_code = 2, xt_message = ''F-UDF-CL-RUST-0002: unsupported language argument '' @ quoted lang_arg @
               ''; expected '' @ quoted ''lang=rust''\<rparr>, w)
        else io_map_err (\<lambda>e. \<lparr>xt_code = 1, xt_message = ''F-UDF-CL-RUST-0001: '' @ show_runtime_error e\<rparr>)
               (runtime_run R endpoint endpoint) w)"

text \<open>The exit status and the error stream.\<close>

definition exit_status :: "(client_exit, unit) result \<Rightarrow> int \<times> string" where
  "exit_status res = (case res of Inl e \<Rightarrow> (xt_code e, xt_message e @ [CHR 0x0A]) | Inr _ \<Rightarrow> (0, []))"

definition client_main :: "('w, 'd, 't, 'u, 'j) runtime_env \<Rightarrow> string list \<Rightarrow> 'w \<Rightarrow> ((int \<times> string) \<times> 'w) option" where
  "client_main R args w = map_option (\<lambda>(res, w). (exit_status res, w)) (client_run R args w)"

text \<open>The status is zero exactly when a session ran and ended without an error.\<close>

lemma client_status:
  assumes "client_main R args w = Some ((code, out), w')"
  shows "code = 0 \<longleftrightarrow> 3 \<le> length args \<and> args ! 2 = ''lang=rust'' \<and>
    runtime_run R (args ! 1) (args ! 1) w = Some (Ok (), w')"
proof -
  obtain res where res: "client_run R args w = Some (res, w')" "exit_status res = (code, out)"
    using assms by (auto simp: client_main_def)
  have code: "code = 0 \<longleftrightarrow> is_ok res" if "\<And>e. res = Err e \<Longrightarrow> xt_code e \<noteq> 0"
    using res(2) that by (cases res) (auto simp: exit_status_def)
  show ?thesis
  proof (cases "length args < 3 \<or> args ! 2 \<noteq> ''lang=rust''")
    case True
    then obtain e where "client_run R args w = Some (Err e, w)" "xt_code e \<noteq> 0"
      by (cases "length args < 3") (simp_all add: client_run_def Let_def)
    then have "res = Err e" "xt_code e \<noteq> 0" using res(1) by auto
    then have "code \<noteq> 0" using code by auto
    then show ?thesis using True by linarith
  next
    case False
    then have right: "\<not> length args < 3" "\<not> args ! 2 \<noteq> ''lang=rust''" by blast+
    let ?f = "\<lambda>e. \<lparr>xt_code = 1, xt_message = ''F-UDF-CL-RUST-0001: '' @ show_runtime_error e\<rparr>"
    have "client_run R args w = io_map_err ?f (runtime_run R (args ! 1) (args ! 1)) w"
      unfolding client_run_def Let_def using right by (simp only: if_False)
    then obtain r where r: "runtime_run R (args ! 1) (args ! 1) w = Some (r, w')" "res = map_err ?f r"
      using res(1) unfolding io_map_err_def by (cases "runtime_run R (args ! 1) (args ! 1) w") auto
    have "code = 0 \<longleftrightarrow> is_ok r"
      using code by (cases r) (simp_all add: r(2))
    moreover have "is_ok r \<longleftrightarrow> r = Ok ()" by (cases r) simp_all
    ultimately show ?thesis using right by (simp only: r(1) option.inject prod.inject not_less) blast
  qed
qed

end
