(* ===== verification/Bench.thy ===== *)
theory Bench
  imports Packer "HOL-Library.AList" "HOL-Library.Char_ord" "HOL-Library.List_Lexorder"
begin

text \<open>
  The end-to-end benchmark (\<open>benches/udf-bench/src\<close>): timing one cell (\<open>run.rs\<close>), its statistics (\<open>stats.rs\<close>),
  and the pooling and comparison of run files (\<open>compare.rs\<close>). Floating-point arithmetic and its formats are the
  record \<open>floats\<close>; the database connection and the clock are the record \<open>bench_db\<close>. The result of a cell
  leaves out what it copies from its specification. A \<open>BTreeMap\<close> is an
  association list, read in the order of its sorted keys.
\<close>

section \<open>Floats\<close>

record floats =
  fl_lit :: "string \<Rightarrow> f64"
  fl_of_nat :: "nat \<Rightarrow> f64"
  fl_add :: "f64 \<Rightarrow> f64 \<Rightarrow> f64"
  fl_sub :: "f64 \<Rightarrow> f64 \<Rightarrow> f64"
  fl_mul :: "f64 \<Rightarrow> f64 \<Rightarrow> f64"
  fl_div :: "f64 \<Rightarrow> f64 \<Rightarrow> f64"
  fl_max :: "f64 \<Rightarrow> f64 \<Rightarrow> f64"
  fl_sum :: "f64 list \<Rightarrow> f64"
  fl_neg :: "f64 \<Rightarrow> f64"
  fl_abs :: "f64 \<Rightarrow> f64"
  fl_square :: "f64 \<Rightarrow> f64"
  fl_sqrt :: "f64 \<Rightarrow> f64"
  fl_ln :: "f64 \<Rightarrow> f64"
  fl_exp :: "f64 \<Rightarrow> f64"
  fl_sin :: "f64 \<Rightarrow> f64"
  fl_pi :: f64
  fl_floor :: "f64 \<Rightarrow> nat"
  fl_ceil :: "f64 \<Rightarrow> nat"
  fl_round :: "f64 \<Rightarrow> i64"
  fl_less :: "f64 \<Rightarrow> f64 \<Rightarrow> bool"
  fl_le :: "f64 \<Rightarrow> f64 \<Rightarrow> bool"
  fl_eq :: "f64 \<Rightarrow> f64 \<Rightarrow> bool"
  fl_is_nan :: "f64 \<Rightarrow> bool"
  fl_show :: "f64 \<Rightarrow> string"
  fl_parse :: "string \<Rightarrow> f64 option"
  fl_fixed :: "nat \<Rightarrow> f64 \<Rightarrow> string"
  fl_signed :: "f64 \<Rightarrow> string"

text \<open>\<open>f64::total_cmp\<close> orders the bit patterns as signed integers, the negative ones reversed.\<close>

definition total_key :: "f64 \<Rightarrow> int" where
  "total_key x = (if sint x < 0 then - (2 ^ 63) - 1 - sint x else sint x)"

section \<open>Statistics\<close>

definition sorted_floats :: "f64 list \<Rightarrow> f64 list" where
  "sorted_floats xs = sort_key total_key xs"

definition quantile_sorted :: "floats \<Rightarrow> f64 list \<Rightarrow> f64 \<Rightarrow> f64 option" where
  "quantile_sorted F s q = (if s = [] then None else
     let pos = fl_mul F q (fl_of_nat F (length s - 1)); lo = fl_floor F pos; hi = fl_ceil F pos
     in Some (fl_add F (s ! lo) (fl_mul F (fl_sub F (s ! hi) (s ! lo)) (fl_sub F pos (fl_of_nat F lo)))))"

definition median :: "floats \<Rightarrow> f64 list \<Rightarrow> f64 option" where
  "median F xs = quantile_sorted F (sorted_floats xs) (fl_lit F ''0.5'')"

definition min_float :: "f64 list \<Rightarrow> f64 option" where
  "min_float xs = (case xs of [] \<Rightarrow> None
     | x # rest \<Rightarrow> Some (fold (\<lambda>y m. if total_key y < total_key m then y else m) rest x))"

definition tukey_outliers :: "floats \<Rightarrow> f64 list \<Rightarrow> nat list" where
  "tukey_outliers F xs = (if length xs < 4 then [] else
     let s = sorted_floats xs;
         q1 = unwrap_or (fl_lit F ''0.0'') (quantile_sorted F s (fl_lit F ''0.25''));
         q3 = unwrap_or (fl_lit F ''0.0'') (quantile_sorted F s (fl_lit F ''0.75''));
         reach = fl_mul F (fl_lit F ''1.5'') (fl_sub F q3 q1);
         lo = fl_sub F q1 reach; hi = fl_add F q3 reach
     in filter (\<lambda>i. fl_less F (xs ! i) lo \<or> fl_less F hi (xs ! i)) [0 ..< length xs])"

record welch =
  we_delta_pct :: f64
  we_ci_low_pct :: f64
  we_ci_high_pct :: f64
  we_df :: f64

definition mean_var :: "floats \<Rightarrow> f64 list \<Rightarrow> f64 \<times> f64" where
  "mean_var F xs = (let n = fl_of_nat F (length xs); mean = fl_div F (fl_sum F xs) n
     in (mean, fl_div F (fl_sum F (map (\<lambda>x. fl_square F (fl_sub F x mean)) xs)) (fl_sub F n (fl_lit F ''1.0''))))"

text \<open>The continued fraction of the incomplete beta function: each turn takes two steps, and the loop
  breaks when a turn changes nothing.\<close>

definition clamp :: "floats \<Rightarrow> f64 \<Rightarrow> f64" where
  "clamp F v = (if fl_less F (fl_abs F v) (fl_lit F ''1e-300'') then fl_lit F ''1e-300'' else v)"

definition betacf_half :: "floats \<Rightarrow> f64 \<Rightarrow> f64 \<times> f64 \<times> f64 \<Rightarrow> f64 \<times> f64 \<times> f64" where
  "betacf_half F aa cdh = (case cdh of (c, d, h) \<Rightarrow>
     let one = fl_lit F ''1.0''; d = fl_div F one (clamp F (fl_add F one (fl_mul F aa d)));
         c = clamp F (fl_add F one (fl_div F aa c))
     in (c, d, fl_mul F h (fl_mul F d c)))"

definition betacf_terms :: "floats \<Rightarrow> f64 \<Rightarrow> f64 \<Rightarrow> f64 \<Rightarrow> nat \<Rightarrow> f64 \<times> f64" where
  "betacf_terms F a b x n =
     (let one = fl_lit F ''1.0''; qab = fl_add F a b; qap = fl_add F a one; qam = fl_sub F a one;
          m = fl_of_nat F n; m2 = fl_mul F (fl_lit F ''2.0'') m
      in (fl_div F (fl_mul F (fl_mul F m (fl_sub F b m)) x) (fl_mul F (fl_add F qam m2) (fl_add F a m2)),
          fl_div F (fl_mul F (fl_mul F (fl_neg F (fl_add F a m)) (fl_add F qab m)) x)
            (fl_mul F (fl_add F a m2) (fl_add F qap m2))))"

fun betacf_loop :: "floats \<Rightarrow> f64 \<Rightarrow> f64 \<Rightarrow> f64 \<Rightarrow> nat list \<Rightarrow> f64 \<times> f64 \<times> f64 \<Rightarrow> f64" where
  "betacf_loop F a b x [] cdh = snd (snd cdh)"
| "betacf_loop F a b x (m # ms) cdh =
     (let terms = betacf_terms F a b x m;
          cdh = betacf_half F (snd terms) (betacf_half F (fst terms) cdh)
      in case cdh of (c, d, h) \<Rightarrow>
        if fl_less F (fl_abs F (fl_sub F (fl_mul F d c) (fl_lit F ''1.0''))) (fl_lit F ''1e-14'') then h
        else betacf_loop F a b x ms cdh)"

definition betacf :: "floats \<Rightarrow> f64 \<Rightarrow> f64 \<Rightarrow> f64 \<Rightarrow> f64" where
  "betacf F a b x =
     (let one = fl_lit F ''1.0'';
          d = fl_div F one (clamp F (fl_sub F one (fl_div F (fl_mul F (fl_add F a b) x) (fl_add F a one))))
      in betacf_loop F a b x [1 ..< 300] (one, d, d))"

definition G_FIRST :: string where
  "G_FIRST = ''0.9999999999998099''"

definition G_REST :: "string list" where
  "G_REST = [''676.5203681218851'', ''-1259.1392167224028'', ''771.3234287776531'', ''-176.6150291621406'',
     ''12.507343278686905'', ''-0.13857109526572012'', ''9.984369578019572e-6'', ''1.5056327351493116e-7'']"

text \<open>One minus a float below one half is at least one half, so the reflection is taken once at most.\<close>

definition ln_gamma_right :: "floats \<Rightarrow> f64 \<Rightarrow> f64" where
  "ln_gamma_right F y =
     (let x = fl_sub F y (fl_lit F ''1.0''); t = fl_add F x (fl_lit F ''7.5'');
          a = fl_add F (fl_lit F G_FIRST)
            (fl_sum F (map (\<lambda>(i, g). fl_div F (fl_lit F g) (fl_add F x (fl_of_nat F i))) (enumerate 1 G_REST)))
      in fl_add F (fl_sub F (fl_add F (fl_mul F (fl_lit F ''0.5'') (fl_ln F (fl_mul F (fl_lit F ''2.0'') (fl_pi F))))
           (fl_mul F (fl_add F x (fl_lit F ''0.5'')) (fl_ln F t))) t) (fl_ln F a))"

definition ln_gamma :: "floats \<Rightarrow> f64 \<Rightarrow> f64" where
  "ln_gamma F x = (if fl_less F x (fl_lit F ''0.5'')
     then fl_sub F (fl_ln F (fl_div F (fl_pi F) (fl_sin F (fl_mul F (fl_pi F) x))))
       (ln_gamma_right F (fl_sub F (fl_lit F ''1.0'') x))
     else ln_gamma_right F x)"

definition beta_inc :: "floats \<Rightarrow> f64 \<Rightarrow> f64 \<Rightarrow> f64 \<Rightarrow> f64" where
  "beta_inc F a b x =
     (let one = fl_lit F ''1.0'' in
      if fl_le F x (fl_lit F ''0.0'') then fl_lit F ''0.0''
      else if fl_le F one x then one
      else let front = fl_exp F (fl_add F (fl_add F (fl_sub F (fl_sub F (ln_gamma F (fl_add F a b)) (ln_gamma F a))
                 (ln_gamma F b)) (fl_mul F a (fl_ln F x))) (fl_mul F b (fl_ln F (fl_sub F one x))))
           in if fl_less F x (fl_div F (fl_add F a one) (fl_add F (fl_add F a b) (fl_lit F ''2.0'')))
              then fl_div F (fl_mul F front (betacf F a b x)) a
              else fl_sub F one (fl_div F (fl_mul F front (betacf F b a (fl_sub F one x))) b))"

definition t_cdf :: "floats \<Rightarrow> f64 \<Rightarrow> f64 \<Rightarrow> f64" where
  "t_cdf F t df =
     (let half = fl_lit F ''0.5'';
          tail = fl_mul F half (beta_inc F (fl_mul F half df) half (fl_div F df (fl_add F df (fl_mul F t t))))
      in if fl_le F (fl_lit F ''0.0'') t then fl_sub F (fl_lit F ''1.0'') tail else tail)"

definition t_bisect :: "floats \<Rightarrow> f64 \<Rightarrow> f64 \<Rightarrow> f64 \<times> f64 \<Rightarrow> f64 \<times> f64" where
  "t_bisect F p df lohi = (case lohi of (lo, hi) \<Rightarrow>
     let mid = fl_mul F (fl_lit F ''0.5'') (fl_add F lo hi)
     in if fl_less F (t_cdf F mid df) p then (mid, hi) else (lo, mid))"

definition t_quantile :: "floats \<Rightarrow> f64 \<Rightarrow> f64 \<Rightarrow> f64" where
  "t_quantile F p df = (case (t_bisect F p df ^^ 200) (fl_lit F ''0.0'', fl_lit F ''1000.0'') of
     (lo, hi) \<Rightarrow> fl_mul F (fl_lit F ''0.5'') (fl_add F lo hi))"

definition not_positive :: "floats \<Rightarrow> f64 \<Rightarrow> bool" where
  "not_positive F x \<longleftrightarrow> fl_is_nan F x \<or> fl_le F x (fl_lit F ''0.0'')"

definition welch_log :: "floats \<Rightarrow> f64 list \<Rightarrow> f64 list \<Rightarrow> welch option" where
  "welch_log F base_s change_s =
     (if length base_s < 2 \<or> length change_s < 2 \<or> (\<exists>x \<in> set (base_s @ change_s). not_positive F x) then None else
      case (mean_var F (map (fl_ln F) base_s), mean_var F (map (fl_ln F) change_s)) of ((mb, vb), (mc, vc)) \<Rightarrow>
      let one = fl_lit F ''1.0''; nb = fl_of_nat F (length base_s); nc = fl_of_nat F (length change_s);
          sb = fl_div F vb nb; sc = fl_div F vc nc; both = fl_add F sb sc;
          se = fl_max F (fl_sqrt F both) (fl_lit F ''1e-12'');
          df = fl_max F (if fl_eq F both (fl_lit F ''0.0'') then fl_sub F (fl_add F nb nc) (fl_lit F ''2.0'')
             else fl_div F (fl_square F both) (fl_add F (fl_div F (fl_square F sb) (fl_sub F nb one))
                (fl_div F (fl_square F sc) (fl_sub F nc one)))) one;
          diff = fl_sub F mc mb; half = fl_mul F (t_quantile F (fl_lit F ''0.975'') df) se;
          pct = (\<lambda>d. fl_mul F (fl_sub F (fl_exp F d) one) (fl_lit F ''100.0''))
      in Some \<lparr>we_delta_pct = pct diff, we_ci_low_pct = pct (fl_sub F diff half),
           we_ci_high_pct = pct (fl_add F diff half), we_df = df\<rparr>)"

datatype verdict = Improved | Regressed | Small | NoChange

definition label :: "verdict \<Rightarrow> string" where
  "label v = (case v of Improved \<Rightarrow> ''improved'' | Regressed \<Rightarrow> ''regressed'' | Small \<Rightarrow> ''small''
     | NoChange \<Rightarrow> ''no change'')"

definition verdict_of :: "floats \<Rightarrow> welch \<Rightarrow> f64 \<Rightarrow> f64 \<Rightarrow> verdict" where
  "verdict_of F w median_delta_pct band =
     (if fl_le F (we_ci_low_pct w) (fl_lit F ''0.0'') \<and> fl_le F (fl_lit F ''0.0'') (we_ci_high_pct w) then NoChange
      else if fl_le F (fl_abs F median_delta_pct) band then Small
      else if fl_less F median_delta_pct (fl_lit F ''0.0'') then Improved
      else Regressed)"

section \<open>Run files and their pooling\<close>

record run_cell =
  rc_name :: string
  rc_status :: string
  rc_rows :: nat
  rc_raw_s :: "f64 list"

record run_file =
  rf_commit :: string
  rf_profile :: string
  rf_n :: nat
  rf_cells :: "run_cell list"

definition run_file_name :: "string \<Rightarrow> bool \<Rightarrow> string \<Rightarrow> string" where
  "run_file_name commit dirty started_at =
     (let compact = filter (\<lambda>c. c \<noteq> CHR '':'' \<and> c \<noteq> CHR ''-'') started_at;
          ts = take 15 (map (\<lambda>c. if c = CHR ''T'' then CHR ''-'' else c) compact)
      in commit @ (if dirty then ''-dirty'' else []) @ ''-'' @ ts @ ''.json'')"

text \<open>\<open>bs_cells\<close> holds \<open>None\<close> for a cell that some file reports as not ok.\<close>

record bench_side =
  bs_profile :: string
  bs_n :: nat
  bs_commits :: "string list"
  bs_cells :: "(string \<times> f64 list option) list"
  bs_statuses :: "(string \<times> string) list"
  bs_rows :: "(string \<times> nat) list"

definition LOW_POWER_BELOW :: nat where
  "LOW_POWER_BELOW = 8"

definition band_pct :: "floats \<Rightarrow> string \<Rightarrow> f64" where
  "band_pct F profile = (if profile = ''full'' then fl_lit F ''8.0'' else fl_lit F ''15.0'')"

definition pool_cell :: "run_cell \<Rightarrow> bench_side \<Rightarrow> (string, bench_side) result" where
  "pool_cell cell side =
     (let name = rc_name cell; prev = map_of (bs_rows side) name;
          side = side\<lparr>bs_rows := AList.update name (rc_rows cell) (bs_rows side)\<rparr>
      in if prev \<noteq> None \<and> prev \<noteq> Some (rc_rows cell)
         then Err (''mixed row counts for '' @ name @ '' on one side: '' @ show_nat (the prev) @ '' vs '' @
           show_nat (rc_rows cell))
         else let entry = unwrap_or (Some []) (map_of (bs_cells side) name) in
           if rc_status cell = ''ok''
           then Ok (side\<lparr>bs_cells := AList.update name (map_option (\<lambda>v. v @ rc_raw_s cell) entry) (bs_cells side)\<rparr>)
           else Ok (side\<lparr>bs_cells := AList.update name None (bs_cells side),
             bs_statuses := AList.update name (rc_status cell) (bs_statuses side)\<rparr>))"

fun pool_cells :: "run_cell list \<Rightarrow> bench_side \<Rightarrow> (string, bench_side) result" where
  "pool_cells [] side = Ok side"
| "pool_cells (c # cs) side = rbind (pool_cell c side) (pool_cells cs)"

definition same_profile :: "run_file \<Rightarrow> bench_side \<Rightarrow> bool" where
  "same_profile f side \<longleftrightarrow> rf_profile f = bs_profile side \<and> rf_n f = bs_n side"

definition pool_file :: "run_file \<Rightarrow> bench_side \<Rightarrow> (string, bench_side) result" where
  "pool_file f side = (if \<not> same_profile f side
     then Err (''mixed profiles on one side: '' @ bs_profile side @ ''/'' @ show_nat (bs_n side) @ '' vs '' @
       rf_profile f @ ''/'' @ show_nat (rf_n f))
     else pool_cells (rf_cells f) (side\<lparr>bs_commits := bs_commits side @ [rf_commit f]\<rparr>))"

fun pool_files :: "run_file list \<Rightarrow> bench_side \<Rightarrow> (string, bench_side) result" where
  "pool_files [] side = Ok side"
| "pool_files (f # fs) side = rbind (pool_file f side) (pool_files fs)"

definition pool :: "run_file list \<Rightarrow> (string, bench_side) result" where
  "pool fs = (case fs of
      [] \<Rightarrow> Err ''no run files on one side''
    | first # _ \<Rightarrow> pool_files fs \<lparr>bs_profile = rf_profile first, bs_n = rf_n first, bs_commits = [],
        bs_cells = [], bs_statuses = [], bs_rows = []\<rparr>)"

section \<open>Comparison\<close>

record bench_row =
  br_name :: string
  br_base_median :: "f64 option"
  br_base_min :: "f64 option"
  br_change_median :: "f64 option"
  br_change_min :: "f64 option"
  br_welch :: "welch option"
  br_median_delta_pct :: "f64 option"
  br_verdict :: "verdict option"
  br_outliers :: nat
  br_low_power :: bool
  br_note :: "string option"

definition side_status :: "bench_side \<Rightarrow> string \<Rightarrow> bool \<Rightarrow> string" where
  "side_status side name present =
     (if present then ''ok'' else unwrap_or ''missing'' (map_of (bs_statuses side) name))"

definition samples :: "bench_side \<Rightarrow> string \<Rightarrow> f64 list option" where
  "samples side name = Option.bind (map_of (bs_cells side) name) id"

definition judged :: "floats \<Rightarrow> f64 \<Rightarrow> f64 list \<Rightarrow> f64 list \<Rightarrow> bench_row \<Rightarrow> bench_row" where
  "judged F band b c line =
     (let delta = (case (br_base_median line, br_change_median line) of
             (Some bm, Some cm) \<Rightarrow>
               Some (fl_mul F (fl_sub F (fl_div F cm bm) (fl_lit F ''1.0'')) (fl_lit F ''100.0''))
           | _ \<Rightarrow> None);
          line = line\<lparr>br_outliers := length (tukey_outliers F b) + length (tukey_outliers F c),
            br_low_power := length b < LOW_POWER_BELOW \<or> length c < LOW_POWER_BELOW,
            br_median_delta_pct := delta, br_welch := welch_log F b c\<rparr>
      in case (br_welch line, delta) of
          (Some w, Some d) \<Rightarrow> line\<lparr>br_verdict := Some (verdict_of F w d band)\<rparr>
        | _ \<Rightarrow> line\<lparr>br_note := Some ''fewer than two samples on a side''\<rparr>)"

definition compare_cell :: "floats \<Rightarrow> bench_side \<Rightarrow> bench_side \<Rightarrow> string \<Rightarrow> bench_row" where
  "compare_cell F base_side change_side name =
     (let b = samples base_side name; c = samples change_side name;
          br = map_of (bs_rows base_side) name; cr = map_of (bs_rows change_side) name;
          line = \<lparr>br_name = name, br_base_median = Option.bind b (median F), br_base_min = Option.bind b min_float,
            br_change_median = Option.bind c (median F), br_change_min = Option.bind c min_float,
            br_welch = None, br_median_delta_pct = None, br_verdict = None, br_outliers = 0, br_low_power = False,
            br_note = None\<rparr>
      in case (b, c) of
          (Some b, Some c) \<Rightarrow>
            if br \<noteq> cr
            then line\<lparr>br_note := Some (''rows differ: base '' @ show_nat (unwrap_or 0 br) @ '' / change '' @
              show_nat (unwrap_or 0 cr))\<rparr>
            else judged F (band_pct F (bs_profile base_side)) b c line
        | _ \<Rightarrow> line\<lparr>br_note := Some (''base '' @ side_status base_side name (b \<noteq> None) @ '' / change '' @
            side_status change_side name (c \<noteq> None))\<rparr>)"

definition compare_sides :: "floats \<Rightarrow> bench_side \<Rightarrow> bench_side \<Rightarrow> (string, bench_row list) result" where
  "compare_sides F base_side change_side =
     (if bs_profile base_side \<noteq> bs_profile change_side \<or> bs_n base_side \<noteq> bs_n change_side
      then Err (''refusing to compare profiles '' @ bs_profile base_side @ ''/'' @ show_nat (bs_n base_side) @
        '' (base) and '' @ bs_profile change_side @ ''/'' @ show_nat (bs_n change_side) @ '' (change)'')
      else Ok (map (compare_cell F base_side change_side)
        (sort (remdups (map fst (bs_cells base_side) @ map fst (bs_cells change_side))))))"

text \<open>Padding counts characters, of which continuation bytes start none.\<close>

definition char_count :: "string \<Rightarrow> nat" where
  "char_count s = length (filter (\<lambda>c. \<not> cont_byte c) s)"

definition pad_end :: "nat \<Rightarrow> string \<Rightarrow> string" where
  "pad_end n s = s @ replicate (n - char_count s) (CHR '' '')"

definition pad_start :: "nat \<Rightarrow> string \<Rightarrow> string" where
  "pad_start n s = replicate (n - char_count s) (CHR '' '') @ s"

definition millis :: "floats \<Rightarrow> f64 option \<Rightarrow> string" where
  "millis F v = (case v of None \<Rightarrow> ''-'' | Some s \<Rightarrow> fl_fixed F 1 (fl_mul F s (fl_lit F ''1000.0'')))"

definition render_line :: "string list \<Rightarrow> string \<Rightarrow> string \<Rightarrow> string \<Rightarrow> string" where
  "render_line five delta verdict_text flags =
     join_with '' '' (pad_end 40 (hd five) # map (pad_start 10) (tl five)) @ ''  '' @ pad_end 28 delta @ '' '' @
       pad_end 10 verdict_text @ '' '' @ flags @ [CHR 0x0A]"

definition render_row :: "floats \<Rightarrow> bench_row \<Rightarrow> string" where
  "render_row F r = render_line
     [br_name r, millis F (br_base_median r), millis F (br_base_min r), millis F (br_change_median r),
      millis F (br_change_min r)]
     (case (br_welch r, br_median_delta_pct r) of
        (Some w, Some d) \<Rightarrow> fl_signed F d @ ''% ['' @ fl_signed F (we_ci_low_pct w) @ ''%, '' @
          fl_signed F (we_ci_high_pct w) @ ''%]''
      | _ \<Rightarrow> ''-'')
     (case br_verdict r of None \<Rightarrow> ''-'' | Some v \<Rightarrow> label v)
     (join_with ''; '' ((if 0 < br_outliers r then [show_nat (br_outliers r) @ '' outlier(s)''] else []) @
        (if br_low_power r then [''low power''] else []) @
        (case br_note r of None \<Rightarrow> [] | Some note \<Rightarrow> [note])))"

definition PLUS_MINUS :: string where
  "PLUS_MINUS = [CHR 0xC2, CHR 0xB1]"

definition render_sides :: "floats \<Rightarrow> bench_side \<Rightarrow> bench_side \<Rightarrow> bench_row list \<Rightarrow> string" where
  "render_sides F base_side change_side table =
     ''profile '' @ bs_profile base_side @ '' n '' @ show_nat (bs_n base_side) @ '' band '' @ PLUS_MINUS @
       fl_show F (band_pct F (bs_profile base_side)) @ ''%  base '' @ join_with '','' (bs_commits base_side) @
       '' ('' @ show_nat (length (bs_commits base_side)) @ '' files)  change '' @
       join_with '','' (bs_commits change_side) @ '' ('' @ show_nat (length (bs_commits change_side)) @
       '' files)'' @ [CHR 0x0A] @
     render_line [''cell'', ''base_ms'', ''base_min'', ''chg_ms'', ''chg_min''] ''delta [95% CI]'' ''verdict'' ''flags'' @
     concat (map (render_row F) table)"

definition compare_run :: "floats \<Rightarrow> run_file list \<Rightarrow> run_file list \<Rightarrow> (string, string) result" where
  "compare_run F base_files change_files =
     rbind (pool base_files) (\<lambda>b. rbind (pool change_files) (\<lambda>c.
     rbind (compare_sides F b c) (\<lambda>table. Ok (render_sides F b c table))))"

section \<open>Pooling is complete\<close>

text \<open>The cells of a name, in the order they were read.\<close>

definition cells_named :: "string \<Rightarrow> run_cell list \<Rightarrow> run_cell list" where
  "cells_named name cs = filter (\<lambda>c. rc_name c = name) cs"

definition pooled :: "run_cell list \<Rightarrow> f64 list option option" where
  "pooled cs = (if cs = [] then None
     else Some (if \<forall>c \<in> set cs. rc_status c = ''ok'' then Some (concat (map rc_raw_s cs)) else None))"

definition pool_inv :: "run_cell list \<Rightarrow> bench_side \<Rightarrow> bool" where
  "pool_inv seen side \<longleftrightarrow> (\<forall>name. map_of (bs_cells side) name = pooled (cells_named name seen) \<and>
     (\<forall>c \<in> set (cells_named name seen). map_of (bs_rows side) name = Some (rc_rows c)))"

lemma pool_cell_inv:
  assumes "pool_inv seen side" "pool_cell c side = Ok side'"
  shows "pool_inv (seen @ [c]) side'"
proof -
  let ?name = "rc_name c"
  have old: "map_of (bs_cells side) ?name = pooled (cells_named ?name seen)"
    and old_rows: "\<And>x. x \<in> set (cells_named ?name seen) \<Longrightarrow> map_of (bs_rows side) ?name = Some (rc_rows x)"
    using assms(1) by (auto simp: pool_inv_def)
  have prev: "map_of (bs_rows side) ?name = None \<or> map_of (bs_rows side) ?name = Some (rc_rows c)"
    using assms(2) by (auto simp: pool_cell_def Let_def split: if_splits)
  have rows': "bs_rows side' = AList.update ?name (rc_rows c) (bs_rows side)"
    using assms(2) by (auto simp: pool_cell_def Let_def split: if_splits)
  have cells': "bs_cells side' = AList.update ?name
      (if rc_status c = ''ok'' then map_option (\<lambda>v. v @ rc_raw_s c) (unwrap_or (Some []) (map_of (bs_cells side) ?name))
       else None) (bs_cells side)"
    using assms(2) by (auto simp: pool_cell_def Let_def split: if_splits)
  have new: "cells_named name (seen @ [c]) = cells_named name seen @ (if ?name = name then [c] else [])" for name
    by (simp add: cells_named_def)
  have merged: "map_of (bs_cells side') ?name = pooled (cells_named ?name seen @ [c])"
    by (auto simp: cells' update_conv old pooled_def)
  have "rc_rows x = rc_rows c" if "x \<in> set (cells_named ?name seen)" for x
    using old_rows [OF that] prev by simp
  then show ?thesis
    using assms(1) merged by (auto simp: pool_inv_def new rows' cells' update_conv)
qed

lemma pool_cells_inv:
  "pool_inv seen side \<Longrightarrow> pool_cells cs side = Ok side' \<Longrightarrow> pool_inv (seen @ cs) side'"
proof (induction cs arbitrary: seen side)
  case (Cons c cs)
  obtain mid where mid: "pool_cell c side = Ok mid" "pool_cells cs mid = Ok side'"
    using Cons.prems(2) by (auto simp: rbind_eq_Inr)
  show ?case using Cons.IH [OF pool_cell_inv [OF Cons.prems(1) mid(1)] mid(2)] by simp
qed simp

lemma pool_files_inv:
  "pool_inv seen side \<Longrightarrow> pool_files fs side = Ok side' \<Longrightarrow> pool_inv (seen @ concat (map rf_cells fs)) side'"
proof (induction fs arbitrary: seen side)
  case (Cons f fs)
  obtain mid where mid: "pool_file f side = Ok mid" "pool_files fs mid = Ok side'"
    using Cons.prems(2) by (auto simp: rbind_eq_Inr)
  have "pool_inv (seen @ rf_cells f) mid"
    using mid(1) Cons.prems(1) pool_cells_inv [of seen "side\<lparr>bs_commits := bs_commits side @ [rf_commit f]\<rparr>" "rf_cells f" mid]
    by (auto simp: pool_file_def pool_inv_def split: if_splits)
  from Cons.IH [OF this mid(2)] show ?case by simp
qed simp

text \<open>A pooled side holds, for each cell, the repetitions of all files in their order, or the mark of a cell that
  was not ok in every one of them; and every file counted the same rows for it.\<close>

lemma pool_complete:
  assumes "pool fs = Ok side"
  shows "map_of (bs_cells side) name = pooled (cells_named name (concat (map rf_cells fs)))"
    and "\<And>c. c \<in> set (cells_named name (concat (map rf_cells fs))) \<Longrightarrow> map_of (bs_rows side) name = Some (rc_rows c)"
proof -
  have start: "pool_inv [] \<lparr>bs_profile = p, bs_n = n, bs_commits = [], bs_cells = [], bs_statuses = [], bs_rows = []\<rparr>" for p n
    by (simp add: pool_inv_def cells_named_def pooled_def)
  obtain p n where "pool_files fs \<lparr>bs_profile = p, bs_n = n, bs_commits = [], bs_cells = [], bs_statuses = [],
      bs_rows = []\<rparr> = Ok side"
  proof (cases fs)
    case (Cons first rest)
    then show ?thesis using assms that [of "rf_profile first" "rf_n first"] by (simp only: pool_def list.case)
  qed (use assms in \<open>simp add: pool_def\<close>)
  from pool_files_inv [OF start this] have "pool_inv ([] @ concat (map rf_cells fs)) side" .
  then show "map_of (bs_cells side) name = pooled (cells_named name (concat (map rf_cells fs)))"
    and "\<And>c. c \<in> set (cells_named name (concat (map rf_cells fs))) \<Longrightarrow> map_of (bs_rows side) name = Some (rc_rows c)"
    by (auto simp: pool_inv_def)
qed

text \<open>A cell is judged only where both sides have it ok, over the same rows, with two positive times a side.\<close>

lemma judged_cells:
  assumes "br_verdict (compare_cell F base_side change_side name) = Some v"
  obtains b c w where "samples base_side name = Some b" "samples change_side name = Some c"
    "map_of (bs_rows base_side) name = map_of (bs_rows change_side) name"
    "2 \<le> length b" "2 \<le> length c" "list_all (\<lambda>x. \<not> not_positive F x) (b @ c)"
proof -
  obtain b c where both: "samples base_side name = Some b" "samples change_side name = Some c"
    "map_of (bs_rows base_side) name = map_of (bs_rows change_side) name"
    using assms by (auto simp: compare_cell_def Let_def split: option.splits if_splits)
  have "welch_log F b c \<noteq> None"
    using assms both by (auto simp: compare_cell_def judged_def Let_def split: option.splits)
  then have "2 \<le> length b" "2 \<le> length c" "list_all (\<lambda>x. \<not> not_positive F x) (b @ c)"
    by (auto simp: welch_log_def list_all_iff split: if_splits)
  with both that show thesis by blast
qed

text \<open>The smallest time is one of the times, and none is smaller.\<close>

lemma min_float_least:
  assumes "min_float xs = Some m"
  shows "m \<in> set xs" "x \<in> set xs \<Longrightarrow> total_key m \<le> total_key x"
proof -
  have fold_least: "fold (\<lambda>y m. if total_key y < total_key m then y else m) ys a \<in> insert a (set ys) \<and>
      (\<forall>x \<in> insert a (set ys). total_key (fold (\<lambda>y m. if total_key y < total_key m then y else m) ys a) \<le> total_key x)"
    for ys a
  proof (induction ys arbitrary: a)
    case (Cons y ys)
    show ?case
    proof (cases "total_key y < total_key a")
      case True
      then show ?thesis using Cons [of y] by auto
    next
      case False
      then show ?thesis using Cons [of a] by force
    qed
  qed simp
  show "m \<in> set xs" "x \<in> set xs \<Longrightarrow> total_key m \<le> total_key x"
    using assms fold_least by (auto simp: min_float_def split: list.splits)
qed

section \<open>Timing a cell\<close>

record bench_profile =
  bp_name :: string
  bp_rows :: nat
  bp_warmup :: nat
  bp_reps :: nat

definition QUICK :: bench_profile where
  "QUICK = \<lparr>bp_name = ''quick'', bp_rows = 250000, bp_warmup = 1, bp_reps = 3\<rparr>"

definition FULL :: bench_profile where
  "FULL = \<lparr>bp_name = ''full'', bp_rows = 1000000, bp_warmup = 1, bp_reps = 5\<rparr>"

text \<open>The name is the option's or, without one, the variable's.\<close>

definition profile_named :: "string option \<Rightarrow> string option \<Rightarrow> (string \<Rightarrow> string) \<Rightarrow> (string, bench_profile) result" where
  "profile_named given bench_profile_var debug_text =
     (let name = unwrap_or ''quick'' (or_else given bench_profile_var)
      in if name = ''quick'' then Ok QUICK else if name = ''full'' then Ok FULL
         else Err (''profile must be `quick` or `full`, got '' @ debug_text name))"

record cell_spec =
  bc_sql :: string
  bc_rows :: nat
  bc_expect_count :: "nat option"
  bc_passthrough :: bool
  bc_wire_bytes_per_row :: "f64 option"

text \<open>A query answers after some seconds, which do not count when it fails.\<close>

record 'w bench_db =
  bd_query :: "string \<Rightarrow> 'w \<Rightarrow> (string, record_batch list) result \<times> f64 \<times> 'w"
  bd_reconnect :: "'w \<Rightarrow> (string, unit) result \<times> 'w"
  bd_value_to_string :: "arrow_array \<Rightarrow> nat \<Rightarrow> (string, string) result"

record cell_result =
  cr_raw_s :: "f64 list"
  cr_min_s :: "f64 option"
  cr_median_s :: "f64 option"
  cr_rows_per_s :: "f64 option"
  cr_mb_per_s :: "f64 option"
  cr_status :: string
  cr_error :: "string option"
  cr_mismatches :: "i64 option"
  cr_result :: "string option list"

fun row_texts :: "(arrow_array \<Rightarrow> nat \<Rightarrow> (string, string) result) \<Rightarrow> arrow_array list \<Rightarrow>
    (string, string option list) result" where
  "row_texts text_of [] = Ok []"
| "row_texts text_of (col # cols) =
     rbind (if is_valid (aa_nulls col) 0 then map_sum id Some (text_of col 0) else Ok None) (\<lambda>t.
     rbind (row_texts text_of cols) (\<lambda>ts. Ok (t # ts)))"

definition first_row :: "'w bench_db \<Rightarrow> record_batch list \<Rightarrow> (string, string option list) result" where
  "first_row B batches = (case find (\<lambda>b. 0 < rb_num_rows b) batches of
      None \<Rightarrow> Ok []
    | Some b \<Rightarrow> row_texts (bd_value_to_string B) (rb_columns b))"

definition parse_cell_int :: "floats \<Rightarrow> string option \<Rightarrow> i64 option" where
  "parse_cell_int F cell = Option.bind cell (\<lambda>t. or_else
     (case parse_i64 t of Inl _ \<Rightarrow> None | Inr n \<Rightarrow> Some (word_of_int n))
     (map_option (fl_round F) (fl_parse F t)))"

definition cell_failed :: "string \<Rightarrow> string \<Rightarrow> cell_result \<Rightarrow> cell_result" where
  "cell_failed status e r = r\<lparr>cr_status := status, cr_error := Some e, cr_raw_s := []\<rparr>"

definition check_count :: "floats \<Rightarrow> cell_spec \<Rightarrow> string option list \<Rightarrow> cell_result \<Rightarrow> cell_result" where
  "check_count F spec line r = (case bc_expect_count spec of
      None \<Rightarrow> r
    | Some expected \<Rightarrow>
        if Option.bind (nth_opt line 0) (parse_cell_int F) \<noteq> Some (of_nat expected)
        then cell_failed ''incorrect'' (''expected first column '' @ show_nat expected @ '', got '' @
          unwrap_or ''NULL'' (Option.bind (nth_opt line 0) id)) r
        else r)"

definition check_passthrough :: "floats \<Rightarrow> cell_spec \<Rightarrow> string option list \<Rightarrow> cell_result \<Rightarrow> cell_result" where
  "check_passthrough F spec line r = (if \<not> bc_passthrough spec then r else
     let mismatches = unwrap_or (- 1) (Option.bind (nth_opt line 1) (parse_cell_int F));
         r = r\<lparr>cr_mismatches := Some mismatches\<rparr>
     in if mismatches \<noteq> 0
        then cell_failed ''incorrect'' (show_int (sint mismatches) @ '' pass-through mismatches'') r else r)"

text \<open>One turn goes on with \<open>Inr\<close>, or ends the timing with \<open>Inl\<close>: a result, or the error of the reconnect.\<close>

definition query_failed :: "'w bench_db \<Rightarrow> cell_spec \<Rightarrow> nat \<Rightarrow> string \<Rightarrow> cell_result \<Rightarrow> 'w \<Rightarrow>
    ((string, cell_result) result + cell_result) \<times> 'w" where
  "query_failed B spec i e r w = (case bd_reconnect B w of
      (Inl e', w) \<Rightarrow> (Inl (Err e'), w)
    | (Inr _, w) \<Rightarrow>
        if bc_passthrough spec
        then (Inl (Ok (cell_failed ''incorrect''
          (''server closed the session during the pass-through query (no row_number echoed in MT_EMIT): '' @ e) r)), w)
        else (case bd_query B (bc_sql spec) w of
            (Inr _, _, w) \<Rightarrow> if i = 0 then (Inr r, w)
              else (Inl (Ok (cell_failed ''error'' (e @ '' (succeeded after reconnect)'') r)), w)
          | (Inl e2, _, w) \<Rightarrow> (Inl (Ok (cell_failed ''error'' (e @ ''; after reconnect: '' @ e2) r)), w)))"

definition time_turn :: "floats \<Rightarrow> 'w bench_db \<Rightarrow> cell_spec \<Rightarrow> bench_profile \<Rightarrow> nat \<Rightarrow> cell_result \<Rightarrow> 'w \<Rightarrow>
    ((string, cell_result) result + cell_result) \<times> 'w" where
  "time_turn F B spec profile i r w = (case bd_query B (bc_sql spec) w of
      (Inl e, _, w) \<Rightarrow> query_failed B spec i e r w
    | (Inr batches, elapsed, w) \<Rightarrow> (case first_row B batches of
        Inl e \<Rightarrow> (Inl (Ok (cell_failed ''error'' e r)), w)
      | Inr line \<Rightarrow>
          let r = check_passthrough F spec line (check_count F spec line r)
          in if cr_status r \<noteq> ''ok'' then (Inl (Ok (r\<lparr>cr_result := line\<rparr>)), w)
             else if bp_warmup profile \<le> i
             then (Inr (r\<lparr>cr_result := if cr_result r = [] then line else cr_result r,
               cr_raw_s := cr_raw_s r @ [elapsed]\<rparr>), w)
             else (Inr r, w)))"

fun time_turns :: "floats \<Rightarrow> 'w bench_db \<Rightarrow> cell_spec \<Rightarrow> bench_profile \<Rightarrow> nat list \<Rightarrow> cell_result \<Rightarrow> 'w \<Rightarrow>
    ((string, cell_result) result + cell_result) \<times> 'w" where
  "time_turns F B spec profile [] r w = (Inr r, w)"
| "time_turns F B spec profile (i # is) r w = (case time_turn F B spec profile i r w of
      (Inl ended, w) \<Rightarrow> (Inl ended, w)
    | (Inr r, w) \<Rightarrow> time_turns F B spec profile is r w)"

definition cell_figures :: "floats \<Rightarrow> cell_spec \<Rightarrow> cell_result \<Rightarrow> cell_result" where
  "cell_figures F spec r =
     (let med = median F (cr_raw_s r); rps = map_option (fl_div F (fl_of_nat F (bc_rows spec))) med
      in r\<lparr>cr_min_s := min_float (cr_raw_s r), cr_median_s := med, cr_rows_per_s := rps,
           cr_mb_per_s := Option.bind (bc_wire_bytes_per_row spec) (\<lambda>b.
             map_option (\<lambda>rps. fl_div F (fl_mul F rps b) (fl_lit F ''1e6'')) rps)\<rparr>)"

definition untimed :: cell_result where
  "untimed = \<lparr>cr_raw_s = [], cr_min_s = None, cr_median_s = None, cr_rows_per_s = None, cr_mb_per_s = None,
     cr_status = ''ok'', cr_error = None, cr_mismatches = None, cr_result = []\<rparr>"

definition time_cell :: "floats \<Rightarrow> 'w bench_db \<Rightarrow> cell_spec \<Rightarrow> bench_profile \<Rightarrow> 'w \<Rightarrow>
    (string, cell_result) result \<times> 'w" where
  "time_cell F B spec profile w =
     (case time_turns F B spec profile [0 ..< bp_warmup profile + bp_reps profile] untimed w of
        (Inl ended, w) \<Rightarrow> (ended, w)
      | (Inr r, w) \<Rightarrow> (Ok (cell_figures F spec r), w))"

text \<open>A cell that is not ok carries no time; one that is ok carries the time of each counted repetition.\<close>

definition timed_ok :: "nat \<Rightarrow> cell_result \<Rightarrow> bool" where
  "timed_ok k r \<longleftrightarrow> cr_status r = ''ok'' \<and> cr_error r = None \<and> length (cr_raw_s r) = k"

definition failed_clean :: "cell_result \<Rightarrow> bool" where
  "failed_clean r \<longleftrightarrow> cr_status r \<noteq> ''ok'' \<and> cr_raw_s r = [] \<and> cr_error r \<noteq> None"

lemma failed_is_clean: "status \<noteq> ''ok'' \<Longrightarrow> failed_clean (cell_failed status e r)"
  by (simp add: failed_clean_def cell_failed_def)

lemma checks_shape:
  assumes "timed_ok k r"
  shows "timed_ok k (check_passthrough F spec line (check_count F spec line r)) \<or>
    failed_clean (check_passthrough F spec line (check_count F spec line r))"
  using assms by (auto simp: check_passthrough_def check_count_def timed_ok_def failed_clean_def cell_failed_def Let_def
      split: option.splits)

lemma query_failed_shape:
  assumes "timed_ok k r" "query_failed B spec i e r w = (out, w')"
  shows "(\<exists>e. out = Inl (Err e)) \<or> (\<exists>r. out = Inl (Ok r) \<and> failed_clean r) \<or> i = 0 \<and> out = Inr r"
  using assms
  by (auto simp: query_failed_def failed_clean_def cell_failed_def split: prod.splits sum.splits if_splits)

lemma time_turn_shape:
  assumes r: "timed_ok k r" and turn: "time_turn F B spec profile i r w = (out, w')"
  shows "(\<exists>e. out = Inl (Err e)) \<or> (\<exists>r. out = Inl (Ok r) \<and> failed_clean r) \<or>
    (\<exists>r k'. out = Inr r \<and> timed_ok k' r \<and> (k' = (if bp_warmup profile \<le> i then k + 1 else k) \<or> i = 0 \<and> k' = k))"
proof (cases "bd_query B (bc_sql spec) w")
  case (fields answer elapsed w1)
  show ?thesis
  proof (cases answer)
    case (Inl e)
    then have "query_failed B spec i e r w1 = (out, w')" using turn by (simp add: time_turn_def fields)
    from query_failed_shape [OF r this] r show ?thesis by auto
  next
    case batches: (Inr batches)
    show ?thesis
    proof (cases "first_row B batches")
      case (Inl e)
      then show ?thesis using turn by (auto simp: time_turn_def fields batches failed_is_clean)
    next
      case (Inr line)
      let ?r = "check_passthrough F spec line (check_count F spec line r)"
      consider "timed_ok k ?r" | "failed_clean ?r" using checks_shape [OF r] by blast
      then show ?thesis
      proof cases
        case 1
        then show ?thesis
          using turn by (auto simp: time_turn_def fields batches Inr timed_ok_def Let_def split: if_splits)
      next
        case 2
        then show ?thesis
          using turn by (auto simp: time_turn_def fields batches Inr failed_clean_def Let_def)
      qed
    qed
  qed
qed

lemma time_turns_shape:
  assumes "timed_ok k r" "time_turns F B spec profile is r w = (out, w')" "0 < bp_warmup profile"
  shows "(\<exists>e. out = Inl (Err e)) \<or> (\<exists>r. out = Inl (Ok r) \<and> failed_clean r) \<or>
    (\<exists>r. out = Inr r \<and> timed_ok (k + length (filter (\<lambda>i. bp_warmup profile \<le> i) is)) r)"
  using assms(1,2)
proof (induction "is" arbitrary: k r w)
  case (Cons i rest)
  obtain mid w1 where turn: "time_turn F B spec profile i r w = (mid, w1)" by fastforce
  from time_turn_shape [OF Cons.prems(1) turn]
  consider e where "mid = Inl (Err e)" | r1 where "mid = Inl (Ok r1)" "failed_clean r1"
    | r1 where "mid = Inr r1" "timed_ok (if bp_warmup profile \<le> i then k + 1 else k) r1"
    using assms(3) by (auto split: if_splits)
  then show ?case
  proof cases
    case (3 r1)
    then have "time_turns F B spec profile rest r1 w1 = (out, w')" using Cons.prems(2) by (simp add: turn)
    from Cons.IH [OF 3(2) this] show ?thesis by (auto split: if_splits)
  qed (use Cons.prems(2) turn in auto)
qed auto

lemma cell_is_timed:
  assumes "time_cell F B spec profile w = (Ok r, w')" "0 < bp_warmup profile"
  shows "if cr_status r = ''ok'' then length (cr_raw_s r) = bp_reps profile else cr_raw_s r = []"
proof -
  obtain out w1 where turns: "time_turns F B spec profile [0 ..< bp_warmup profile + bp_reps profile] untimed w = (out, w1)"
    by fastforce
  have "timed_ok 0 untimed" by (simp add: timed_ok_def untimed_def)
  note shape = time_turns_shape [OF this turns assms(2)]
  have "filter (\<lambda>i. bp_warmup profile \<le> i) [0 ..< bp_warmup profile + bp_reps profile] =
      [bp_warmup profile ..< bp_warmup profile + bp_reps profile]"
    by (subst upt_add_eq_append) (simp_all add: filter_empty_conv)
  then consider e where "out = Inl (Err e)" | r1 where "out = Inl (Ok r1)" "failed_clean r1"
    | r1 where "out = Inr r1" "timed_ok (bp_reps profile) r1"
    using shape by auto
  then show ?thesis
  proof cases
    case (3 r1)
    then have "r = cell_figures F spec r1" using assms(1) by (simp add: time_cell_def turns)
    then show ?thesis using 3(2) by (simp add: cell_figures_def Let_def timed_ok_def)
  qed (use assms(1) turns in \<open>simp_all add: time_cell_def failed_clean_def\<close>)
qed

end
