(* ===== verification/Spec2Isabelle.thy ===== *)
theory Spec2Isabelle
  imports Row_Facts Session_Facts Runtime_Facts Test_Support Mock_Facts Udf_Facts Plugin Batch_Udfs
    Connect_Back Connect_Udfs Client Bench
begin

text \<open>
  Verification library of the Rust language container for Exasol.

  \<^bold>\<open>The program.\<close> The database starts \<open>exaudfclient\<close>, which connects a ZeroMQ \<open>REQ\<close> socket to it and
  runs one session of protobuf messages: a handshake (\<open>MT_CLIENT\<close>, \<open>MT_INFO\<close>, \<open>MT_META\<close>), then groups
  of input rows (\<open>MT_RUN\<close>, \<open>MT_NEXT\<close>, \<open>MT_EMIT\<close>, \<open>MT_DONE\<close>) or single calls (\<open>MT_CALL\<close>), and the end
  (\<open>MT_CLEANUP\<close>, \<open>MT_FINISHED\<close>, \<open>MT_CLOSE\<close>). The crate \<open>exa-zmq-protocol\<close> holds the messages, the
  protocol machine and the transport; \<open>exa-udf-runtime\<close> loads the UDF's shared object, moves rows in and
  out, and runs the UDF; \<open>exasol-udf-sdk\<close> and \<open>exasol-udf-macros\<close> are what a UDF is written and
  compiled with; \<open>exa-mock-db\<close> plays the database in tests; \<open>cargo-exasol-udf\<close> checks an object before
  it is deployed.

  \<^bold>\<open>How the theories follow it.\<close> Each component has its record, data types and one definition per
  function, by the function's own name where HOL leaves it free.

  \<^item> \<open>Prelude\<close>, \<open>Text\<close>, \<open>Effects\<close>: \<open>Result\<close>, the text functions of the standard library, and effectful
    code. A computation is a function from the state it may change to a result and a new state, or to
    \<open>None\<close> when it never returns; \<open>io_bind\<close> is the early return of the question mark.
  \<^item> \<open>Values\<close> (\<open>sdk/value.rs\<close>, \<open>error.rs\<close>), \<open>Cells\<close> (the cell texts of \<open>rowset.rs\<close>), \<open>Civil\<close> (the calendar
    of \<open>emit_pack.rs\<close>).
  \<^item> \<open>Proto\<close>, \<open>Frame\<close> (\<open>frame.rs\<close>), \<open>Meta\<close> (\<open>meta.rs\<close>), \<open>Protocol\<close> (\<open>loop_.rs\<close>): the messages, the in-place
    encoding of \<open>MT_EMIT\<close>, the session metadata, and the state machine, whose record \<open>protocol\<close> is the
    struct \<open>Protocol\<close>.
  \<^item> \<open>Transport\<close> (\<open>transport.rs\<close>), \<open>Wire\<close> (\<open>wire.rs\<close>): the polling calls on the socket and the exchange of
    one request for one answer. The socket and the clock are the record \<open>zmq\<close> over a world \<open>'w\<close>; the record
    \<open>wire\<close> joins that world with the protocol machine.
  \<^item> \<open>Rowset\<close> (\<open>InputRowSet\<close>, \<open>EmitBuffer\<close>), \<open>Packer\<close> (the Arrow path: accessors, costs, \<open>BatchPacker\<close>,
    \<open>push_batch\<close>).
  \<^item> \<open>Context\<close> (\<open>sdk/context.rs\<close>), \<open>Bridge\<close> and \<open>Bridge_Laws\<close> (\<open>HostContextBridge\<close>, \<open>SingleCallContext\<close>,
    \<open>CleanupContext\<close>): UDF code is foreign, a possibly infinite tree of calls (\<open>prog\<close>); a context is a
    handler of those calls, and \<open>run_prog\<close> runs the one on the other.
  \<^item> \<open>Loader\<close> (\<open>loader.rs\<close>, \<open>cleanup.rs\<close>, \<open>abi.rs\<close>, the shims of the macro), \<open>Payloads\<close> (directives, schema
    check, JSON specifications, the macro's annotations), \<open>Json_Text\<close> (a JSON library to instantiate them).
  \<^item> \<open>Dispatch\<close> (\<open>dispatch.rs\<close>), \<open>Runtime\<close> (\<open>single_call.rs\<close>, \<open>lib.rs\<close>): groups, batches, the row loop, the
    single calls, and \<open>runtime_run\<close>, the session from connect to its last message.
  \<^item> \<open>Udf_Code\<close>, \<open>Udfs\<close> (\<open>test-udfs\<close>), \<open>Test_Support\<close> (\<open>sdk/test_support.rs\<close>): what an author writes, and the
    doubles it is tested on. \<open>Batch_Udfs\<close> (\<open>emit-arrow-batch\<close>, \<open>benches/bench-udfs\<close>): UDFs in a row form and
    a batch form.
  \<^item> \<open>Mock_Db\<close>, \<open>Mock_Payload\<close>, \<open>Mock_Session\<close>, \<open>Peer_Codec\<close> (\<open>exa-mock-db\<close>): the peer as a program of
    socket operations (\<open>session.rs\<close>, \<open>sink.rs\<close>), the encoder of its input (\<open>payload.rs\<close>), its codec.
  \<^item> \<open>Connect_Back\<close> (\<open>connect_back.rs\<close> of the runtime and of the SDK), \<open>Client\<close> (\<open>exaudfclient/main.rs\<close>): the
    session back to the database over the driver, and the process. \<open>Connect_Udfs\<close>: the test UDFs over such a
    session, the connection lookup and foreign libraries.
  \<^item> \<open>Plugin\<close> (\<open>cargo-exasol-udf\<close>): the facts of an object, \<open>validate\<close>, \<open>build\<close>, \<open>new\<close>.
  \<^item> \<open>Bench\<close> (\<open>benches/udf-bench\<close>): timing a cell, its statistics, comparing run files. Its lemmas show that a
    pooled cell holds the times of every file in order, that an ok cell carries one time for each repetition,
    and when a comparison gives a verdict.

  \<^bold>\<open>Interfaces.\<close> What one part relies on in another is a locale, and each is interpreted on the model:
  \<open>prost_wire\<close> and \<open>peer_wire\<close> (the protobuf primitives) on an encoding written out in \<open>Frame\<close> and
  \<open>Peer_Codec\<close>; \<open>req_socket\<close> and \<open>timed_socket\<close> on a scripted database and on the mock's socket; \<open>json\<close> on
  \<open>Json_Text\<close>; \<open>arrow_ext\<close> on the Gregorian calendar; \<open>udf_context\<close> and \<open>group_context\<close> on the bridge and
  on the SDK's double; \<open>output_channel\<close> on the flusher; \<open>batch_feed\<close> and \<open>mock_session\<close> on the mock.

  \<^bold>\<open>What is shown.\<close> The claims are in the theories named \<open>_Facts\<close> and in \<open>Plugin\<close>, \<open>Batch_Udfs\<close>
  and \<open>Connect_Back\<close>.

  \<^item> \<open>Row_Facts\<close>: what a buffer packs a row set reads back; the Arrow path equals the row path, batch for
    batch and flush for flush; the emit frame equals \<open>prost\<close>'s; cell texts and decimals read back; the
    calendar is Gregorian; the row check and the cost estimate are characterised.
  \<^item> \<open>Session_Facts\<close>: an accepted exchange is a session of an abstract machine; an exchange keeps the
    alternation of the socket, sends each frame once and returns; the metadata is that of the handshake.
  \<^item> \<open>Runtime_Facts\<close>: a whole session returns; the rows UDF code puts out reach the database once, in order.
  \<^item> \<open>Mock_Facts\<close>: sessions of \<open>set_sum\<close> and \<open>set_filter\<close> against the mock database compute what they
    should, on both sides, for every input and every cut of it into cycles.
  \<^item> \<open>Udf_Facts\<close>: decoded cells are typed; UDF code cannot break its bridge; the double predicts the
    database; errors surface and close the session; specifications and schemas survive their JSON.
  \<^item> \<open>Plugin\<close>: \<open>validate\<close> accepts exactly what the runtime's loader opens, within the container's surface.
  \<^item> \<open>Batch_Udfs\<close>: a generator's batch form puts out what its row form does. \<open>Connect_Back\<close>: a query reads a
    batch as the emit path does.

  \<^bold>\<open>Bounds.\<close> No definition takes fuel. Loops that wait for the database are \<open>partial_function (option)\<close>, so
  that a theorem of the form \<open>\<exists>r. f s = Some r\<close> is the termination proof: \<open>transport_calls_return\<close> with the
  program's own bound of \<open>MAX_TOTAL_WAIT\<close> over \<open>POLL_TIMEOUT\<close> (120 polls), \<open>request_terminates\<close> and
  \<open>session_returns\<close> against a peer that sends finitely many frames. Buffers flush at
  \<open>EMIT_BUFFER_LIMIT_BYTES\<close> (4,000,000). Wire integers, decimals and costs that could wrap are words at
  their width; counters and lengths of memory are \<open>nat\<close>, days and seconds \<open>int\<close>.

  \<^bold>\<open>Parameters.\<close> Code outside the repository is an argument of the definitions: the socket and clock (\<open>zmq\<close>),
  \<open>prost\<close>, \<open>serde_json\<close>, \<open>chrono\<close> with the float conversions and \<open>itoa\<close> (\<open>ext\<close>), \<open>dlopen\<close> and the code it
  loads, the network interfaces and the SQL driver (\<open>host_env\<close>), and the plugin's file system, ELF parser and
  \<open>cargo\<close> process. What is assumed of them is documented behaviour, stated in the locales above.

  \<^bold>\<open>Not modelled.\<close> The waiting of the connect-back driver, its crypto provider and its log; the log set-up of
  \<open>exaudfclient\<close>; tracing and telemetry; the token parsing of the macro by \<open>syn\<close>; the vtable static of the single-call
  fixture; the integration harness, which starts docker; the SQL texts of the benchmark's cells and the sequence of
  its run. Capacity reservations and reuse of allocations have no effect on results and are
  left out. In the mock's encoder the asserts of a wrong arity or an empty cycle count are left out, and its
  integer sums are unbounded; its callers pass sizes far below the machine's.
\<close>

end
